(* ===== verification/NL_Prelude.thy ===== *)
theory NL_Prelude
  imports Main
begin

text \<open>
  The vocabulary every component shares.

  Results: a NestJS exception is a value of \<open>exn\<close>, a fallible computation returns
  \<open>exn + 'a\<close>, with \<open>Inl\<close> for the exception.

  Tables: a database table is the list of its rows in storage order. The operations below are
  the queries the providers write: \<open>find_one\<close> (\<open>findOne\<close> and \<open>getOne\<close>), \<open>filter\<close>
  (\<open>find\<close> and \<open>getMany\<close>), \<open>update_where\<close> with \<open>count_where\<close> (a conditional
  \<open>UPDATE\<close> and its \<open>affected\<close> count), \<open>delete_where\<close>, and \<open>save_row\<close> (\<open>repository.save\<close>:
  replace the row of the same primary key, insert it otherwise).

  Interfaces: the locales \<open>repository\<close> and \<open>cas_repository\<close> are what the components
  rely on when they read a row back or race for a conditional \<open>UPDATE\<close>; each entity's
  table interprets them.
\<close>

section \<open>Exceptions and results\<close>

datatype exn =
    BadRequest string
  | Unauthorized string
  | Forbidden string
  | NotFound string
  | Conflict string
  | BadGateway string
  | ServiceUnavailable string
  | InternalServerError string
  | DbError string       \<comment> \<open>a query the database rejects (constraint, bad input)\<close>
  | JsError string       \<comment> \<open>a plain \<open>Error\<close> or \<open>TypeError\<close>\<close>

type_synonym 'a result = "exn + 'a"

fun is_http_exception :: "exn \<Rightarrow> bool" where
  "is_http_exception (DbError _) = False"
| "is_http_exception (JsError _) = False"
| "is_http_exception _ = True"

fun is_ok :: "'a result \<Rightarrow> bool" where
  "is_ok (Inr _) = True"
| "is_ok (Inl _) = False"

lemma is_ok_iff: "is_ok r \<longleftrightarrow> (\<exists>x. r = Inr x)"
  by (cases r) auto

section \<open>Collections of facts\<close>

named_theorems table_simps \<open>equations of the table operations\<close>
named_theorems frame_simps \<open>what an operation leaves unchanged\<close>

section \<open>Tables\<close>

definition find_one :: "('r \<Rightarrow> bool) \<Rightarrow> 'r list \<Rightarrow> 'r option" where
  "find_one P rows = List.find P rows"

definition update_where :: "('r \<Rightarrow> bool) \<Rightarrow> ('r \<Rightarrow> 'r) \<Rightarrow> 'r list \<Rightarrow> 'r list" where
  "update_where P f rows = map (\<lambda>r. if P r then f r else r) rows"

definition count_where :: "('r \<Rightarrow> bool) \<Rightarrow> 'r list \<Rightarrow> nat" where
  "count_where P rows = length (filter P rows)"

definition delete_where :: "('r \<Rightarrow> bool) \<Rightarrow> 'r list \<Rightarrow> 'r list" where
  "delete_where P rows = filter (\<lambda>r. \<not> P r) rows"

definition save_row :: "('r \<Rightarrow> 'k) \<Rightarrow> 'r \<Rightarrow> 'r list \<Rightarrow> 'r list" where
  "save_row key r rows =
     (if key r \<in> set (map key rows)
      then map (\<lambda>x. if key x = key r then r else x) rows
      else rows @ [r])"

definition sum_where :: "('r \<Rightarrow> bool) \<Rightarrow> ('r \<Rightarrow> nat) \<Rightarrow> 'r list \<Rightarrow> nat" where
  "sum_where P f rows = sum_list (map f (filter P rows))"

lemma find_one_Nil [simp]: "find_one P [] = None"
  by (simp add: find_one_def)

lemma find_one_Cons [simp]:
  "find_one P (r # rows) = (if P r then Some r else find_one P rows)"
  by (simp add: find_one_def)

lemma find_one_append [table_simps]:
  "find_one P (xs @ ys) = (case find_one P xs of Some r \<Rightarrow> Some r | None \<Rightarrow> find_one P ys)"
  by (induction xs) auto

lemma find_one_SomeD: "find_one P rows = Some r \<Longrightarrow> r \<in> set rows \<and> P r"
  by (induction rows) (auto split: if_splits)

lemma find_one_None_iff: "find_one P rows = None \<longleftrightarrow> (\<forall>r\<in>set rows. \<not> P r)"
  by (induction rows) auto

lemma find_one_cong_set:
  "(\<And>r. r \<in> set rows \<Longrightarrow> P r = Q r) \<Longrightarrow> find_one P rows = find_one Q rows"
  by (induction rows) auto

lemma count_where_Nil [simp]: "count_where P [] = 0"
  by (simp add: count_where_def)

lemma count_where_Cons [simp]:
  "count_where P (r # rows) = (if P r then Suc (count_where P rows) else count_where P rows)"
  by (simp add: count_where_def)

lemma count_where_append [table_simps]:
  "count_where P (xs @ ys) = count_where P xs + count_where P ys"
  by (simp add: count_where_def)

lemma count_where_0_iff: "count_where P rows = 0 \<longleftrightarrow> (\<forall>r\<in>set rows. \<not> P r)"
  by (induction rows) auto

lemma update_where_Nil [simp]: "update_where P f [] = []"
  by (simp add: update_where_def)

lemma update_where_Cons [simp]:
  "update_where P f (r # rows) = (if P r then f r else r) # update_where P f rows"
  by (simp add: update_where_def)

lemma set_update_where: "set (update_where P f rows) = (\<lambda>r. if P r then f r else r) ` set rows"
  by (simp add: update_where_def)

lemma length_update_where [simp]: "length (update_where P f rows) = length rows"
  by (simp add: update_where_def)

lemma update_where_none: "(\<forall>r\<in>set rows. \<not> P r) \<Longrightarrow> update_where P f rows = rows"
  by (induction rows) auto

lemma update_where_count_0: "count_where P rows = 0 \<Longrightarrow> update_where P f rows = rows"
  by (simp add: count_where_0_iff update_where_none)

lemma map_key_update_where:
  "(\<And>r. key (f r) = key r) \<Longrightarrow> map key (update_where P f rows) = map key rows"
  by (induction rows) auto

lemma image_key_update_where:
  "(\<And>r. key (f r) = key r) \<Longrightarrow> key ` set (update_where P f rows) = key ` set rows"
  using map_key_update_where [of key f P rows] by (metis set_map)

lemma find_one_key_None: "k \<notin> key ` set rows \<Longrightarrow> find_one (\<lambda>x. key x = k) rows = None"
  by (induction rows) auto

lemma set_delete_where [simp]: "set (delete_where P rows) = {r \<in> set rows. \<not> P r}"
  by (auto simp: delete_where_def)

lemma set_save_rowD: "x \<in> set (save_row key r rows) \<Longrightarrow> x = r \<or> (x \<in> set rows \<and> key x \<noteq> key r)"
  by (auto simp: save_row_def rev_image_eqI split: if_splits)

lemma save_row_self: "r \<in> set (save_row key r rows)"
  by (auto simp: save_row_def)

lemma save_row_keeps: "x \<in> set rows \<Longrightarrow> key x \<noteq> key r \<Longrightarrow> x \<in> set (save_row key r rows)"
  by (auto simp: save_row_def)

lemma set_save_row:
  "set (save_row key r rows) = insert r {x \<in> set rows. key x \<noteq> key r}"
  using set_save_rowD [of _ key r rows] save_row_self [of r key rows] save_row_keeps [of _ rows key r]
  by blast

lemma save_row_fresh: "key r \<notin> key ` set rows \<Longrightarrow> save_row key r rows = rows @ [r]"
  by (simp add: save_row_def)

lemma map_key_save_row:
  "map key (save_row key r rows) =
     (if key r \<in> set (map key rows) then map key rows else map key rows @ [key r])"
  by (induction rows) (auto simp: save_row_def)

lemma distinct_save_row:
  "distinct (map key rows) \<Longrightarrow> distinct (map key (save_row key r rows))"
  by (simp add: map_key_save_row)

lemma distinct_update_where:
  "distinct (map key rows) \<Longrightarrow> (\<And>r. key (f r) = key r) \<Longrightarrow>
   distinct (map key (update_where P f rows))"
  by (simp add: map_key_update_where)

lemma distinct_delete_where:
  "distinct (map key rows) \<Longrightarrow> distinct (map key (delete_where P rows))"
  by (simp add: delete_where_def distinct_map_filter)

lemma find_one_key:
  "distinct (map key rows) \<Longrightarrow> r \<in> set rows \<Longrightarrow> find_one (\<lambda>x. key x = key r) rows = Some r"
  by (induction rows) (auto simp: rev_image_eqI)

lemma find_one_key_iff:
  assumes "distinct (map key rows)"
  shows "find_one (\<lambda>x. key x = k) rows = Some r \<longleftrightarrow> r \<in> set rows \<and> key r = k"
  using assms find_one_key [of key rows r] find_one_SomeD [of "\<lambda>x. key x = k" rows r] by auto

lemma find_one_save_same: "find_one (\<lambda>x. key x = key r) (save_row key r rows) = Some r"
proof -
  have "find_one (\<lambda>x. key x = key r) (map (\<lambda>x. if key x = key r then r else x) xs) = Some r"
    if "key r \<in> key ` set xs" for xs
    using that by (induction xs) auto
  moreover have "find_one (\<lambda>x. key x = key r) (xs @ [r]) = Some r" if "key r \<notin> key ` set xs" for xs
    using that by (induction xs) (auto simp: table_simps)
  ultimately show ?thesis by (simp add: save_row_def)
qed

lemma find_one_save_other:
  assumes "k \<noteq> key r"
  shows "find_one (\<lambda>x. key x = k) (save_row key r rows) = find_one (\<lambda>x. key x = k) rows"
proof -
  have "find_one (\<lambda>x. key x = k) (map (\<lambda>x. if key x = key r then r else x) xs) =
        find_one (\<lambda>x. key x = k) xs" for xs
    using assms by (induction xs) auto
  then show ?thesis
    using assms by (auto simp: save_row_def table_simps split: option.splits)
qed

text \<open>Saving the row a query found leaves it the row the query finds.\<close>

lemma find_one_save_found:
  assumes "distinct (map key rows)" "find_one P rows = Some r" "key r' = key r" "P r'"
  shows "find_one P (save_row key r' rows) = Some r'"
  using assms(1,2)
proof (induction rows)
  case Nil
  then show ?case by simp
next
  case (Cons x rows)
  show ?case
  proof (cases "P x")
    case True
    with Cons.prems(2) assms(3,4) show ?thesis by (simp add: save_row_def)
  next
    case False
    with Cons.prems have f: "find_one P rows = Some r" "r \<in> set rows" by (auto dest: find_one_SomeD)
    with Cons.prems(1) have "key x \<noteq> key r" by (auto simp: rev_image_eqI)
    with False assms(3) have "find_one P (save_row key r' (x # rows)) = find_one P (save_row key r' rows)"
      by (auto simp: save_row_def)
    with Cons.IH Cons.prems(1) f(1) show ?thesis by simp
  qed
qed

lemma find_one_update_where:
  assumes "\<And>r. key (f r) = key r"
  shows "find_one (\<lambda>x. key x = k) (update_where P f rows) =
         map_option (\<lambda>r. if P r then f r else r) (find_one (\<lambda>x. key x = k) rows)"
  using assms by (induction rows) auto

lemma count_where_key_le_1:
  "distinct (map key rows) \<Longrightarrow> count_where (\<lambda>x. key x = k \<and> Q x) rows \<le> 1"
proof (induction rows)
  case Nil
  then show ?case by simp
next
  case (Cons r rows)
  show ?case
  proof (cases "key r = k")
    case True
    with Cons.prems have "count_where (\<lambda>x. key x = k \<and> Q x) rows = 0"
      unfolding count_where_0_iff by (auto simp: rev_image_eqI)
    then show ?thesis by simp
  next
    case False
    with Cons show ?thesis by simp
  qed
qed

lemma sum_where_Nil [simp]: "sum_where P f [] = 0"
  by (simp add: sum_where_def)

lemma sum_where_Cons [simp]:
  "sum_where P f (r # rows) = (if P r then f r else 0) + sum_where P f rows"
  by (simp add: sum_where_def)

lemma sum_where_append [table_simps]:
  "sum_where P f (xs @ ys) = sum_where P f xs + sum_where P f ys"
  by (simp add: sum_where_def)

lemma sum_where_mono:
  "(\<And>r. r \<in> set rows \<Longrightarrow> P r \<Longrightarrow> Q r) \<Longrightarrow> sum_where P f rows \<le> sum_where Q f rows"
  by (induction rows) (auto simp: trans_le_add2 add_le_mono)

lemma sum_where_cong:
  "(\<And>r. r \<in> set rows \<Longrightarrow> P r = Q r) \<Longrightarrow> sum_where P f rows = sum_where Q f rows"
  by (induction rows) auto

text \<open>A column after \<open>update_where\<close> when the update can only turn the predicate off.\<close>

lemma sum_where_update_le:
  assumes "\<And>r. r \<in> set rows \<Longrightarrow> U r \<Longrightarrow> P (g r) \<Longrightarrow> P r \<and> f (g r) \<le> f r"
  shows "sum_where P f (update_where U g rows) \<le> sum_where P f rows"
  using assms
proof (induction rows)
  case Nil
  then show ?case by simp
next
  case (Cons r rows)
  then have "sum_where P f (update_where U g rows) \<le> sum_where P f rows" by simp
  moreover have "(if P (if U r then g r else r) then f (if U r then g r else r) else 0)
                 \<le> (if P r then f r else 0)"
    using Cons.prems [of r] by auto
  ultimately show ?case by (simp add: add_le_mono)
qed

lemma sum_where_save_row_le:
  assumes "distinct (map key rows)"
  shows "sum_where P f (save_row key r rows) \<le> sum_where P f rows + (if P r then f r else 0)"
  using assms
proof (induction rows)
  case Nil
  then show ?case by (simp add: save_row_def)
next
  case (Cons x rows)
  show ?case
  proof (cases "key x = key r")
    case True
    with Cons.prems have "map (\<lambda>y. if key y = key r then r else y) rows = rows"
      by (intro map_idI) (auto simp: rev_image_eqI)
    with True show ?thesis by (simp add: save_row_def)
  next
    case False
    then have "save_row key r (x # rows) = x # save_row key r rows"
      by (auto simp: save_row_def)
    with Cons show ?thesis by simp
  qed
qed

lemma save_row_twice:
  assumes "key r' = key r"
  shows "save_row key r' (save_row key r rows) = save_row key r' rows"
proof -
  have keys: "map key (map (\<lambda>x. if key x = key r then r else x) rows) = map key rows" by simp
  have m: "map (\<lambda>x. if key x = key r then r' else x) (map (\<lambda>x. if key x = key r then r else x) rows) =
        map (\<lambda>x. if key x = key r then r' else x) rows" by simp
  show ?thesis
  proof (cases "key r \<in> set (map key rows)")
    case True
    with keys have "key r \<in> set (map key (map (\<lambda>x. if key x = key r then r else x) rows))" by metis
    with True m show ?thesis unfolding save_row_def assms by (simp only: set_map if_True)
  next
    case False
    then have "map (\<lambda>x. if key x = key r then r' else x) rows = rows"
      by (intro map_idI) (auto simp: image_iff)
    with False show ?thesis unfolding save_row_def assms by (simp add: image_iff)
  qed
qed

text \<open>Saving a changed row keeps the columns the change keeps.\<close>

lemma map_column_save_row:
  assumes "distinct (map key rows)" "x \<in> set rows" "key r = key x" "col r = col x"
  shows "map col (save_row key r rows) = map col rows"
  using assms
proof -
  have "col y = col r" if "y \<in> set rows" "key y = key r" for y
    using find_one_key [OF assms(1,2)] find_one_key [OF assms(1) that(1)] assms(3,4) that(2) by simp
  then show ?thesis using assms(2,3) by (force simp: save_row_def)
qed

section \<open>The repository interface\<close>

text \<open>
  What a provider relies on when it loads a row by its primary key and saves it back.
\<close>

locale repository =
  fixes find_id :: "'k \<Rightarrow> 't \<Rightarrow> 'r option"
    and save :: "'r \<Rightarrow> 't \<Rightarrow> 't"
    and key :: "'r \<Rightarrow> 'k"
  assumes find_save_same: "find_id (key r) (save r t) = Some r"
    and find_save_other: "k \<noteq> key r \<Longrightarrow> find_id k (save r t) = find_id k t"
    and find_key: "find_id k t = Some r \<Longrightarrow> key r = k"
begin

lemma find_save:
  "find_id k (save r t) = (if k = key r then Some r else find_id k t)"
  using find_save_same find_save_other by auto

lemma save_overwrites:
  "key r = key r' \<Longrightarrow> find_id k (save r' (save r t)) = find_id k (save r' t)"
  by (simp add: find_save)

lemma load_modify_save:
  assumes "find_id k t = Some r" and "key (f r) = key r"
  shows "find_id k (save (f r) t) = Some (f r)"
  using assms find_key [OF assms(1)] find_save_same [of "f r" t] by simp

end

text \<open>
  A conditional \<open>UPDATE .. WHERE id = :id AND status = :from\<close>: it returns the number of
  affected rows with the new table. \<open>ok\<close> is the table's integrity (unique primary keys).
\<close>

locale cas_repository =
  fixes find_id :: "'k \<Rightarrow> 't \<Rightarrow> 'r option"
    and status :: "'r \<Rightarrow> 's"
    and cas :: "'k \<Rightarrow> 's \<Rightarrow> ('r \<Rightarrow> 'r) \<Rightarrow> 't \<Rightarrow> nat \<times> 't"
    and keeps_key :: "('r \<Rightarrow> 'r) \<Rightarrow> bool"
    and ok :: "'t \<Rightarrow> bool"
  assumes cas_hit: "ok t \<Longrightarrow> keeps_key f \<Longrightarrow> find_id k t = Some r \<Longrightarrow> status r = from \<Longrightarrow>
             \<exists>t'. cas k from f t = (1, t') \<and> find_id k t' = Some (f r)"
    and cas_miss: "ok t \<Longrightarrow> find_id k t = None \<or> (\<exists>r. find_id k t = Some r \<and> status r \<noteq> from) \<Longrightarrow>
             cas k from f t = (0, t)"
    and cas_other: "ok t \<Longrightarrow> keeps_key f \<Longrightarrow> cas k from f t = (n, t') \<Longrightarrow> k' \<noteq> k \<Longrightarrow>
             find_id k' t' = find_id k' t"
    and cas_ok: "ok t \<Longrightarrow> keeps_key f \<Longrightarrow> cas k from f t = (n, t') \<Longrightarrow> ok t'"
begin

lemma cas_affected:
  assumes "ok t" and "keeps_key f"
  shows "fst (cas k from f t) = (case find_id k t of Some r \<Rightarrow> if status r = from then 1 else 0 | None \<Rightarrow> 0)"
proof (cases "find_id k t")
  case None
  then show ?thesis using cas_miss [OF assms(1)] by simp
next
  case (Some r)
  then show ?thesis
    using cas_hit [OF assms Some] cas_miss [OF assms(1), of k "from" f] by (cases "status r = from") auto
qed

text \<open>Of two racing updates from the same status to another one, at most one wins.\<close>

lemma single_winner:
  assumes "ok t" and "keeps_key f" and "keeps_key g"
    and leaves: "\<And>r. status (f r) \<noteq> from"
    and win: "cas k from f t = (1, t')"
  shows "cas k from g t' = (0, t')"
proof -
  obtain r where r: "find_id k t = Some r" "status r = from"
    using cas_affected [OF assms(1,2), of k "from"] win by (auto split: option.splits if_splits)
  from cas_hit [OF assms(1,2) r] win have "find_id k t' = Some (f r)" by auto
  with leaves show ?thesis using cas_miss [OF cas_ok [OF assms(1,2) win]] by blast
qed

end

text \<open>The list tables satisfy both interfaces, whatever the key and the status column are.\<close>

definition find_by :: "('r \<Rightarrow> 'k) \<Rightarrow> 'k \<Rightarrow> 'r list \<Rightarrow> 'r option" where
  "find_by key k rows = find_one (\<lambda>x. key x = k) rows"

definition cas_by ::
  "('r \<Rightarrow> 'k) \<Rightarrow> ('r \<Rightarrow> 's) \<Rightarrow> 'k \<Rightarrow> 's \<Rightarrow> ('r \<Rightarrow> 'r) \<Rightarrow> 'r list \<Rightarrow> nat \<times> 'r list" where
  "cas_by key status k from f rows =
     (count_where (\<lambda>x. key x = k \<and> status x = from) rows,
      update_where (\<lambda>x. key x = k \<and> status x = from) f rows)"

definition uniq_keys :: "('r \<Rightarrow> 'k) \<Rightarrow> 'r list \<Rightarrow> bool" where
  "uniq_keys key rows = distinct (map key rows)"

lemma repository_list: "repository (find_by key) (save_row key) key"
  by unfold_locales
    (auto simp: find_by_def find_one_save_same find_one_save_other dest: find_one_SomeD)

lemma cas_by_miss:
  assumes "uniq_keys key rows"
    and "find_by key k rows = None \<or> (\<exists>r. find_by key k rows = Some r \<and> status r \<noteq> from)"
  shows "cas_by key status k from f rows = (0, rows)"
proof -
  have "\<not> (key x = k \<and> status x = from)" if "x \<in> set rows" for x
    using assms find_one_key [of key rows x] that
    by (auto simp: find_by_def uniq_keys_def find_one_None_iff)
  then show ?thesis
    by (simp add: cas_by_def count_where_0_iff update_where_none)
qed

lemma cas_by_hit:
  assumes "uniq_keys key rows" and "find_by key k rows = Some r" and "status r = from"
    and "\<And>x. key (f x) = key x"
  shows "\<exists>rows'. cas_by key status k from f rows = (1, rows') \<and> find_by key k rows' = Some (f r)"
proof -
  from assms(2) have r: "r \<in> set rows" "key r = k"
    by (auto simp: find_by_def dest: find_one_SomeD)
  with assms(3) have "count_where (\<lambda>x. key x = k \<and> status x = from) rows \<noteq> 0"
    by (auto simp: count_where_0_iff)
  with count_where_key_le_1 [of key rows k "\<lambda>x. status x = from"] assms(1)
  have "count_where (\<lambda>x. key x = k \<and> status x = from) rows = 1"
    by (simp add: uniq_keys_def)
  moreover have "find_by key k (update_where (\<lambda>x. key x = k \<and> status x = from) f rows) = Some (f r)"
    using assms(2-4) r by (simp add: find_by_def find_one_update_where)
  ultimately show ?thesis by (simp add: cas_by_def)
qed

lemma cas_repository_list:
  "cas_repository (find_by key) status (cas_by key status) (\<lambda>f. \<forall>x. key (f x) = key x)
     (uniq_keys key)"
proof unfold_locales
  fix rows f k r "from"
  assume "uniq_keys key rows" "\<forall>x. key (f x) = key x" "find_by key k rows = Some r" "status r = from"
  then show "\<exists>t'. cas_by key status k from f rows = (1, t') \<and> find_by key k t' = Some (f r)"
    by (intro cas_by_hit) auto
next
  fix rows f k "from"
  assume "uniq_keys key rows"
    "find_by key k rows = None \<or> (\<exists>r. find_by key k rows = Some r \<and> status r \<noteq> from)"
  then show "cas_by key status k from f rows = (0, rows)" by (rule cas_by_miss)
next
  fix rows f k "from" n t' k'
  assume "\<forall>x. key (f x) = key x" "cas_by key status k from f rows = (n, t')" "k' \<noteq> k"
  then show "find_by key k' t' = find_by key k' rows"
    by (cases "find_one (\<lambda>x. key x = k') rows")
      (auto simp: find_by_def cas_by_def find_one_update_where dest: find_one_SomeD)
next
  fix rows f k "from" n t'
  assume "uniq_keys key rows" "\<forall>x. key (f x) = key x" "cas_by key status k from f rows = (n, t')"
  then show "uniq_keys key t'"
    by (auto simp: cas_by_def uniq_keys_def distinct_update_where)
qed

end
