(* ===== verification/NL_Strings.thy ===== *)
theory NL_Strings
  imports NL_Prelude
begin

text \<open>
  The JavaScript string and number-formatting functions the providers call: code-unit order
  (\<open><\<close> on strings), \<open>toLowerCase\<close>, \<open>trim\<close>, \<open>includes\<close>, decimal printing
  (\<open>String(n)\<close>), \<open>parseInt\<close> of a digit string and \<open>padStart(w, '0')\<close>. Characters are code
  units below 256.
\<close>

section \<open>Characters\<close>

definition digit_val :: "char \<Rightarrow> nat" where
  "digit_val c = of_char c - 48"

definition is_digit :: "char \<Rightarrow> bool" where
  "is_digit c \<longleftrightarrow> 48 \<le> (of_char c :: nat) \<and> (of_char c :: nat) \<le> 57"

definition digit_char :: "nat \<Rightarrow> char" where
  "digit_char d = char_of (48 + d)"

definition is_upper :: "char \<Rightarrow> bool" where
  "is_upper c \<longleftrightarrow> 65 \<le> (of_char c :: nat) \<and> (of_char c :: nat) \<le> 90"

definition is_lower :: "char \<Rightarrow> bool" where
  "is_lower c \<longleftrightarrow> 97 \<le> (of_char c :: nat) \<and> (of_char c :: nat) \<le> 122"

definition lower_char :: "char \<Rightarrow> char" where
  "lower_char c = (if is_upper c then char_of ((of_char c :: nat) + 32) else c)"

definition to_lower :: "string \<Rightarrow> string" where
  "to_lower s = map lower_char s"

definition is_space :: "char \<Rightarrow> bool" where
  "is_space c \<longleftrightarrow> (of_char c :: nat) \<in> {9, 10, 11, 12, 13, 32, 160}"

definition trim :: "string \<Rightarrow> string" where
  "trim s = rev (dropWhile is_space (rev (dropWhile is_space s)))"

fun is_prefix :: "string \<Rightarrow> string \<Rightarrow> bool" where
  "is_prefix [] s = True"
| "is_prefix (c # cs) [] = False"
| "is_prefix (c # cs) (d # ds) = (c = d \<and> is_prefix cs ds)"

fun str_includes :: "string \<Rightarrow> string \<Rightarrow> bool" where
  "str_includes [] pat = (pat = [])"
| "str_includes (c # cs) pat = (is_prefix pat (c # cs) \<or> str_includes cs pat)"

lemma digit_val_digit_char: "d < 10 \<Longrightarrow> digit_val (digit_char d) = d"
  by (simp add: digit_val_def digit_char_def)

lemma is_digit_digit_char: "d < 10 \<Longrightarrow> is_digit (digit_char d)"
  by (simp add: is_digit_def digit_char_def)

lemma digit_val_less: "is_digit c \<Longrightarrow> digit_val c < 10"
  by (auto simp: is_digit_def digit_val_def)

lemma digit_val_inj:
  assumes "is_digit c" "is_digit d" "digit_val c = digit_val d"
  shows "c = d"
proof -
  have "(of_char c :: nat) = of_char d"
    using assms unfolding is_digit_def digit_val_def by linarith
  then show ?thesis by simp
qed

section \<open>Code-unit order\<close>

fun str_less :: "string \<Rightarrow> string \<Rightarrow> bool" where
  "str_less _ [] = False"
| "str_less [] (d # ds) = True"
| "str_less (c # cs) (d # ds) =
     ((of_char c :: nat) < of_char d \<or> (c = d \<and> str_less cs ds))"

lemma str_less_irrefl [simp]: "\<not> str_less s s"
  by (induction s) auto

lemma str_less_append:
  "length xs = length ys \<Longrightarrow>
   str_less (xs @ zs) (ys @ ws) \<longleftrightarrow> str_less xs ys \<or> (xs = ys \<and> str_less zs ws)"
  by (induction xs ys rule: list_induct2) auto

section \<open>Decimal numerals\<close>

definition num_of :: "string \<Rightarrow> nat" where
  "num_of s = foldl (\<lambda>a c. 10 * a + digit_val c) 0 s"

lemma num_of_Nil [simp]: "num_of [] = 0"
  by (simp add: num_of_def)

lemma num_of_snoc [simp]: "num_of (s @ [c]) = 10 * num_of s + digit_val c"
  by (simp add: num_of_def)

lemma foldl_digits:
  "foldl (\<lambda>a c. 10 * a + digit_val c) a s = a * 10 ^ length s + num_of s"
proof (induction s rule: rev_induct)
  case Nil
  then show ?case by simp
next
  case (snoc c s)
  then show ?case by (simp add: algebra_simps)
qed

lemma num_of_Cons: "num_of (c # s) = digit_val c * 10 ^ length s + num_of s"
  using foldl_digits [of "digit_val c" s] by (simp add: num_of_def)

lemma num_of_append: "num_of (s @ t) = num_of s * 10 ^ length t + num_of t"
  using foldl_digits [of "num_of s" t] by (simp add: num_of_def)

lemma num_of_less: "list_all is_digit s \<Longrightarrow> num_of s < 10 ^ length s"
proof (induction s)
  case Nil
  then show ?case by simp
next
  case (Cons c s)
  then have "digit_val c \<le> 9" "num_of s < 10 ^ length s"
    using digit_val_less [of c] by auto
  then have "digit_val c * 10 ^ length s + num_of s < 9 * 10 ^ length s + 10 ^ length s"
    by (intro add_le_less_mono mult_le_mono1)
  then show ?case by (simp add: num_of_Cons)
qed

lemma str_less_digits:
  assumes "length s = length t" "list_all is_digit s" "list_all is_digit t"
  shows "(str_less s t \<longleftrightarrow> num_of s < num_of t) \<and> (s = t \<longleftrightarrow> num_of s = num_of t)"
  using assms
proof (induction s t rule: list_induct2)
  case Nil
  then show ?case by simp
next
  case (Cons c s d t)
  let ?k = "10 ^ length t :: nat"
  have dig: "is_digit c" "is_digit d" using Cons.prems by auto
  have IH: "str_less s t \<longleftrightarrow> num_of s < num_of t" "s = t \<longleftrightarrow> num_of s = num_of t"
    using Cons by auto
  have small: "num_of s < ?k" "num_of t < ?k"
    using Cons num_of_less [of s] num_of_less [of t] by auto
  have lt: "num_of (x # s) < num_of (y # t)" if "digit_val x < digit_val y" for x y
  proof -
    have "(digit_val x + 1) * ?k \<le> digit_val y * ?k" using that by (intro mult_le_mono1) simp
    with small Cons.hyps show ?thesis by (simp add: num_of_Cons)
  qed
  have gt: "num_of (y # t) < num_of (x # s)" if "digit_val y < digit_val x" for x y
  proof -
    have "(digit_val y + 1) * ?k \<le> digit_val x * ?k" using that by (intro mult_le_mono1) simp
    with small Cons.hyps show ?thesis by (simp add: num_of_Cons)
  qed
  consider (l) "digit_val c < digit_val d" | (e) "c = d" | (g) "digit_val d < digit_val c"
    using digit_val_inj [OF dig] by linarith
  then show ?case
  proof cases
    case l
    moreover from l dig have "(of_char c :: nat) < of_char d"
      by (auto simp: digit_val_def is_digit_def)
    ultimately show ?thesis using lt [OF l] by auto
  next
    case e
    then show ?thesis using IH Cons.hyps by (simp add: num_of_Cons)
  next
    case g
    moreover from g dig have "\<not> (of_char c :: nat) < of_char d"
      by (auto simp: digit_val_def is_digit_def)
    ultimately show ?thesis using gt [OF g] by auto
  qed
qed

fun nat_str :: "nat \<Rightarrow> string" where
  "nat_str n = (if n < 10 then [digit_char n] else nat_str (n div 10) @ [digit_char (n mod 10)])"

declare nat_str.simps [simp del]

lemma num_of_nat_str: "num_of (nat_str n) = n"
proof (induction n rule: nat_str.induct)
  case (1 n)
  show ?case
  proof (cases "n < 10")
    case True
    then show ?thesis
      using num_of_snoc [of "[]"] by (simp add: nat_str.simps [of n] digit_val_digit_char)
  next
    case False
    with 1 show ?thesis by (simp add: nat_str.simps [of n] digit_val_digit_char)
  qed
qed

lemma digits_nat_str: "list_all is_digit (nat_str n)"
proof (induction n rule: nat_str.induct)
  case (1 n)
  then show ?case by (subst nat_str.simps) (simp add: is_digit_digit_char)
qed

lemma nat_str_inj: "nat_str m = nat_str n \<longleftrightarrow> m = n"
  using num_of_nat_str by metis

lemma length_nat_str_le: "n < 10 ^ k \<Longrightarrow> 0 < k \<Longrightarrow> length (nat_str n) \<le> k"
proof (induction n arbitrary: k rule: nat_str.induct)
  case (1 n)
  show ?case
  proof (cases "n < 10")
    case True
    with 1 show ?thesis by (simp add: nat_str.simps [of n])
  next
    case False
    then obtain j where k: "k = Suc j" and j: "0 < j"
      using 1(2,3) by (cases k; cases "k - 1") auto
    from 1(2) have "n div 10 < 10 ^ j" by (simp add: k less_mult_imp_div_less)
    with 1(1) False j have "length (nat_str (n div 10)) \<le> j" by blast
    with False show ?thesis by (simp add: nat_str.simps [of n] k)
  qed
qed

definition pad_start :: "nat \<Rightarrow> string \<Rightarrow> string" where
  "pad_start w s = replicate (w - length s) (CHR ''0'') @ s"

lemma num_of_zeros: "num_of (replicate k (CHR ''0'')) = 0"
proof (induction k)
  case 0
  then show ?case by simp
next
  case (Suc k)
  then show ?case by (simp add: num_of_Cons digit_val_def)
qed

lemma num_of_pad_start: "num_of (pad_start w s) = num_of s"
  by (simp add: pad_start_def num_of_append num_of_zeros)

lemma length_pad_start: "length s \<le> w \<Longrightarrow> length (pad_start w s) = w"
  by (simp add: pad_start_def)

lemma digits_pad_start: "list_all is_digit s \<Longrightarrow> list_all is_digit (pad_start w s)"
  by (auto simp: pad_start_def list_all_iff is_digit_def)

lemma trim_id:
  assumes "s \<noteq> []" "\<not> is_space (hd s)" "\<not> is_space (last s)"
  shows "trim s = s"
proof -
  have "dropWhile is_space s = s" using assms by (cases s) auto
  moreover have "dropWhile is_space (rev s) = rev s" using assms by (cases s rule: rev_cases) auto
  ultimately show ?thesis by (simp add: trim_def)
qed

lemma digit_no_space: "is_digit x \<Longrightarrow> \<not> is_space x"
  by (auto simp: is_digit_def is_space_def)

end
