(* ===== verification/NL_Dates.thy ===== *)
theory NL_Dates
  imports NL_Strings
begin

text \<open>
  Calendar dates as the program handles them: the date-only ISO strings of the DTOs, their
  \<open>Date\<close> value in milliseconds, the \<open>date\<close> columns of the database (a day number), and
  \<open>new Date().toISOString().split('T')[0]\<close>.

  \<open>iso_day\<close> reads a date-only string as a day number counted from 1970-01-01, the way
  ECMAScript does (midnight UTC), \<open>None\<close> for a string of another form or an impossible date.
\<close>

section \<open>The proleptic Gregorian calendar\<close>

definition ms_per_day :: int where
  "ms_per_day = 86400000"

definition leap :: "int \<Rightarrow> bool" where
  "leap y \<longleftrightarrow> 4 dvd y \<and> (\<not> 100 dvd y \<or> 400 dvd y)"

definition days_before_year :: "int \<Rightarrow> int" where
  "days_before_year y = 365 * y + (y + 3) div 4 - (y + 99) div 100 + (y + 399) div 400"

definition month_offsets :: "bool \<Rightarrow> int list" where
  "month_offsets l =
     (if l then [0, 31, 60, 91, 121, 152, 182, 213, 244, 274, 305, 335, 366]
      else [0, 31, 59, 90, 120, 151, 181, 212, 243, 273, 304, 334, 365])"

definition days_in_month :: "int \<Rightarrow> nat \<Rightarrow> int" where
  "days_in_month y m = month_offsets (leap y) ! m - month_offsets (leap y) ! (m - 1)"

definition valid_ymd :: "int \<Rightarrow> nat \<Rightarrow> int \<Rightarrow> bool" where
  "valid_ymd y m d \<longleftrightarrow> 1 \<le> m \<and> m \<le> 12 \<and> 1 \<le> d \<and> d \<le> days_in_month y m"

text \<open>719528 days lie between the start of year 0 and 1970-01-01.\<close>

definition day_number :: "int \<Rightarrow> nat \<Rightarrow> int \<Rightarrow> int" where
  "day_number y m d = days_before_year y + month_offsets (leap y) ! (m - 1) + d - 1 - 719528"

lemma div_bounds: "0 < k \<Longrightarrow> k * (x div k) \<le> x \<and> x < k * (x div k) + k" for x k :: int
  using mult_div_mod_eq [of k x] pos_mod_bound [of k x] pos_mod_sign [of k x] by linarith

lemma div_step: "0 < k \<Longrightarrow> (y + 1 + (k - 1)) div k = (y + (k - 1)) div k + (if k dvd y then 1 else 0)"
  for y k :: int
proof -
  assume k: "0 < k"
  define q r where "q = y div k" and "r = y mod k"
  have y: "y = k * q + r" "0 \<le> r" "r < k" using k by (simp_all add: q_def r_def)
  have "(y + 1 + (k - 1)) div k = q + 1"
    using y k by (intro int_div_pos_eq [where r = r]) (auto simp: algebra_simps)
  moreover have "(y + (k - 1)) div k = (if r = 0 then q else q + 1)"
  proof (cases "r = 0")
    case True
    then show ?thesis
      using y k by (auto simp: algebra_simps intro!: int_div_pos_eq [where r = "k - 1"])
  next
    case False
    then show ?thesis
      using y k by (auto simp: algebra_simps intro!: int_div_pos_eq [where r = "r - 1"])
  qed
  moreover have "k dvd y \<longleftrightarrow> r = 0" by (simp add: r_def dvd_eq_mod_eq_0)
  ultimately show ?thesis by simp
qed

lemma days_before_year_Suc:
  "days_before_year (y + 1) = days_before_year y + 365 + (if leap y then 1 else 0)"
proof -
  have 100: "4 dvd y" if "100 dvd y"
    using that by (rule dvd_trans [rotated]) simp
  have 400: "100 dvd y" if "400 dvd y"
    using that by (rule dvd_trans [rotated]) simp
  define a b c :: int where "a = (if 4 dvd y then 1 else 0)" and
    "b = (if 100 dvd y then 1 else 0)" and "c = (if 400 dvd y then 1 else 0)"
  have steps: "(y + 1 + 3) div 4 = (y + 3) div 4 + a" "(y + 1 + 99) div 100 = (y + 99) div 100 + b"
    "(y + 1 + 399) div 400 = (y + 399) div 400 + c"
    using div_step [of 4 y] div_step [of 100 y] div_step [of 400 y]
    by (simp_all add: a_def b_def c_def)
  have "(if leap y then 1 else 0 :: int) = a - b + c"
    by (cases "400 dvd y"; cases "100 dvd y"; cases "4 dvd y";
        simp add: 100 400 leap_def a_def b_def c_def)
  then show ?thesis unfolding days_before_year_def steps by simp
qed

lemma days_before_year_mono: "y \<le> z \<Longrightarrow> days_before_year y \<le> days_before_year z"
proof (induction z rule: int_ge_induct)
  case base
  then show ?case by simp
next
  case (step z)
  then show ?case by (simp add: days_before_year_Suc split: if_splits)
qed

lemma month_cases:
  assumes "1 \<le> m" "m \<le> 12"
  obtains "m = 1" | "m = 2" | "m = 3" | "m = 4" | "m = 5" | "m = 6" | "m = 7" | "m = 8"
    | "m = 9" | "m = 10" | "m = 11" | "m = (12::nat)"
  using assms by atomize_elim arith

lemma month_offset_mono:
  assumes "1 \<le> m" "m < n" "n \<le> 12"
  shows "month_offsets l ! m \<le> month_offsets l ! (n - 1)"
proof -
  have "sorted (month_offsets l)" by (simp add: month_offsets_def)
  moreover have "length (month_offsets l) = 13" by (simp add: month_offsets_def)
  ultimately show ?thesis using assms by (intro sorted_nth_mono) auto
qed

lemma month_offset_bounds:
  assumes "1 \<le> m" "m \<le> 12"
  shows "0 \<le> month_offsets l ! (m - 1)" "month_offsets l ! m \<le> 365 + (if l then 1 else 0)"
  using assms by (cases rule: month_cases; cases l; simp add: month_offsets_def)+

lemma day_of_year_bounds:
  assumes "valid_ymd y m d"
  shows "days_before_year y \<le> day_number y m d + 719528"
    and "day_number y m d + 719528 < days_before_year (y + 1)"
  using assms month_offset_bounds [of m "leap y"]
  by (auto simp: day_number_def valid_ymd_def days_in_month_def days_before_year_Suc)

lemma day_number_year_less:
  assumes "valid_ymd y m d" "valid_ymd z n e" "y < z"
  shows "day_number y m d < day_number z n e"
  using day_of_year_bounds [OF assms(1)] day_of_year_bounds [OF assms(2)]
    days_before_year_mono [of "y + 1" z] assms(3) by simp

lemma day_number_month_less:
  assumes "valid_ymd y m d" "valid_ymd y n e" "m < n"
  shows "day_number y m d < day_number y n e"
  using assms month_offset_mono [of m n "leap y"]
  by (auto simp: day_number_def valid_ymd_def days_in_month_def)

lemma day_number_less_iff:
  assumes "valid_ymd y m d" "valid_ymd z n e"
  shows "day_number y m d < day_number z n e \<longleftrightarrow>
         y < z \<or> (y = z \<and> (m < n \<or> (m = n \<and> d < e)))"
proof -
  consider "y < z" | "z < y" | "y = z" "m < n" | "y = z" "n < m" | "y = z" "m = n" by linarith
  then show ?thesis
  proof cases
    case 1
    with day_number_year_less [OF assms] show ?thesis by simp
  next
    case 2
    with day_number_year_less [OF assms(2,1)] show ?thesis by simp
  next
    case 3
    with day_number_month_less [of y m d n e] assms show ?thesis by simp
  next
    case 4
    with day_number_month_less [of y n e m d] assms show ?thesis by simp
  next
    case 5
    then show ?thesis by (simp add: day_number_def)
  qed
qed

section \<open>Date-only ISO strings\<close>

text \<open>The regular expression \<open>/^\d{4}-\d{2}-\d{2}$/\<close>.\<close>

definition iso_shape :: "string \<Rightarrow> bool" where
  "iso_shape s \<longleftrightarrow> length s = 10 \<and> take 1 (drop 4 s) = ''-'' \<and> take 1 (drop 7 s) = ''-'' \<and>
     list_all is_digit (take 4 s) \<and> list_all is_digit (take 2 (drop 5 s)) \<and>
     list_all is_digit (drop 8 s)"

definition iso_y :: "string \<Rightarrow> int" where "iso_y s = int (num_of (take 4 s))"
definition iso_m :: "string \<Rightarrow> nat" where "iso_m s = num_of (take 2 (drop 5 s))"
definition iso_d :: "string \<Rightarrow> int" where "iso_d s = int (num_of (drop 8 s))"

definition iso_day :: "string \<Rightarrow> int option" where
  "iso_day s =
     (if iso_shape s \<and> valid_ymd (iso_y s) (iso_m s) (iso_d s)
      then Some (day_number (iso_y s) (iso_m s) (iso_d s)) else None)"

lemma iso_shape_split:
  assumes "iso_shape s"
  shows "s = take 4 s @ ''-'' @ take 2 (drop 5 s) @ ''-'' @ drop 8 s"
proof -
  have len: "length s = 10" using assms by (simp add: iso_shape_def)
  have "s = take 4 s @ take 1 (drop 4 s) @ take 2 (drop 5 s) @ take 1 (drop 7 s) @ drop 8 s"
    using take_add [of 4 1 s] take_add [of 5 2 s] take_add [of 7 1 s] append_take_drop_id [of 8 s]
    by (simp add: numeral_eq_Suc)
  then show ?thesis using assms by (simp add: iso_shape_def)
qed

text \<open>On well-formed strings the code-unit order of JavaScript is the chronological order.\<close>

lemma str_less_iso_day:
  assumes "iso_day s = Some a" "iso_day t = Some b"
  shows "str_less s t \<longleftrightarrow> a < b"
proof -
  have s: "iso_shape s" "valid_ymd (iso_y s) (iso_m s) (iso_d s)" "a = day_number (iso_y s) (iso_m s) (iso_d s)"
    and t: "iso_shape t" "valid_ymd (iso_y t) (iso_m t) (iso_d t)" "b = day_number (iso_y t) (iso_m t) (iso_d t)"
    using assms by (auto simp: iso_day_def split: if_splits)
  have Y: "(str_less (take 4 s) (take 4 t) \<longleftrightarrow> iso_y s < iso_y t) \<and> (take 4 s = take 4 t \<longleftrightarrow> iso_y s = iso_y t)"
    using str_less_digits [of "take 4 s" "take 4 t"] s t by (simp add: iso_shape_def iso_y_def)
  have M: "(str_less (take 2 (drop 5 s)) (take 2 (drop 5 t)) \<longleftrightarrow> iso_m s < iso_m t) \<and>
           (take 2 (drop 5 s) = take 2 (drop 5 t) \<longleftrightarrow> iso_m s = iso_m t)"
    using str_less_digits [of "take 2 (drop 5 s)" "take 2 (drop 5 t)"] s t
    by (simp add: iso_shape_def iso_m_def)
  have D: "str_less (drop 8 s) (drop 8 t) \<longleftrightarrow> iso_d s < iso_d t"
    using str_less_digits [of "drop 8 s" "drop 8 t"] s t by (simp add: iso_shape_def iso_d_def)
  have len: "length (take 4 s) = length (take 4 t)" "length (take 2 (drop 5 s)) = length (take 2 (drop 5 t))"
    using s t by (auto simp: iso_shape_def)
  have "str_less s t \<longleftrightarrow>
      str_less (take 4 s @ ''-'' @ take 2 (drop 5 s) @ ''-'' @ drop 8 s)
               (take 4 t @ ''-'' @ take 2 (drop 5 t) @ ''-'' @ drop 8 t)"
    using iso_shape_split [OF s(1)] iso_shape_split [OF t(1)] by simp
  also have "\<dots> \<longleftrightarrow> iso_y s < iso_y t \<or> (iso_y s = iso_y t \<and>
       (iso_m s < iso_m t \<or> (iso_m s = iso_m t \<and> iso_d s < iso_d t)))"
    using Y M D len by (simp add: str_less_append)
  also have "\<dots> \<longleftrightarrow> a < b"
    using day_number_less_iff [OF s(2) t(2)] s t by simp
  finally show ?thesis .
qed

section \<open>Date values and date columns\<close>

text \<open>
  \<open>new Date(s).getTime()\<close>: \<open>None\<close> is \<open>NaN\<close>. Strings that are not date-only are read by
  \<open>ext\<close>: ECMAScript leaves most of them to the engine.
\<close>

definition js_date_ms :: "(string \<Rightarrow> int option) \<Rightarrow> string \<Rightarrow> int option" where
  "js_date_ms ext s = (case iso_day s of Some d \<Rightarrow> Some (d * ms_per_day) | None \<Rightarrow> ext s)"

text \<open>
  A string stored in, or compared with, a PostgreSQL \<open>date\<close> column: the day number;
  \<open>None\<close> is the query error for a malformed date. Other input forms go to \<open>ext\<close>.
\<close>

definition pg_date :: "(string \<Rightarrow> int option) \<Rightarrow> string \<Rightarrow> int option" where
  "pg_date ext s = (case iso_day s of Some d \<Rightarrow> Some d | None \<Rightarrow> ext s)"

section \<open>Printing a day\<close>

text \<open>The year of a day, counted from the start of year 0: an estimate, then one correction.\<close>

definition year_of :: "int \<Rightarrow> int" where
  "year_of n =
     (let y = (400 * n) div 146097
      in if n < days_before_year y then y - 1
         else if days_before_year (y + 1) \<le> n then y + 1 else y)"

definition month_of :: "bool \<Rightarrow> int \<Rightarrow> nat" where
  "month_of l doy = length (filter (\<lambda>x. x \<le> doy) (butlast (month_offsets l)))"

definition iso_string :: "int \<Rightarrow> string" where
  "iso_string day =
     (let n = day + 719528; y = year_of n; doy = n - days_before_year y;
          m = month_of (leap y) doy; d = doy - month_offsets (leap y) ! (m - 1) + 1
      in pad_start 4 (nat_str (nat y)) @ ''-'' @ pad_start 2 (nat_str m) @ ''-'' @
         pad_start 2 (nat_str (nat d)))"

text \<open>\<open>new Date().toISOString().split('T')[0]\<close> at time \<open>now\<close> (milliseconds).\<close>

definition iso_today :: "int \<Rightarrow> string" where
  "iso_today now = iso_string (now div ms_per_day)"

lemma days_before_year_approx:
  "146097 * y \<le> 400 * days_before_year y + 400" "400 * days_before_year y \<le> 146097 * y + 699"
proof -
  define a b c where "a = (y + 3) div 4" and "b = (y + 99) div 100" and "c = (y + 399) div 400"
  have ab: "4 * a \<le> y + 3" "y \<le> 4 * a" "100 * b \<le> y + 99" "y \<le> 100 * b"
    "400 * c \<le> y + 399" "y \<le> 400 * c"
    using div_bounds [of 4 "y + 3"] div_bounds [of 100 "y + 99"] div_bounds [of 400 "y + 399"]
    unfolding a_def b_def c_def by auto
  have d: "400 * days_before_year y = 146000 * y + 400 * a - 400 * b + 400 * c"
    unfolding days_before_year_def a_def b_def c_def by simp
  show "146097 * y \<le> 400 * days_before_year y + 400" using ab unfolding d by linarith
  show "400 * days_before_year y \<le> 146097 * y + 699" using ab unfolding d by linarith
qed

lemma year_of_correct:
  "days_before_year (year_of n) \<le> n \<and> n < days_before_year (year_of n + 1)"
proof -
  define y where "y = (400 * n) div 146097"
  have y: "146097 * y \<le> 400 * n" "400 * n < 146097 * y + 146097"
    using div_bounds [of 146097 "400 * n"] unfolding y_def by auto
  have "400 * days_before_year (y - 1) \<le> 146097 * y - 145398"
    using days_before_year_approx(2) [of "y - 1"] by simp
  then have lo: "days_before_year (y - 1) \<le> n" using y by linarith
  have "146097 * y + 292194 \<le> 400 * days_before_year (y + 2) + 400"
    using days_before_year_approx(1) [of "y + 2"] by simp
  then have hi: "n < days_before_year (y + 2)" using y by linarith
  show ?thesis
    using lo hi unfolding year_of_def y_def [symmetric] Let_def
    by (auto simp: add.commute [of 2 y])
qed

lemma year_of_unique:
  assumes "days_before_year y \<le> n" "n < days_before_year (y + 1)"
  shows "year_of n = y"
proof (rule ccontr)
  assume "year_of n \<noteq> y"
  then consider "year_of n + 1 \<le> y" | "y + 1 \<le> year_of n" by linarith
  then show False
    using year_of_correct [of n] assms days_before_year_mono [of "year_of n + 1" y]
      days_before_year_mono [of "y + 1" "year_of n"] by cases auto
qed

lemma month_of_correct:
  assumes "0 \<le> doy" "doy < 365 + (if l then 1 else 0)"
  shows "1 \<le> month_of l doy \<and> month_of l doy \<le> 12 \<and>
         month_offsets l ! (month_of l doy - 1) \<le> doy \<and> doy < month_offsets l ! month_of l doy"
  using assms by (cases l) (simp add: month_of_def month_offsets_def)+

text \<open>Printing and reading a day of the years 0 to 9999 is the identity.\<close>

lemma iso_day_iso_string:
  assumes "days_before_year 0 \<le> day + 719528" "day + 719528 < days_before_year 10000"
  shows "iso_day (iso_string day) = Some day"
proof -
  define n y where "n = day + 719528" and "y = year_of n"
  define doy where "doy = n - days_before_year y"
  define m where "m = month_of (leap y) doy"
  define d where "d = doy - month_offsets (leap y) ! (m - 1) + 1"
  have yr: "days_before_year y \<le> n" "n < days_before_year (y + 1)"
    using year_of_correct [of n] by (simp_all add: y_def)
  have doy: "0 \<le> doy" "doy < 365 + (if leap y then 1 else 0)"
    using yr by (simp_all add: doy_def days_before_year_Suc)
  note mth = month_of_correct [OF doy, folded m_def]
  have dim: "1 \<le> d" "d \<le> days_in_month y m" using mth by (auto simp: d_def days_in_month_def)
  have "d \<le> 31"
  proof -
    have "1 \<le> m" "m \<le> 12" using mth by auto
    then have "days_in_month y m \<le> 31"
      by (cases rule: month_cases; cases "leap y"; simp add: days_in_month_def month_offsets_def)
    with dim show ?thesis by simp
  qed
  have y0: "0 \<le> y"
  proof (rule ccontr)
    assume "\<not> 0 \<le> y"
    then have "days_before_year (y + 1) \<le> days_before_year 0" by (intro days_before_year_mono) simp
    with yr assms show False by (simp add: n_def)
  qed
  have y1: "y < 10000"
  proof (rule ccontr)
    assume "\<not> y < 10000"
    then have "days_before_year 10000 \<le> days_before_year y" by (intro days_before_year_mono) simp
    with yr assms show False by (simp add: n_def)
  qed
  define Y where "Y = pad_start 4 (nat_str (nat y))"
  define M where "M = pad_start 2 (nat_str m)"
  define D where "D = pad_start 2 (nat_str (nat d))"
  have s: "iso_string day = Y @ ''-'' @ M @ ''-'' @ D"
    unfolding iso_string_def Let_def n_def [symmetric] y_def [symmetric] doy_def [symmetric]
      m_def [symmetric] d_def [symmetric] Y_def M_def D_def ..
  have L: "length Y = 4" "length M = 2" "length D = 2"
    using length_nat_str_le [of "nat y" 4] length_nat_str_le [of m 2] length_nat_str_le [of "nat d" 2]
      y0 y1 mth dim \<open>d \<le> 31\<close>
    by (auto simp: Y_def M_def D_def length_pad_start)
  have V: "num_of Y = nat y" "num_of M = m" "num_of D = nat d"
    by (simp_all add: Y_def M_def D_def num_of_pad_start num_of_nat_str)
  have G: "list_all is_digit Y" "list_all is_digit M" "list_all is_digit D"
    by (simp_all add: Y_def M_def D_def digits_pad_start digits_nat_str)
  have parts: "take 4 (iso_string day) = Y" "take 2 (drop 5 (iso_string day)) = M" "drop 8 (iso_string day) = D"
    "take 1 (drop 4 (iso_string day)) = ''-''" "take 1 (drop 7 (iso_string day)) = ''-''"
    unfolding s using L by simp_all
  have shape: "iso_shape (iso_string day)"
    using parts G L by (simp add: iso_shape_def s)
  have "iso_y (iso_string day) = y" "iso_m (iso_string day) = m" "iso_d (iso_string day) = d"
    using parts V y0 dim by (simp_all add: iso_y_def iso_m_def iso_d_def)
  moreover have "valid_ymd y m d" using mth dim by (simp add: valid_ymd_def)
  moreover have "day_number y m d = day"
    by (simp add: day_number_def d_def doy_def n_def)
  ultimately show ?thesis using shape by (simp add: iso_day_def)
qed

end
