(* ===== verification/NL_Float.thy ===== *)
theory NL_Float
  imports NL_Prelude
begin

text \<open>
  JavaScript numbers where rounding matters: a non-negative finite double is a pair
  \<open>(m, e)\<close> with value \<open>m / 2^e\<close>; an operation rounds its exact result to 53 significant
  bits, ties to even (IEEE 754 round to nearest). \<open>Math.floor\<close> is exact.
\<close>

type_synonym double = "nat \<times> nat"

fun nbits :: "nat \<Rightarrow> nat" where
  "nbits n = (if n = 0 then 0 else Suc (nbits (n div 2)))"

declare nbits.simps [simp del]

definition round_half_even :: "nat \<Rightarrow> nat \<Rightarrow> nat" where
  "round_half_even m k =
     (let q = m div 2 ^ k; r = m mod 2 ^ k; h = 2 ^ (k - 1)
      in if k = 0 \<or> r < h \<or> (r = h \<and> even q) then q else q + 1)"

definition fl_round :: "nat \<Rightarrow> nat \<Rightarrow> double" where
  "fl_round m e =
     (let k = nbits m - 53; q = round_half_even m k
      in if k \<le> e then (q, e - k) else (q * 2 ^ (k - e), 0))"

definition fl_of_nat :: "nat \<Rightarrow> double" where
  "fl_of_nat n = fl_round n 0"

definition fl_mult :: "double \<Rightarrow> double \<Rightarrow> double" where
  "fl_mult x y = fl_round (fst x * fst y) (snd x + snd y)"

text \<open>\<open>1 - x\<close> for \<open>0 \<le> x \<le> 1\<close>.\<close>

definition fl_one_minus :: "double \<Rightarrow> double" where
  "fl_one_minus x = fl_round (2 ^ snd x - fst x) (snd x)"

text \<open>
  The quotient of two integers: 64 bits beyond the divisor's length and a sticky bit decide the
  rounding.
\<close>

definition fl_quotient :: "nat \<Rightarrow> nat \<Rightarrow> double" where
  "fl_quotient m n =
     (let k = 64 + nbits n; q = m * 2 ^ k div n; sticky = (if n dvd m * 2 ^ k then 0 else 1)
      in fl_round (2 * q + sticky) (k + 1))"

definition fl_floor :: "double \<Rightarrow> nat" where
  "fl_floor x = fst x div 2 ^ snd x"

lemma nbits_bounds: "0 < n \<Longrightarrow> 2 ^ (nbits n - 1) \<le> n \<and> n < 2 ^ nbits n \<and> 0 < nbits n"
proof (induction n rule: nbits.induct)
  case (1 n)
  show ?case
  proof (cases "n div 2 = 0")
    case True
    with 1(2) have "n = 1" by auto
    have "nbits 1 = 1" by (simp add: nbits.simps)
    with \<open>n = 1\<close> show ?thesis by simp
  next
    case False
    with 1 have IH: "2 ^ (nbits (n div 2) - 1) \<le> n div 2" "n div 2 < 2 ^ nbits (n div 2)"
      "0 < nbits (n div 2)" by auto
    from 1(2) have nb: "nbits n = Suc (nbits (n div 2))" by (simp add: nbits.simps [of n])
    obtain j where j: "nbits (n div 2) = Suc j" using IH(3) by (cases "nbits (n div 2)") auto
    have "2 * 2 ^ j \<le> n" using IH(1) unfolding j diff_Suc_1 by linarith
    moreover have "n < 2 * 2 ^ Suc j" using IH(2) unfolding j by linarith
    ultimately show ?thesis by (simp add: nb j)
  qed
qed

lemma nbits_le: "n < 2 ^ k \<Longrightarrow> nbits n \<le> k"
proof (cases "n = 0")
  case True
  then show ?thesis by (simp add: nbits.simps [of 0])
next
  case False
  assume "n < 2 ^ k"
  with nbits_bounds [of n] False have "(2::nat) ^ (nbits n - 1) < 2 ^ k" by linarith
  then have "nbits n - 1 < k" by simp
  then show ?thesis by simp
qed

lemma round_half_even_0 [simp]: "round_half_even m 0 = m"
  by (simp add: round_half_even_def)

lemma round_half_even_ge:
  assumes "c * 2 ^ k < m + 2 ^ (k - 1)" "0 < k"
  shows "c \<le> round_half_even m k"
proof -
  define q r h :: nat where "q = m div 2 ^ k" and "r = m mod 2 ^ k" and "h = 2 ^ (k - 1)"
  have hk: "2 * h = 2 ^ k" using assms(2) by (cases k) (auto simp: h_def)
  have m: "m = q * (2 * h) + r" unfolding hk q_def r_def by (rule div_mult_mod_eq [symmetric])
  have R: "round_half_even m k = (if r < h \<or> (r = h \<and> even q) then q else q + 1)"
    using assms(2) by (simp add: round_half_even_def q_def r_def h_def Let_def)
  show ?thesis
  proof (rule ccontr)
    assume "\<not> c \<le> round_half_even m k"
    then have c: "q + 1 \<le> c" "r < h \<or> (r = h \<and> even q) \<or> q + 2 \<le> c"
      unfolding R by (auto split: if_splits)
    have r2: "r < 2 * h" using hk by (simp add: r_def)
    have cm: "c * (2 * h) < q * (2 * h) + r + h" using assms(1) m hk unfolding h_def by simp
    show False
    proof (cases "q + 2 \<le> c")
      case True
      then have "(q + 2) * (2 * h) \<le> c * (2 * h)" by (intro mult_le_mono1)
      with cm r2 show False by (simp add: algebra_simps)
    next
      case False
      with c have "r \<le> h" "c = q + 1" by auto
      with cm show False by (simp add: algebra_simps)
    qed
  qed
qed

lemma round_half_even_less:
  assumes "m + 2 ^ (k - 1) < c * 2 ^ k" "0 < k"
  shows "round_half_even m k < c"
proof -
  define q r h :: nat where "q = m div 2 ^ k" and "r = m mod 2 ^ k" and "h = 2 ^ (k - 1)"
  have hk: "2 * h = 2 ^ k" using assms(2) by (cases k) (auto simp: h_def)
  have m: "m = q * (2 * h) + r" unfolding hk q_def r_def by (rule div_mult_mod_eq [symmetric])
  have R: "round_half_even m k = (if r < h \<or> (r = h \<and> even q) then q else q + 1)"
    using assms(2) by (simp add: round_half_even_def q_def r_def h_def Let_def)
  have cm: "q * (2 * h) + r + h < c * (2 * h)" using assms(1) m hk unfolding h_def by simp
  have q: "q < c"
  proof (rule ccontr)
    assume "\<not> q < c"
    then have "c * (2 * h) \<le> q * (2 * h)" by (intro mult_le_mono1) simp
    with cm show False by simp
  qed
  have "r < h" if "c = q + 1" using cm that by (simp add: algebra_simps)
  with q show ?thesis unfolding R by (auto intro: Suc_lessI)
qed

text \<open>
  Multiplying an integer \<open>g \<le> 2^48\<close> by the double nearest to the fraction \<open>a/b\<close> and taking
  the floor gives the floor of the exact product, when the double is above the fraction, or
  below it by little enough for the product's rounding to recover the integers.
\<close>

lemma fl_floor_fraction:
  fixes g a b M :: nat
  assumes g: "g \<le> 2 ^ 48" and M: "2 ^ 52 < M" "M < 2 ^ 53" and ab: "a < b" "b \<le> 20"
    and near: "M * b = a * 2 ^ 53 + s \<and> s \<le> 10 \<or>
               M * b + s = a * 2 ^ 53 \<and> s * 2 ^ 54 < b * M"
  shows "fl_floor (fl_mult (g, 0) (M, 53)) = g * a div b"
proof -
  define P k N where "P = g * M" and "k = nbits P - 53" and "N = g * a div b"
  have b0: "0 < b" using ab by simp
  have N: "N * b \<le> g * a" "g * a < (N + 1) * b"
    using div_mult_mod_eq [of "g * a" b] mod_less_divisor [OF b0, of "g * a"]
    unfolding N_def distrib_right by linarith+
  have "P < 2 ^ 48 * 2 ^ 53" if "0 < g"
    using g M that unfolding P_def by (intro mult_le_less_imp_less) auto
  then have Pb: "P < 2 ^ 101" by (cases "g = 0") (auto simp: P_def)
  then have k48: "k \<le> 48" using nbits_le [of P 101] by (simp add: k_def)
  have fl: "fl_floor (fl_mult (g, 0) (M, 53)) = round_half_even P k div 2 ^ (53 - k)"
    using k48 by (simp add: fl_floor_def fl_mult_def fl_round_def Let_def P_def [symmetric] k_def [symmetric])
  show ?thesis
  proof (cases "k = 0")
    case True
    have "P < 2 ^ 53"
    proof (cases "P = 0")
      case False
      then have "P < 2 ^ nbits P" using nbits_bounds [of P] by simp
      also have "\<dots> \<le> 2 ^ 53" using True by (intro power_increasing) (auto simp: k_def)
      finally show ?thesis .
    qed simp
    have "g \<le> 1"
    proof (rule ccontr)
      assume "\<not> g \<le> 1"
      then have "2 * M \<le> P" unfolding P_def by (intro mult_le_mono1) simp
      with \<open>P < 2 ^ 53\<close> M show False by simp
    qed
    then have "g = 0 \<or> g = 1" by linarith
    then have "g * a div b = 0" using ab by auto
    with True \<open>P < 2 ^ 53\<close> show ?thesis unfolding fl by simp
  next
    case False
    then have k0: "0 < k" by simp
    then have P0: "0 < P" by (auto simp: k_def nbits.simps [of 0] intro: ccontr)
    have nb: "nbits P = k + 53" using k0 by (simp add: k_def)
    have Phi: "P < 2 ^ (k + 53)" using nbits_bounds [OF P0] nb by simp
    have pk: "(2::nat) ^ (53 - k) * 2 ^ k = 2 ^ 53" using k48 by (simp flip: power_add)
    have h47: "(2::nat) ^ (k - 1) \<le> 2 ^ 47" using k48 by (intro power_increasing) auto
    have PB: "P * b = g * (M * b)" by (simp add: P_def)
    have lower: "N * 2 ^ 53 < P + 2 ^ (k - 1)"
    proof -
      have "N * b * 2 ^ 53 < P * b + b * 2 ^ (k - 1)"
        using near
      proof
        assume A: "M * b = a * 2 ^ 53 + s \<and> s \<le> 10"
        have "N * b * 2 ^ 53 \<le> g * a * 2 ^ 53" using N(1) by (rule mult_le_mono1)
        also have "\<dots> \<le> P * b" unfolding PB using A by (simp add: algebra_simps)
        finally have "N * b * 2 ^ 53 \<le> P * b" .
        moreover have "0 < b * 2 ^ (k - 1)" using b0 by simp
        ultimately show ?thesis by linarith
      next
        assume B: "M * b + s = a * 2 ^ 53 \<and> s * 2 ^ 54 < b * M"
        have "g * s < b * 2 ^ (k - 1)"
        proof (rule ccontr)
          assume "\<not> g * s < b * 2 ^ (k - 1)"
          then have 1: "b * 2 ^ (k - 1) * M \<le> g * s * M" by (intro mult_le_mono1) simp
          have "g * s * M = s * P" by (simp add: P_def)
          also have "\<dots> \<le> s * 2 ^ (k + 53)" using Phi by (intro mult_le_mono2) simp
          also have "\<dots> = s * 2 ^ 54 * 2 ^ (k - 1)"
            using k0 by (cases k) (simp_all add: power_add)
          finally have 2: "b * 2 ^ (k - 1) * M \<le> s * 2 ^ 54 * 2 ^ (k - 1)" using 1 by (rule order_trans [rotated])
          have "s * 2 ^ 54 * 2 ^ (k - 1) < b * M * 2 ^ (k - 1)"
            using B by (intro mult_strict_right_mono) auto
          also have "b * M * 2 ^ (k - 1) = b * 2 ^ (k - 1) * M" by (simp only: ac_simps)
          finally show False using 2 by linarith
        qed
        moreover have "P * b + g * s = g * a * 2 ^ 53"
          unfolding PB using B by (simp flip: distrib_left)
        moreover have "N * b * 2 ^ 53 \<le> g * a * 2 ^ 53" using N(1) by (rule mult_le_mono1)
        ultimately show ?thesis by linarith
      qed
      then have "b * (N * 2 ^ 53) < b * (P + 2 ^ (k - 1))" by (simp add: algebra_simps)
      then show ?thesis using b0 by simp
    qed
    have upper: "P + 2 ^ (k - 1) < (N + 1) * 2 ^ 53"
    proof -
      have bh: "b * 2 ^ (k - 1) \<le> 20 * 2 ^ 47" using ab h47 by (intro mult_le_mono)
      have "g * (M * b) \<le> g * a * 2 ^ 53 + 10 * 2 ^ 48"
        using near
      proof
        assume A: "M * b = a * 2 ^ 53 + s \<and> s \<le> 10"
        have "g * s \<le> 2 ^ 48 * 10" using A g by (intro mult_le_mono) auto
        with A show ?thesis by (simp add: algebra_simps)
      next
        assume "M * b + s = a * 2 ^ 53 \<and> s * 2 ^ 54 < b * M"
        then have "M * b \<le> a * 2 ^ 53" by linarith
        then have "g * (M * b) \<le> g * (a * 2 ^ 53)" by (rule mult_le_mono2)
        moreover have "g * (a * 2 ^ 53) = g * a * 2 ^ 53" by (rule mult.assoc [symmetric])
        ultimately show ?thesis by linarith
      qed
      moreover have "(g * a + 1) * 2 ^ 53 \<le> (N + 1) * b * 2 ^ 53"
        using N(2) by (intro mult_le_mono1) simp
      ultimately have "P * b + b * 2 ^ (k - 1) < (N + 1) * b * 2 ^ 53"
        using bh unfolding PB by simp
      then have "b * (P + 2 ^ (k - 1)) < b * ((N + 1) * 2 ^ 53)" by (simp add: algebra_simps)
      then show ?thesis using b0 by simp
    qed
    have "N * 2 ^ (53 - k) \<le> round_half_even P k"
      using lower k0 by (intro round_half_even_ge) (simp_all add: mult.assoc pk)
    moreover have "round_half_even P k < (N + 1) * 2 ^ (53 - k)"
      using upper k0 by (intro round_half_even_less) (simp_all only: mult.assoc pk)
    ultimately have "round_half_even P k div 2 ^ (53 - k) = N"
      by (intro div_nat_eqI) (simp_all add: algebra_simps)
    then show ?thesis unfolding fl N_def by simp
  qed
qed

lemma fl_of_nat_exact: "n < 2 ^ 53 \<Longrightarrow> fl_of_nat n = (n, 0)"
  using nbits_le [of n 53] by (simp add: fl_of_nat_def fl_round_def)

end
