(* ===== verification/NL_Domain.thy ===== *)
theory NL_Domain
  imports NL_Dates NL_Float Complex_Main
begin

text \<open>
  The data model: the enumerations and TypeORM entities of \<open>backend/src/**/enums\<close> and
  \<open>**/entities\<close> as datatypes and records, the database with the log of external effects
  (\<open>world\<close>), and the parameters the code takes from outside the repository (\<open>env\<close>).

  Left out of the records: the relation objects (\<open>user\<close>, \<open>workspace\<close>, \<open>hub\<close>), which the
  providers reach through their id columns, and \<open>updatedAt\<close>, which only the database writes.
  Instants are milliseconds since the epoch, \<open>date\<close> columns are day numbers, \<open>bigint\<close> columns
  are \<open>int\<close>.
\<close>

type_synonym uuid = string
type_synonym instant = int

section \<open>Enumerations\<close>

datatype plan_type = DAILY | WEEKLY | MONTHLY | QUARTERLY | YEARLY

datatype booking_status = B_PENDING | B_CONFIRMED | B_CANCELLED | B_COMPLETED | B_EXPIRED

datatype payment_status = P_PENDING | P_SUCCESS | P_FAILED | P_REFUNDED

datatype payment_provider = PAYSTACK | SOROBAN

datatype invoice_status = I_PENDING | I_PAID | I_VOID

datatype user_role = SUPER_ADMIN | ADMIN | STAFF | USER

datatype membership_status = M_ACTIVE | M_INACTIVE | M_SUSPENDED

datatype workspace_type =
  HOT_DESK | DEDICATED_DESK | PRIVATE_OFFICE | MEETING_ROOM | VIRTUAL | HYBRID

datatype notification_type =
    BOOKING_CONFIRMED | BOOKING_CANCELLED | BOOKING_COMPLETED | PAYMENT_SUCCESS | PAYMENT_FAILED
  | PAYMENT_REFUNDED | INVOICE_GENERATED | GENERAL

definition all_plans :: "plan_type list" where
  "all_plans = [DAILY, WEEKLY, MONTHLY, QUARTERLY, YEARLY]"

lemma set_all_plans [simp]: "set all_plans = UNIV"
  using plan_type.nchotomy by (auto simp: all_plans_def)

fun plan_string :: "plan_type \<Rightarrow> string" where
  "plan_string DAILY = ''daily''"
| "plan_string WEEKLY = ''weekly''"
| "plan_string MONTHLY = ''monthly''"
| "plan_string QUARTERLY = ''quarterly''"
| "plan_string YEARLY = ''yearly''"

fun role_string :: "user_role \<Rightarrow> string" where
  "role_string SUPER_ADMIN = ''super_admin''"
| "role_string ADMIN = ''admin''"
| "role_string STAFF = ''staff''"
| "role_string USER = ''user''"

section \<open>JSON values\<close>

text \<open>
  What \<open>JSON.parse\<close> returns; a number is kept as its shortest decimal text, an object as its
  properties in order (the last of two equal names counts, as in \<open>JSON.parse\<close>).
\<close>

datatype json =
    JNull
  | JBool bool
  | JNum string
  | JStr string
  | JArr "json list"
  | JObj "(string \<times> json) list"

text \<open>Property access \<open>v.k\<close>; \<open>None\<close> is \<open>undefined\<close>, null and undefined have no properties.\<close>

definition js_get :: "string \<Rightarrow> json option \<Rightarrow> json option option" where
  "js_get k v =
     (case v of
        None \<Rightarrow> None
      | Some JNull \<Rightarrow> None
      | Some (JObj ps) \<Rightarrow> Some (map_of (rev ps) k)
      | _ \<Rightarrow> Some None)"

definition js_truthy :: "json option \<Rightarrow> bool" where
  "js_truthy v =
     (case v of
        None \<Rightarrow> False
      | Some JNull \<Rightarrow> False
      | Some (JBool b) \<Rightarrow> b
      | Some (JNum n) \<Rightarrow> n \<noteq> ''0''
      | Some (JStr s) \<Rightarrow> s \<noteq> []
      | _ \<Rightarrow> True)"

section \<open>Entities\<close>

record workspace =
  w_id :: uuid
  w_name :: string
  w_type :: workspace_type
  w_totalSeats :: nat
  w_hourlyRate :: nat
  w_description :: "string option"
  w_amenities :: "string list option"
  w_images :: "string list option"
  w_isActive :: bool
  w_createdAt :: instant
  w_hubId :: "uuid option"

record guest_info =
  g_name :: string
  g_email :: string
  g_phone :: string

record booking =
  b_id :: uuid
  b_userId :: "uuid option"
  b_workspaceId :: uuid
  b_planType :: plan_type
  b_startDate :: int
  b_endDate :: int
  b_totalAmount :: nat
  b_status :: booking_status
  b_paymentDeadline :: "instant option"
  b_seatCount :: nat
  b_notes :: "string option"
  b_sorobanEscrowId :: "string option"
  b_reminderSent :: bool
  b_isGuestBooking :: bool
  b_guestInfo :: "guest_info option"
  b_createdAt :: instant
  b_hubId :: "uuid option"

record payment =
  p_id :: uuid
  p_bookingId :: uuid
  p_userId :: "uuid option"
  p_amount :: nat
  p_currency :: string
  p_provider :: payment_provider
  p_providerReference :: "string option"
  p_status :: payment_status
  p_paidAt :: "instant option"
  p_metadata :: "json option"
  p_createdAt :: instant
  p_hubId :: "uuid option"

record line_item =
  li_description :: string
  li_startDate :: "int option"
  li_endDate :: "int option"
  li_seatCount :: nat
  li_amountKobo :: nat

record invoice =
  i_id :: uuid
  i_invoiceNumber :: string
  i_userId :: "uuid option"
  i_bookingId :: uuid
  i_paymentId :: "uuid option"
  i_amountKobo :: nat
  i_currency :: string
  i_status :: invoice_status
  i_paidAt :: "instant option"
  i_lineItems :: "line_item list"
  i_createdAt :: instant
  i_hubId :: "uuid option"

text \<open>A credential of \<open>passkeyCredentials\<close>; its other members are constants.\<close>

record passkey_credential =
  pc_id :: string
  pc_publicKey :: string
  pc_counter :: int
  pc_transports :: "string list"
  pc_fmt :: string

record user =
  u_id :: uuid
  u_firstname :: string
  u_lastname :: string
  u_username :: "string option"
  u_email :: string
  u_password :: "string option"
  u_role :: user_role
  u_passwordResetToken :: "string option"
  u_passwordResetExpiresIn :: "instant option"
  u_lastPasswordResetSentAt :: "instant option"
  u_verificationToken :: "string option"
  u_verificationTokenExpiry :: "instant option"
  u_lastVerificationEmailSent :: "instant option"
  u_verificationCode :: "string option"
  u_verificationCodeExpiresAt :: "instant option"
  u_passwordResetCode :: "string option"
  u_passwordResetCodeExpiresAt :: "instant option"
  u_isVerified :: bool
  u_isActive :: bool
  u_isDeleted :: bool
  u_isSuspended :: bool
  u_profilePicture :: "string option"
  u_phone :: "string option"
  u_createdAt :: instant
  u_twoFactorEnabled :: bool
  u_totpSecret :: "string option"
  u_totpBackupCodes :: "string list option"
  u_passkeyCredentials :: "passkey_credential list option"
  u_membershipStatus :: membership_status
  u_memberSince :: "instant option"
  u_profileCompleteness :: int
  u_deletedAt :: "instant option"
  u_hubId :: "uuid option"

text \<open>\<open>get fullName()\<close>: the trimmed first and last name.\<close>

definition fullName :: "user \<Rightarrow> string" where
  "fullName u = trim (u_firstname u @ '' '' @ u_lastname u)"

record refresh_token =
  t_id :: uuid
  t_userId :: uuid
  t_token :: string
  t_familyId :: string
  t_version :: nat
  t_expiresAt :: "instant option"
  t_revoked :: bool
  t_consumedAt :: "instant option"

record workspace_log =
  l_id :: uuid
  l_userId :: uuid
  l_workspaceId :: uuid
  l_bookingId :: "uuid option"
  l_checkedInAt :: instant
  l_checkedOutAt :: "instant option"
  l_durationMinutes :: "int option"
  l_notes :: "string option"
  l_biometricTemplateHash :: "string option"
  l_biometricStorageReference :: "string option"
  l_biometricProcessingLocation :: "string option"
  l_biometricVendor :: "string option"
  l_hubId :: "uuid option"

record audit_log =
  a_actorId :: "uuid option"
  a_actorEmail :: "string option"
  a_actorRole :: "string option"
  a_action :: string
  a_targetType :: "string option"
  a_targetId :: "string option"

section \<open>External effects\<close>

datatype mail =
    BookingCreatedMail | BookingCancelledMail | PaymentSuccessMail | PaymentFailedMail
  | InvoiceReadyMail | VerificationMail | PasswordResetMail | FamilyRevokedMail
  | PasswordResetLinkMail | PasswordResetSuccessMail

datatype metric =
    WebhookRaceWin string
  | WebhookStaleIgnored string
  | WebhookSuccessAfterTerminal
  | WebhookFailureAfterSuccess
  | SorobanEscrowFailure string

text \<open>
  What an operation does outside the database: mails it queues (with the recipient), Prometheus
  counters, calls to Paystack, user notifications, transactions sent to the Soroban network.
\<close>

datatype effect =
    Mail mail string
  | Metric metric
  | PaystackInitialize string nat string
  | PaystackRefund "string option"
  | Notify uuid notification_type
  | SorobanSend string

section \<open>The database and its transactions\<close>

record world =
  users :: "user list"
  workspaces :: "workspace list"
  bookings :: "booking list"
  payments :: "payment list"
  invoices :: "invoice list"
  logs :: "workspace_log list"
  tokens :: "refresh_token list"
  audit :: "audit_log list"
  inv_seq :: nat
  fx :: "effect list"

definition emit :: "effect \<Rightarrow> world \<Rightarrow> world" where
  "emit e w = w\<lparr>fx := fx w @ [e]\<rparr>"

text \<open>
  \<open>dataSource.transaction\<close>: on an exception the transaction's tables go back to their values at
  its start. Effects outside the database stay, and so does a sequence's counter
  (\<open>nextval\<close> is not transactional) and the audit log, which its service writes through its own
  repository, not through the transaction's manager.
\<close>

definition rollback :: "world \<Rightarrow> world \<Rightarrow> world" where
  "rollback w w' =
     w\<lparr>inv_seq := inv_seq w', audit := audit w', fx := fx w'\<rparr>"

definition transaction :: "(world \<Rightarrow> 'a result \<times> world) \<Rightarrow> world \<Rightarrow> 'a result \<times> world" where
  "transaction body w =
     (case body w of
        (Inl e, w') \<Rightarrow> (Inl e, rollback w w')
      | (Inr x, w') \<Rightarrow> (Inr x, w'))"

lemma transaction_Inr [simp]:
  "body w = (Inr x, w') \<Longrightarrow> transaction body w = (Inr x, w')"
  by (simp add: transaction_def)

lemma transaction_Inl:
  "transaction body w = (Inl e, w'') \<Longrightarrow>
   \<exists>w'. body w = (Inl e, w') \<and> w'' = rollback w w'"
  by (auto simp: transaction_def split: prod.splits sum.splits)

lemma rollback_tables [simp]:
  "users (rollback w w') = users w" "workspaces (rollback w w') = workspaces w"
  "bookings (rollback w w') = bookings w" "payments (rollback w w') = payments w"
  "invoices (rollback w w') = invoices w" "logs (rollback w w') = logs w"
  "tokens (rollback w w') = tokens w" "audit (rollback w w') = audit w'"
  "fx (rollback w w') = fx w'"
  by (simp_all add: rollback_def)

lemma rollback_same [simp]: "rollback w w = w"
  by (simp add: rollback_def)

lemma emit_tables [simp]:
  "users (emit e w) = users w" "workspaces (emit e w) = workspaces w"
  "bookings (emit e w) = bookings w" "payments (emit e w) = payments w"
  "invoices (emit e w) = invoices w" "logs (emit e w) = logs w"
  "tokens (emit e w) = tokens w" "audit (emit e w) = audit w" "inv_seq (emit e w) = inv_seq w"
  "fx (emit e w) = fx w @ [e]"
  by (simp_all add: emit_def)

section \<open>Parameters from outside the repository\<close>

text \<open>
  \<open>env\<close> holds what the code takes from third-party packages, services and the configuration
  while one request is served:
  the clock, the ids the database generates, \<open>ConfigService\<close> (\<open>config_num k\<close> is
  \<open>Number(get(k))\<close> when that is finite), the date forms ECMAScript leaves to the engine and
  PostgreSQL's other date and timestamp inputs, \<open>JSON.parse\<close> (\<open>None\<close> is a \<open>SyntaxError\<close>) and
  the text the database driver sends for a JSON value (\<open>sql_text\<close>), Paystack's answers, the
  cryptographic primitives, and four
  documented conventions of TypeORM and its PostgreSQL driver:
  \<^item> \<open>null_ignored\<close>: a null or undefined value in a \<open>find\<close> condition drops the condition;
  \<^item> \<open>undefined_skipped\<close>: \<open>save\<close> leaves the column of an undefined property as it is;
  \<^item> \<open>soft_hidden\<close>: \<open>find\<close> does not see rows whose \<open>@DeleteDateColumn\<close> is set;
  \<^item> \<open>bigint_strings\<close>: a \<open>bigint\<close> column is read back as a JavaScript string.
\<close>

record env =
  now :: instant
  uuid1 :: uuid
  uuid2 :: uuid
  config :: "string \<Rightarrow> string option"
  config_num :: "string \<Rightarrow> rat option"
  date_ext :: "string \<Rightarrow> int option"
  pg_date_ext :: "string \<Rightarrow> int option"
  pg_timestamp :: "string \<Rightarrow> int option"
  json_parse :: "string \<Rightarrow> json option"
  sql_text :: "json \<Rightarrow> string"
  null_ignored :: bool
  undefined_skipped :: bool
  soft_hidden :: bool
  bigint_strings :: bool
  paystack_initialize :: "string \<Rightarrow> nat \<Rightarrow> string \<Rightarrow> (string \<times> string) result"
  paystack_refund :: "string option \<Rightarrow> unit result"
  hmac_sha512 :: "string \<Rightarrow> string \<Rightarrow> string"
  sha256 :: "string \<Rightarrow> string"
  bcrypt_hash :: "string \<Rightarrow> string"
  bcrypt_compare :: "string \<Rightarrow> string \<Rightarrow> bool"

text \<open>An equality condition of a \<open>find\<close>, on a column that may be null.\<close>

definition where_eq :: "env \<Rightarrow> 'v option \<Rightarrow> 'v option \<Rightarrow> bool" where
  "where_eq env v col =
     (case v of Some x \<Rightarrow> col = Some x | None \<Rightarrow> null_ignored env \<or> col = None)"

text \<open>\<open>usersRepository.findOne\<close>, with the soft-deleted rows hidden.\<close>

definition find_user :: "env \<Rightarrow> (user \<Rightarrow> bool) \<Rightarrow> world \<Rightarrow> user option" where
  "find_user env P w =
     find_one (\<lambda>u. (soft_hidden env \<longrightarrow> u_deletedAt u = None) \<and> P u) (users w)"

text \<open>
  \<open>usersRepository.save\<close>: the column \<open>password\<close> is \<open>NOT NULL\<close>
  (\<open>user.entity.ts\<close>, \<open>BaselineSchema\<close>), a null there is rejected by the database.
\<close>

definition save_user :: "user \<Rightarrow> world \<Rightarrow> unit result \<times> world" where
  "save_user u w =
     (if u_password u = None then (Inl (DbError ''null value in column password''), w)
      else (Inr (), w\<lparr>users := save_row u_id u (users w)\<rparr>))"

definition find_booking :: "uuid \<Rightarrow> world \<Rightarrow> booking option" where
  "find_booking k w = find_by b_id k (bookings w)"

definition find_payment :: "uuid \<Rightarrow> world \<Rightarrow> payment option" where
  "find_payment k w = find_by p_id k (payments w)"

definition find_workspace :: "uuid \<Rightarrow> world \<Rightarrow> workspace option" where
  "find_workspace k w = find_by w_id k (workspaces w)"

definition save_booking :: "booking \<Rightarrow> world \<Rightarrow> world" where
  "save_booking b w = w\<lparr>bookings := save_row b_id b (bookings w)\<rparr>"

definition save_payment :: "payment \<Rightarrow> world \<Rightarrow> world" where
  "save_payment p w = w\<lparr>payments := save_row p_id p (payments w)\<rparr>"

definition save_workspace :: "workspace \<Rightarrow> world \<Rightarrow> world" where
  "save_workspace x w = w\<lparr>workspaces := save_row w_id x (workspaces w)\<rparr>"

text \<open>The entity tables satisfy the repository interface.\<close>

interpretation booking_repo: repository find_booking save_booking b_id
  by unfold_locales
    (auto simp: find_booking_def save_booking_def find_by_def find_one_save_same find_one_save_other
       dest: find_one_SomeD)

interpretation payment_repo: repository find_payment save_payment p_id
  by unfold_locales
    (auto simp: find_payment_def save_payment_def find_by_def find_one_save_same find_one_save_other
       dest: find_one_SomeD)

interpretation workspace_repo: repository find_workspace save_workspace w_id
  by unfold_locales
    (auto simp: find_workspace_def save_workspace_def find_by_def find_one_save_same find_one_save_other
       dest: find_one_SomeD)

section \<open>Well-formed databases\<close>

text \<open>Primary keys are unique.\<close>

definition wf_world :: "world \<Rightarrow> bool" where
  "wf_world w \<longleftrightarrow>
     uniq_keys u_id (users w) \<and> uniq_keys w_id (workspaces w) \<and> uniq_keys b_id (bookings w) \<and>
     uniq_keys p_id (payments w)"

lemma save_booking_frame [simp]:
  "users (save_booking b w) = users w" "workspaces (save_booking b w) = workspaces w"
  "payments (save_booking b w) = payments w" "invoices (save_booking b w) = invoices w"
  "logs (save_booking b w) = logs w" "tokens (save_booking b w) = tokens w"
  "audit (save_booking b w) = audit w" "fx (save_booking b w) = fx w"
  "inv_seq (save_booking b w) = inv_seq w"
  "bookings (save_booking b w) = save_row b_id b (bookings w)"
  by (simp_all add: save_booking_def)

lemma save_payment_frame [simp]:
  "users (save_payment p w) = users w" "workspaces (save_payment p w) = workspaces w"
  "bookings (save_payment p w) = bookings w" "invoices (save_payment p w) = invoices w"
  "logs (save_payment p w) = logs w" "tokens (save_payment p w) = tokens w"
  "audit (save_payment p w) = audit w" "fx (save_payment p w) = fx w"
  "inv_seq (save_payment p w) = inv_seq w"
  "payments (save_payment p w) = save_row p_id p (payments w)"
  by (simp_all add: save_payment_def)

lemma save_user_frame:
  assumes "save_user u w = (r, w')"
  shows "workspaces w' = workspaces w" "bookings w' = bookings w" "payments w' = payments w"
    "invoices w' = invoices w" "logs w' = logs w" "tokens w' = tokens w" "audit w' = audit w"
    "fx w' = fx w" "inv_seq w' = inv_seq w"
  using assms by (auto simp: save_user_def split: if_splits)

lemma wf_save_booking: "wf_world w \<Longrightarrow> wf_world (save_booking b w)"
  by (simp add: wf_world_def uniq_keys_def distinct_save_row)

lemma wf_save_payment: "wf_world w \<Longrightarrow> wf_world (save_payment p w)"
  by (simp add: wf_world_def uniq_keys_def distinct_save_row)

lemma wf_save_user: "wf_world w \<Longrightarrow> save_user u w = (r, w') \<Longrightarrow> wf_world w'"
  by (auto simp: wf_world_def uniq_keys_def distinct_save_row save_user_def split: if_splits)

lemma find_booking_iff:
  "wf_world w \<Longrightarrow> find_booking k w = Some b \<longleftrightarrow> b \<in> set (bookings w) \<and> b_id b = k"
  by (simp add: wf_world_def uniq_keys_def find_booking_def find_by_def find_one_key_iff)

lemma find_payment_iff:
  "wf_world w \<Longrightarrow> find_payment k w = Some p \<longleftrightarrow> p \<in> set (payments w) \<and> p_id p = k"
  by (simp add: wf_world_def uniq_keys_def find_payment_def find_by_def find_one_key_iff)

lemma find_workspace_iff:
  "wf_world w \<Longrightarrow> find_workspace k w = Some x \<longleftrightarrow> x \<in> set (workspaces w) \<and> w_id x = k"
  by (simp add: wf_world_def uniq_keys_def find_workspace_def find_by_def find_one_key_iff)

section \<open>Roles\<close>

definition is_staff_role :: "user_role \<Rightarrow> bool" where
  "is_staff_role r \<longleftrightarrow> r = ADMIN \<or> r = SUPER_ADMIN \<or> r = STAFF"

lemma is_staff_role_cases: "is_staff_role r \<longleftrightarrow> r \<noteq> USER"
  by (cases r) (simp_all add: is_staff_role_def)

section \<open>Pagination\<close>

text \<open>
  \<open>ORDER BY createdAt DESC\<close> (ties in storage order), \<open>skip((page - 1) * limit)\<close>,
  \<open>take(limit)\<close>. PostgreSQL rejects a negative offset or limit; a limit of zero is falsy, and
  TypeORM then adds no \<open>LIMIT\<close> to the query.
\<close>

definition paginate :: "int \<Rightarrow> int \<Rightarrow> 'r list \<Rightarrow> 'r list result" where
  "paginate page lmt rows =
     (if (page - 1) * lmt < 0 \<or> lmt < 0 then Inl (DbError ''OFFSET must not be negative'')
      else if lmt = 0 then Inr rows
      else Inr (take (nat lmt) (drop (nat ((page - 1) * lmt)) rows)))"

definition newest_first :: "('r \<Rightarrow> instant) \<Rightarrow> 'r list \<Rightarrow> 'r list" where
  "newest_first created rows = sort_key (\<lambda>r. - created r) rows"

text \<open>\<open>Math.ceil(total / limit)\<close>, for the positive limits the query classes admit.\<close>

definition total_pages :: "nat \<Rightarrow> nat \<Rightarrow> nat" where
  "total_pages cnt lmt = (cnt + lmt - 1) div lmt"

lemma paginate_ok:
  "1 \<le> page \<Longrightarrow> 1 \<le> lmt \<Longrightarrow>
   paginate page lmt rows = Inr (take (nat lmt) (drop (nat ((page - 1) * lmt)) rows))"
  by (auto simp: paginate_def mult_less_0_iff)

lemma paginate_subset: "paginate page lmt rows = Inr xs \<Longrightarrow> set xs \<subseteq> set rows"
  by (auto simp: paginate_def split: if_splits dest!: in_set_takeD in_set_dropD)

lemma paginate_length: "paginate page lmt rows = Inr xs \<Longrightarrow> lmt \<noteq> 0 \<Longrightarrow> length xs \<le> nat lmt"
  by (auto simp: paginate_def split: if_splits)

lemma concat_chunks:
  "concat (map (\<lambda>i. take n (drop (i * n) xs)) [0..<k]) = take (k * n) xs"
proof (induction k)
  case 0
  then show ?case by simp
next
  case (Suc k)
  then show ?case by (simp add: take_add add.commute [of n])
qed

text \<open>The pages, in order, are the whole list.\<close>

lemma pages_partition:
  assumes "0 < n"
  shows "concat (map (\<lambda>i. take n (drop (i * n) xs)) [0..<total_pages (length xs) n]) = xs"
proof -
  have "length xs \<le> total_pages (length xs) n * n"
  proof -
    have "length xs + n - 1 < (total_pages (length xs) n + 1) * n"
      unfolding total_pages_def using assms
      by (metis Suc_eq_plus1 dividend_less_div_times mult.commute mult_Suc add.commute)
    then show ?thesis using assms by simp
  qed
  then show ?thesis by (simp add: concat_chunks)
qed

end
