(* ===== verification/NL_Sample.thy ===== *)
theory NL_Sample
  imports NL_Domain
begin

text \<open>
  A concrete environment and database, on which the theorems' witnesses are evaluated: one active
  workspace of two seats, a member, a staff member and an administrator, no bookings yet, on
  2026-01-01. The third-party parameters are simple functions; the conventions of TypeORM and its
  driver are the documented ones.
\<close>

definition sample_env :: env where
  "sample_env =
     \<lparr>now = 1767225600000, uuid1 = ''id1'', uuid2 = ''id2'',
      config = (\<lambda>k. if k = ''PAYSTACK_SECRET_KEY'' then Some ''sk'' else None),
      config_num = (\<lambda>_. None), date_ext = (\<lambda>_. None), pg_date_ext = (\<lambda>_. None),
      pg_timestamp = (\<lambda>_. None),
      json_parse = (\<lambda>s. if s = ''ok'' then
           Some (JObj [(''event'', JStr ''charge.success''), (''data'', JObj [(''reference'', JStr ''id3'')])])
         else None),
      sql_text = (\<lambda>_. []), null_ignored = True, undefined_skipped = True, soft_hidden = True,
      bigint_strings = True, paystack_initialize = (\<lambda>_ _ r. Inr (''url'', r)),
      paystack_refund = (\<lambda>_. Inr ()), hmac_sha512 = (\<lambda>k m. k @ m), sha256 = (\<lambda>s. ''h'' @ s),
      bcrypt_hash = (\<lambda>s. s), bcrypt_compare = (=)\<rparr>"

definition sample_workspace :: workspace where
  "sample_workspace =
     \<lparr>w_id = ''ws1'', w_name = ''Loft'', w_type = HOT_DESK, w_totalSeats = 2, w_hourlyRate = 1,
      w_description = None, w_amenities = None, w_images = None, w_isActive = True, w_createdAt = 0,
      w_hubId = None\<rparr>"

definition sample_user :: "uuid \<Rightarrow> string \<Rightarrow> user_role \<Rightarrow> user" where
  "sample_user k mailbox role =
     \<lparr>u_id = k, u_firstname = ''Ada'', u_lastname = ''Obi'', u_username = None, u_email = mailbox,
      u_password = Some ''pw'', u_role = role, u_passwordResetToken = None,
      u_passwordResetExpiresIn = None, u_lastPasswordResetSentAt = None, u_verificationToken = None,
      u_verificationTokenExpiry = None, u_lastVerificationEmailSent = None, u_verificationCode = None,
      u_verificationCodeExpiresAt = None, u_passwordResetCode = None,
      u_passwordResetCodeExpiresAt = None, u_isVerified = True, u_isActive = True, u_isDeleted = False,
      u_isSuspended = False, u_profilePicture = None, u_phone = None, u_createdAt = 0,
      u_twoFactorEnabled = False, u_totpSecret = None, u_totpBackupCodes = None,
      u_passkeyCredentials = None, u_membershipStatus = M_INACTIVE, u_memberSince = None,
      u_profileCompleteness = 0, u_deletedAt = None, u_hubId = None\<rparr>"

definition sample_world :: world where
  "sample_world =
     \<lparr>users = [sample_user ''admin'' ''admin@nova'' ADMIN, sample_user ''ada'' ''ada@nova'' USER,
               sample_user ''staff'' ''staff@nova'' STAFF],
      workspaces = [sample_workspace], bookings = [], payments = [], invoices = [], logs = [],
      tokens = [], audit = [], inv_seq = 0, fx = []\<rparr>"

end
