(* ===== verification/Pricing.thy ===== *)
theory Pricing
  imports NL_Sample
begin

text \<open>
  \<open>backend/src/bookings/pricing/pricing.service.ts\<close>: the price of a booking in kobo, computed
  in doubles, and the plan summary of the price-estimate endpoint. The lemmas show that the
  floating-point result is the exact discounted amount rounded down.
\<close>

definition PLAN_WORKING_HOURS :: nat where
  "PLAN_WORKING_HOURS = 8"

fun PLAN_DAYS :: "plan_type \<Rightarrow> nat" where
  "PLAN_DAYS DAILY = 1"
| "PLAN_DAYS WEEKLY = 5"
| "PLAN_DAYS MONTHLY = 22"
| "PLAN_DAYS QUARTERLY = 66"
| "PLAN_DAYS YEARLY = 264"

text \<open>The doubles the literals \<open>0\<close>, \<open>0.05\<close>, \<open>0.1\<close>, \<open>0.15\<close> and \<open>0.2\<close> denote.\<close>

fun PLAN_DISCOUNT :: "plan_type \<Rightarrow> double" where
  "PLAN_DISCOUNT DAILY = (0, 0)"
| "PLAN_DISCOUNT WEEKLY = (3602879701896397, 56)"
| "PLAN_DISCOUNT MONTHLY = (3602879701896397, 55)"
| "PLAN_DISCOUNT QUARTERLY = (5404319552844595, 55)"
| "PLAN_DISCOUNT YEARLY = (3602879701896397, 54)"

text \<open>
  The days of a \<open>DAILY\<close> booking: \<open>Math.max(1, Math.ceil(diffMs / 86400000))\<close>. With an invalid
  date the difference is \<open>NaN\<close>, and so are the days and the price (\<open>None\<close>).
\<close>

definition ceil_div :: "int \<Rightarrow> int \<Rightarrow> int" where
  "ceil_div a b = - ((- a) div b)"

definition daily_days :: "env \<Rightarrow> string \<Rightarrow> string \<Rightarrow> nat option" where
  "daily_days env startDate endDate =
     (case (js_date_ms (date_ext env) startDate, js_date_ms (date_ext env) endDate) of
        (Some start, Some stop) \<Rightarrow> Some (nat (max 1 (ceil_div (stop - start) ms_per_day)))
      | _ \<Rightarrow> None)"

definition plan_days :: "env \<Rightarrow> plan_type \<Rightarrow> string \<Rightarrow> string \<Rightarrow> nat option" where
  "plan_days env planType startDate endDate =
     (if planType = DAILY then daily_days env startDate endDate else Some (PLAN_DAYS planType))"

text \<open>
  \<open>Math.floor(gross * (1 - discount))\<close>; the product \<open>gross\<close> of integers is exact while it stays
  below \<open>2^53\<close>.
\<close>

definition discounted :: "plan_type \<Rightarrow> nat \<Rightarrow> nat" where
  "discounted planType gross =
     fl_floor (fl_mult (fl_of_nat gross) (fl_one_minus (PLAN_DISCOUNT planType)))"

definition calculateAmount ::
  "env \<Rightarrow> nat \<Rightarrow> plan_type \<Rightarrow> nat \<Rightarrow> string \<Rightarrow> string \<Rightarrow> nat option" where
  "calculateAmount env hourlyRateKobo planType seatCount startDate endDate =
     (case plan_days env planType startDate endDate of
        None \<Rightarrow> None
      | Some days \<Rightarrow>
          Some (discounted planType (hourlyRateKobo * PLAN_WORKING_HOURS * days * seatCount)))"

text \<open>
  \<open>getPlanSummary\<close>: the days and \<open>discount * 100\<close>, again a double.
\<close>

definition getPlanSummary :: "plan_type \<Rightarrow> nat \<times> double" where
  "getPlanSummary planType = (PLAN_DAYS planType, fl_mult (PLAN_DISCOUNT planType) (100, 0))"

section \<open>The discounts as exact fractions\<close>

fun discount_percent :: "plan_type \<Rightarrow> nat" where
  "discount_percent DAILY = 0"
| "discount_percent WEEKLY = 5"
| "discount_percent MONTHLY = 10"
| "discount_percent QUARTERLY = 15"
| "discount_percent YEARLY = 20"

text \<open>Evaluating the bit length of a numeral.\<close>

lemma nbits_eq: "2 ^ k \<le> n \<Longrightarrow> n < 2 ^ Suc k \<Longrightarrow> nbits n = Suc k"
proof -
  assume a: "2 ^ k \<le> n" "n < 2 ^ Suc k"
  then have "0 < n" using less_le_trans [of 0 "2 ^ k" n] by simp
  have "2 ^ (nbits n - 1) \<le> n" "n < 2 ^ nbits n" using nbits_bounds [OF \<open>0 < n\<close>] by auto
  with a have "(2::nat) ^ (nbits n - 1) < 2 ^ Suc k" "(2::nat) ^ k < 2 ^ nbits n" by linarith+
  then have "nbits n - 1 < Suc k" "k < nbits n"
    using power_strict_increasing_iff [of "2::nat"] by (simp_all del: power_Suc)
  then show ?thesis by simp
qed

lemma one_minus_discount:
  "fl_one_minus (PLAN_DISCOUNT WEEKLY) = (8556839292003942, 53)"
  "fl_one_minus (PLAN_DISCOUNT MONTHLY) = (8106479329266893, 53)"
  "fl_one_minus (PLAN_DISCOUNT QUARTERLY) = (7656119366529843, 53)"
  "fl_one_minus (PLAN_DISCOUNT YEARLY) = (7205759403792794, 53)"
proof -
  have "nbits 68454714336031539 = 56" using nbits_eq [of 55 68454714336031539] by simp
  then show "fl_one_minus (PLAN_DISCOUNT WEEKLY) = (8556839292003942, 53)"
    by (simp add: fl_one_minus_def fl_round_def round_half_even_def)
  have "nbits 32425917317067571 = 55" using nbits_eq [of 54 32425917317067571] by simp
  then show "fl_one_minus (PLAN_DISCOUNT MONTHLY) = (8106479329266893, 53)"
    by (simp add: fl_one_minus_def fl_round_def round_half_even_def)
  have "nbits 30624477466119373 = 55" using nbits_eq [of 54 30624477466119373] by simp
  then show "fl_one_minus (PLAN_DISCOUNT QUARTERLY) = (7656119366529843, 53)"
    by (simp add: fl_one_minus_def fl_round_def round_half_even_def)
  have "nbits 14411518807585587 = 54" using nbits_eq [of 53 14411518807585587] by simp
  then show "fl_one_minus (PLAN_DISCOUNT YEARLY) = (7205759403792794, 53)"
    by (simp add: fl_one_minus_def fl_round_def round_half_even_def)
qed

lemma one_minus_daily: "fl_one_minus (PLAN_DISCOUNT DAILY) = (1, 0)"
  using nbits_eq [of 0 1] by (simp add: fl_one_minus_def fl_round_def)

lemma floor_percent:
  "g * 19 div 20 = g * 95 div 100" "g * 9 div 10 = g * 90 div 100"
  "g * 17 div 20 = g * 85 div 100" "g * 4 div 5 = g * 80 div 100" for g :: nat
  using div_mult_mult1 [of 5 "g * 19" 20] div_mult_mult1 [of 10 "g * 9" 10]
    div_mult_mult1 [of 5 "g * 17" 20] div_mult_mult1 [of 20 "g * 4" 5]
  by (simp_all add: mult.commute mult.left_commute)

lemma discounted_exact:
  assumes "gross \<le> 2 ^ 48"
  shows "discounted planType gross = gross * (100 - discount_percent planType) div 100"
proof -
  have g: "fl_of_nat gross = (gross, 0)" using assms by (intro fl_of_nat_exact) simp
  note frac = fl_floor_fraction [OF assms]
  show ?thesis
  proof (cases planType)
    case DAILY
    have "nbits gross \<le> 53" using assms by (intro nbits_le) simp
    then show ?thesis using DAILY
      by (simp add: discounted_def g one_minus_daily [simplified] fl_floor_def fl_mult_def fl_round_def)
  next
    case WEEKLY
    then show ?thesis
      using frac [of 8556839292003942 19 20 8]
      by (simp add: discounted_def g one_minus_discount [simplified] floor_percent)
  next
    case MONTHLY
    then show ?thesis
      using frac [of 8106479329266893 9 10 2]
      by (simp add: discounted_def g one_minus_discount [simplified] floor_percent)
  next
    case QUARTERLY
    then show ?thesis
      using frac [of 7656119366529843 17 20 4]
      by (simp add: discounted_def g one_minus_discount [simplified] floor_percent)
  next
    case YEARLY
    then show ?thesis
      using frac [of 7205759403792794 4 5 2]
      by (simp add: discounted_def g one_minus_discount [simplified] floor_percent)
  qed
qed

lemma discounted_le: "gross \<le> 2 ^ 48 \<Longrightarrow> discounted planType gross \<le> gross"
proof -
  assume a: "gross \<le> 2 ^ 48"
  have "gross * (100 - discount_percent planType) div 100 \<le> gross * 100 div 100"
    by (intro div_le_mono mult_le_mono2) simp
  with a show ?thesis by (simp add: discounted_exact)
qed

section \<open>Days of a daily booking\<close>

lemma ceil_div_exact: "0 < b \<Longrightarrow> ceil_div (a * b) b = a"
proof -
  assume "0 < b"
  moreover have "- (a * b) = (- a) * b" by simp
  ultimately show ?thesis by (simp only: ceil_div_def nonzero_mult_div_cancel_right)
qed

lemma daily_days_iso:
  assumes "iso_day s = Some a" "iso_day t = Some b"
  shows "daily_days env s t = Some (nat (max 1 (b - a)))"
proof -
  have "ceil_div (b * ms_per_day - a * ms_per_day) ms_per_day = b - a"
    using ceil_div_exact [of ms_per_day "b - a"] by (simp add: ms_per_day_def left_diff_distrib)
  then show ?thesis using assms by (simp add: daily_days_def js_date_ms_def)
qed

text \<open>C36: the price, in doubles, is the exact discounted price rounded down to a kobo.\<close>

theorem calculateAmount_exact:
  assumes "plan_days env planType startDate endDate = Some days"
    and "hourlyRateKobo * 8 * days * seatCount \<le> 2 ^ 48"
  shows "calculateAmount env hourlyRateKobo planType seatCount startDate endDate =
         Some (hourlyRateKobo * 8 * days * seatCount * (100 - discount_percent planType) div 100)"
  using assms by (simp add: calculateAmount_def PLAN_WORKING_HOURS_def discounted_exact)


theorem calculateAmount_exact_witness:
  "calculateAmount sample_env 50000 MONTHLY 2 ''2026-01-05'' ''2026-02-05'' = Some 15840000"
  using calculateAmount_exact [of sample_env MONTHLY "''2026-01-05''" "''2026-02-05''" 22 50000 2]
  by (simp add: plan_days_def)

end
