(* ===== verification/Expiry_Policy.thy ===== *)
theory Expiry_Policy
  imports NL_Sample
begin

text \<open>
  \<open>backend/src/bookings/providers/booking-expiry.policy.ts\<close>: the payment deadline of a pending
  booking, from the plan's TTL in minutes (an environment variable, or the default table).
\<close>

fun DEFAULT_PAYMENT_TTL_MINUTES :: "plan_type \<Rightarrow> int" where
  "DEFAULT_PAYMENT_TTL_MINUTES DAILY = 60"
| "DEFAULT_PAYMENT_TTL_MINUTES WEEKLY = 360"
| "DEFAULT_PAYMENT_TTL_MINUTES MONTHLY = 1440"
| "DEFAULT_PAYMENT_TTL_MINUTES QUARTERLY = 2880"
| "DEFAULT_PAYMENT_TTL_MINUTES YEARLY = 4320"

definition MIN_TTL_MINUTES :: rat where
  "MIN_TTL_MINUTES = 1"

definition to_upper :: "string \<Rightarrow> string" where
  "to_upper s = map (\<lambda>c. if is_lower c then char_of ((of_char c :: nat) - 32) else c) s"

definition ttl_env_key :: "plan_type \<Rightarrow> string" where
  "ttl_env_key planType = ''BOOKING_PAYMENT_TTL_'' @ to_upper (plan_string planType) @ ''_MINUTES''"

text \<open>\<open>parsed\<close> is \<open>Number(configured)\<close>; an unset, \<open>NaN\<close> or infinite value is \<open>None\<close>.\<close>

definition ttlMinutesFor :: "env \<Rightarrow> plan_type \<Rightarrow> int" where
  "ttlMinutesFor env planType =
     (case config_num env (ttl_env_key planType) of
        Some parsed \<Rightarrow> if MIN_TTL_MINUTES \<le> parsed then \<lfloor>parsed\<rfloor>
                       else DEFAULT_PAYMENT_TTL_MINUTES planType
      | None \<Rightarrow> DEFAULT_PAYMENT_TTL_MINUTES planType)"

definition deadlineFor :: "env \<Rightarrow> plan_type \<Rightarrow> instant \<Rightarrow> instant" where
  "deadlineFor env planType from = from + ttlMinutesFor env planType * 60000"

definition effectiveDeadline :: "env \<Rightarrow> booking \<Rightarrow> instant" where
  "effectiveDeadline env b =
     (case b_paymentDeadline b of
        Some d \<Rightarrow> d
      | None \<Rightarrow> deadlineFor env (b_planType b) (b_createdAt b))"

lemma ttlMinutesFor_pos: "1 \<le> ttlMinutesFor env planType"
proof -
  have "1 \<le> DEFAULT_PAYMENT_TTL_MINUTES planType" by (cases planType) simp_all
  then show ?thesis
    by (auto simp: ttlMinutesFor_def MIN_TTL_MINUTES_def le_floor_iff split: option.splits)
qed

text \<open>a deadline lies at least one minute after the moment it is counted from.\<close>

theorem deadlineFor_after: "from + 60000 \<le> deadlineFor env planType from"
  using ttlMinutesFor_pos [of env planType] by (simp add: deadlineFor_def)

text \<open>The five environment variables are different, so each plan has its own TTL.\<close>

lemma ttl_env_key_inj: "ttl_env_key p = ttl_env_key q \<longleftrightarrow> p = q"
  by (cases p; cases q)
    (simp_all add: ttl_env_key_def to_upper_def is_lower_def char_of_def)

end
