(* ===== verification/Workspaces.thy ===== *)
theory Workspaces
  imports NL_Sample
begin

text \<open>
  \<open>backend/src/workspaces\<close>: creating, finding, updating and deactivating workspaces, the list
  with its filters, the seat accounting every booking path shares
  (\<open>seat-availability.provider.ts\<close>) and the availability endpoint.

  The locale \<open>seat_accounting\<close> is the contract between the seat accounting and the booking
  paths: the seats counted for a window cover every day of it, and a saved booking adds its own
  seats at most.
\<close>

section \<open>Requests\<close>

record create_workspace_dto =
  cw_name :: string
  cw_type :: workspace_type
  cw_totalSeats :: nat
  cw_hourlyRate :: nat
  cw_description :: "string option"
  cw_amenities :: "string list option"
  cw_images :: "string list option"

text \<open>The fields of a partial update that are present.\<close>

record update_workspace_dto =
  uw_name :: "string option"
  uw_type :: "workspace_type option"
  uw_totalSeats :: "nat option"
  uw_hourlyRate :: "nat option"
  uw_description :: "string option"
  uw_amenities :: "string list option"
  uw_images :: "string list option"
  uw_isActive :: "bool option"

record workspace_query =
  wq_page :: "int option"
  wq_limit :: "int option"
  wq_type :: "workspace_type option"
  wq_minSeats :: "nat option"
  wq_maxRate :: "nat option"
  wq_search :: "string option"

record 'r paginated =
  pg_data :: "'r list"
  pg_total :: nat
  pg_page :: int
  pg_limit :: int
  pg_totalPages :: nat

section \<open>Find, create, update, deactivate\<close>

definition workspace_findById :: "uuid \<Rightarrow> world \<Rightarrow> workspace result" where
  "workspace_findById k w =
     (case find_workspace k w of
        None \<Rightarrow> Inl (NotFound ''Workspace not found'')
      | Some x \<Rightarrow> Inr x)"

definition create_workspace :: "env \<Rightarrow> create_workspace_dto \<Rightarrow> world \<Rightarrow> workspace result \<times> world" where
  "create_workspace env dto w =
     (case find_one (\<lambda>x. w_name x = cw_name dto \<and> w_isActive x) (workspaces w) of
        Some _ \<Rightarrow> (Inl (Conflict ''A workspace with this name already exists''), w)
      | None \<Rightarrow>
          let x = \<lparr>w_id = uuid1 env, w_name = cw_name dto, w_type = cw_type dto,
                   w_totalSeats = cw_totalSeats dto, w_hourlyRate = cw_hourlyRate dto,
                   w_description = cw_description dto, w_amenities = cw_amenities dto,
                   w_images = cw_images dto, w_isActive = True, w_createdAt = now env,
                   w_hubId = None\<rparr>
          in (Inr x, save_workspace x w))"

text \<open>\<open>Object.assign(workspace, dto)\<close>: a field that is absent leaves the old value.\<close>

definition or_else :: "'a option \<Rightarrow> 'a \<Rightarrow> 'a" where
  "or_else v d = (case v of Some x \<Rightarrow> x | None \<Rightarrow> d)"

definition assign_workspace :: "update_workspace_dto \<Rightarrow> workspace \<Rightarrow> workspace" where
  "assign_workspace dto x =
     x\<lparr>w_name := or_else (uw_name dto) (w_name x),
       w_type := or_else (uw_type dto) (w_type x),
       w_totalSeats := or_else (uw_totalSeats dto) (w_totalSeats x),
       w_hourlyRate := or_else (uw_hourlyRate dto) (w_hourlyRate x),
       w_description := (if uw_description dto = None then w_description x else uw_description dto),
       w_amenities := (if uw_amenities dto = None then w_amenities x else uw_amenities dto),
       w_images := (if uw_images dto = None then w_images x else uw_images dto),
       w_isActive := or_else (uw_isActive dto) (w_isActive x)\<rparr>"

definition update_workspace :: "uuid \<Rightarrow> update_workspace_dto \<Rightarrow> world \<Rightarrow> workspace result \<times> world" where
  "update_workspace k dto w =
     (case workspace_findById k w of
        Inl e \<Rightarrow> (Inl e, w)
      | Inr x \<Rightarrow> let x' = assign_workspace dto x in (Inr x', save_workspace x' w))"

definition softDelete :: "uuid \<Rightarrow> world \<Rightarrow> unit result \<times> world" where
  "softDelete k w =
     (case workspace_findById k w of
        Inl e \<Rightarrow> (Inl e, w)
      | Inr x \<Rightarrow> (Inr (), save_workspace (x\<lparr>w_isActive := False\<rparr>) w))"

section \<open>The list endpoint\<close>

text \<open>
  SQL's \<open>LIKE\<close>: \<open>%\<close> matches any string, \<open>_\<close> any character, a backslash quotes the next
  character of the pattern.
\<close>

fun sql_like :: "string \<Rightarrow> string \<Rightarrow> bool" where
  "sql_like [] s = (s = [])"
| "sql_like (p # ps) s =
     (if p = CHR ''%'' then
        sql_like ps s \<or> (case s of [] \<Rightarrow> False | _ # cs \<Rightarrow> sql_like (p # ps) cs)
      else case s of
        [] \<Rightarrow> False
      | c # cs \<Rightarrow>
          if p = CHR ''_'' then sql_like ps cs
          else if p = CHR 0x5C then
            (case ps of [] \<Rightarrow> False | q # qs \<Rightarrow> q = c \<and> sql_like qs cs)
          else p = c \<and> sql_like ps cs)"

definition matches_search :: "string \<Rightarrow> workspace \<Rightarrow> bool" where
  "matches_search search x =
     (let pat = ''%'' @ to_lower search @ ''%''
      in sql_like pat (to_lower (w_name x)) \<or>
         (case w_description x of None \<Rightarrow> False | Some d \<Rightarrow> sql_like pat (to_lower d)))"

text \<open>An absent filter, and a falsy one (\<open>0\<close>, the empty string), adds no condition.\<close>

definition workspace_filter :: "workspace_query \<Rightarrow> bool \<Rightarrow> workspace \<Rightarrow> bool" where
  "workspace_filter q adminView x \<longleftrightarrow>
     (adminView \<or> w_isActive x) \<and>
     (case wq_type q of None \<Rightarrow> True | Some t \<Rightarrow> w_type x = t) \<and>
     (case wq_minSeats q of None \<Rightarrow> True | Some n \<Rightarrow> n = 0 \<or> n \<le> w_totalSeats x) \<and>
     (case wq_maxRate q of None \<Rightarrow> True | Some n \<Rightarrow> n = 0 \<or> w_hourlyRate x \<le> n) \<and>
     (case wq_search q of None \<Rightarrow> True | Some s \<Rightarrow> s = [] \<or> matches_search s x)"

definition workspaces_findAll :: "workspace_query \<Rightarrow> bool \<Rightarrow> world \<Rightarrow> workspace paginated result" where
  "workspaces_findAll q adminView w =
     (let page = or_else (wq_page q) 1; lmt = or_else (wq_limit q) 20;
          rows = filter (workspace_filter q adminView) (workspaces w)
      in case paginate page lmt (newest_first w_createdAt rows) of
           Inl e \<Rightarrow> Inl e
         | Inr xs \<Rightarrow> Inr \<lparr>pg_data = xs, pg_total = length rows, pg_page = page, pg_limit = lmt,
                          pg_totalPages = total_pages (length rows) (nat lmt)\<rparr>)"

section \<open>Seat accounting\<close>

definition holds_seats :: "booking \<Rightarrow> bool" where
  "holds_seats b \<longleftrightarrow> b_status b = B_PENDING \<or> b_status b = B_CONFIRMED"

definition overlaps :: "int \<Rightarrow> int \<Rightarrow> booking \<Rightarrow> bool" where
  "overlaps startDate endDate b \<longleftrightarrow> b_startDate b \<le> endDate \<and> startDate \<le> b_endDate b"

text \<open>\<open>COALESCE(SUM(b.seatCount), 0)\<close> over the live bookings that overlap the window.\<close>

definition booked_sum :: "uuid \<Rightarrow> int \<Rightarrow> int \<Rightarrow> booking list \<Rightarrow> nat" where
  "booked_sum k startDate endDate rows =
     sum_where (\<lambda>b. b_workspaceId b = k \<and> holds_seats b \<and> overlaps startDate endDate b) b_seatCount rows"

definition bookedSeats :: "env \<Rightarrow> uuid \<Rightarrow> string \<Rightarrow> string \<Rightarrow> world \<Rightarrow> nat result" where
  "bookedSeats env k startDate endDate w =
     (case (pg_date (pg_date_ext env) startDate, pg_date (pg_date_ext env) endDate) of
        (Some s, Some e) \<Rightarrow> Inr (booked_sum k s e (bookings w))
      | _ \<Rightarrow> Inl (DbError ''invalid input syntax for type date''))"

definition availableSeats :: "env \<Rightarrow> uuid \<Rightarrow> nat \<Rightarrow> string \<Rightarrow> string \<Rightarrow> world \<Rightarrow> nat result" where
  "availableSeats env k totalSeats startDate endDate w =
     (case bookedSeats env k startDate endDate w of
        Inl e \<Rightarrow> Inl e
      | Inr booked \<Rightarrow> Inr (nat (max 0 (int totalSeats - int booked))))"

text \<open>The seats held on one day.\<close>

definition seats_held :: "uuid \<Rightarrow> int \<Rightarrow> booking list \<Rightarrow> nat" where
  "seats_held k day rows =
     sum_where (\<lambda>b. b_workspaceId b = k \<and> holds_seats b \<and> b_startDate b \<le> day \<and> day \<le> b_endDate b)
       b_seatCount rows"

locale seat_accounting =
  fixes held :: "'k \<Rightarrow> int \<Rightarrow> 't \<Rightarrow> nat"
    and booked :: "'k \<Rightarrow> int \<Rightarrow> int \<Rightarrow> 't \<Rightarrow> nat"
    and put :: "'b \<Rightarrow> 't \<Rightarrow> 't"
    and place :: "'b \<Rightarrow> 'k"
    and first_day :: "'b \<Rightarrow> int"
    and last_day :: "'b \<Rightarrow> int"
    and seats :: "'b \<Rightarrow> nat"
    and ok :: "'t \<Rightarrow> bool"
  assumes booked_covers: "s \<le> d \<Longrightarrow> d \<le> e \<Longrightarrow> held k d t \<le> booked k s e t"
    and held_put: "ok t \<Longrightarrow>
       held k d (put b t) \<le> held k d t +
         (if place b = k \<and> first_day b \<le> d \<and> d \<le> last_day b then seats b else 0)"
begin

text \<open>A booking path that passes the capacity check keeps every day within the capacity.\<close>

lemma put_within_capacity:
  assumes "ok t" and "\<And>d. held k d t \<le> cap"
    and check: "place b = k \<Longrightarrow> booked k (first_day b) (last_day b) t + seats b \<le> cap"
  shows "held k d (put b t) \<le> cap"
proof (cases "place b = k \<and> first_day b \<le> d \<and> d \<le> last_day b")
  case True
  then have "held k d (put b t) \<le> booked k (first_day b) (last_day b) t + seats b"
    using held_put [OF assms(1), of k d b] booked_covers [of "first_day b" d "last_day b" k t] by simp
  with check True show ?thesis by simp
next
  case False
  then show ?thesis using held_put [OF assms(1), of k d b] assms(2) [of d] by auto
qed

end

lemma seats_held_le_booked:
  "s \<le> d \<Longrightarrow> d \<le> e \<Longrightarrow> seats_held k d rows \<le> booked_sum k s e rows"
  unfolding seats_held_def booked_sum_def by (rule sum_where_mono) (auto simp: overlaps_def)

lemma seats_held_save_le:
  assumes "uniq_keys b_id rows"
  shows "seats_held k d (save_row b_id b rows) \<le> seats_held k d rows +
    (if b_workspaceId b = k \<and> b_startDate b \<le> d \<and> d \<le> b_endDate b then b_seatCount b else 0)"
  using sum_where_save_row_le [OF assms [unfolded uniq_keys_def],
      of "\<lambda>b. b_workspaceId b = k \<and> holds_seats b \<and> b_startDate b \<le> d \<and> d \<le> b_endDate b" b_seatCount b]
  unfolding seats_held_def by (simp split: if_splits)

interpretation seat: seat_accounting seats_held booked_sum "save_row b_id" b_workspaceId
    b_startDate b_endDate b_seatCount "uniq_keys b_id"
  by unfold_locales (simp_all add: seats_held_le_booked seats_held_save_le)

text \<open>A booking's change of status frees seats, or keeps them.\<close>

lemma seats_held_update_le:
  assumes "\<And>b. U b \<Longrightarrow> b_workspaceId (f b) = b_workspaceId b \<and> b_seatCount (f b) = b_seatCount b \<and>
     b_startDate (f b) = b_startDate b \<and> b_endDate (f b) = b_endDate b"
    and "\<And>b. U b \<Longrightarrow> holds_seats (f b) \<Longrightarrow> holds_seats b"
  shows "seats_held k d (update_where U f rows) \<le> seats_held k d rows"
  unfolding seats_held_def using assms by (intro sum_where_update_le) auto

section \<open>The availability endpoint\<close>

record availability_result =
  av_available :: bool
  av_availableSeats :: nat
  av_totalSeats :: nat
  av_message :: "string option"

definition today :: "env \<Rightarrow> string" where
  "today env = iso_today (now env)"

definition resolveWindow :: "env \<Rightarrow> string option \<Rightarrow> string option \<Rightarrow> (string \<times> string) result" where
  "resolveWindow env startOpt endOpt =
     (let startDate = or_else startOpt (today env); endDate = or_else endOpt startDate
      in if \<not> iso_shape startDate \<or> \<not> iso_shape endDate
         then Inl (BadRequest ''Dates must be YYYY-MM-DD strings'')
         else if str_less endDate startDate
         then Inl (BadRequest ''startDate must not be after endDate'')
         else Inr (startDate, endDate))"

text \<open>
  \<open>requestedSeats\<close> is a number, \<open>None\<close> for \<open>NaN\<close> and the infinities;
  \<open>!Number.isInteger(n) || n < 1\<close> refuses it.
\<close>

definition seats_requested :: "rat option \<Rightarrow> nat option" where
  "seats_requested r =
     (case r of None \<Rightarrow> None
      | Some q \<Rightarrow> if of_int \<lfloor>q\<rfloor> = q \<and> 1 \<le> q then Some (nat \<lfloor>q\<rfloor>) else None)"

definition check_availability ::
  "env \<Rightarrow> uuid \<Rightarrow> rat option \<Rightarrow> string option \<Rightarrow> string option \<Rightarrow> world \<Rightarrow> availability_result result" where
  "check_availability env workspaceId requestedSeats startOpt endOpt w =
     (case seats_requested requestedSeats of
        None \<Rightarrow> Inl (BadRequest ''requestedSeats must be a positive integer'')
      | Some n \<Rightarrow>
     (case resolveWindow env startOpt endOpt of
        Inl e \<Rightarrow> Inl e
      | Inr (startDate, endDate) \<Rightarrow>
     (case workspace_findById workspaceId w of
        Inl e \<Rightarrow> Inl e
      | Inr x \<Rightarrow>
          if \<not> w_isActive x
          then Inr \<lparr>av_available = False, av_availableSeats = 0, av_totalSeats = w_totalSeats x,
                    av_message = Some ''Workspace is not active''\<rparr>
          else case availableSeats env workspaceId (w_totalSeats x) startDate endDate w of
                 Inl e \<Rightarrow> Inl e
               | Inr free \<Rightarrow>
                   Inr \<lparr>av_available = (n \<le> free), av_availableSeats = free,
                        av_totalSeats = w_totalSeats x,
                        av_message = (if n \<le> free then None
                          else Some (''Only '' @ nat_str free @ '' seats available''))\<rparr>)))"

section \<open>Properties\<close>

lemma workspace_findById_Inr: "workspace_findById k w = Inr x \<longleftrightarrow> find_workspace k w = Some x"
  by (auto simp: workspace_findById_def split: option.splits)

lemma update_workspace_frame:
  "update_workspace k dto w = (r, w') \<Longrightarrow>
   bookings w' = bookings w \<and> payments w' = payments w \<and> users w' = users w"
  by (auto simp: update_workspace_def save_workspace_def Let_def split: sum.splits)

text \<open>Deactivating keeps the row and its id: the workspace is still found, inactive.\<close>

lemma softDelete_inactive:
  assumes "find_workspace k w = Some x"
  shows "\<exists>w'. softDelete k w = (Inr (), w') \<and> find_workspace k w' = Some (x\<lparr>w_isActive := False\<rparr>)"
  using workspace_repo.load_modify_save [OF assms, of "\<lambda>x. x\<lparr>w_isActive := False\<rparr>"] assms
  by (simp add: softDelete_def workspace_findById_def)

definition active_names :: "world \<Rightarrow> string list" where
  "active_names w = map w_name (filter w_isActive (workspaces w))"

text \<open>No two active workspaces share a name after a workspace is created.\<close>

theorem create_workspace_unique_name:
  assumes "distinct (active_names w)" and "uuid1 env \<notin> w_id ` set (workspaces w)"
    and "create_workspace env dto w = (r, w')"
  shows "distinct (active_names w')"
  using assms
  by (auto simp: create_workspace_def active_names_def save_workspace_def save_row_fresh Let_def
      find_one_None_iff split: option.splits)

text \<open>The public list shows active workspaces only, at most a page of them.\<close>

theorem findAll_public:
  assumes "workspaces_findAll q False w = Inr p" and "wq_limit q \<noteq> Some 0"
  shows "(\<forall>x\<in>set (pg_data p). w_isActive x \<and> x \<in> set (workspaces w)) \<and>
         length (pg_data p) \<le> nat (pg_limit p)"
proof -
  let ?rows = "filter (workspace_filter q False) (workspaces w)"
  from assms(1) have p: "paginate (pg_page p) (pg_limit p) (newest_first w_createdAt ?rows) = Inr (pg_data p)"
    "pg_limit p = or_else (wq_limit q) 20"
    by (auto simp: workspaces_findAll_def Let_def split: sum.splits)
  have "pg_limit p \<noteq> 0" using p(2) assms(2) by (simp add: or_else_def split: option.splits)
  with paginate_length [OF p(1)] have "length (pg_data p) \<le> nat (pg_limit p)" by simp
  moreover have "set (pg_data p) \<subseteq> set ?rows"
    using paginate_subset [OF p(1)] by (simp add: newest_first_def)
  ultimately show ?thesis by (auto simp: workspace_filter_def)
qed


section \<open>Witnesses\<close>

definition sample_cw :: create_workspace_dto where
  "sample_cw = \<lparr>cw_name = ''Annex'', cw_type = MEETING_ROOM, cw_totalSeats = 4, cw_hourlyRate = 2,
     cw_description = None, cw_amenities = None, cw_images = None\<rparr>"

definition sample_wq :: workspace_query where
  "sample_wq = \<lparr>wq_page = None, wq_limit = Some 1, wq_type = None, wq_minSeats = None, wq_maxRate = None,
     wq_search = Some ''LO''\<rparr>"

theorem create_workspace_unique_name_witness:
  "distinct (active_names (snd (create_workspace sample_env sample_cw sample_world)))"
proof -
  have "distinct (active_names sample_world)" "uuid1 sample_env \<notin> w_id ` set (workspaces sample_world)"
    by (code_simp, code_simp)
  from create_workspace_unique_name [OF this prod.collapse [symmetric]] show ?thesis .
qed

theorem findAll_public_witness:
  "\<exists>p. workspaces_findAll sample_wq False sample_world = Inr p \<and> length (pg_data p) \<le> nat (pg_limit p) \<and>
     list_all w_isActive (pg_data p)"
proof -
  have "is_ok (workspaces_findAll sample_wq False sample_world)" by code_simp
  then obtain p where p: "workspaces_findAll sample_wq False sample_world = Inr p" by (auto simp: is_ok_iff)
  with findAll_public [OF p] show ?thesis by (simp add: sample_wq_def list_all_iff)
qed

end
