(* ===== verification/Bookings.thy ===== *)
theory Bookings
  imports Pricing Expiry_Policy Workspaces
begin

text \<open>
  \<open>backend/src/bookings/providers\<close>: creating a booking, the public day pass, confirming,
  cancelling, completing, re-confirming an expired booking, and the queries. Every provider is
  one definition on the database, in the order of its checks. Mails the code sends without
  waiting are recorded at the point where they are started.
\<close>

section \<open>Requests\<close>

record create_booking_dto =
  cb_workspaceId :: uuid
  cb_planType :: plan_type
  cb_startDate :: string
  cb_endDate :: string
  cb_seatCount :: nat
  cb_notes :: "string option"

record create_public_booking_dto =
  cp_guestName :: string
  cp_guestEmail :: string
  cp_guestPhone :: string
  cp_workspaceId :: uuid
  cp_date :: string

record booking_query =
  bq_page :: "int option"
  bq_limit :: "int option"
  bq_status :: "booking_status option"
  bq_workspaceId :: "uuid option"
  bq_userId :: "uuid option"
  bq_startDate :: "string option"
  bq_endDate :: "string option"

section \<open>Creating a booking\<close>

text \<open>The locked workspace row, or the exception of the two creation paths.\<close>

definition bookable_workspace :: "uuid \<Rightarrow> world \<Rightarrow> workspace result" where
  "bookable_workspace k w =
     (case find_workspace k w of
        None \<Rightarrow> Inl (NotFound ''Workspace not found'')
      | Some x \<Rightarrow> if w_isActive x then Inr x else Inl (BadRequest ''Workspace is not active''))"

text \<open>
  \<open>new Date(dto.endDate) <= new Date(dto.startDate)\<close>: a comparison with an invalid date is false.
\<close>

definition end_not_after_start :: "env \<Rightarrow> string \<Rightarrow> string \<Rightarrow> bool" where
  "end_not_after_start env startDate endDate =
     (case (js_date_ms (date_ext env) startDate, js_date_ms (date_ext env) endDate) of
        (Some s, Some e) \<Rightarrow> e \<le> s
      | _ \<Rightarrow> False)"

text \<open>
  \<open>manager.save(booking)\<close>: the database parses the dates, and refuses the price of an invalid
  date (\<open>NaN\<close> is no \<open>bigint\<close>).
\<close>

definition insert_booking ::
  "env \<Rightarrow> string \<Rightarrow> string \<Rightarrow> nat option \<Rightarrow> (int \<Rightarrow> int \<Rightarrow> nat \<Rightarrow> booking) \<Rightarrow> world \<Rightarrow> booking result \<times> world" where
  "insert_booking env startDate endDate amount mk w =
     (case (pg_date (pg_date_ext env) startDate, pg_date (pg_date_ext env) endDate, amount) of
        (Some s, Some e, Some a) \<Rightarrow> (Inr (mk s e a), save_booking (mk s e a) w)
      | _ \<Rightarrow> (Inl (DbError ''invalid input syntax''), w))"

definition new_booking :: "env \<Rightarrow> create_booking_dto \<Rightarrow> uuid \<Rightarrow> int \<Rightarrow> int \<Rightarrow> nat \<Rightarrow> booking" where
  "new_booking env dto userId s e amount =
     \<lparr>b_id = uuid1 env, b_userId = Some userId, b_workspaceId = cb_workspaceId dto,
      b_planType = cb_planType dto, b_startDate = s, b_endDate = e, b_totalAmount = amount,
      b_status = B_PENDING, b_paymentDeadline = Some (deadlineFor env (cb_planType dto) (now env)),
      b_seatCount = cb_seatCount dto, b_notes = cb_notes dto, b_sorobanEscrowId = None,
      b_reminderSent = False, b_isGuestBooking = False, b_guestInfo = None,
      b_createdAt = now env, b_hubId = None\<rparr>"

definition mail_user :: "env \<Rightarrow> mail \<Rightarrow> uuid option \<Rightarrow> world \<Rightarrow> world" where
  "mail_user env m userId w =
     (case find_user env (\<lambda>u. where_eq env userId (Some (u_id u))) w of
        None \<Rightarrow> w
      | Some u \<Rightarrow> emit (Mail m (u_email u)) w)"

definition create_booking ::
  "env \<Rightarrow> create_booking_dto \<Rightarrow> uuid \<Rightarrow> world \<Rightarrow> booking result \<times> world" where
  "create_booking env dto userId w =
     (if end_not_after_start env (cb_startDate dto) (cb_endDate dto)
      then (Inl (BadRequest ''endDate must be after startDate''), w)
      else transaction (\<lambda>w.
       (case bookable_workspace (cb_workspaceId dto) w of
          Inl e \<Rightarrow> (Inl e, w)
        | Inr x \<Rightarrow>
       (case bookedSeats env (cb_workspaceId dto) (cb_startDate dto) (cb_endDate dto) w of
          Inl e \<Rightarrow> (Inl e, w)
        | Inr alreadyBooked \<Rightarrow>
            if alreadyBooked + cb_seatCount dto > w_totalSeats x
            then (Inl (Conflict ''Not enough seats available for the requested dates''), w)
            else
              let amount = calculateAmount env (w_hourlyRate x) (cb_planType dto)
                     (cb_seatCount dto) (cb_startDate dto) (cb_endDate dto)
              in case insert_booking env (cb_startDate dto) (cb_endDate dto) amount
                        (new_booking env dto userId) w of
                   (Inl e, w') \<Rightarrow> (Inl e, w')
                 | (Inr saved, w') \<Rightarrow>
                     (Inr saved, mail_user env BookingCreatedMail (Some userId) w')))) w)"

section \<open>The public day pass\<close>

definition new_day_pass :: "env \<Rightarrow> create_public_booking_dto \<Rightarrow> int \<Rightarrow> int \<Rightarrow> nat \<Rightarrow> booking" where
  "new_day_pass env dto s e amount =
     \<lparr>b_id = uuid1 env, b_userId = None, b_workspaceId = cp_workspaceId dto, b_planType = DAILY,
      b_startDate = s, b_endDate = e, b_totalAmount = amount, b_status = B_PENDING,
      b_paymentDeadline = Some (deadlineFor env DAILY (now env)), b_seatCount = 1, b_notes = None,
      b_sorobanEscrowId = None, b_reminderSent = False, b_isGuestBooking = True,
      b_guestInfo = Some \<lparr>g_name = cp_guestName dto, g_email = cp_guestEmail dto,
                          g_phone = cp_guestPhone dto\<rparr>,
      b_createdAt = now env, b_hubId = None\<rparr>"

definition new_payment :: "env \<Rightarrow> uuid \<Rightarrow> uuid \<Rightarrow> uuid option \<Rightarrow> nat \<Rightarrow> payment" where
  "new_payment env k bookingId userId amount =
     \<lparr>p_id = k, p_bookingId = bookingId, p_userId = userId, p_amount = amount,
      p_currency = ''NGN'', p_provider = PAYSTACK, p_providerReference = None,
      p_status = P_PENDING, p_paidAt = None, p_metadata = None, p_createdAt = now env,
      p_hubId = None\<rparr>"

record payment_session =
  ps_paymentId :: uuid
  ps_authorizationUrl :: string
  ps_reference :: string

text \<open>
  Create the payment row, open the Paystack transaction with its id as the reference, store the
  reference Paystack answers.
\<close>

definition open_payment ::
  "env \<Rightarrow> uuid \<Rightarrow> uuid \<Rightarrow> uuid option \<Rightarrow> nat \<Rightarrow> string \<Rightarrow> world \<Rightarrow> payment_session result \<times> world" where
  "open_payment env k bookingId userId amount email w =
     (let p = new_payment env k bookingId userId amount; w1 = save_payment p w;
          w2 = emit (PaystackInitialize email amount k) w1
      in case paystack_initialize env email amount k of
           Inl e \<Rightarrow> (Inl e, w2)
         | Inr (url, reference) \<Rightarrow>
             (Inr \<lparr>ps_paymentId = k, ps_authorizationUrl = url, ps_reference = reference\<rparr>,
              save_payment (p\<lparr>p_providerReference := Some reference\<rparr>) w2))"

definition create_public_day_pass ::
  "env \<Rightarrow> create_public_booking_dto \<Rightarrow> world \<Rightarrow> (uuid \<times> payment_session) result \<times> world" where
  "create_public_day_pass env dto w =
     (if str_less (cp_date dto) (today env)
      then (Inl (BadRequest ''date must be today or a future date''), w)
      else transaction (\<lambda>w.
       (case bookable_workspace (cp_workspaceId dto) w of
          Inl e \<Rightarrow> (Inl e, w)
        | Inr x \<Rightarrow>
       (case bookedSeats env (cp_workspaceId dto) (cp_date dto) (cp_date dto) w of
          Inl e \<Rightarrow> (Inl e, w)
        | Inr alreadyBooked \<Rightarrow>
            if alreadyBooked + 1 > w_totalSeats x
            then (Inl (Conflict ''No seats available for the requested date''), w)
            else
              let amount = calculateAmount env (w_hourlyRate x) DAILY 1 (cp_date dto) (cp_date dto)
              in case insert_booking env (cp_date dto) (cp_date dto) amount
                        (new_day_pass env dto) w of
                   (Inl e, w') \<Rightarrow> (Inl e, w')
                 | (Inr savedBooking, w') \<Rightarrow>
                    (case open_payment env (uuid2 env) (b_id savedBooking) None
                            (b_totalAmount savedBooking) (cp_guestEmail dto) w' of
                       (Inl e, w'') \<Rightarrow> (Inl e, w'')
                     | (Inr session, w'') \<Rightarrow> (Inr (b_id savedBooking, session), w''))))) w)"

section \<open>Confirming\<close>

definition is_falsy_id :: "uuid option \<Rightarrow> bool" where
  "is_falsy_id k \<longleftrightarrow> k = None \<or> k = Some []"

definition activateMembershipIfNeeded :: "env \<Rightarrow> uuid option \<Rightarrow> world \<Rightarrow> unit result \<times> world" where
  "activateMembershipIfNeeded env userId w =
     (if is_falsy_id userId then (Inr (), w)
      else case find_user env (\<lambda>u. where_eq env userId (Some (u_id u))) w of
             None \<Rightarrow> (Inr (), w)
           | Some u \<Rightarrow>
               if u_memberSince u = None
               then save_user (u\<lparr>u_memberSince := Some (now env), u_membershipStatus := M_ACTIVE\<rparr>) w
               else (Inr (), w))"

text \<open>\<open>UPDATE bookings SET status = :to WHERE id = :id AND status = :from\<close>.\<close>

definition booking_cas :: "uuid \<Rightarrow> booking_status \<Rightarrow> booking_status \<Rightarrow> world \<Rightarrow> nat \<times> world" where
  "booking_cas k from to w =
     (let (n, rows) = cas_by b_id b_status k from (\<lambda>b. b\<lparr>b_status := to\<rparr>) (bookings w)
      in (n, w\<lparr>bookings := rows\<rparr>))"

definition confirm_booking :: "env \<Rightarrow> uuid \<Rightarrow> world \<Rightarrow> booking result \<times> world" where
  "confirm_booking env bookingId w =
     (let (affected, w1) = booking_cas bookingId B_PENDING B_CONFIRMED w
      in if affected = 0
         then case find_booking bookingId w1 of
                None \<Rightarrow> (Inl (NotFound ''Booking not found''), w1)
              | Some current \<Rightarrow>
                  if b_status current = B_CONFIRMED then (Inr current, w1)
                  else (Inl (BadRequest ''Only PENDING bookings can be confirmed''), w1)
         else case find_booking bookingId w1 of
                None \<Rightarrow> (Inl (NotFound ''Booking not found''), w1)
              | Some b \<Rightarrow>
                  (case activateMembershipIfNeeded env (b_userId b) w1 of
                     (Inl e, w2) \<Rightarrow> (Inl e, w2)
                   | (Inr _, w2) \<Rightarrow> (Inr b, w2)))"

section \<open>Cancelling and completing\<close>

definition cancel_booking ::
  "env \<Rightarrow> uuid \<Rightarrow> uuid \<Rightarrow> user_role \<Rightarrow> world \<Rightarrow> booking result \<times> world" where
  "cancel_booking env bookingId userId userRole w =
     (case find_booking bookingId w of
        None \<Rightarrow> (Inl (NotFound ''Booking not found''), w)
      | Some b \<Rightarrow>
          let isAdmin = is_staff_role userRole
          in if \<not> isAdmin \<and> b_userId b \<noteq> Some userId
             then (Inl (Forbidden ''You can only cancel your own bookings''), w)
             else if b_status b \<noteq> B_PENDING \<and> b_status b \<noteq> B_CONFIRMED
             then (Inl (BadRequest ''Only PENDING or CONFIRMED bookings can be cancelled''), w)
             else let saved = b\<lparr>b_status := B_CANCELLED\<rparr>; w1 = save_booking saved w
                  in (Inr saved,
                      if find_workspace (b_workspaceId saved) w1 = None then w1
                      else mail_user env BookingCancelledMail (b_userId saved) w1))"

definition complete_booking :: "uuid \<Rightarrow> world \<Rightarrow> booking result \<times> world" where
  "complete_booking bookingId w =
     (case find_booking bookingId w of
        None \<Rightarrow> (Inl (NotFound ''Booking not found''), w)
      | Some b \<Rightarrow>
          if b_status b \<noteq> B_CONFIRMED
          then (Inl (BadRequest ''Only CONFIRMED bookings can be completed''), w)
          else let saved = b\<lparr>b_status := B_COMPLETED\<rparr> in (Inr saved, save_booking saved w))"

section \<open>Re-confirming an expired booking\<close>

definition other_booked_sum :: "booking \<Rightarrow> booking list \<Rightarrow> nat" where
  "other_booked_sum b rows =
     sum_where (\<lambda>x. b_workspaceId x = b_workspaceId b \<and> b_id x \<noteq> b_id b \<and> holds_seats x \<and>
                    overlaps (b_startDate b) (b_endDate b) x) b_seatCount rows"

text \<open>The callback of the transaction, then the provider.\<close>

definition reactivate_body :: "env \<Rightarrow> uuid \<Rightarrow> world \<Rightarrow> booking option result \<times> world" where
  "reactivate_body env bookingId w =
    (case find_booking bookingId w of
       None \<Rightarrow> (Inl (NotFound ''Booking not found''), w)
     | Some b \<Rightarrow>
         if b_status b \<noteq> B_EXPIRED
         then if b_status b = B_CONFIRMED then (Inr (Some b), w)
              else (Inl (NotFound ''Booking is not EXPIRED''), w)
         else case find_workspace (b_workspaceId b) w of
                None \<Rightarrow> (Inl (NotFound ''Workspace not found''), w)
              | Some x \<Rightarrow>
                  if other_booked_sum b (bookings w) + b_seatCount b > w_totalSeats x
                  then (Inr None, w)
                  else let saved = b\<lparr>b_status := B_CONFIRMED\<rparr>; w1 = save_booking saved w
                       in case activateMembershipIfNeeded env (b_userId saved) w1 of
                            (Inl e, w2) \<Rightarrow> (Inl e, w2)
                          | (Inr _, w2) \<Rightarrow> (Inr (Some saved), w2))"

definition reactivateExpired :: "env \<Rightarrow> uuid \<Rightarrow> world \<Rightarrow> booking option result \<times> world" where
  "reactivateExpired env bookingId = transaction (reactivate_body env bookingId)"

section \<open>Queries\<close>

text \<open>A date filter: absent or empty adds no condition, a malformed date is a query error.\<close>

definition query_date :: "env \<Rightarrow> string option \<Rightarrow> int option result" where
  "query_date env s =
     (case s of None \<Rightarrow> Inr None
      | Some t \<Rightarrow> if t = [] then Inr None
                  else case pg_date (pg_date_ext env) t of
                         None \<Rightarrow> Inl (DbError ''invalid input syntax for type date'')
                       | Some d \<Rightarrow> Inr (Some d))"

definition owner_filter :: "booking_query \<Rightarrow> uuid \<Rightarrow> user_role \<Rightarrow> booking \<Rightarrow> bool" where
  "owner_filter q userId userRole b =
     (if \<not> is_staff_role userRole then b_userId b = Some userId
      else if is_falsy_id (bq_userId q) then True
      else b_userId b = bq_userId q)"

definition booking_filter ::
  "booking_query \<Rightarrow> uuid \<Rightarrow> user_role \<Rightarrow> int option \<Rightarrow> int option \<Rightarrow> booking \<Rightarrow> bool" where
  "booking_filter q userId userRole startDate endDate b \<longleftrightarrow>
     owner_filter q userId userRole b \<and>
     (case bq_status q of None \<Rightarrow> True | Some s \<Rightarrow> b_status b = s) \<and>
     (is_falsy_id (bq_workspaceId q) \<or> bq_workspaceId q = Some (b_workspaceId b)) \<and>
     (case startDate of None \<Rightarrow> True | Some d \<Rightarrow> d \<le> b_startDate b) \<and>
     (case endDate of None \<Rightarrow> True | Some d \<Rightarrow> b_endDate b \<le> d)"

definition bookings_findAll ::
  "env \<Rightarrow> booking_query \<Rightarrow> uuid \<Rightarrow> user_role \<Rightarrow> world \<Rightarrow> booking paginated result" where
  "bookings_findAll env q userId userRole w =
     (let page = or_else (bq_page q) 1; lmt = or_else (bq_limit q) 20
      in case (query_date env (bq_startDate q), query_date env (bq_endDate q)) of
           (Inr s, Inr e) \<Rightarrow>
             (let rows = filter (booking_filter q userId userRole s e) (bookings w)
              in case paginate page lmt (newest_first b_createdAt rows) of
                   Inl err \<Rightarrow> Inl err
                 | Inr xs \<Rightarrow> Inr \<lparr>pg_data = xs, pg_total = length rows, pg_page = page, pg_limit = lmt,
                                  pg_totalPages = total_pages (length rows) (nat lmt)\<rparr>)
         | (Inl err, _) \<Rightarrow> Inl err
         | (_, Inl err) \<Rightarrow> Inl err)"

definition bookings_findById :: "uuid \<Rightarrow> uuid \<Rightarrow> user_role \<Rightarrow> world \<Rightarrow> booking result" where
  "bookings_findById bookingId userId userRole w =
     (case find_booking bookingId w of
        None \<Rightarrow> Inl (NotFound ''Booking not found'')
      | Some b \<Rightarrow>
          if \<not> is_staff_role userRole \<and> b_userId b \<noteq> Some userId
          then Inl (NotFound ''Booking not found'') else Inr b)"

section \<open>What each operation does to the tables\<close>

lemma transaction_cases:
  assumes "transaction body w = (r, w')"
  obtains (commit) x where "r = Inr x" "body w = (Inr x, w')"
  | (abort) e w'' where "r = Inl e" "body w = (Inl e, w'')" "w' = rollback w w''"
  using assms by (auto simp: transaction_def split: prod.splits sum.splits)

lemma mail_user_tables [simp]:
  "users (mail_user env m k w) = users w" "workspaces (mail_user env m k w) = workspaces w"
  "bookings (mail_user env m k w) = bookings w" "payments (mail_user env m k w) = payments w"
  "invoices (mail_user env m k w) = invoices w" "logs (mail_user env m k w) = logs w"
  "tokens (mail_user env m k w) = tokens w" "audit (mail_user env m k w) = audit w"
  "inv_seq (mail_user env m k w) = inv_seq w"
  by (simp_all add: mail_user_def split: option.splits)

text \<open>Activating a membership writes the users table only.\<close>

lemma activate_users:
  assumes "activateMembershipIfNeeded env k w = (r, w')"
  shows "\<exists>us. w' = w\<lparr>users := us\<rparr>"
proof -
  have "\<exists>us. w = w\<lparr>users := us\<rparr>" by (rule exI [of _ "users w"]) simp
  then show ?thesis using assms
    by (auto simp: activateMembershipIfNeeded_def save_user_def split: if_splits option.splits)
qed

lemma wf_activate: "wf_world w \<Longrightarrow> activateMembershipIfNeeded env k w = (r, w') \<Longrightarrow> wf_world w'"
  by (auto simp: activateMembershipIfNeeded_def split: if_splits option.splits dest: wf_save_user)

lemma booking_cas_frame:
  assumes "booking_cas k from to w = (n, w')"
  shows "users w' = users w" "workspaces w' = workspaces w" "payments w' = payments w"
    "bookings w' = update_where (\<lambda>b. b_id b = k \<and> b_status b = from) (\<lambda>b. b\<lparr>b_status := to\<rparr>) (bookings w)"
    "n = count_where (\<lambda>b. b_id b = k \<and> b_status b = from) (bookings w)"
  using assms by (auto simp: booking_cas_def cas_by_def)

text \<open>The conditional update of a booking's status satisfies the race contract.\<close>

interpretation booking_race: cas_repository "find_by b_id" b_status "cas_by b_id b_status"
    "\<lambda>f. \<forall>b. b_id (f b) = b_id b" "uniq_keys b_id"
  by (rule cas_repository_list)

lemma booking_cas_hit:
  assumes "wf_world w" "find_booking k w = Some b" "b_status b = from"
  shows "\<exists>w'. booking_cas k from to w = (1, w') \<and> find_booking k w' = Some (b\<lparr>b_status := to\<rparr>)"
  using booking_race.cas_hit [of "bookings w" "\<lambda>b. b\<lparr>b_status := to\<rparr>" k b "from"] assms
  by (auto simp: booking_cas_def find_booking_def wf_world_def split: prod.splits)

lemma booking_cas_miss:
  assumes "wf_world w" "find_booking k w = None \<or> (\<exists>b. find_booking k w = Some b \<and> b_status b \<noteq> from)"
  shows "booking_cas k from to w = (0, w)"
  using booking_race.cas_miss [of "bookings w" k "from" "\<lambda>b. b\<lparr>b_status := to\<rparr>"] assms
  by (auto simp: booking_cas_def find_booking_def wf_world_def)

lemma bookable_workspace_Inr:
  "bookable_workspace k w = Inr x \<longleftrightarrow> find_workspace k w = Some x \<and> w_isActive x"
  by (auto simp: bookable_workspace_def split: option.splits if_splits)

lemma bookedSeats_Inr:
  "bookedSeats env k s e w = Inr n \<longleftrightarrow>
   (\<exists>a b. pg_date (pg_date_ext env) s = Some a \<and> pg_date (pg_date_ext env) e = Some b \<and>
          n = booked_sum k a b (bookings w))"
  by (auto simp: bookedSeats_def split: option.splits)

lemma insert_booking_Inr:
  "insert_booking env s e amount mk w = (Inr b, w') \<longleftrightarrow>
   (\<exists>a c n. pg_date (pg_date_ext env) s = Some a \<and> pg_date (pg_date_ext env) e = Some c \<and>
            amount = Some n \<and> b = mk a c n \<and> w' = save_booking b w)"
  by (auto simp: insert_booking_def split: option.splits)

lemma insert_booking_Inl: "insert_booking env s e amount mk w = (Inl err, w') \<Longrightarrow> w' = w"
  by (auto simp: insert_booking_def split: option.splits)

text \<open>A successful creation: the checks that passed, the row that was inserted.\<close>

lemma create_booking_Inr:
  assumes "create_booking env dto userId w = (Inr b, w')"
  obtains x s e amount where
    "find_workspace (cb_workspaceId dto) w = Some x" "w_isActive x"
    "\<not> end_not_after_start env (cb_startDate dto) (cb_endDate dto)"
    "pg_date (pg_date_ext env) (cb_startDate dto) = Some s"
    "pg_date (pg_date_ext env) (cb_endDate dto) = Some e"
    "booked_sum (cb_workspaceId dto) s e (bookings w) + cb_seatCount dto \<le> w_totalSeats x"
    "calculateAmount env (w_hourlyRate x) (cb_planType dto) (cb_seatCount dto)
       (cb_startDate dto) (cb_endDate dto) = Some amount"
    "b = new_booking env dto userId s e amount"
    "w' = mail_user env BookingCreatedMail (Some userId) (save_booking b w)"
  using assms
  unfolding create_booking_def
  by (auto split: if_splits sum.splits prod.splits elim!: transaction_cases
      simp: Let_def bookable_workspace_Inr bookedSeats_Inr insert_booking_Inr)

lemma create_booking_Inl:
  assumes "create_booking env dto userId w = (Inl err, w')"
  shows "w' = w"
  using assms unfolding create_booking_def
  by (auto split: if_splits sum.splits prod.splits elim!: transaction_cases
      simp: Let_def dest!: insert_booking_Inl)

lemma open_payment_Inr:
  assumes "open_payment env k bookingId userId amount email w = (Inr s, w')"
  obtains reference where
    "w' = save_payment ((new_payment env k bookingId userId amount)\<lparr>p_providerReference := Some reference\<rparr>)
            (emit (PaystackInitialize email amount k)
              (save_payment (new_payment env k bookingId userId amount) w))"
    "ps_paymentId s = k" "ps_reference s = reference"
  using assms by (auto simp: open_payment_def Let_def split: sum.splits)

lemma create_public_day_pass_Inr:
  assumes "create_public_day_pass env dto w = (Inr r, w')"
  obtains x d amount w1 where
    "find_workspace (cp_workspaceId dto) w = Some x" "w_isActive x"
    "\<not> str_less (cp_date dto) (today env)"
    "pg_date (pg_date_ext env) (cp_date dto) = Some d"
    "booked_sum (cp_workspaceId dto) d d (bookings w) + 1 \<le> w_totalSeats x"
    "w1 = save_booking (new_day_pass env dto d d amount) w"
    "fst r = uuid1 env"
    "open_payment env (uuid2 env) (uuid1 env) None amount (cp_guestEmail dto) w1 = (Inr (snd r), w')"
proof -
  from assms obtain x n b w1 s where *: "\<not> str_less (cp_date dto) (today env)"
    "bookable_workspace (cp_workspaceId dto) w = Inr x"
    "bookedSeats env (cp_workspaceId dto) (cp_date dto) (cp_date dto) w = Inr n"
    "n + 1 \<le> w_totalSeats x"
    "insert_booking env (cp_date dto) (cp_date dto)
       (calculateAmount env (w_hourlyRate x) DAILY 1 (cp_date dto) (cp_date dto))
       (new_day_pass env dto) w = (Inr b, w1)"
    "open_payment env (uuid2 env) (b_id b) None (b_totalAmount b) (cp_guestEmail dto) w1 = (Inr s, w')"
    "r = (b_id b, s)"
    unfolding create_public_day_pass_def Let_def
    by (auto split: if_splits sum.splits prod.splits elim!: transaction_cases)
  from *(5) obtain d amount where "pg_date (pg_date_ext env) (cp_date dto) = Some d"
    "b = new_day_pass env dto d d amount" "w1 = save_booking b w"
    by (auto simp: insert_booking_Inr)
  with * show ?thesis
    by (intro that) (auto simp: bookable_workspace_Inr bookedSeats_Inr new_day_pass_def)
qed

lemma create_public_day_pass_Inl:
  assumes "create_public_day_pass env dto w = (Inl err, w')"
  shows "bookings w' = bookings w" "payments w' = payments w" "users w' = users w"
    "workspaces w' = workspaces w" "invoices w' = invoices w" "logs w' = logs w" "tokens w' = tokens w"
  using assms unfolding create_public_day_pass_def Let_def
  by (auto split: if_splits elim!: transaction_cases)


section \<open>The life of a booking\<close>

inductive booking_step :: "booking_status \<Rightarrow> booking_status \<Rightarrow> bool" where
  confirms: "booking_step B_PENDING B_CONFIRMED"
| cancels_pending: "booking_step B_PENDING B_CANCELLED"
| cancels_confirmed: "booking_step B_CONFIRMED B_CANCELLED"
| completes: "booking_step B_CONFIRMED B_COMPLETED"
| expires: "booking_step B_PENDING B_EXPIRED"
| revives: "booking_step B_EXPIRED B_CONFIRMED"

inductive_cases booking_step_from_cancelled: "booking_step B_CANCELLED s"
inductive_cases booking_step_from_completed: "booking_step B_COMPLETED s"
inductive_simps booking_step_simps: "booking_step s t"

text \<open>What no operation may change once a booking exists.\<close>

definition terms_of ::
  "booking \<Rightarrow> uuid \<times> uuid \<times> plan_type \<times> int \<times> int \<times> nat \<times> nat \<times> instant \<times> instant option" where
  "terms_of b = (b_id b, b_workspaceId b, b_planType b, b_startDate b, b_endDate b,
                 b_totalAmount b, b_seatCount b, b_createdAt b, b_paymentDeadline b)"

definition bookings_evolve :: "booking list \<Rightarrow> booking list \<Rightarrow> bool" where
  "bookings_evolve rows rows' \<longleftrightarrow>
     (\<forall>b\<in>set rows. \<exists>b'\<in>set rows'. terms_of b' = terms_of b \<and>
        (b_status b' = b_status b \<or> booking_step (b_status b) (b_status b')))"

lemma bookings_evolve_refl [simp]: "bookings_evolve rows rows"
  by (auto simp: bookings_evolve_def)

lemma bookings_evolve_insert:
  "b_id b \<notin> b_id ` set rows \<Longrightarrow> bookings_evolve rows (save_row b_id b rows)"
  by (auto simp: bookings_evolve_def save_row_fresh)

lemma bookings_evolve_save:
  assumes "uniq_keys b_id rows" "b \<in> set rows" "terms_of b' = terms_of b"
    "b_status b' = b_status b \<or> booking_step (b_status b) (b_status b')"
  shows "bookings_evolve rows (save_row b_id b' rows)"
  unfolding bookings_evolve_def
proof
  fix x assume x: "x \<in> set rows"
  show "\<exists>y\<in>set (save_row b_id b' rows). terms_of y = terms_of x \<and>
     (b_status y = b_status x \<or> booking_step (b_status x) (b_status y))"
  proof (cases "b_id x = b_id b")
    case True
    with x assms have "x = b" by (auto simp: uniq_keys_def distinct_map inj_on_def)
    with assms save_row_self [of b' b_id rows] show ?thesis by blast
  next
    case False
    then have "b_id x \<noteq> b_id b'" using assms(3) by (simp add: terms_of_def)
    with save_row_keeps [OF x, of b_id b'] show ?thesis by blast
  qed
qed

lemma bookings_evolve_update:
  assumes "\<And>b. U b \<Longrightarrow> terms_of (f b) = terms_of b \<and> booking_step (b_status b) (b_status (f b))"
  shows "bookings_evolve rows (update_where U f rows)"
  using assms by (auto simp: bookings_evolve_def set_update_where)

lemma terms_of_status [simp]: "terms_of (b\<lparr>b_status := s\<rparr>) = terms_of b"
  by (simp add: terms_of_def)

lemma find_booking_set: "find_booking k w = Some b \<Longrightarrow> b \<in> set (bookings w) \<and> b_id b = k"
  by (auto simp: find_booking_def find_by_def dest: find_one_SomeD)

lemma confirm_booking_frame:
  assumes "confirm_booking env k w = (r, w')"
  shows "workspaces w' = workspaces w" "payments w' = payments w" "invoices w' = invoices w"
    "logs w' = logs w" "tokens w' = tokens w" "fx w' = fx w"
    "bookings w' = update_where (\<lambda>b. b_id b = k \<and> b_status b = B_PENDING)
                     (\<lambda>b. b\<lparr>b_status := B_CONFIRMED\<rparr>) (bookings w)"
  using assms
  by (auto simp: confirm_booking_def Let_def booking_cas_def cas_by_def
      split: if_splits option.splits prod.splits sum.splits dest!: activate_users)

lemma cancel_booking_cases:
  assumes "cancel_booking env k userId role w = (r, w')"
  obtains (refused) e where "r = Inl e" "w' = w"
  | (success) b where "find_booking k w = Some b" "is_staff_role role \<or> b_userId b = Some userId"
      "b_status b = B_PENDING \<or> b_status b = B_CONFIRMED" "r = Inr (b\<lparr>b_status := B_CANCELLED\<rparr>)"
      "bookings w' = save_row b_id (b\<lparr>b_status := B_CANCELLED\<rparr>) (bookings w)"
      "users w' = users w" "workspaces w' = workspaces w" "payments w' = payments w"
      "invoices w' = invoices w" "logs w' = logs w" "tokens w' = tokens w"
  using assms
  by (auto simp: cancel_booking_def Let_def split: option.splits if_splits)

lemma complete_booking_cases:
  assumes "complete_booking k w = (r, w')"
  obtains (refused) e where "r = Inl e" "w' = w"
  | (success) b where "find_booking k w = Some b" "b_status b = B_CONFIRMED"
      "r = Inr (b\<lparr>b_status := B_COMPLETED\<rparr>)" "w' = save_booking (b\<lparr>b_status := B_COMPLETED\<rparr>) w"
  using assms by (auto simp: complete_booking_def Let_def split: option.splits if_splits)

lemma same_bookings_users [simp]: "\<exists>bs us. w = w\<lparr>bookings := bs, users := us\<rparr>"
  by (rule exI [of _ "bookings w"], rule exI [of _ "users w"]) simp

lemma reactivate_body_shape:
  assumes "reactivate_body env k w = (r, w')"
  shows "\<exists>bs us. w' = w\<lparr>bookings := bs, users := us\<rparr>"
  using assms unfolding reactivate_body_def Let_def save_booking_def
  by (auto split: option.splits if_splits prod.splits sum.splits dest!: activate_users)

lemma reactivateExpired_shape:
  assumes "reactivateExpired env k w = (r, w')"
  shows "\<exists>bs us. w' = w\<lparr>bookings := bs, users := us\<rparr>"
  using assms unfolding reactivateExpired_def
  by (auto elim!: transaction_cases dest!: reactivate_body_shape simp: rollback_def)

lemma reactivate_body_cases:
  assumes "reactivate_body env k w = (r, w')"
  obtains (failed) e where "r = Inl e"
  | (already) b where "r = Inr (Some b)" "find_booking k w = Some b" "b_status b = B_CONFIRMED" "w' = w"
  | (full) b x where "r = Inr None" "find_booking k w = Some b" "b_status b = B_EXPIRED"
      "find_workspace (b_workspaceId b) w = Some x"
      "w_totalSeats x < other_booked_sum b (bookings w) + b_seatCount b" "w' = w"
  | (revived) b x where "r = Inr (Some (b\<lparr>b_status := B_CONFIRMED\<rparr>))" "find_booking k w = Some b"
      "b_status b = B_EXPIRED" "find_workspace (b_workspaceId b) w = Some x"
      "other_booked_sum b (bookings w) + b_seatCount b \<le> w_totalSeats x"
      "bookings w' = save_row b_id (b\<lparr>b_status := B_CONFIRMED\<rparr>) (bookings w)"
proof (cases r)
  case (Inl e)
  then show thesis by (rule failed)
next
  case (Inr y)
  with assms obtain b where b: "find_booking k w = Some b"
    unfolding reactivate_body_def by (auto split: option.splits)
  show thesis
  proof (cases "b_status b = B_EXPIRED")
    case True
    with assms Inr b show thesis unfolding reactivate_body_def Let_def
      by (auto simp: not_less split: option.splits if_splits prod.splits sum.splits
          dest!: activate_users intro: full revived)
  next
    case False
    with assms Inr b have "b_status b = B_CONFIRMED" "y = Some b" "w' = w"
      by (auto simp: reactivate_body_def split: if_splits)
    with Inr b show thesis by (intro already [of b]) simp_all
  qed
qed

lemma reactivateExpired_cases:
  assumes "reactivateExpired env k w = (r, w')"
  obtains (failed) e where "r = Inl e" "bookings w' = bookings w"
  | (already) b where "r = Inr (Some b)" "find_booking k w = Some b" "b_status b = B_CONFIRMED" "w' = w"
  | (full) b x where "r = Inr None" "find_booking k w = Some b" "b_status b = B_EXPIRED"
      "find_workspace (b_workspaceId b) w = Some x"
      "w_totalSeats x < other_booked_sum b (bookings w) + b_seatCount b" "w' = w"
  | (revived) b x where "r = Inr (Some (b\<lparr>b_status := B_CONFIRMED\<rparr>))" "find_booking k w = Some b"
      "b_status b = B_EXPIRED" "find_workspace (b_workspaceId b) w = Some x"
      "other_booked_sum b (bookings w) + b_seatCount b \<le> w_totalSeats x"
      "bookings w' = save_row b_id (b\<lparr>b_status := B_CONFIRMED\<rparr>) (bookings w)"
  using assms unfolding reactivateExpired_def
proof (cases rule: transaction_cases)
  case (commit x)
  from commit(2) show thesis
    using commit(1) by (cases rule: reactivate_body_cases) (auto intro: already full revived)
next
  case (abort e w'')
  then show thesis by (intro failed) simp_all
qed

lemma create_booking_evolves:
  assumes "create_booking env dto userId w = (r, w')" "uuid1 env \<notin> b_id ` set (bookings w)"
  shows "bookings_evolve (bookings w) (bookings w')"
proof (cases r)
  case (Inl e)
  with assms show ?thesis by (auto dest: create_booking_Inl)
next
  case (Inr b)
  with assms show ?thesis
    by (auto elim!: create_booking_Inr intro!: bookings_evolve_insert simp: new_booking_def)
qed

lemma create_public_day_pass_bookings:
  assumes "create_public_day_pass env dto w = (r, w')"
  shows "bookings w' = bookings w \<or>
    (\<exists>d amount. bookings w' = save_row b_id (new_day_pass env dto d d amount) (bookings w))"
proof (cases r)
  case (Inl e)
  with assms show ?thesis by (auto dest: create_public_day_pass_Inl)
next
  case (Inr x)
  with assms obtain d amount w1 where "w1 = save_booking (new_day_pass env dto d d amount) w"
    "open_payment env (uuid2 env) (uuid1 env) None amount (cp_guestEmail dto) w1 = (Inr (snd x), w')"
    by (auto elim!: create_public_day_pass_Inr)
  then have "bookings w' = save_row b_id (new_day_pass env dto d d amount) (bookings w)"
    by (auto elim!: open_payment_Inr)
  then show ?thesis by blast
qed

lemma create_public_day_pass_evolves:
  assumes "create_public_day_pass env dto w = (r, w')" "uuid1 env \<notin> b_id ` set (bookings w)"
  shows "bookings_evolve (bookings w) (bookings w')"
  using create_public_day_pass_bookings [OF assms(1)] assms(2)
  by (auto intro!: bookings_evolve_insert simp: new_day_pass_def)

lemma confirm_booking_evolves:
  "confirm_booking env k w = (r, w') \<Longrightarrow> bookings_evolve (bookings w) (bookings w')"
  by (auto simp: confirm_booking_frame intro!: bookings_evolve_update booking_step.intros)

lemma cancel_booking_evolves:
  assumes "wf_world w" "cancel_booking env k userId role w = (r, w')"
  shows "bookings_evolve (bookings w) (bookings w')"
  using assms(2)
proof (cases rule: cancel_booking_cases)
  case (success b)
  then show ?thesis
    using assms(1) find_booking_set [OF success(1)]
    by (auto simp: wf_world_def intro!: bookings_evolve_save [of _ b] booking_step.intros)
qed simp

lemma complete_booking_evolves:
  assumes "wf_world w" "complete_booking k w = (r, w')"
  shows "bookings_evolve (bookings w) (bookings w')"
  using assms(2)
proof (cases rule: complete_booking_cases)
  case (success b)
  then show ?thesis
    using assms(1) find_booking_set [OF success(1)]
    by (auto simp: wf_world_def intro!: bookings_evolve_save [of _ b] booking_step.intros)
qed simp

lemma reactivateExpired_evolves:
  assumes "wf_world w" "reactivateExpired env k w = (r, w')"
  shows "bookings_evolve (bookings w) (bookings w')"
  using assms(2)
proof (cases rule: reactivateExpired_cases)
  case (revived b x)
  then show ?thesis
    using assms(1) find_booking_set [OF revived(2)]
    by (auto simp: wf_world_def intro!: bookings_evolve_save [of _ b] booking_step.intros)
qed simp_all


section \<open>Integrity and capacity\<close>

definition capacity_ok :: "world \<Rightarrow> bool" where
  "capacity_ok w \<longleftrightarrow>
     (\<forall>x\<in>set (workspaces w). \<forall>d. seats_held (w_id x) d (bookings w) \<le> w_totalSeats x)"

lemma capacity_same:
  "capacity_ok w \<Longrightarrow> workspaces w' = workspaces w \<Longrightarrow> bookings w' = bookings w \<Longrightarrow> capacity_ok w'"
  by (simp add: capacity_ok_def)

lemma capacity_save:
  assumes "wf_world w" "capacity_ok w" "workspaces w' = workspaces w"
    "bookings w' = save_row b_id b (bookings w)"
    and check: "\<And>x. find_workspace (b_workspaceId b) w = Some x \<Longrightarrow>
      booked_sum (b_workspaceId b) (b_startDate b) (b_endDate b) (bookings w) + b_seatCount b \<le> w_totalSeats x"
  shows "capacity_ok w'"
  unfolding capacity_ok_def
proof (intro ballI allI)
  fix x d assume x: "x \<in> set (workspaces w')"
  have "seats_held (w_id x) d (save_row b_id b (bookings w)) \<le> w_totalSeats x"
  proof (rule seat.put_within_capacity)
    show "uniq_keys b_id (bookings w)" using assms(1) by (simp add: wf_world_def)
    show "seats_held (w_id x) e (bookings w) \<le> w_totalSeats x" for e
      using assms(2,3) x by (simp add: capacity_ok_def)
    assume "b_workspaceId b = w_id x"
    with x assms(1,3) have "find_workspace (b_workspaceId b) w = Some x"
      by (simp add: find_workspace_iff)
    then show "booked_sum (w_id x) (b_startDate b) (b_endDate b) (bookings w) + b_seatCount b \<le> w_totalSeats x"
      using check \<open>b_workspaceId b = w_id x\<close> by simp
  qed
  then show "seats_held (w_id x) d (bookings w') \<le> w_totalSeats x" using assms(4) by simp
qed

lemma seats_held_release:
  assumes "uniq_keys b_id rows" "\<not> holds_seats b"
  shows "seats_held k d (save_row b_id b rows) \<le> seats_held k d rows"
  using sum_where_save_row_le [OF assms(1) [unfolded uniq_keys_def],
      of "\<lambda>b. b_workspaceId b = k \<and> holds_seats b \<and> b_startDate b \<le> d \<and> d \<le> b_endDate b" b_seatCount b]
    assms(2) by (simp add: seats_held_def)

lemma capacity_shrink:
  assumes "capacity_ok w" "workspaces w' = workspaces w"
    "\<And>k d. seats_held k d (bookings w') \<le> seats_held k d (bookings w)"
  shows "capacity_ok w'"
  using assms unfolding capacity_ok_def by (metis le_trans)

lemma wf_update_bookings:
  "wf_world w \<Longrightarrow> (\<And>b. b_id (f b) = b_id b) \<Longrightarrow> uniq_keys b_id (update_where U f (bookings w))"
  by (simp add: wf_world_def uniq_keys_def distinct_update_where)

lemma wf_confirm_booking:
  assumes "wf_world w" "confirm_booking env k w = (r, w')"
  shows "wf_world w'"
proof -
  obtain n w1 where cas: "booking_cas k B_PENDING B_CONFIRMED w = (n, w1)" by fastforce
  have wf1: "wf_world w1"
    using booking_cas_frame [OF cas] assms(1) wf_update_bookings [OF assms(1)]
    by (simp add: wf_world_def)
  show ?thesis using assms(2) wf1 unfolding confirm_booking_def Let_def cas
    by (auto split: if_splits option.splits prod.splits sum.splits dest: wf_activate [OF wf1])
qed

lemma wf_create_booking:
  assumes "wf_world w" "create_booking env dto userId w = (r, w')"
  shows "wf_world w'"
proof (cases r)
  case (Inl e)
  with assms show ?thesis by (auto dest: create_booking_Inl)
next
  case (Inr b)
  with assms show ?thesis
    by (auto elim!: create_booking_Inr simp: wf_world_def uniq_keys_def distinct_save_row)
qed

lemma wf_create_public_day_pass:
  assumes "wf_world w" "create_public_day_pass env dto w = (r, w')"
  shows "wf_world w'"
proof (cases r)
  case (Inl e)
  with assms create_public_day_pass_Inl [of env dto w e w'] show ?thesis by (simp add: wf_world_def)
next
  case (Inr x)
  with assms show ?thesis
    by (auto elim!: create_public_day_pass_Inr open_payment_Inr
        simp: wf_world_def uniq_keys_def distinct_save_row)
qed

lemma wf_cancel_booking:
  assumes "wf_world w" "cancel_booking env k userId role w = (r, w')"
  shows "wf_world w'"
  using assms(2) by (cases rule: cancel_booking_cases)
    (use assms(1) in \<open>simp_all add: wf_world_def uniq_keys_def distinct_save_row\<close>)

lemma wf_complete_booking:
  assumes "wf_world w" "complete_booking k w = (r, w')"
  shows "wf_world w'"
  using assms(2) by (cases rule: complete_booking_cases) (use assms(1) in \<open>auto intro: wf_save_booking\<close>)

lemma wf_reactivate_body:
  assumes "wf_world w" "reactivate_body env k w = (r, w')"
  shows "wf_world w'"
  using assms unfolding reactivate_body_def Let_def
  by (auto split: option.splits if_splits prod.splits sum.splits
      intro: wf_save_booking dest!: wf_activate [rotated])

lemma wf_rollback: "wf_world w \<Longrightarrow> wf_world (rollback w w'')"
  by (simp add: wf_world_def)

lemma wf_reactivateExpired:
  assumes "wf_world w" "reactivateExpired env k w = (r, w')"
  shows "wf_world w'"
  using assms unfolding reactivateExpired_def
  by (auto elim!: transaction_cases intro: wf_rollback dest: wf_reactivate_body)

lemma capacity_create_booking:
  assumes "wf_world w" "capacity_ok w" "create_booking env dto userId w = (r, w')"
  shows "capacity_ok w'"
proof (cases r)
  case (Inl e)
  with assms show ?thesis by (auto dest: create_booking_Inl)
next
  case (Inr b)
  with assms(3) obtain x s e amount where *: "find_workspace (cb_workspaceId dto) w = Some x"
    "booked_sum (cb_workspaceId dto) s e (bookings w) + cb_seatCount dto \<le> w_totalSeats x"
    "b = new_booking env dto userId s e amount"
    "w' = mail_user env BookingCreatedMail (Some userId) (save_booking b w)"
    by (auto elim!: create_booking_Inr)
  show ?thesis
    by (rule capacity_save [OF assms(1,2), of _ b]) (use * in \<open>auto simp: new_booking_def\<close>)
qed

lemma capacity_create_public_day_pass:
  assumes "wf_world w" "capacity_ok w" "create_public_day_pass env dto w = (r, w')"
  shows "capacity_ok w'"
proof (cases r)
  case (Inl e)
  with assms create_public_day_pass_Inl [of env dto w e w'] capacity_same show ?thesis by simp
next
  case (Inr y)
  with assms(3) obtain x d amount w1 where *: "find_workspace (cp_workspaceId dto) w = Some x"
    "booked_sum (cp_workspaceId dto) d d (bookings w) + 1 \<le> w_totalSeats x"
    "w1 = save_booking (new_day_pass env dto d d amount) w"
    "open_payment env (uuid2 env) (uuid1 env) None amount (cp_guestEmail dto) w1 = (Inr (snd y), w')"
    by (auto elim!: create_public_day_pass_Inr)
  from *(4) have "bookings w' = bookings w1" "workspaces w' = workspaces w1"
    by (auto elim!: open_payment_Inr)
  then show ?thesis
    by (intro capacity_save [OF assms(1,2), of _ "new_day_pass env dto d d amount"])
      (use * in \<open>auto simp: new_day_pass_def\<close>)
qed

lemma capacity_confirm_booking:
  assumes "capacity_ok w" "confirm_booking env k w = (r, w')"
  shows "capacity_ok w'"
  using confirm_booking_frame [OF assms(2)]
  by (intro capacity_shrink [OF assms(1)]) (auto intro!: seats_held_update_le simp: holds_seats_def)

lemma capacity_cancel_booking:
  assumes "wf_world w" "capacity_ok w" "cancel_booking env k userId role w = (r, w')"
  shows "capacity_ok w'"
  using assms(3)
proof (cases rule: cancel_booking_cases)
  case (success b)
  then show ?thesis using assms(1)
    by (intro capacity_shrink [OF assms(2)])
      (auto simp: wf_world_def holds_seats_def intro!: seats_held_release)
qed (use assms in simp)

lemma capacity_complete_booking:
  assumes "wf_world w" "capacity_ok w" "complete_booking k w = (r, w')"
  shows "capacity_ok w'"
  using assms(3)
proof (cases rule: complete_booking_cases)
  case (success b)
  then show ?thesis using assms(1)
    by (intro capacity_shrink [OF assms(2)])
      (auto simp: wf_world_def holds_seats_def intro!: seats_held_release)
qed (use assms in simp)

text \<open>An expired booking holds no seats itself, so the others are all the booked seats.\<close>

lemma other_booked_sum_expired:
  assumes "uniq_keys b_id rows" "b \<in> set rows" "\<not> holds_seats b"
  shows "other_booked_sum b rows = booked_sum (b_workspaceId b) (b_startDate b) (b_endDate b) rows"
  unfolding other_booked_sum_def booked_sum_def
  using assms by (intro sum_where_cong) (auto simp: uniq_keys_def distinct_map inj_on_def)

lemma capacity_reactivateExpired:
  assumes "wf_world w" "capacity_ok w" "reactivateExpired env k w = (r, w')"
  shows "capacity_ok w'"
proof -
  have ws: "workspaces w' = workspaces w" using reactivateExpired_shape [OF assms(3)] by auto
  show ?thesis using assms(3)
  proof (cases rule: reactivateExpired_cases)
    case (revived b x)
    have "other_booked_sum b (bookings w) =
          booked_sum (b_workspaceId b) (b_startDate b) (b_endDate b) (bookings w)"
      using assms(1) find_booking_set [OF revived(2)] revived(3)
      by (intro other_booked_sum_expired) (auto simp: wf_world_def holds_seats_def)
    with revived show ?thesis
      by (intro capacity_save [OF assms(1,2) ws, of "b\<lparr>b_status := B_CONFIRMED\<rparr>"]) auto
  qed (use assms ws in \<open>auto intro: capacity_same\<close>)
qed

section \<open>Properties\<close>

lemma calculateAmount_iso:
  "iso_day startDate = Some s \<Longrightarrow> iso_day endDate = Some e \<Longrightarrow>
   \<exists>n. \<forall>rate. calculateAmount env rate planType seats startDate endDate = Some (n rate)"
  by (rule choice) (simp add: calculateAmount_def plan_days_def daily_days_def js_date_ms_def)

text \<open>
  C34: for ISO dates, a booking is accepted exactly when it ends after it starts, its workspace
  exists and is active, and its seats fit beside the live bookings that overlap it.
\<close>

theorem create_booking_accepts:
  assumes "iso_day (cb_startDate dto) = Some s" "iso_day (cb_endDate dto) = Some e"
  shows "is_ok (fst (create_booking env dto userId w)) \<longleftrightarrow>
    s < e \<and> (\<exists>x. find_workspace (cb_workspaceId dto) w = Some x \<and> w_isActive x \<and>
       booked_sum (cb_workspaceId dto) s e (bookings w) + cb_seatCount dto \<le> w_totalSeats x)"
proof -
  obtain n where "\<forall>rate. calculateAmount env rate (cb_planType dto) (cb_seatCount dto)
      (cb_startDate dto) (cb_endDate dto) = Some (n rate)"
    using calculateAmount_iso [OF assms] by blast
  with assms show ?thesis
    by (auto simp: create_booking_def end_not_after_start_def js_date_ms_def ms_per_day_def
        transaction_def bookable_workspace_def bookedSeats_def pg_date_def insert_booking_def
        split: option.splits)
qed

definition sample_dto :: create_booking_dto where
  "sample_dto = \<lparr>cb_workspaceId = ''ws1'', cb_planType = DAILY, cb_startDate = ''2026-01-05'',
     cb_endDate = ''2026-01-06'', cb_seatCount = 1, cb_notes = None\<rparr>"

theorem create_booking_accepts_witness:
  "is_ok (fst (create_booking sample_env sample_dto ''ada'' sample_world)) \<and>
   \<not> is_ok (fst (create_booking sample_env (sample_dto\<lparr>cb_seatCount := 3\<rparr>) ''ada'' sample_world))"
proof -
  have iso: "iso_day (cb_startDate sample_dto) = Some 20458" "iso_day (cb_endDate sample_dto) = Some 20459"
    by code_simp+
  have ws: "find_workspace (cb_workspaceId sample_dto) sample_world = Some sample_workspace" by code_simp
  have "booked_sum (cb_workspaceId sample_dto) 20458 20459 (bookings sample_world) = 0" by code_simp
  with ws create_booking_accepts [OF iso, of sample_env "''ada''" sample_world]
    create_booking_accepts [of "sample_dto\<lparr>cb_seatCount := 3\<rparr>" 20458 20459 sample_env "''ada''" sample_world]
    iso
  show ?thesis by (simp add: sample_dto_def sample_workspace_def)
qed

text \<open>
  the availability endpoint answers yes exactly for the windows and seat counts that creating
  a booking accepts.
\<close>

theorem availability_agrees:
  assumes "check_availability env (cb_workspaceId dto) (Some (of_nat (cb_seatCount dto)))
      (Some (cb_startDate dto)) (Some (cb_endDate dto)) w = Inr a"
    and "iso_day (cb_startDate dto) = Some s" "iso_day (cb_endDate dto) = Some e" "s < e"
  shows "av_available a \<longleftrightarrow> is_ok (fst (create_booking env dto userId w))"
proof -
  obtain n where "\<forall>rate. calculateAmount env rate (cb_planType dto) (cb_seatCount dto)
      (cb_startDate dto) (cb_endDate dto) = Some (n rate)"
    using calculateAmount_iso [OF assms(2,3)] by blast
  with assms show ?thesis
    by (auto simp: create_booking_def end_not_after_start_def js_date_ms_def ms_per_day_def
        transaction_def bookable_workspace_def bookedSeats_def pg_date_def insert_booking_def
        check_availability_def seats_requested_def resolveWindow_def availableSeats_def Let_def
        workspace_findById_def or_else_def
        split: option.splits if_splits)
qed

text \<open>Confirming a confirmed booking again changes nothing and returns the same booking.\<close>

theorem confirm_idempotent:
  assumes "wf_world w" "confirm_booking env k w = (Inr b, w')"
  shows "confirm_booking env' k w' = (Inr b, w') \<and> b_status b = B_CONFIRMED \<and> b_id b = k"
proof -
  obtain n w1 where cas: "booking_cas k B_PENDING B_CONFIRMED w = (n, w1)" by fastforce
  have found: "find_booking k w1 = Some b \<and> b_status b = B_CONFIRMED \<and> bookings w' = bookings w1"
  proof (cases "\<exists>b0. find_booking k w = Some b0 \<and> b_status b0 = B_PENDING")
    case True
    then obtain b0 where b0: "find_booking k w = Some b0" "b_status b0 = B_PENDING" by blast
    from booking_cas_hit [OF assms(1) this, of B_CONFIRMED] cas
    have "n = 1" "find_booking k w1 = Some (b0\<lparr>b_status := B_CONFIRMED\<rparr>)" by auto
    with assms(2) cas show ?thesis
      by (auto simp: confirm_booking_def split: prod.splits sum.splits dest!: activate_users)
  next
    case False
    then have "n = 0" "w1 = w" using booking_cas_miss [OF assms(1), of k B_PENDING B_CONFIRMED] cas
      by (auto split: option.splits) (metis option.exhaust prod.inject)+
    with assms(2) cas show ?thesis
      by (auto simp: confirm_booking_def split: option.splits if_splits)
  qed
  then have "find_booking k w' = Some b" by (simp add: find_booking_def)
  with found booking_cas_miss [OF wf_confirm_booking [OF assms], of k B_PENDING B_CONFIRMED]
    find_booking_set [of k w' b]
  show ?thesis by (auto simp: confirm_booking_def)
qed


theorem availability_agrees_witness:
  "\<exists>a. check_availability sample_env ''ws1'' (Some 1) (Some ''2026-01-05'') (Some ''2026-01-06'') sample_world = Inr a \<and>
     av_available a = is_ok (fst (create_booking sample_env sample_dto ''ada'' sample_world))"
proof -
  have "is_ok (check_availability sample_env (cb_workspaceId sample_dto) (Some (of_nat (cb_seatCount sample_dto)))
    (Some (cb_startDate sample_dto)) (Some (cb_endDate sample_dto)) sample_world)" by code_simp
  then obtain a where a: "check_availability sample_env (cb_workspaceId sample_dto)
    (Some (of_nat (cb_seatCount sample_dto))) (Some (cb_startDate sample_dto)) (Some (cb_endDate sample_dto))
    sample_world = Inr a" by (auto simp: is_ok_iff)
  have "iso_day (cb_startDate sample_dto) = Some 20458" "iso_day (cb_endDate sample_dto) = Some 20459"
    by (code_simp, code_simp)
  from availability_agrees [OF a this] a show ?thesis by (simp add: sample_dto_def)
qed

theorem confirm_idempotent_witness:
  "\<exists>b w'. confirm_booking sample_env ''id1'' (snd (create_booking sample_env sample_dto ''ada'' sample_world)) = (Inr b, w') \<and>
     confirm_booking sample_env ''id1'' w' = (Inr b, w')"
proof -
  let ?w = "snd (create_booking sample_env sample_dto ''ada'' sample_world)"
  have "wf_world ?w" "is_ok (fst (confirm_booking sample_env ''id1'' ?w))" by (code_simp, code_simp)
  then obtain b where "wf_world ?w" "confirm_booking sample_env ''id1'' ?w = (Inr b, snd (confirm_booking sample_env ''id1'' ?w))"
    by (auto simp: is_ok_iff prod_eq_iff)
  from this confirm_idempotent [OF this, of sample_env] show ?thesis by blast
qed

end
