(* ===== verification/Booking_Expiry.thy ===== *)
theory Booking_Expiry
  imports Bookings
begin

text \<open>
  \<open>backend/src/bookings/providers/booking-expiry.service.ts\<close>: the hourly sweep that expires
  overdue pending bookings and fails their pending payments, plan by plan. The selection of a
  plan's overdue ids and the guarded updates of the batch are two operations, as in the code:
  other requests may run between them.
\<close>

section \<open>The sweep\<close>

definition stale_ids :: "env \<Rightarrow> plan_type \<Rightarrow> world \<Rightarrow> uuid list" where
  "stale_ids env planType w =
     map b_id (filter (\<lambda>b. effectiveDeadline env b \<le> now env)
       (filter (\<lambda>b. b_status b = B_PENDING \<and> b_planType b = planType) (bookings w)))"

definition expire_batch :: "uuid list \<Rightarrow> world \<Rightarrow> (nat \<times> nat) \<times> world" where
  "expire_batch ids w =
     (let due = (\<lambda>b. b_id b \<in> set ids \<and> b_status b = B_PENDING);
          unpaid = (\<lambda>p. p_bookingId p \<in> set ids \<and> p_status p = P_PENDING)
      in ((count_where due (bookings w), count_where unpaid (payments w)),
          w\<lparr>bookings := update_where due (\<lambda>b. b\<lparr>b_status := B_EXPIRED\<rparr>) (bookings w),
            payments := update_where unpaid (\<lambda>p. p\<lparr>p_status := P_FAILED\<rparr>) (payments w)\<rparr>))"

definition expire_plan :: "env \<Rightarrow> plan_type \<Rightarrow> (nat \<times> nat) \<times> world \<Rightarrow> (nat \<times> nat) \<times> world" where
  "expire_plan env planType acc =
     (case acc of ((expired, released), w) \<Rightarrow>
        let staleIds = stale_ids env planType w
        in if staleIds = [] then acc
           else case expire_batch staleIds w of
                  ((e, r), w') \<Rightarrow> ((expired + e, released + r), w'))"

definition expireStalePendingBookings :: "env \<Rightarrow> world \<Rightarrow> (nat \<times> nat) \<times> world" where
  "expireStalePendingBookings env w = fold (expire_plan env) all_plans ((0, 0), w)"

text \<open>
  The scheduled job logs the counts and swallows an exception; no modelled query of the sweep
  fails.
\<close>

definition sweepAbandonedBookings :: "env \<Rightarrow> world \<Rightarrow> world" where
  "sweepAbandonedBookings env w = snd (expireStalePendingBookings env w)"

section \<open>The sweep in one pass\<close>

definition overdue :: "env \<Rightarrow> booking \<Rightarrow> bool" where
  "overdue env b \<longleftrightarrow> b_status b = B_PENDING \<and> effectiveDeadline env b \<le> now env"

definition abandoned :: "env \<Rightarrow> (plan_type \<Rightarrow> bool) \<Rightarrow> booking list \<Rightarrow> payment \<Rightarrow> bool" where
  "abandoned env D rows p \<longleftrightarrow> p_status p = P_PENDING \<and>
     (\<exists>b\<in>set rows. overdue env b \<and> D (b_planType b) \<and> b_id b = p_bookingId p)"

definition swept :: "env \<Rightarrow> (plan_type \<Rightarrow> bool) \<Rightarrow> world \<Rightarrow> world" where
  "swept env D w =
     w\<lparr>bookings := update_where (\<lambda>b. overdue env b \<and> D (b_planType b))
                     (\<lambda>b. b\<lparr>b_status := B_EXPIRED\<rparr>) (bookings w),
       payments := update_where (abandoned env D (bookings w)) (\<lambda>p. p\<lparr>p_status := P_FAILED\<rparr>)
                     (payments w)\<rparr>"

definition swept_counts :: "env \<Rightarrow> (plan_type \<Rightarrow> bool) \<Rightarrow> world \<Rightarrow> nat \<times> nat" where
  "swept_counts env D w =
     (count_where (\<lambda>b. overdue env b \<and> D (b_planType b)) (bookings w),
      count_where (abandoned env D (bookings w)) (payments w))"

lemma set_stale_ids:
  "set (stale_ids env q w) =
   {b_id b | b. b \<in> set (bookings w) \<and> overdue env b \<and> b_planType b = q}"
  by (auto simp: stale_ids_def overdue_def)

lemma update_where_cong:
  "(\<And>r. r \<in> set rows \<Longrightarrow> P r = Q r) \<Longrightarrow> update_where P f rows = update_where Q f rows"
  by (induction rows) auto

lemma count_where_cong:
  "(\<And>r. r \<in> set rows \<Longrightarrow> P r = Q r) \<Longrightarrow> count_where P rows = count_where Q rows"
  by (induction rows) auto

text \<open>Two updates of disjoint rows are one.\<close>

lemma update_where_merge:
  assumes "\<And>r. r \<in> set rows \<Longrightarrow> P r \<Longrightarrow> \<not> Q (f r)" "\<And>r. r \<in> set rows \<Longrightarrow> P r \<Longrightarrow> \<not> Q r"
  shows "update_where Q f (update_where P f rows) = update_where (\<lambda>r. P r \<or> Q r) f rows"
    "count_where P rows + count_where Q (update_where P f rows) = count_where (\<lambda>r. P r \<or> Q r) rows"
  using assms by (induction rows) auto

lemma stale_id_iff:
  assumes "uniq_keys b_id (bookings w)" "b \<in> set (bookings w)"
  shows "b_id b \<in> set (stale_ids env q w) \<longleftrightarrow> overdue env b \<and> b_planType b = q"
proof
  assume "b_id b \<in> set (stale_ids env q w)"
  then obtain b' where "b' \<in> set (bookings w)" "overdue env b'" "b_planType b' = q" "b_id b' = b_id b"
    by (auto simp: set_stale_ids)
  moreover from this assms have "b' = b" by (auto simp: uniq_keys_def distinct_map inj_on_def)
  ultimately show "overdue env b \<and> b_planType b = q" by simp
qed (use assms in \<open>auto simp: set_stale_ids\<close>)

lemma expire_batch_stale:
  assumes "uniq_keys b_id (bookings w)"
  shows "expire_batch (stale_ids env q w) w = (swept_counts env (\<lambda>x. x = q) w, swept env (\<lambda>x. x = q) w)"
proof -
  have b: "(b_id b \<in> set (stale_ids env q w) \<and> b_status b = B_PENDING) =
           (overdue env b \<and> b_planType b = q)" if "b \<in> set (bookings w)" for b
    using stale_id_iff [OF assms that] by (auto simp: overdue_def)
  have p: "(p_bookingId p \<in> set (stale_ids env q w) \<and> p_status p = P_PENDING) =
           abandoned env (\<lambda>x. x = q) (bookings w) p" for p
    by (auto simp: set_stale_ids abandoned_def) metis
  show ?thesis
    unfolding expire_batch_def swept_def swept_counts_def Let_def p
    by (simp add: b cong: update_where_cong count_where_cong)
qed

lemma swept_none: "stale_ids env q w = [] \<Longrightarrow> swept env (\<lambda>x. x = q) w = w"
  "stale_ids env q w = [] \<Longrightarrow> swept_counts env (\<lambda>x. x = q) w = (0, 0)"
proof -
  assume "stale_ids env q w = []"
  then have "\<not> (overdue env b \<and> b_planType b = q)" if "b \<in> set (bookings w)" for b
    using that set_stale_ids [of env q w] by auto
  then have *: "\<forall>b\<in>set (bookings w). \<not> (overdue env b \<and> b_planType b = q)"
    "\<forall>p\<in>set (payments w). \<not> abandoned env (\<lambda>x. x = q) (bookings w) p"
    by (auto simp: abandoned_def)
  then show "swept env (\<lambda>x. x = q) w = w" "swept_counts env (\<lambda>x. x = q) w = (0, 0)"
    by (simp_all add: swept_def swept_counts_def update_where_none count_where_0_iff)
qed

lemma expire_plan_swept:
  assumes "uniq_keys b_id (bookings w)"
  shows "expire_plan env q ((e, r), w) =
    ((e + fst (swept_counts env (\<lambda>x. x = q) w), r + snd (swept_counts env (\<lambda>x. x = q) w)),
     swept env (\<lambda>x. x = q) w)"
  using expire_batch_stale [OF assms, of env q] swept_none [of env q w]
  by (auto simp: expire_plan_def Let_def split: prod.splits)

lemma swept_step:
  assumes "uniq_keys b_id (bookings w)" "\<not> D q"
  shows "swept env (\<lambda>x. x = q) (swept env D w) = swept env (\<lambda>x. D x \<or> x = q) w"
    "fst (swept_counts env D w) + fst (swept_counts env (\<lambda>x. x = q) (swept env D w)) =
       fst (swept_counts env (\<lambda>x. D x \<or> x = q) w)"
    "snd (swept_counts env D w) + snd (swept_counts env (\<lambda>x. x = q) (swept env D w)) =
       snd (swept_counts env (\<lambda>x. D x \<or> x = q) w)"
proof -
  let ?P = "\<lambda>b. overdue env b \<and> D (b_planType b)" and ?Q = "\<lambda>b. overdue env b \<and> b_planType b = q"
  let ?f = "\<lambda>b. b\<lparr>b_status := B_EXPIRED\<rparr>"
  have or: "(\<lambda>b. ?P b \<or> ?Q b) = (\<lambda>b. overdue env b \<and> (D (b_planType b) \<or> b_planType b = q))" by auto
  have bk: "update_where ?Q ?f (update_where ?P ?f (bookings w)) =
        update_where (\<lambda>b. overdue env b \<and> (D (b_planType b) \<or> b_planType b = q)) ?f (bookings w)"
    "count_where ?P (bookings w) + count_where ?Q (update_where ?P ?f (bookings w)) =
     count_where (\<lambda>b. overdue env b \<and> (D (b_planType b) \<or> b_planType b = q)) (bookings w)"
    using update_where_merge [of "bookings w" ?P ?Q ?f] assms(2) unfolding or
    by (auto simp: overdue_def)
  let ?A = "abandoned env D (bookings w)"
  let ?B = "abandoned env (\<lambda>x. x = q) (update_where ?P ?f (bookings w))"
  let ?g = "\<lambda>p. p\<lparr>p_status := P_FAILED\<rparr>"
  have B: "?B p \<longleftrightarrow> abandoned env (\<lambda>x. x = q) (bookings w) p" for p
    using assms(2) by (auto simp: abandoned_def set_update_where overdue_def)
  have uniq: "b' = b" if "b \<in> set (bookings w)" "b' \<in> set (bookings w)" "b_id b' = b_id b" for b b'
    using that assms(1) by (auto simp: uniq_keys_def distinct_map inj_on_def)
  have "\<not> ?B p" if A: "?A p" for p
  proof
    assume "?B p"
    then obtain b where b: "b \<in> set (bookings w)" "b_planType b = q" "b_id b = p_bookingId p"
      unfolding B by (auto simp: abandoned_def)
    from A obtain b' where b': "b' \<in> set (bookings w)" "D (b_planType b')" "b_id b' = p_bookingId p"
      by (auto simp: abandoned_def)
    from uniq [of b b'] b b' assms(2) show False by simp
  qed
  moreover have "\<not> ?B (?g p)" for p unfolding B by (simp add: abandoned_def)
  moreover have "(\<lambda>p. ?A p \<or> ?B p) = abandoned env (\<lambda>x. D x \<or> x = q) (bookings w)"
    unfolding B by (rule ext) (auto simp: abandoned_def)
  ultimately have pm: "update_where ?B ?g (update_where ?A ?g (payments w)) =
      update_where (abandoned env (\<lambda>x. D x \<or> x = q) (bookings w)) ?g (payments w)"
    "count_where ?A (payments w) + count_where ?B (update_where ?A ?g (payments w)) =
     count_where (abandoned env (\<lambda>x. D x \<or> x = q) (bookings w)) (payments w)"
    using update_where_merge [of "payments w" ?A ?B ?g] by simp_all
  show "swept env (\<lambda>x. x = q) (swept env D w) = swept env (\<lambda>x. D x \<or> x = q) w"
    using bk(1) pm(1) by (simp add: swept_def)
  show "fst (swept_counts env D w) + fst (swept_counts env (\<lambda>x. x = q) (swept env D w)) =
       fst (swept_counts env (\<lambda>x. D x \<or> x = q) w)"
    using bk(2) by (simp add: swept_def swept_counts_def)
  show "snd (swept_counts env D w) + snd (swept_counts env (\<lambda>x. x = q) (swept env D w)) =
       snd (swept_counts env (\<lambda>x. D x \<or> x = q) w)"
    using pm(2) by (simp add: swept_def swept_counts_def)
qed

lemma uniq_swept: "uniq_keys b_id (bookings w) \<Longrightarrow> uniq_keys b_id (bookings (swept env D w))"
  by (simp add: swept_def uniq_keys_def distinct_update_where)

lemma fold_expire_plan:
  assumes "uniq_keys b_id (bookings w)" "distinct plans" "\<forall>q\<in>set plans. \<not> D q"
  shows "fold (expire_plan env) plans (swept_counts env D w, swept env D w) =
    (swept_counts env (\<lambda>x. D x \<or> x \<in> set plans) w, swept env (\<lambda>x. D x \<or> x \<in> set plans) w)"
  using assms(2,3)
proof (induction plans arbitrary: D)
  case Nil
  then show ?case by simp
next
  case (Cons q plans)
  have "expire_plan env q (swept_counts env D w, swept env D w) =
    (swept_counts env (\<lambda>x. D x \<or> x = q) w, swept env (\<lambda>x. D x \<or> x = q) w)"
    using expire_plan_swept [OF uniq_swept [OF assms(1)], of env q "fst (swept_counts env D w)"
        "snd (swept_counts env D w)" env D] swept_step [OF assms(1), of D q env] Cons.prems
    by (simp add: prod_eq_iff)
  with Cons.IH [of "\<lambda>x. D x \<or> x = q"] Cons.prems show ?case by (auto simp: disj_assoc)
qed

lemma swept_empty: "swept env (\<lambda>_. False) w = w" "swept_counts env (\<lambda>_. False) w = (0, 0)"
  by (simp_all add: swept_def swept_counts_def abandoned_def update_where_none count_where_0_iff)

lemma sweep_is_swept:
  assumes "uniq_keys b_id (bookings w)"
  shows "expireStalePendingBookings env w = (swept_counts env (\<lambda>_. True) w, swept env (\<lambda>_. True) w)"
  using fold_expire_plan [OF assms, of all_plans "\<lambda>_. False" env]
  by (simp add: expireStalePendingBookings_def swept_empty) (simp add: all_plans_def)

lemma swept_settles:
  "b \<in> set (bookings (swept env (\<lambda>_. True) w)) \<Longrightarrow> \<not> overdue env b"
  by (auto simp: swept_def set_update_where overdue_def)

end
