(* ===== verification/Soroban.thy ===== *)
theory Soroban
  imports NL_Sample
begin

text \<open>
  \<open>backend/src/payments/providers/soroban-escrow.provider.ts\<close>: the client of the escrow
  contract. It validates the \<open>STELLAR_*\<close> configuration, builds and submits contract calls, polls
  a transaction until it settles, and reads an escrow back. The SDK and the RPC server are
  parameters (\<open>rpc\<close>): \<open>poll_delay k\<close> is what the k-th wait takes beyond its 1000 ms timer.
\<close>

section \<open>The SDK's values\<close>

datatype scval =
    ScString string
  | ScSymbol string
  | ScAccount string
  | ScI128 int
  | ScU64 int
  | ScVec "scval list"
  | ScMap "(scval \<times> scval) list"

datatype native =
    NatString string
  | NatInt int
  | NatArray "native list"
  | NatObject "(native \<times> native) list"

datatype tx_status = TX_SUCCESS | TX_FAILED | TX_NOT_FOUND

text \<open>A simulation succeeds with a return value, succeeds without one, or fails.\<close>

datatype simulation = SimSuccess "scval option" | SimError

record invocation =
  inv_contract :: string
  inv_function :: string
  inv_args :: "scval list"
  inv_auth :: "(string \<times> string \<times> scval list) list"

record stellar_tx =
  tx_source :: string
  tx_fee :: string
  tx_network :: string
  tx_minTime :: int
  tx_maxTime :: int
  tx_operation :: invocation
  tx_signer :: "string option"

text \<open>A JavaScript number or string, for an amount read back from a \<open>bigint\<close> column.\<close>

datatype js_amount = NumAmount int | StrAmount string

record rpc =
  valid_public_key :: "string \<Rightarrow> bool"
  keypair_of_secret :: "string \<Rightarrow> string option"
  rpc_getAccount :: "string \<Rightarrow> string result"
  rpc_prepare :: "stellar_tx \<Rightarrow> stellar_tx result"
  rpc_send :: "stellar_tx \<Rightarrow> string result"
  rpc_getTransaction :: "nat \<Rightarrow> string \<Rightarrow> tx_status result"
  rpc_simulate :: "stellar_tx \<Rightarrow> simulation result"
  poll_delay :: "nat \<Rightarrow> nat"

section \<open>Configuration\<close>

record escrow_config =
  ec_contractId :: string
  ec_beneficiary :: string
  ec_networkPassphrase :: string
  ec_signer :: string

definition TTL :: int where
  "TTL = 10 * 60"

definition NETWORK_PASSPHRASES :: "(string \<times> string) list" where
  "NETWORK_PASSPHRASES =
     [(''TESTNET'', ''Test SDF Network ; September 2015''),
      (''PUBLIC'', ''Public Global Sorrow Network ; February 2021''),
      (''FUTURENET'', ''Test SDF Future Network ; October 2022'')]"

definition is_hex :: "char \<Rightarrow> bool" where
  "is_hex c \<longleftrightarrow> c \<in> set ''0123456789abcdefABCDEF''"

definition is_unset :: "string option \<Rightarrow> bool" where
  "is_unset v \<longleftrightarrow> v = None \<or> v = Some []"

definition contract_problems :: "string option \<Rightarrow> string list" where
  "contract_problems contractId =
     (if is_unset contractId then [''STELLAR_ESCROW_CONTRACT_ID is required'']
      else if \<not> (length (the contractId) = 64 \<and> list_all is_hex (the contractId))
      then [''STELLAR_ESCROW_CONTRACT_ID must be a 64-char hex contract ID''] else [])"

definition beneficiary_problems :: "rpc \<Rightarrow> string option \<Rightarrow> string list" where
  "beneficiary_problems r beneficiary =
     (if is_unset beneficiary then [''STELLAR_BENEFICIARY_ADDRESS is required'']
      else if \<not> valid_public_key r (the beneficiary)
      then [''STELLAR_BENEFICIARY_ADDRESS must be a valid Stellar account (G) address''] else [])"

text \<open>
  \<open>network in NETWORK_PASSPHRASES\<close> is also true for the names every object inherits
  (\<open>proto_names\<close>).
\<close>

definition proto_names :: "string list" where
  "proto_names =
     [''constructor'', ''__defineGetter__'', ''__defineSetter__'', ''hasOwnProperty'',
      ''__lookupGetter__'', ''__lookupSetter__'', ''isPrototypeOf'', ''propertyIsEnumerable'',
      ''toString'', ''valueOf'', ''__proto__'', ''toLocaleString'']"

definition network_problems :: "string option \<Rightarrow> string list" where
  "network_problems network =
     (if is_unset network then [''STELLAR_NETWORK is required'']
      else if \<not> (map_of NETWORK_PASSPHRASES (the network) \<noteq> None \<or> the network \<in> set proto_names)
              \<and> the network \<notin> set (map snd NETWORK_PASSPHRASES)
      then [''STELLAR_NETWORK must be one of TESTNET, PUBLIC, FUTURENET or a known passphrase'']
      else [])"

definition secret_problems :: "rpc \<Rightarrow> string option \<Rightarrow> string list" where
  "secret_problems r secretKey =
     (if is_unset secretKey then [''STELLAR_SECRET_KEY is required'']
      else if keypair_of_secret r (the secretKey) = None
      then [''STELLAR_SECRET_KEY is not a valid Stellar secret key (S)''] else [])"

definition join_problems :: "string list \<Rightarrow> string" where
  "join_problems ps = (case ps of [] \<Rightarrow> [] | p # qs \<Rightarrow> p @ concat (map (\<lambda>q. ''; '' @ q) qs))"

definition validate_config ::
  "rpc \<Rightarrow> string option \<Rightarrow> string option \<Rightarrow> string option \<Rightarrow> string option \<Rightarrow> escrow_config result" where
  "validate_config r contractId beneficiary network secretKey =
     (let problems = contract_problems contractId @ beneficiary_problems r beneficiary @
            network_problems network @ secret_problems r secretKey
      in if problems \<noteq> []
         then Inl (JsError (''Invalid Soroban escrow configuration: '' @ join_problems problems))
         else Inr \<lparr>ec_contractId = to_lower (the contractId), ec_beneficiary = the beneficiary,
                   ec_networkPassphrase =
                     (case map_of NETWORK_PASSPHRASES (the network) of
                        Some passphrase \<Rightarrow> passphrase
                      | None \<Rightarrow> the network),
                   ec_signer = the (keypair_of_secret r (the secretKey))\<rparr>)"

text \<open>
  The constructor: no variable set disables escrow (\<open>None\<close>), otherwise all four must be valid.
  A \<open>network\<close> that names an inherited property passes the validation; its passphrase is then
  that function, so the model's \<open>the network\<close> is only the code's value for the other names.
\<close>

definition escrow_provider :: "env \<Rightarrow> rpc \<Rightarrow> escrow_config option result" where
  "escrow_provider env r =
     (let contractId = config env ''STELLAR_ESCROW_CONTRACT_ID'';
          beneficiary = config env ''STELLAR_BENEFICIARY_ADDRESS'';
          network = config env ''STELLAR_NETWORK'';
          secretKey = config env ''STELLAR_SECRET_KEY''
      in if list_all is_unset [contractId, beneficiary, network, secretKey] then Inr None
         else case validate_config r contractId beneficiary network secretKey of
                Inl e \<Rightarrow> Inl e
              | Inr cfg \<Rightarrow> Inr (Some cfg))"

section \<open>Waiting for a transaction to settle\<close>

text \<open>
  \<open>elapsed\<close> is \<open>Date.now() - startTime\<close>: every turn of the loop adds its 1000 ms timer and the
  delay of the request. \<open>k\<close> counts the requests; the second component of the answer is the number
  of requests sent.
\<close>

function wait_loop :: "rpc \<Rightarrow> string \<Rightarrow> nat \<Rightarrow> nat \<Rightarrow> tx_status \<Rightarrow> tx_status result \<times> nat" where
  "wait_loop r hash elapsed k response =
     (if response = TX_NOT_FOUND \<and> elapsed < 30 * 1000
      then case rpc_getTransaction r k hash of
             Inl e \<Rightarrow> (Inl e, Suc k)
           | Inr response' \<Rightarrow> wait_loop r hash (elapsed + 1000 + poll_delay r k) (Suc k) response'
      else (Inr response, k))"
  by pat_completeness auto

termination
  by (relation "measure (\<lambda>(r, hash, elapsed, k, response). 30 * 1000 - elapsed)") auto

declare wait_loop.simps [simp del]

definition waitForSettlement :: "rpc \<Rightarrow> string \<Rightarrow> tx_status result \<times> nat" where
  "waitForSettlement r hash =
     (case rpc_getTransaction r 0 hash of
        Inl e \<Rightarrow> (Inl e, 1)
      | Inr response \<Rightarrow> wait_loop r hash 0 1 response)"

section \<open>Calls of the contract\<close>

definition assertEnabled :: "escrow_config option \<Rightarrow> escrow_config result" where
  "assertEnabled cfg =
     (case cfg of
        None \<Rightarrow> Inl (BadGateway ''Soroban escrow is not configured (STELLAR_* variables missing).'')
      | Some c \<Rightarrow> Inr c)"

definition buildInvocation :: "escrow_config \<Rightarrow> string \<Rightarrow> scval list \<Rightarrow> bool \<Rightarrow> invocation" where
  "buildInvocation c functionName args withAuth =
     \<lparr>inv_contract = ec_contractId c, inv_function = functionName, inv_args = args,
      inv_auth = (if withAuth then [(ec_contractId c, functionName, args)] else [])\<rparr>"

definition build_tx :: "env \<Rightarrow> escrow_config \<Rightarrow> string \<Rightarrow> invocation \<Rightarrow> stellar_tx" where
  "build_tx env c source operation =
     \<lparr>tx_source = source, tx_fee = ''100'', tx_network = ec_networkPassphrase c, tx_minTime = 0,
      tx_maxTime = now env div 1000 + TTL, tx_operation = operation, tx_signer = None\<rparr>"

text \<open>
  Prepare, sign, send, wait: an error of any step becomes a bad gateway. The second component is
  what was sent to the network.
\<close>

definition submit ::
  "env \<Rightarrow> rpc \<Rightarrow> escrow_config \<Rightarrow> invocation \<Rightarrow> string \<Rightarrow> string result \<times> effect list" where
  "submit env r c operation label =
     (let failed = BadGateway (''Failed to execute Soroban transaction ('' @ label @ '').'')
      in case rpc_getAccount r (ec_signer c) of
           Inl e \<Rightarrow> (Inl failed, [])
         | Inr source \<Rightarrow>
        (case rpc_prepare r (build_tx env c source operation) of
           Inl e \<Rightarrow> (Inl failed, [])
         | Inr prepared \<Rightarrow>
        (case rpc_send r (prepared\<lparr>tx_signer := Some (ec_signer c)\<rparr>) of
           Inl e \<Rightarrow> (Inl failed, [SorobanSend (inv_function operation)])
         | Inr hash \<Rightarrow>
        (case fst (waitForSettlement r hash) of
           Inl e \<Rightarrow> (Inl failed, [SorobanSend (inv_function operation)])
         | Inr status \<Rightarrow>
             if status \<noteq> TX_SUCCESS then (Inl failed, [SorobanSend (inv_function operation)])
             else (Inr hash, [SorobanSend (inv_function operation)])))))"

text \<open>\<open>Number.isSafeInteger(amount) && amount > 0\<close>: a string is not a safe integer.\<close>

definition escrow_amount :: "js_amount \<Rightarrow> nat option" where
  "escrow_amount a =
     (case a of
        NumAmount n \<Rightarrow> if 0 < n \<and> n \<le> 2 ^ 53 - 1 then Some (nat n) else None
      | StrAmount _ \<Rightarrow> None)"

text \<open>\<open>xdr.Uint64.fromString\<close> refuses a number that does not fit.\<close>

definition u64_val :: "int \<Rightarrow> scval result" where
  "u64_val n = (if 0 \<le> n \<and> n < 2 ^ 64 then Inr (ScU64 n) else Inl (JsError ''expected a UnsignedHyper''))"

definition createEscrow ::
  "env \<Rightarrow> rpc \<Rightarrow> escrow_config option \<Rightarrow> uuid \<Rightarrow> js_amount \<Rightarrow> string \<Rightarrow> int \<Rightarrow> string result \<times> effect list" where
  "createEscrow env r cfg bookingId amount description releaseAfterUnix =
     (case assertEnabled cfg of
        Inl e \<Rightarrow> (Inl e, [])
      | Inr c \<Rightarrow>
     (case escrow_amount amount of
        None \<Rightarrow> (Inl (BadGateway ''Escrow amount must be a positive integer (kobo).''), [])
      | Some kobo \<Rightarrow>
     (case u64_val releaseAfterUnix of
        Inl e \<Rightarrow> (Inl e, [])
      | Inr releaseAfter \<Rightarrow>
          submit env r c
            (buildInvocation c ''create_escrow''
               [ScAccount (ec_signer c), ScString bookingId, ScAccount (ec_beneficiary c),
                ScI128 (int kobo), ScString description, releaseAfter] True)
            (''createEscrow('' @ bookingId @ '')''))))"

definition releaseEscrow ::
  "env \<Rightarrow> rpc \<Rightarrow> escrow_config option \<Rightarrow> string \<Rightarrow> string result \<times> effect list" where
  "releaseEscrow env r cfg escrowId =
     (case assertEnabled cfg of
        Inl e \<Rightarrow> (Inl e, [])
      | Inr c \<Rightarrow>
          submit env r c (buildInvocation c ''release'' [ScAccount (ec_signer c), ScString escrowId] True)
            (''releaseEscrow('' @ escrowId @ '')''))"

definition refundEscrow ::
  "env \<Rightarrow> rpc \<Rightarrow> escrow_config option \<Rightarrow> string \<Rightarrow> string result \<times> effect list" where
  "refundEscrow env r cfg escrowId =
     (case assertEnabled cfg of
        Inl e \<Rightarrow> (Inl e, [])
      | Inr c \<Rightarrow>
          submit env r c (buildInvocation c ''refund'' [ScAccount (ec_signer c), ScString escrowId] True)
            (''refundEscrow('' @ escrowId @ '')''))"

section \<open>Reading an escrow back\<close>

text \<open>\<open>scValToNative\<close>: symbols and strings become strings, a vector an array, a map an object.\<close>

fun scValToNative :: "scval \<Rightarrow> native" where
  "scValToNative (ScString s) = NatString s"
| "scValToNative (ScSymbol s) = NatString s"
| "scValToNative (ScAccount s) = NatString s"
| "scValToNative (ScI128 n) = NatInt n"
| "scValToNative (ScU64 n) = NatInt n"
| "scValToNative (ScVec vs) = NatArray (map scValToNative vs)"
| "scValToNative (ScMap ps) = NatObject (map (\<lambda>(k, v). (scValToNative k, scValToNative v)) ps)"

text \<open>A JavaScript value here: an SDK value, a native one, or undefined.\<close>

datatype js_escrow_value = SdkValue scval | NativeValue native | Undefined

text \<open>\<open>v.sym().toString()\<close>: only an SDK symbol has the method.\<close>

definition js_sym :: "js_escrow_value \<Rightarrow> string result" where
  "js_sym v =
     (case v of SdkValue (ScSymbol s) \<Rightarrow> Inr s | _ \<Rightarrow> Inl (JsError ''sym is not a function''))"

fun escrow_fields :: "(scval \<times> scval) list \<Rightarrow> (string \<times> native) list result" where
  "escrow_fields [] = Inr []"
| "escrow_fields ((k, v) # entries) =
     (case js_sym (SdkValue k) of
        Inl e \<Rightarrow> Inl e
      | Inr key \<Rightarrow>
          (case escrow_fields entries of
             Inl e \<Rightarrow> Inl e
           | Inr es \<Rightarrow> Inr ((key, scValToNative v) # es)))"

definition mapScValToescrow :: "scval \<Rightarrow> (string \<times> native) list result" where
  "mapScValToescrow v =
     (case v of ScMap entries \<Rightarrow> escrow_fields entries | _ \<Rightarrow> Inl (JsError ''map not set''))"

definition mapScValToescrowStatus :: "js_escrow_value \<Rightarrow> string result" where
  "mapScValToescrowStatus v =
     (case js_sym v of
        Inl e \<Rightarrow> Inl e
      | Inr s \<Rightarrow> Inr (if s = ''pending'' then ''Pending'' else if s = ''released'' then ''Released''
                      else if s = ''refunded'' then ''Refunded''
                      else if s = ''disputed'' then ''Disputed'' else ''Unknown''))"

text \<open>\<open>escrow.status\<close>, the last entry of that name.\<close>

definition field_value :: "(string \<times> native) list \<Rightarrow> string \<Rightarrow> js_escrow_value" where
  "field_value es k =
     (case map_of (rev es) k of None \<Rightarrow> Undefined | Some v \<Rightarrow> NativeValue v)"

definition read_escrow ::
  "env \<Rightarrow> rpc \<Rightarrow> escrow_config \<Rightarrow> string \<Rightarrow> ((string \<times> native) list \<times> string) result" where
  "read_escrow env r c escrowId =
     (case rpc_getAccount r (ec_signer c) of
        Inl e \<Rightarrow> Inl e
      | Inr source \<Rightarrow>
     (case rpc_prepare r (build_tx env c source
             (buildInvocation c ''get_escrow'' [ScString escrowId] False)) of
        Inl e \<Rightarrow> Inl e
      | Inr prepared \<Rightarrow>
     (case rpc_simulate r prepared of
        Inl e \<Rightarrow> Inl e
      | Inr (SimSuccess (Some retval)) \<Rightarrow>
          (case mapScValToescrow retval of
             Inl e \<Rightarrow> Inl e
           | Inr escrow \<Rightarrow>
               (case mapScValToescrowStatus (field_value escrow ''status'') of
                  Inl e \<Rightarrow> Inl e
                | Inr status \<Rightarrow> Inr (escrow, status)))
      | Inr _ \<Rightarrow> Inl (NotFound ''Escrow not found.''))))"

definition getEscrowStatus ::
  "env \<Rightarrow> rpc \<Rightarrow> escrow_config option \<Rightarrow> string \<Rightarrow> ((string \<times> native) list \<times> string) result" where
  "getEscrowStatus env r cfg escrowId =
     (case assertEnabled cfg of
        Inl e \<Rightarrow> Inl e
      | Inr c \<Rightarrow>
          (case read_escrow env r c escrowId of
             Inl e \<Rightarrow> Inl (BadGateway ''Failed to get escrow status from Soroban network.'')
           | Inr x \<Rightarrow> Inr x))"

section \<open>A sample network\<close>

text \<open>Every transaction settles at once, with the hash \<open>tx1\<close>.\<close>

definition sample_rpc :: rpc where
  "sample_rpc =
     \<lparr>valid_public_key = (\<lambda>s. s = ''GBEN''), keypair_of_secret = (\<lambda>s. if s = ''SSEC'' then Some ''GPUB'' else None),
      rpc_getAccount = Inr, rpc_prepare = Inr, rpc_send = (\<lambda>_. Inr ''tx1''),
      rpc_getTransaction = (\<lambda>_ _. Inr TX_SUCCESS), rpc_simulate = (\<lambda>_. Inr (SimSuccess None)),
      poll_delay = (\<lambda>_. 0)\<rparr>"

definition sample_config :: escrow_config where
  "sample_config = \<lparr>ec_contractId = ''c0'', ec_beneficiary = ''GBEN'',
     ec_networkPassphrase = ''Test SDF Network ; September 2015'', ec_signer = ''GPUB''\<rparr>"

section \<open>Lemmas\<close>

lemma join_problems_Nil: "join_problems [] = []"
  by (simp add: join_problems_def)

lemma validate_config_Inr:
  "validate_config r contractId beneficiary network secretKey = Inr c \<Longrightarrow>
   \<exists>cid ben net sec kp. contractId = Some cid \<and> beneficiary = Some ben \<and> network = Some net \<and>
     secretKey = Some sec \<and> length cid = 64 \<and> list_all is_hex cid \<and> valid_public_key r ben \<and>
     keypair_of_secret r sec = Some kp \<and>
     ec_contractId c = to_lower cid \<and> ec_beneficiary c = ben \<and> ec_signer c = kp"
  by (auto simp: validate_config_def Let_def contract_problems_def beneficiary_problems_def
      network_problems_def secret_problems_def is_unset_def split: if_splits)

lemma wait_loop_stop:
  "\<not> (response = TX_NOT_FOUND \<and> elapsed < 30 * 1000) \<Longrightarrow>
   wait_loop r hash elapsed k response = (Inr response, k)"
  by (subst wait_loop.simps) auto

lemma wait_loop_step:
  "response = TX_NOT_FOUND \<and> elapsed < 30 * 1000 \<Longrightarrow>
   wait_loop r hash elapsed k response =
     (case rpc_getTransaction r k hash of
        Inl e \<Rightarrow> (Inl e, Suc k)
      | Inr response' \<Rightarrow> wait_loop r hash (elapsed + 1000 + poll_delay r k) (Suc k) response')"
  by (subst wait_loop.simps) auto

text \<open>The loop sends at most one request per second of its budget.\<close>

lemma wait_loop_polls:
  "wait_loop r hash elapsed k response = (x, n) \<Longrightarrow>
   n \<le> k + (30 * 1000 + 999 - elapsed) div 1000"
proof (induction r hash elapsed k response arbitrary: x n rule: wait_loop.induct)
  case (1 r hash elapsed k response)
  show ?case
  proof (cases "response = TX_NOT_FOUND \<and> elapsed < 30 * 1000")
    case False
    with 1(2) show ?thesis by (simp add: wait_loop_stop [OF False])
  next
    case True
    have one: "1 \<le> (30 * 1000 + 999 - elapsed) div 1000" using True by linarith
    show ?thesis
    proof (cases "rpc_getTransaction r k hash")
      case (Inl e)
      from 1(2) one show ?thesis unfolding wait_loop_step [OF True] Inl by simp
    next
      case (Inr response')
      from 1(2) have "wait_loop r hash (elapsed + 1000 + poll_delay r k) (Suc k) response' = (x, n)"
        unfolding wait_loop_step [OF True] Inr by simp
      from 1(1) [OF True Inr this]
      have "n \<le> Suc k + (30 * 1000 + 999 - (elapsed + 1000 + poll_delay r k)) div 1000" by simp
      also have "(30 * 1000 + 999 - (elapsed + 1000 + poll_delay r k)) div 1000 \<le>
                 (30 * 1000 + 999 - elapsed - 1000) div 1000"
        by (rule div_le_mono) simp
      also have "Suc k + (30 * 1000 + 999 - elapsed - 1000) div 1000 =
                 k + (30 * 1000 + 999 - elapsed) div 1000"
      proof -
        have "30 * 1000 + 999 - elapsed = (30 * 1000 + 999 - elapsed - 1000) + 1000" using True by simp
        then show ?thesis by (metis Suc_eq_plus1 add_Suc_shift div_add_self2 zero_neq_numeral)
      qed
      finally show ?thesis by simp
    qed
  qed
qed

text \<open>The loop gives up only after its budget.\<close>

lemma wait_loop_NOT_FOUND:
  "wait_loop r hash elapsed k response = (Inr TX_NOT_FOUND, n) \<Longrightarrow>
   response = TX_NOT_FOUND \<and> (\<forall>i. k \<le> i \<and> i < n \<longrightarrow> rpc_getTransaction r i hash = Inr TX_NOT_FOUND) \<and>
   30 * 1000 \<le> elapsed + (\<Sum>i = k..<n. 1000 + poll_delay r i) \<and> k \<le> n"
proof (induction r hash elapsed k response arbitrary: n rule: wait_loop.induct)
  case (1 r hash elapsed k response)
  show ?case
  proof (cases "response = TX_NOT_FOUND \<and> elapsed < 30 * 1000")
    case False
    with 1(2) show ?thesis by (auto simp: wait_loop_stop [OF False])
  next
    case True
    from 1(2) obtain response' where g: "rpc_getTransaction r k hash = Inr response'"
      and rec: "wait_loop r hash (elapsed + 1000 + poll_delay r k) (Suc k) response' = (Inr TX_NOT_FOUND, n)"
      unfolding wait_loop_step [OF True] by (auto split: sum.splits)
    from 1(1) [OF True g rec] have IH: "response' = TX_NOT_FOUND"
      "\<forall>i. Suc k \<le> i \<and> i < n \<longrightarrow> rpc_getTransaction r i hash = Inr TX_NOT_FOUND"
      "30 * 1000 \<le> elapsed + 1000 + poll_delay r k + (\<Sum>i = Suc k..<n. 1000 + poll_delay r i)"
      "Suc k \<le> n" by auto
    have "(\<Sum>i = k..<n. 1000 + poll_delay r i) =
          1000 + poll_delay r k + (\<Sum>i = Suc k..<n. 1000 + poll_delay r i)"
      using IH(4) by (simp add: sum.atLeast_Suc_lessThan)
    moreover have "rpc_getTransaction r i hash = Inr TX_NOT_FOUND" if "k \<le> i" "i < n" for i
      using IH(1,2) g that by (cases "i = k") auto
    ultimately show ?thesis using IH True by auto
  qed
qed

lemma submit_Inr:
  "submit env r c operation label = (Inr hash, es) \<Longrightarrow>
   fst (waitForSettlement r hash) = Inr TX_SUCCESS \<and> es = [SorobanSend (inv_function operation)]"
  by (auto simp: submit_def Let_def split: sum.splits if_splits)

lemma submit_error:
  "submit env r c operation label = (Inl e, es) \<Longrightarrow>
   e = BadGateway (''Failed to execute Soroban transaction ('' @ label @ '').'')"
  by (auto simp: submit_def Let_def split: sum.splits if_splits)

lemma escrow_amount_Some:
  "escrow_amount a = Some n \<longleftrightarrow> (\<exists>k. a = NumAmount k \<and> 0 < k \<and> k \<le> 2 ^ 53 - 1 \<and> n = nat k)"
  by (auto simp: escrow_amount_def split: js_amount.splits)

lemma status_of_native: "mapScValToescrowStatus (NativeValue v) = Inl (JsError ''sym is not a function'')"
  by (simp add: mapScValToescrowStatus_def js_sym_def)

lemma status_of_field:
  "mapScValToescrowStatus (field_value es k) = Inl (JsError ''sym is not a function'')"
  by (simp add: field_value_def mapScValToescrowStatus_def js_sym_def split: option.splits)

lemma read_escrow_fails: "\<exists>e. read_escrow env r c escrowId = Inl e"
  by (auto simp: read_escrow_def status_of_field split: sum.splits simulation.splits option.splits)

end
