(* ===== verification/Invoices.thy ===== *)
theory Invoices
  imports Bookings
begin

text \<open>
  \<open>backend/src/invoices\<close>: generating the invoice of a payment, its number, and the queries with
  their ownership rule. The dash in a line item's description is written \<open>-\<close>. The PDF that goes
  with the mail is not part of the model.
\<close>

section \<open>Numbers\<close>

text \<open>\<open>inv_seq\<close> counts the values \<open>invoice_number_seq\<close> (\<open>START 1\<close>) has given out.\<close>

definition nextval :: "world \<Rightarrow> nat \<times> world" where
  "nextval w = (Suc (inv_seq w), w\<lparr>inv_seq := Suc (inv_seq w)\<rparr>)"

definition invoice_number :: "nat \<Rightarrow> string" where
  "invoice_number n = ''INV-'' @ pad_start 5 (nat_str n)"

definition nextInvoiceNumber :: "world \<Rightarrow> string \<times> world" where
  "nextInvoiceNumber w = (case nextval w of (n, w') \<Rightarrow> (invoice_number n, w'))"

section \<open>Generating an invoice\<close>

text \<open>
  \<open>invoicesRepository.save\<close>: \<open>userId\<close> is \<open>NOT NULL\<close> (\<open>invoice.entity.ts\<close>), the invoice number is
  unique.
\<close>

definition insert_invoice :: "invoice \<Rightarrow> world \<Rightarrow> invoice result \<times> world" where
  "insert_invoice i w =
     (if i_userId i = None then (Inl (DbError ''null value in column userId''), w)
      else if find_one (\<lambda>x. i_invoiceNumber x = i_invoiceNumber i) (invoices w) \<noteq> None
      then (Inl (DbError ''duplicate key value: invoiceNumber''), w)
      else (Inr i, w\<lparr>invoices := invoices w @ [i]\<rparr>))"

definition line_item_of :: "payment \<Rightarrow> booking option \<Rightarrow> workspace option \<Rightarrow> line_item" where
  "line_item_of p bk ws =
     \<lparr>li_description =
        (case (ws, bk) of
           (Some x, Some b) \<Rightarrow> w_name x @ '' - '' @ plan_string (b_planType b) @ '' booking''
         | _ \<Rightarrow> ''Booking '' @ (case bk of Some b \<Rightarrow> b_id b | None \<Rightarrow> [])),
      li_startDate = map_option b_startDate bk, li_endDate = map_option b_endDate bk,
      li_seatCount = (case bk of Some b \<Rightarrow> b_seatCount b | None \<Rightarrow> 1),
      li_amountKobo = p_amount p\<rparr>"

definition new_invoice :: "env \<Rightarrow> string \<Rightarrow> payment \<Rightarrow> line_item list \<Rightarrow> invoice" where
  "new_invoice env number p items =
     \<lparr>i_id = uuid1 env, i_invoiceNumber = number, i_userId = p_userId p, i_bookingId = p_bookingId p,
      i_paymentId = Some (p_id p), i_amountKobo = p_amount p, i_currency = p_currency p,
      i_status = I_PAID, i_paidAt = p_paidAt p, i_lineItems = items, i_createdAt = now env,
      i_hubId = None\<rparr>"

definition generateForPayment :: "env \<Rightarrow> uuid \<Rightarrow> world \<Rightarrow> invoice result \<times> world" where
  "generateForPayment env paymentId w =
     (case find_one (\<lambda>i. i_paymentId i = Some paymentId) (invoices w) of
        Some existing \<Rightarrow> (Inr existing, w)
      | None \<Rightarrow>
     (case find_payment paymentId w of
        None \<Rightarrow> (Inl (JsError ''Payment not found''), w)
      | Some p \<Rightarrow>
          let bk = find_booking (p_bookingId p) w;
              usr = find_user env (\<lambda>u. where_eq env (p_userId p) (Some (u_id u))) w;
              ws = (case bk of None \<Rightarrow> None | Some b \<Rightarrow> find_workspace (b_workspaceId b) w)
          in case nextInvoiceNumber w of
               (number, w1) \<Rightarrow>
                 (case insert_invoice (new_invoice env number p [line_item_of p bk ws]) w1 of
                    (Inl e, w2) \<Rightarrow> (Inl e, w2)
                  | (Inr saved, w2) \<Rightarrow>
                      (Inr saved,
                       case usr of None \<Rightarrow> w2 | Some u \<Rightarrow> emit (Mail InvoiceReadyMail (u_email u)) w2))))"

section \<open>Queries\<close>

record invoice_query =
  iq_page :: "int option"
  iq_limit :: "int option"
  iq_status :: "invoice_status option"
  iq_bookingId :: "uuid option"

definition invoice_filter :: "invoice_query \<Rightarrow> uuid \<Rightarrow> user_role \<Rightarrow> invoice \<Rightarrow> bool" where
  "invoice_filter q userId userRole i \<longleftrightarrow>
     (is_staff_role userRole \<or> i_userId i = Some userId) \<and>
     (case iq_status q of None \<Rightarrow> True | Some s \<Rightarrow> i_status i = s) \<and>
     (is_falsy_id (iq_bookingId q) \<or> iq_bookingId q = Some (i_bookingId i))"

text \<open>The page, the total, the page number and the limit, capped at 100.\<close>

definition invoices_findAll ::
  "invoice_query \<Rightarrow> uuid \<Rightarrow> user_role \<Rightarrow> world \<Rightarrow> (invoice list \<times> nat \<times> int \<times> int) result" where
  "invoices_findAll q userId userRole w =
     (let page = or_else (iq_page q) 1; lmt = min (or_else (iq_limit q) 20) 100;
          rows = filter (invoice_filter q userId userRole) (invoices w)
      in case paginate page lmt (newest_first i_createdAt rows) of
           Inl e \<Rightarrow> Inl e
         | Inr xs \<Rightarrow> Inr (xs, length rows, page, lmt))"

definition invoices_findById :: "uuid \<Rightarrow> uuid \<Rightarrow> user_role \<Rightarrow> world \<Rightarrow> invoice result" where
  "invoices_findById invoiceId userId userRole w =
     (case find_one (\<lambda>i. i_id i = invoiceId \<and> (is_staff_role userRole \<or> i_userId i = Some userId))
             (invoices w) of
        None \<Rightarrow> Inl (NotFound ''Invoice not found'')
      | Some i \<Rightarrow> Inr i)"

section \<open>Lemmas\<close>

definition number_of_invoice :: "string \<Rightarrow> nat" where
  "number_of_invoice s = num_of (drop 4 s)"

lemma number_of_invoice_number: "number_of_invoice (invoice_number n) = n"
  by (simp add: number_of_invoice_def invoice_number_def num_of_pad_start num_of_nat_str)

lemma invoice_number_inj: "invoice_number m = invoice_number n \<longleftrightarrow> m = n"
  using number_of_invoice_number by metis

text \<open>
  The invoice table's integrity: every number was given out by the sequence, no number twice, no
  payment twice.
\<close>

definition invoices_ok :: "world \<Rightarrow> bool" where
  "invoices_ok w \<longleftrightarrow>
     (\<forall>i\<in>set (invoices w). \<exists>n\<le>inv_seq w. i_invoiceNumber i = invoice_number n) \<and>
     distinct (map i_invoiceNumber (invoices w)) \<and>
     distinct (map i_paymentId (invoices w)) \<and> (\<forall>i\<in>set (invoices w). i_paymentId i \<noteq> None)"

lemma insert_invoice_cases:
  assumes "insert_invoice i w = (r, w')"
  obtains (refused) e where "r = Inl (DbError e)" "w' = w"
  | (inserted) "r = Inr i" "i_userId i \<noteq> None" "w' = w\<lparr>invoices := invoices w @ [i]\<rparr>"
  using assms by (auto simp: insert_invoice_def split: if_splits)

lemma new_number_unused:
  "invoices_ok w \<Longrightarrow> find_one (\<lambda>x. i_invoiceNumber x = invoice_number (Suc (inv_seq w))) (invoices w) = None"
  by (fastforce simp: find_one_None_iff invoices_ok_def invoice_number_inj)

text \<open>What generating does, by what it finds.\<close>

lemma generate_cases:
  assumes "generateForPayment env k w = (r, w')"
  obtains (existing) i where "find_one (\<lambda>i. i_paymentId i = Some k) (invoices w) = Some i"
      "r = Inr i" "w' = w"
  | (missing) "find_payment k w = None" "r = Inl (JsError ''Payment not found'')" "w' = w"
  | (refused) p e where "find_payment k w = Some p" "r = Inl (DbError e)"
      "w' = w\<lparr>inv_seq := Suc (inv_seq w)\<rparr>"
      "p_userId p = None \<or>
       find_one (\<lambda>x. i_invoiceNumber x = invoice_number (Suc (inv_seq w))) (invoices w) \<noteq> None"
  | (created) p i es where "find_one (\<lambda>i. i_paymentId i = Some k) (invoices w) = None"
      "find_payment k w = Some p" "p_userId p \<noteq> None" "r = Inr i"
      "w' = w\<lparr>inv_seq := Suc (inv_seq w), invoices := invoices w @ [i], fx := fx w @ es\<rparr>"
      "i_invoiceNumber i = invoice_number (Suc (inv_seq w))" "i_paymentId i = Some (p_id p)"
      "i_userId i = p_userId p" "i_amountKobo i = p_amount p" "i_bookingId i = p_bookingId p"
      "i_status i = I_PAID"
proof (cases "find_one (\<lambda>i. i_paymentId i = Some k) (invoices w)")
  case (Some i)
  with assms show thesis by (intro existing) (auto simp: generateForPayment_def)
next
  case none: None
  show thesis
  proof (cases "find_payment k w")
    case None
    with assms none show thesis by (intro missing) (auto simp: generateForPayment_def)
  next
    case (Some p)
    define i where "i = new_invoice env (invoice_number (Suc (inv_seq w))) p
      [line_item_of p (find_booking (p_bookingId p) w)
        (case find_booking (p_bookingId p) w of None \<Rightarrow> None | Some b \<Rightarrow> find_workspace (b_workspaceId b) w)]"
    let ?w1 = "w\<lparr>inv_seq := Suc (inv_seq w)\<rparr>"
    let ?u = "find_user env (\<lambda>u. where_eq env (p_userId p) (Some (u_id u))) w"
    have gen: "(r, w') = (case insert_invoice i ?w1 of
        (Inl e, w2) \<Rightarrow> (Inl e, w2)
      | (Inr saved, w2) \<Rightarrow>
          (Inr saved, case ?u of None \<Rightarrow> w2 | Some u \<Rightarrow> emit (Mail InvoiceReadyMail (u_email u)) w2))"
      using assms none Some
      by (simp add: generateForPayment_def nextInvoiceNumber_def nextval_def Let_def i_def)
    have i: "i_userId i = p_userId p" "i_invoiceNumber i = invoice_number (Suc (inv_seq w))"
      by (simp_all add: i_def new_invoice_def)
    show thesis
    proof (cases "p_userId p = None \<or>
        find_one (\<lambda>x. i_invoiceNumber x = invoice_number (Suc (inv_seq w))) (invoices w) \<noteq> None")
      case True
      then have "\<exists>e. insert_invoice i ?w1 = (Inl (DbError e), ?w1)"
        by (cases "p_userId p = None") (simp_all add: insert_invoice_def i)
      with gen obtain e where "r = Inl (DbError e)" "w' = ?w1" by auto
      with Some True show thesis by (intro refused [of p e]) auto
    next
      case False
      then have ins: "insert_invoice i ?w1 = (Inr i, ?w1\<lparr>invoices := invoices w @ [i]\<rparr>)"
        by (simp add: insert_invoice_def i)
      define es where "es = (case ?u of None \<Rightarrow> [] | Some u \<Rightarrow> [Mail InvoiceReadyMail (u_email u)])"
      have "w' = w\<lparr>inv_seq := Suc (inv_seq w), invoices := invoices w @ [i], fx := fx w @ es\<rparr>" "r = Inr i"
        using gen unfolding ins by (simp_all add: emit_def es_def split: option.splits)
      with none Some False show thesis
        by (intro created [of p i es]) (simp_all add: i_def new_invoice_def)
    qed
  qed
qed

lemma generate_frame:
  assumes "generateForPayment env k w = (r, w')"
  shows "users w' = users w" "workspaces w' = workspaces w" "bookings w' = bookings w"
    "payments w' = payments w" "logs w' = logs w" "tokens w' = tokens w" "audit w' = audit w"
  using assms by (cases rule: generate_cases; simp)+

lemma numbers_below_Suc:
  "invoices_ok w \<Longrightarrow> x \<in> set (invoices w) \<Longrightarrow>
   \<exists>n\<le>Suc (inv_seq w). i_invoiceNumber x = invoice_number n"
  unfolding invoices_ok_def using le_SucI by metis

lemma generate_ok:
  assumes "invoices_ok w" "generateForPayment env k w = (r, w')"
  shows "invoices_ok w'"
  using assms(2)
proof (cases rule: generate_cases)
  case (created p i es)
  have "i_invoiceNumber i \<notin> i_invoiceNumber ` set (invoices w)"
    using new_number_unused [OF assms(1)] created(6) by (auto simp: find_one_None_iff)
  moreover have "i_paymentId i \<notin> i_paymentId ` set (invoices w)"
    using created(1,2,7) by (auto simp: find_one_None_iff find_payment_def find_by_def dest!: find_one_SomeD)
  ultimately show ?thesis
    using assms(1) created numbers_below_Suc [OF assms(1)] by (auto simp: invoices_ok_def)
next
  case (refused p e)
  then show ?thesis
    using assms(1) numbers_below_Suc [OF assms(1)] by (simp add: invoices_ok_def)
qed (use assms(1) in simp_all)

end
