(* ===== verification/Payments.thy ===== *)
theory Payments
  imports Booking_Expiry Soroban Invoices
begin

text \<open>
  \<open>backend/src/payments\<close>: opening a payment, the Paystack webhook with the effects of a
  successful and of a failed charge, refunds and queries. The status of a payment changes only by
  \<open>payment_cas\<close>, the conditional \<open>UPDATE .. WHERE id = :id AND status = :status\<close>.

  Work the webhook starts without waiting for it (the invoice, mails, notifications) is done at
  the point where it is started; its exceptions are logged by the code and dropped here.
\<close>

section \<open>Opening a payment\<close>

definition find_user_by_id :: "env \<Rightarrow> uuid option \<Rightarrow> world \<Rightarrow> user option" where
  "find_user_by_id env k w = find_user env (\<lambda>u. where_eq env k (Some (u_id u))) w"

definition initialize_payment ::
  "env \<Rightarrow> uuid \<Rightarrow> uuid \<Rightarrow> world \<Rightarrow> payment_session result \<times> world" where
  "initialize_payment env bookingId userId w =
     (case find_one (\<lambda>b. b_id b = bookingId \<and> b_userId b = Some userId) (bookings w) of
        None \<Rightarrow> (Inl (NotFound ''Booking not found''), w)
      | Some b \<Rightarrow>
          if b_status b \<noteq> B_PENDING
          then (Inl (BadRequest ''Only PENDING bookings can be paid''), w)
          else case find_one (\<lambda>p. p_bookingId p = bookingId \<and> p_status p = P_PENDING) (payments w) of
                 Some existing \<Rightarrow>
                   (case find_user_by_id env (Some userId) w of
                      None \<Rightarrow> (Inl (JsError ''Cannot read properties of null''), w)
                    | Some u \<Rightarrow>
                        let w1 = emit (PaystackInitialize (u_email u) (b_totalAmount b) (p_id existing)) w
                        in case paystack_initialize env (u_email u) (b_totalAmount b) (p_id existing) of
                             Inl e \<Rightarrow> (Inl e, w1)
                           | Inr (url, reference) \<Rightarrow>
                               (Inr \<lparr>ps_paymentId = p_id existing, ps_authorizationUrl = url,
                                     ps_reference = reference\<rparr>, w1))
               | None \<Rightarrow>
                   (case find_user_by_id env (Some userId) w of
                      None \<Rightarrow> (Inl (JsError ''Cannot read properties of null''),
                               save_payment (new_payment env (uuid1 env) bookingId (Some userId)
                                               (b_totalAmount b)) w)
                    | Some u \<Rightarrow>
                        open_payment env (uuid1 env) bookingId (Some userId) (b_totalAmount b)
                          (u_email u) w))"

section \<open>The conditional status update\<close>

definition payment_cas ::
  "uuid \<Rightarrow> payment_status \<Rightarrow> (payment \<Rightarrow> payment) \<Rightarrow> world \<Rightarrow> nat \<times> world" where
  "payment_cas k from f w =
     (let (n, rows) = cas_by p_id p_status k from f (payments w)
      in (n, w\<lparr>payments := rows\<rparr>))"

section \<open>Refunds\<close>

text \<open>The update and the read-back that follow Paystack's answer, then the provider.\<close>

definition refund_commit :: "uuid \<Rightarrow> world \<Rightarrow> payment option result \<times> world" where
  "refund_commit k w =
     (let (affected, w1) = payment_cas k P_SUCCESS (\<lambda>p. p\<lparr>p_status := P_REFUNDED\<rparr>) w
      in if affected = 0
         then case find_payment k w1 of
                Some current \<Rightarrow>
                  if p_status current = P_REFUNDED then (Inr (Some current), w1)
                  else (Inl (BadRequest ''Payment is no longer in a refundable state''), w1)
              | None \<Rightarrow> (Inl (BadRequest ''Payment is no longer in a refundable state''), w1)
         else (Inr (find_payment k w1), w1))"

definition refund_check :: "uuid \<Rightarrow> uuid \<Rightarrow> user_role \<Rightarrow> world \<Rightarrow> payment result" where
  "refund_check paymentId userId role w =
     (case find_payment paymentId w of
        None \<Rightarrow> Inl (NotFound ''Payment not found'')
      | Some p \<Rightarrow>
          let isAdmin = (role = ADMIN \<or> role = SUPER_ADMIN)
          in if \<not> isAdmin \<and> p_userId p \<noteq> Some userId
             then Inl (Forbidden ''You can only refund your own payments'')
             else if p_status p \<noteq> P_SUCCESS
             then Inl (BadRequest ''Only SUCCESS payments can be refunded'')
             else Inr p)"

definition refund_payment ::
  "env \<Rightarrow> uuid \<Rightarrow> uuid \<Rightarrow> user_role \<Rightarrow> world \<Rightarrow> payment option result \<times> world" where
  "refund_payment env paymentId userId role w =
     (case refund_check paymentId userId role w of
        Inl e \<Rightarrow> (Inl e, w)
      | Inr p \<Rightarrow>
          let w1 = emit (PaystackRefund (p_providerReference p)) w
          in case paystack_refund env (p_providerReference p) of
               Inl e \<Rightarrow> (Inl e, w1)
             | Inr _ \<Rightarrow> refund_commit (p_id p) w1)"

section \<open>Queries\<close>

record payment_query =
  pq_page :: "int option"
  pq_limit :: "int option"
  pq_bookingId :: "uuid option"
  pq_status :: "payment_status option"
  pq_provider :: "payment_provider option"
  pq_from :: "string option"
  pq_to :: "string option"

definition query_time :: "env \<Rightarrow> string option \<Rightarrow> int option result" where
  "query_time env s =
     (case s of None \<Rightarrow> Inr None
      | Some t \<Rightarrow> if t = [] then Inr None
                  else case pg_timestamp env t of
                         None \<Rightarrow> Inl (DbError ''invalid input syntax for type timestamp'')
                       | Some d \<Rightarrow> Inr (Some d))"

definition payment_filter ::
  "payment_query \<Rightarrow> uuid \<Rightarrow> user_role \<Rightarrow> int option \<Rightarrow> int option \<Rightarrow> payment \<Rightarrow> bool" where
  "payment_filter q userId role from to p \<longleftrightarrow>
     (is_staff_role role \<or> p_userId p = Some userId) \<and>
     (is_falsy_id (pq_bookingId q) \<or> pq_bookingId q = Some (p_bookingId p)) \<and>
     (case pq_status q of None \<Rightarrow> True | Some s \<Rightarrow> p_status p = s) \<and>
     (case pq_provider q of None \<Rightarrow> True | Some v \<Rightarrow> p_provider p = v) \<and>
     (case from of None \<Rightarrow> True | Some d \<Rightarrow> d \<le> p_createdAt p) \<and>
     (case to of None \<Rightarrow> True | Some d \<Rightarrow> p_createdAt p \<le> d)"

definition payments_findAll ::
  "env \<Rightarrow> payment_query \<Rightarrow> uuid \<Rightarrow> user_role \<Rightarrow> world \<Rightarrow> (payment list \<times> nat \<times> int \<times> int) result" where
  "payments_findAll env q userId role w =
     (let page = or_else (pq_page q) 1; lmt = min (or_else (pq_limit q) 20) 100
      in case (query_time env (pq_from q), query_time env (pq_to q)) of
           (Inr from, Inr to) \<Rightarrow>
             (let rows = filter (payment_filter q userId role from to) (payments w)
              in case paginate page lmt (newest_first p_createdAt rows) of
                   Inl e \<Rightarrow> Inl e
                 | Inr xs \<Rightarrow> Inr (xs, length rows, page, lmt))
         | (Inl e, _) \<Rightarrow> Inl e
         | (_, Inl e) \<Rightarrow> Inl e)"

definition payments_findById :: "uuid \<Rightarrow> uuid \<Rightarrow> user_role \<Rightarrow> world \<Rightarrow> payment option" where
  "payments_findById paymentId userId role w =
     find_one (\<lambda>p. p_id p = paymentId \<and> (is_staff_role role \<or> p_userId p = Some userId)) (payments w)"

section \<open>The effects of a successful charge\<close>

definition LONG_TERM_PLANS :: "plan_type list" where
  "LONG_TERM_PLANS = [MONTHLY, QUARTERLY, YEARLY]"

text \<open>The booking a successful payment is for, confirmed or re-confirmed; \<open>None\<close>: not honoured.\<close>

definition resolveBooking :: "env \<Rightarrow> payment \<Rightarrow> world \<Rightarrow> booking option \<times> world" where
  "resolveBooking env p w =
     (case find_booking (p_bookingId p) w of
        None \<Rightarrow> (None, w)
      | Some b \<Rightarrow>
          if b_status b = B_EXPIRED
          then case reactivateExpired env (b_id b) w of
                 (Inl e, w1) \<Rightarrow> (None, w1)
               | (Inr revived, w1) \<Rightarrow> (revived, w1)
          else case confirm_booking env (p_bookingId p) w of
                 (Inl e, w1) \<Rightarrow> (None, w1)
               | (Inr c, w1) \<Rightarrow> (Some c, w1))"

text \<open>\<open>payment.amount\<close> as the driver reads it from its \<open>bigint\<close> column.\<close>

definition amount_read :: "env \<Rightarrow> nat \<Rightarrow> js_amount" where
  "amount_read env n = (if bigint_strings env then StrAmount (nat_str n) else NumAmount (int n))"

definition recordSorobanEscrow ::
  "env \<Rightarrow> rpc \<Rightarrow> escrow_config option \<Rightarrow> payment \<Rightarrow> booking \<Rightarrow> world \<Rightarrow> world" where
  "recordSorobanEscrow env r cfg p b w =
     (let releaseAfterUnix = (b_endDate b * ms_per_day) div 1000 + 86400
      in case createEscrow env r cfg (b_id b) (amount_read env (p_amount p)) (''Booking '' @ b_id b)
                releaseAfterUnix of
           (Inl e, es) \<Rightarrow> emit (Metric (SorobanEscrowFailure ''create_escrow'')) (w\<lparr>fx := fx w @ es\<rparr>)
         | (Inr txHash, es) \<Rightarrow>
             w\<lparr>fx := fx w @ es,
               bookings := update_where (\<lambda>x. b_id x = b_id b) (\<lambda>x. x\<lparr>b_sorobanEscrowId := Some txHash\<rparr>)
                             (bookings w)\<rparr>)"

definition guest_of :: "booking option \<Rightarrow> guest_info option" where
  "guest_of bk =
     (case bk of Some b \<Rightarrow> if b_isGuestBooking b then b_guestInfo b else None | None \<Rightarrow> None)"

definition mail_success :: "env \<Rightarrow> payment \<Rightarrow> world \<Rightarrow> world" where
  "mail_success env p w =
     (let usr = find_user_by_id env (p_userId p) w; guest = guest_of (find_booking (p_bookingId p) w);
          recipient = (case usr of Some u \<Rightarrow> Some (u_email u) | None \<Rightarrow> map_option g_email guest);
          displayName = (case usr of Some u \<Rightarrow> Some (fullName u) | None \<Rightarrow> map_option g_name guest)
      in case (recipient, displayName) of
           (Some to, Some n) \<Rightarrow>
             if to = [] \<or> n = [] then w else emit (Mail PaymentSuccessMail to) w
         | _ \<Rightarrow> w)"

definition notify_user :: "uuid option \<Rightarrow> notification_type \<Rightarrow> world \<Rightarrow> world" where
  "notify_user userId t w =
     (if is_falsy_id userId then w else emit (Notify (the userId) t) w)"

definition needs_escrow :: "booking \<Rightarrow> bool" where
  "needs_escrow b \<longleftrightarrow> b_planType b \<in> set LONG_TERM_PLANS \<and>
     (b_sorobanEscrowId b = None \<or> b_sorobanEscrowId b = Some [])"

text \<open>What the delivery that made the payment succeed does next.\<close>

definition success_effects ::
  "env \<Rightarrow> rpc \<Rightarrow> escrow_config option \<Rightarrow> payment \<Rightarrow> world \<Rightarrow> world" where
  "success_effects env r cfg p w =
     (let w1 = emit (Metric (WebhookRaceWin ''charge.success'')) w;
          (bk, w2) = resolveBooking env p w1;
          w3 = (case bk of
                  Some b \<Rightarrow> if needs_escrow b then recordSorobanEscrow env r cfg p b w2 else w2
                | None \<Rightarrow> w2);
          w4 = (case bk of Some b \<Rightarrow> snd (generateForPayment env (p_id p) w3) | None \<Rightarrow> w3);
          w5 = mail_success env p w4
      in notify_user (p_userId p) PAYMENT_SUCCESS w5)"

text \<open>Finding the payment, the conditional update, what the number of affected rows decides.\<close>

definition handleChargeSuccess ::
  "env \<Rightarrow> rpc \<Rightarrow> escrow_config option \<Rightarrow> string \<Rightarrow> json option \<Rightarrow> world \<Rightarrow> unit result \<times> world" where
  "handleChargeSuccess env r cfg reference data w =
     (case find_one (\<lambda>p. p_providerReference p = Some reference) (payments w) of
        None \<Rightarrow> (Inl (BadRequest ''No payment found for reference''), w)
      | Some p \<Rightarrow>
          let (affected, w1) = payment_cas (p_id p) P_PENDING
                (\<lambda>x. x\<lparr>p_status := P_SUCCESS, p_paidAt := Some (now env), p_metadata := data\<rparr>) w
          in if affected = 0
             then (Inr (),
                   if map_option p_status (find_payment (p_id p) w1) = Some P_SUCCESS
                   then emit (Metric (WebhookStaleIgnored ''charge.success'')) w1
                   else emit (Metric WebhookSuccessAfterTerminal) w1)
             else (Inr (), success_effects env r cfg p w1))"

section \<open>The effects of a failed charge\<close>

definition mail_failed :: "env \<Rightarrow> payment \<Rightarrow> world \<Rightarrow> world" where
  "mail_failed env p w =
     (let recipient =
            (if \<not> is_falsy_id (p_userId p)
             then map_option u_email (find_user_by_id env (p_userId p) w)
             else case find_booking (p_bookingId p) w of
                    None \<Rightarrow> None
                  | Some b \<Rightarrow>
                      (case b_guestInfo b of
                         None \<Rightarrow> None
                       | Some g \<Rightarrow> if g_email g = [] then None else Some (g_email g)))
      in case recipient of None \<Rightarrow> w | Some to \<Rightarrow> emit (Mail PaymentFailedMail to) w)"

definition failure_effects :: "env \<Rightarrow> payment \<Rightarrow> world \<Rightarrow> world" where
  "failure_effects env p w =
     notify_user (p_userId p) PAYMENT_FAILED
       (mail_failed env p (emit (Metric (WebhookRaceWin ''charge.failed'')) w))"

definition handleChargeFailed :: "env \<Rightarrow> string \<Rightarrow> world \<Rightarrow> unit result \<times> world" where
  "handleChargeFailed env reference w =
     (case find_one (\<lambda>p. p_providerReference p = Some reference) (payments w) of
        None \<Rightarrow> (Inr (), w)
      | Some p \<Rightarrow>
          let (affected, w1) = payment_cas (p_id p) P_PENDING (\<lambda>x. x\<lparr>p_status := P_FAILED\<rparr>) w
          in if affected = 0
             then (Inr (),
                   if map_option p_status (find_payment (p_id p) w1) = Some P_SUCCESS
                   then emit (Metric WebhookFailureAfterSuccess) w1
                   else emit (Metric (WebhookStaleIgnored ''charge.failed'')) w1)
             else (Inr (), failure_effects env p w1))"

section \<open>The webhook\<close>

definition MAX_WEBHOOK_AGE_MS :: int where
  "MAX_WEBHOOK_AGE_MS = 5 * 60 * 1000"

text \<open>\<open>createHmac\<close> throws on an undefined key.\<close>

definition verifyWebhookSignature :: "env \<Rightarrow> string \<Rightarrow> string \<Rightarrow> bool result" where
  "verifyWebhookSignature env rawBody signature =
     (case config env ''PAYSTACK_SECRET_KEY'' of
        None \<Rightarrow> Inl (JsError ''The key argument must be of type string'')
      | Some secretKey \<Rightarrow> Inr (hmac_sha512 env secretKey rawBody = signature))"

definition check_request_time :: "env \<Rightarrow> string \<Rightarrow> unit result" where
  "check_request_time env requestTime =
     (if requestTime = [] then Inr ()
      else case js_date_ms (date_ext env) requestTime of
             None \<Rightarrow> Inl (BadRequest ''Invalid webhook timestamp'')
           | Some deliveredAt \<Rightarrow>
               let age = now env - deliveredAt
               in if age > MAX_WEBHOOK_AGE_MS then Inl (BadRequest ''Webhook timestamp too old'')
                  else if age < - MAX_WEBHOOK_AGE_MS
                  then Inl (BadRequest ''Webhook timestamp is in the future'')
                  else Inr ())"

definition reference_text :: "env \<Rightarrow> json option \<Rightarrow> string" where
  "reference_text env v =
     (case v of Some (JStr s) \<Rightarrow> s | Some j \<Rightarrow> sql_text env j | None \<Rightarrow> [])"

text \<open>
  \<open>event.event\<close>, \<open>event.data\<close>, \<open>data?.reference\<close>, and the three kinds of event; a body that is
  \<open>null\<close> makes the property access throw.
\<close>

definition dispatch_event ::
  "env \<Rightarrow> rpc \<Rightarrow> escrow_config option \<Rightarrow> json \<Rightarrow> world \<Rightarrow> unit result \<times> world" where
  "dispatch_event env r cfg event w =
     (case (js_get ''event'' (Some event), js_get ''data'' (Some event)) of
        (Some eventType, Some data) \<Rightarrow>
          (let reference = (case js_get ''reference'' data of Some v \<Rightarrow> v | None \<Rightarrow> None)
           in if \<not> js_truthy reference then (Inr (), w)
              else if eventType = Some (JStr ''charge.success'')
              then handleChargeSuccess env r cfg (reference_text env reference) data w
              else if eventType = Some (JStr ''charge.failed'')
              then handleChargeFailed env (reference_text env reference) w
              else (Inr (), w))
      | _ \<Rightarrow> (Inl (JsError ''Cannot read properties of null''), w))"

definition handle_webhook ::
  "env \<Rightarrow> rpc \<Rightarrow> escrow_config option \<Rightarrow> string \<Rightarrow> string \<Rightarrow> string \<Rightarrow> world \<Rightarrow> unit result \<times> world" where
  "handle_webhook env r cfg rawBody signature requestTime w =
     (case verifyWebhookSignature env rawBody signature of
        Inl e \<Rightarrow> (Inl e, w)
      | Inr valid \<Rightarrow>
          if \<not> valid then (Inl (Unauthorized ''Invalid Paystack webhook signature''), w)
          else case check_request_time env requestTime of
                 Inl e \<Rightarrow> (Inl e, w)
               | Inr _ \<Rightarrow>
                   (case json_parse env rawBody of
                      None \<Rightarrow> (Inl (BadRequest ''Malformed webhook payload''), w)
                    | Some event \<Rightarrow> dispatch_event env r cfg event w))"

section \<open>What each operation does to the tables\<close>

interpretation payment_race: cas_repository "find_by p_id" p_status "cas_by p_id p_status"
    "\<lambda>f. \<forall>p. p_id (f p) = p_id p" "uniq_keys p_id"
  by (rule cas_repository_list)

lemma payment_cas_frame:
  assumes "payment_cas k from f w = (n, w')"
  shows "\<exists>ps. w' = w\<lparr>payments := ps\<rparr>"
    "payments w' = update_where (\<lambda>p. p_id p = k \<and> p_status p = from) f (payments w)"
  using assms by (auto simp: payment_cas_def cas_by_def)

lemma payment_cas_hit:
  assumes "wf_world w" "find_payment k w = Some p" "p_status p = from" "\<And>x. p_id (f x) = p_id x"
  shows "\<exists>w'. payment_cas k from f w = (1, w') \<and> find_payment k w' = Some (f p)"
  using payment_race.cas_hit [of "payments w" f k p "from"] assms
  by (auto simp: payment_cas_def find_payment_def wf_world_def split: prod.splits)

lemma payment_cas_miss:
  assumes "wf_world w" "find_payment k w = None \<or> (\<exists>p. find_payment k w = Some p \<and> p_status p \<noteq> from)"
  shows "payment_cas k from f w = (0, w)"
  using payment_race.cas_miss [of "payments w" k "from" f] assms
  by (auto simp: payment_cas_def find_payment_def wf_world_def)

text \<open>The second of two updates that leave the same status affects no row.\<close>

lemma payment_cas_once:
  assumes "wf_world w" "payment_cas k from f w = (1, w')"
    "\<And>x. p_id (f x) = p_id x" "\<And>x. p_id (g x) = p_id x" "\<And>x. p_status (f x) \<noteq> from"
  shows "payment_cas k from g w' = (0, w')"
  using payment_race.single_winner [of "payments w" f g "from" k "payments w'"] assms
  by (auto simp: payment_cas_def wf_world_def split: prod.splits)

lemma same_fx [simp]: "\<exists>es. w = w\<lparr>fx := es\<rparr>"
  by (rule exI [of _ "fx w"]) simp

lemma mail_success_fx: "\<exists>es. mail_success env p w = w\<lparr>fx := es\<rparr>"
  by (auto simp: mail_success_def Let_def emit_def split: option.splits)

lemma mail_failed_fx: "\<exists>es. mail_failed env p w = w\<lparr>fx := es\<rparr>"
  by (auto simp: mail_failed_def Let_def emit_def split: option.splits)

lemma notify_user_fx: "\<exists>es. notify_user u t w = w\<lparr>fx := es\<rparr>"
  by (auto simp: notify_user_def emit_def)

lemma failure_effects_fx: "\<exists>es. failure_effects env p w = w\<lparr>fx := es\<rparr>"
proof -
  obtain es where "mail_failed env p (emit (Metric (WebhookRaceWin ''charge.failed'')) w) = w\<lparr>fx := es\<rparr>"
    using mail_failed_fx [of env p "emit (Metric (WebhookRaceWin ''charge.failed'')) w"]
    by (auto simp: emit_def)
  then show ?thesis
    using notify_user_fx [of "p_userId p" PAYMENT_FAILED "w\<lparr>fx := es\<rparr>"]
    by (auto simp: failure_effects_def)
qed

lemma resolveBooking_cases:
  assumes "resolveBooking env p w = (bk, w')"
  obtains (missing) "find_booking (p_bookingId p) w = None" "bk = None" "w' = w"
  | (expired) b r where "find_booking (p_bookingId p) w = Some b" "b_status b = B_EXPIRED"
      "reactivateExpired env (p_bookingId p) w = (r, w')" "bk = (case r of Inl e \<Rightarrow> None | Inr x \<Rightarrow> x)"
  | (confirmed) b r where "find_booking (p_bookingId p) w = Some b" "b_status b \<noteq> B_EXPIRED"
      "confirm_booking env (p_bookingId p) w = (r, w')"
      "bk = (case r of Inl e \<Rightarrow> None | Inr x \<Rightarrow> Some x)"
proof (cases "find_booking (p_bookingId p) w")
  case None
  with assms show thesis by (intro missing) (auto simp: resolveBooking_def)
next
  case (Some b)
  then have id: "b_id b = p_bookingId p" by (auto dest: find_booking_set)
  show thesis
  proof (cases "b_status b = B_EXPIRED")
    case True
    obtain r w1 where e: "reactivateExpired env (p_bookingId p) w = (r, w1)" by fastforce
    from assms Some True id e have "w1 = w'" "bk = (case r of Inl e \<Rightarrow> None | Inr x \<Rightarrow> x)"
      by (auto simp: resolveBooking_def split: sum.splits)
    with Some True e show thesis by (intro expired [of b r]) auto
  next
    case False
    obtain r w1 where e: "confirm_booking env (p_bookingId p) w = (r, w1)" by fastforce
    from assms Some False e have "w1 = w'" "bk = (case r of Inl e \<Rightarrow> None | Inr x \<Rightarrow> Some x)"
      by (auto simp: resolveBooking_def split: sum.splits)
    with Some False e show thesis by (intro confirmed [of b r]) auto
  qed
qed

lemma bookings_only [simp]: "\<exists>bs us. w\<lparr>bookings := rows\<rparr> = w\<lparr>bookings := bs, users := us\<rparr>"
  by (rule exI [of _ rows], rule exI [of _ "users w"]) simp

lemma confirm_booking_shape:
  assumes "confirm_booking env k w = (r, w')"
  shows "\<exists>bs us. w' = w\<lparr>bookings := bs, users := us\<rparr>"
  using assms unfolding confirm_booking_def Let_def booking_cas_def cas_by_def
  by (auto split: if_splits option.splits prod.splits sum.splits dest!: activate_users)

lemma resolveBooking_shape:
  assumes "resolveBooking env p w = (bk, w')"
  shows "\<exists>bs us. w' = w\<lparr>bookings := bs, users := us\<rparr>"
  using assms
  by (cases rule: resolveBooking_cases) (auto dest!: confirm_booking_shape reactivateExpired_shape)

lemma recordSorobanEscrow_cases:
  obtains (failed) es where "recordSorobanEscrow env r cfg p b w = w\<lparr>fx := es\<rparr>"
  | (recorded) es h where "recordSorobanEscrow env r cfg p b w =
      w\<lparr>fx := es, bookings := update_where (\<lambda>x. b_id x = b_id b)
                               (\<lambda>x. x\<lparr>b_sorobanEscrowId := Some h\<rparr>) (bookings w)\<rparr>"
proof -
  obtain res es where "createEscrow env r cfg (b_id b) (amount_read env (p_amount p))
     (''Booking '' @ b_id b) ((b_endDate b * ms_per_day) div 1000 + 86400) = (res, es)" by fastforce
  then show thesis
    by (cases res) (auto simp: recordSorobanEscrow_def Let_def emit_def intro: failed recorded)
qed

definition escrow_stamped :: "booking list \<Rightarrow> booking list \<Rightarrow> bool" where
  "escrow_stamped rows rows' \<longleftrightarrow> rows' = rows \<or>
     (\<exists>k h. rows' = update_where (\<lambda>x. b_id x = k) (\<lambda>x. x\<lparr>b_sorobanEscrowId := Some h\<rparr>) rows)"

lemma escrow_stamped_refl [simp]: "escrow_stamped rows rows"
  by (simp add: escrow_stamped_def)

lemma recordSorobanEscrow_frame [simp]:
  "users (recordSorobanEscrow env r cfg p b w) = users w"
  "workspaces (recordSorobanEscrow env r cfg p b w) = workspaces w"
  "payments (recordSorobanEscrow env r cfg p b w) = payments w"
  "invoices (recordSorobanEscrow env r cfg p b w) = invoices w"
  "inv_seq (recordSorobanEscrow env r cfg p b w) = inv_seq w"
  "logs (recordSorobanEscrow env r cfg p b w) = logs w"
  "tokens (recordSorobanEscrow env r cfg p b w) = tokens w"
  "audit (recordSorobanEscrow env r cfg p b w) = audit w"
  "escrow_stamped (bookings w) (bookings (recordSorobanEscrow env r cfg p b w))"
  by (rule recordSorobanEscrow_cases [of env r cfg p b w]; auto simp: escrow_stamped_def)+

text \<open>The webhook's effects: the booking is resolved, then the other tables follow.\<close>

lemma success_effects_cases:
  obtains bk w2 where
    "resolveBooking env p (emit (Metric (WebhookRaceWin ''charge.success'')) w) = (bk, w2)"
    "users (success_effects env r cfg p w) = users w2"
    "workspaces (success_effects env r cfg p w) = workspaces w"
    "payments (success_effects env r cfg p w) = payments w"
    "logs (success_effects env r cfg p w) = logs w"
    "tokens (success_effects env r cfg p w) = tokens w"
    "escrow_stamped (bookings w2) (bookings (success_effects env r cfg p w))"
    "bk = None \<Longrightarrow> invoices (success_effects env r cfg p w) = invoices w"
    "bk = None \<Longrightarrow> inv_seq (success_effects env r cfg p w) = inv_seq w"
    "bk \<noteq> None \<Longrightarrow> \<exists>w3 rs w4. invoices w3 = invoices w \<and> inv_seq w3 = inv_seq w \<and>
       payments w3 = payments w \<and> generateForPayment env (p_id p) w3 = (rs, w4) \<and>
       invoices (success_effects env r cfg p w) = invoices w4 \<and>
       inv_seq (success_effects env r cfg p w) = inv_seq w4"
proof -
  obtain bk w2 where bk: "resolveBooking env p (emit (Metric (WebhookRaceWin ''charge.success'')) w) = (bk, w2)"
    by fastforce
  define w3 where "w3 = (case bk of
      Some b \<Rightarrow> if needs_escrow b then recordSorobanEscrow env r cfg p b w2 else w2 | None \<Rightarrow> w2)"
  define w4 where "w4 = (case bk of Some b \<Rightarrow> snd (generateForPayment env (p_id p) w3) | None \<Rightarrow> w3)"
  have eff: "success_effects env r cfg p w = notify_user (p_userId p) PAYMENT_SUCCESS (mail_success env p w4)"
    unfolding success_effects_def Let_def bk prod.case w3_def w4_def by simp
  obtain es where fin: "success_effects env r cfg p w = w4\<lparr>fx := es\<rparr>"
    unfolding eff using mail_success_fx [of env p w4] notify_user_fx [of "p_userId p" PAYMENT_SUCCESS]
    by (metis world.update_convs(10) world.surjective world.ext_inject)
  obtain bs us where w2: "w2 = (emit (Metric (WebhookRaceWin ''charge.success'')) w)\<lparr>bookings := bs, users := us\<rparr>"
    using resolveBooking_shape [OF bk] by blast
  have w3: "users w3 = users w2" "workspaces w3 = workspaces w" "payments w3 = payments w"
    "invoices w3 = invoices w" "inv_seq w3 = inv_seq w" "logs w3 = logs w" "tokens w3 = tokens w"
    unfolding w3_def by (auto simp: w2 split: option.splits)
  have stamped: "escrow_stamped (bookings w2) (bookings w3)"
    unfolding w3_def by (simp split: option.splits)
  obtain rs v where g: "generateForPayment env (p_id p) w3 = (rs, v)" by fastforce
  have w4: "users w4 = users w3" "workspaces w4 = workspaces w3" "payments w4 = payments w3"
    "bookings w4 = bookings w3" "logs w4 = logs w3" "tokens w4 = tokens w3"
    using generate_frame [OF g] unfolding w4_def g by (auto split: option.splits)
  show thesis
    by (rule that [OF bk]) (use fin w3 stamped w4 g in \<open>auto simp: w4_def\<close>)
qed

section \<open>Invariants of the payment operations\<close>

definition bookings_progress :: "booking list \<Rightarrow> booking list \<Rightarrow> bool" where
  "bookings_progress rows rows' \<longleftrightarrow>
     (\<forall>b\<in>set rows. \<exists>b'\<in>set rows'. terms_of b' = terms_of b \<and> booking_step\<^sup>*\<^sup>* (b_status b) (b_status b'))"

lemma bookings_progress_refl [simp]: "bookings_progress rows rows"
  by (auto simp: bookings_progress_def)

lemma bookings_progress_trans:
  assumes "bookings_progress xs ys" "bookings_progress ys zs"
  shows "bookings_progress xs zs"
  unfolding bookings_progress_def
proof
  fix x assume "x \<in> set xs"
  with assms(1) obtain y where y: "y \<in> set ys" "terms_of y = terms_of x"
    "booking_step\<^sup>*\<^sup>* (b_status x) (b_status y)" by (auto simp: bookings_progress_def)
  with assms(2) obtain z where "z \<in> set zs" "terms_of z = terms_of y"
    "booking_step\<^sup>*\<^sup>* (b_status y) (b_status z)" by (auto simp: bookings_progress_def)
  with y show "\<exists>z\<in>set zs. terms_of z = terms_of x \<and> booking_step\<^sup>*\<^sup>* (b_status x) (b_status z)"
    by (intro bexI [of _ z]) auto
qed

lemma evolve_progress: "bookings_evolve xs ys \<Longrightarrow> bookings_progress xs ys"
  unfolding bookings_evolve_def bookings_progress_def by (metis r_into_rtranclp rtranclp.rtrancl_refl)

lemma evolve_update_same:
  assumes "\<And>b. terms_of (f b) = terms_of b" "\<And>b. b_status (f b) = b_status b"
  shows "bookings_evolve rows (update_where U f rows)"
  unfolding bookings_evolve_def
proof
  fix b assume "b \<in> set rows"
  then have "(if U b then f b else b) \<in> set (update_where U f rows)" by (simp add: set_update_where)
  then show "\<exists>b'\<in>set (update_where U f rows). terms_of b' = terms_of b \<and>
      (b_status b' = b_status b \<or> booking_step (b_status b) (b_status b'))"
    using assms by (intro bexI) auto
qed

lemma escrow_stamped_progress: "escrow_stamped xs ys \<Longrightarrow> bookings_progress xs ys"
  using evolve_update_same [of "\<lambda>x. x\<lparr>b_sorobanEscrowId := Some h\<rparr>" for h]
  by (auto simp: escrow_stamped_def terms_of_def intro!: evolve_progress)

lemma escrow_stamped_uniq: "escrow_stamped xs ys \<Longrightarrow> uniq_keys b_id xs \<Longrightarrow> uniq_keys b_id ys"
  by (auto simp: escrow_stamped_def uniq_keys_def distinct_update_where)

lemma escrow_stamped_seats: "escrow_stamped xs ys \<Longrightarrow> seats_held k d ys \<le> seats_held k d xs"
  by (auto simp: escrow_stamped_def holds_seats_def intro!: seats_held_update_le)

lemma wf_resolveBooking:
  assumes "wf_world w" "resolveBooking env p w = (bk, w')"
  shows "wf_world w'"
  using assms(2)
  by (cases rule: resolveBooking_cases)
    (use assms(1) in \<open>auto dest: wf_confirm_booking wf_reactivateExpired\<close>)

lemma capacity_resolveBooking:
  assumes "wf_world w" "capacity_ok w" "resolveBooking env p w = (bk, w')"
  shows "capacity_ok w'"
  using assms(3)
  by (cases rule: resolveBooking_cases)
    (use assms(1,2) in \<open>auto dest: capacity_confirm_booking capacity_reactivateExpired\<close>)

lemma resolveBooking_evolves:
  assumes "wf_world w" "resolveBooking env p w = (bk, w')"
  shows "bookings_evolve (bookings w) (bookings w')"
  using assms(2)
  by (cases rule: resolveBooking_cases)
    (use assms(1) in \<open>auto dest: confirm_booking_evolves reactivateExpired_evolves\<close>)

lemma wf_emit [simp]: "wf_world (emit e w) = wf_world w"
  by (simp add: wf_world_def)

lemma capacity_emit [simp]: "capacity_ok (emit e w) = capacity_ok w"
  by (simp add: capacity_ok_def)

lemma wf_fx [simp]: "wf_world (w\<lparr>fx := es\<rparr>) = wf_world w"
  by (simp add: wf_world_def)

lemma success_effects_keeps:
  assumes "wf_world w"
  shows "wf_world (success_effects env r cfg p w)"
    "capacity_ok w \<Longrightarrow> capacity_ok (success_effects env r cfg p w)"
    "bookings_progress (bookings w) (bookings (success_effects env r cfg p w))"
    "payments (success_effects env r cfg p w) = payments w"
    "workspaces (success_effects env r cfg p w) = workspaces w"
    "invoices_ok w \<Longrightarrow> invoices_ok (success_effects env r cfg p w)"
proof -
  let ?e = "success_effects env r cfg p w"
  let ?w1 = "emit (Metric (WebhookRaceWin ''charge.success'')) w"
  obtain bk w2 where *: "resolveBooking env p ?w1 = (bk, w2)"
    "users ?e = users w2" "workspaces ?e = workspaces w" "payments ?e = payments w"
    "escrow_stamped (bookings w2) (bookings ?e)"
    "bk = None \<Longrightarrow> invoices ?e = invoices w" "bk = None \<Longrightarrow> inv_seq ?e = inv_seq w"
    "bk \<noteq> None \<Longrightarrow> \<exists>w3 rs w4. invoices w3 = invoices w \<and> inv_seq w3 = inv_seq w \<and>
       payments w3 = payments w \<and> generateForPayment env (p_id p) w3 = (rs, w4) \<and>
       invoices ?e = invoices w4 \<and> inv_seq ?e = inv_seq w4"
    by (rule success_effects_cases [of env p w r cfg]) blast
  show "payments ?e = payments w" "workspaces ?e = workspaces w" by fact+
  have w2: "wf_world w2" "workspaces w2 = workspaces w"
    using wf_resolveBooking [OF _ *(1)] resolveBooking_shape [OF *(1)] assms by auto
  have "payments w2 = payments w" using resolveBooking_shape [OF *(1)] by auto
  with w2 show "wf_world ?e"
    using * assms by (auto simp: wf_world_def dest: escrow_stamped_uniq)
  show "capacity_ok ?e" if "capacity_ok w"
  proof (rule capacity_shrink [of w2])
    show "capacity_ok w2" using capacity_resolveBooking [OF _ _ *(1)] assms that by simp
  qed (use * w2 in \<open>auto dest: escrow_stamped_seats\<close>)
  have "bookings_progress (bookings w) (bookings w2)"
    using resolveBooking_evolves [OF _ *(1)] assms by (simp add: evolve_progress)
  then show "bookings_progress (bookings w) (bookings ?e)"
    using escrow_stamped_progress [OF *(5)] bookings_progress_trans by blast
  show "invoices_ok ?e" if "invoices_ok w"
  proof (cases bk)
    case None
    with *(6,7) that show ?thesis by (simp add: invoices_ok_def)
  next
    case (Some b)
    with *(8) obtain w3 rs w4 where g: "invoices w3 = invoices w" "inv_seq w3 = inv_seq w"
      "generateForPayment env (p_id p) w3 = (rs, w4)"
      "invoices ?e = invoices w4" "inv_seq ?e = inv_seq w4" by auto
    have "invoices_ok w3" using that g by (simp add: invoices_ok_def)
    then have "invoices_ok w4" using generate_ok [OF _ g(3)] by simp
    with g(4,5) show ?thesis by (simp add: invoices_ok_def)
  qed
qed

text \<open>The life of a payment.\<close>

inductive payment_step :: "payment_status \<Rightarrow> payment_status \<Rightarrow> bool" where
  succeeds: "payment_step P_PENDING P_SUCCESS"
| fails: "payment_step P_PENDING P_FAILED"
| refunds: "payment_step P_SUCCESS P_REFUNDED"

inductive_simps payment_step_from: "payment_step s t"

definition charge_of :: "payment \<Rightarrow> uuid \<times> uuid \<times> uuid option \<times> nat" where
  "charge_of p = (p_id p, p_bookingId p, p_userId p, p_amount p)"

definition payments_evolve :: "payment list \<Rightarrow> payment list \<Rightarrow> bool" where
  "payments_evolve rows rows' \<longleftrightarrow>
     (\<forall>p\<in>set rows. \<exists>p'\<in>set rows'. charge_of p' = charge_of p \<and>
        (p_status p' = p_status p \<or> payment_step (p_status p) (p_status p')))"

lemma payments_evolve_refl [simp]: "payments_evolve rows rows"
  by (auto simp: payments_evolve_def)

lemma payments_evolve_update:
  assumes "\<And>p. U p \<Longrightarrow> charge_of (f p) = charge_of p \<and> payment_step (p_status p) (p_status (f p))"
  shows "payments_evolve rows (update_where U f rows)"
  using assms by (auto simp: payments_evolve_def set_update_where)

lemma payments_evolve_insert:
  assumes "p_id p \<notin> p_id ` set rows"
  shows "payments_evolve rows (save_row p_id p rows)"
    "p_id p' = p_id p \<Longrightarrow> payments_evolve rows (save_row p_id p' (save_row p_id p rows))"
proof -
  show "payments_evolve rows (save_row p_id p rows)"
    using assms by (auto simp: payments_evolve_def save_row_fresh)
  show "payments_evolve rows (save_row p_id p' (save_row p_id p rows))" if "p_id p' = p_id p"
    unfolding payments_evolve_def using assms that
    by (auto simp: save_row_fresh image_iff intro!: bexI save_row_keeps)
qed

lemma wf_payments_update:
  "wf_world w \<Longrightarrow> (\<And>p. p_id (f p) = p_id p) \<Longrightarrow> wf_world (w\<lparr>payments := update_where U f (payments w)\<rparr>)"
  by (simp add: wf_world_def uniq_keys_def distinct_update_where)

text \<open>The three outcomes of a delivery: unknown reference, stale, winning.\<close>

lemma handleChargeSuccess_cases:
  assumes "wf_world w" "handleChargeSuccess env r cfg reference data w = (res, w')"
  obtains (unknown) "find_one (\<lambda>p. p_providerReference p = Some reference) (payments w) = None"
      "res = Inl (BadRequest ''No payment found for reference'')" "w' = w"
  | (stale) p m where "find_one (\<lambda>p. p_providerReference p = Some reference) (payments w) = Some p"
      "p_status p \<noteq> P_PENDING" "res = Inr ()" "w' = emit (Metric m) w"
      "m = (if p_status p = P_SUCCESS then WebhookStaleIgnored ''charge.success'' else WebhookSuccessAfterTerminal)"
  | (won) p w1 where "find_one (\<lambda>p. p_providerReference p = Some reference) (payments w) = Some p"
      "p_status p = P_PENDING" "res = Inr ()" "w' = success_effects env r cfg p w1"
      "w1 = w\<lparr>payments := update_where (\<lambda>x. p_id x = p_id p \<and> p_status x = P_PENDING)
              (\<lambda>x. x\<lparr>p_status := P_SUCCESS, p_paidAt := Some (now env), p_metadata := data\<rparr>) (payments w)\<rparr>"
proof (cases "find_one (\<lambda>p. p_providerReference p = Some reference) (payments w)")
  case None
  with assms show thesis by (intro unknown) (auto simp: handleChargeSuccess_def)
next
  case (Some p)
  let ?f = "\<lambda>x. x\<lparr>p_status := P_SUCCESS, p_paidAt := Some (now env), p_metadata := data\<rparr>"
  from Some have found: "find_payment (p_id p) w = Some p"
    using find_one_SomeD assms(1) find_payment_iff by metis
  show thesis
  proof (cases "p_status p = P_PENDING")
    case True
    obtain w1 where cas: "payment_cas (p_id p) P_PENDING ?f w = (1, w1)"
      using payment_cas_hit [OF assms(1) found True, of ?f] by auto
    from payment_cas_frame [OF cas] have "w1 = w\<lparr>payments := update_where
        (\<lambda>x. p_id x = p_id p \<and> p_status x = P_PENDING) ?f (payments w)\<rparr>" by auto
    with Some True cas assms(2) show thesis by (intro won [of p w1]) (auto simp: handleChargeSuccess_def)
  next
    case False
    then have "payment_cas (p_id p) P_PENDING ?f w = (0, w)"
      using payment_cas_miss [OF assms(1)] found by auto
    with Some False found assms(2) show thesis
      by (intro stale [of p "if p_status p = P_SUCCESS then WebhookStaleIgnored ''charge.success''
            else WebhookSuccessAfterTerminal"]) (auto simp: handleChargeSuccess_def)
  qed
qed

lemma handleChargeFailed_cases:
  assumes "wf_world w" "handleChargeFailed env reference w = (res, w')"
  obtains (unknown) "find_one (\<lambda>p. p_providerReference p = Some reference) (payments w) = None"
      "res = Inr ()" "w' = w"
  | (stale) p m where "find_one (\<lambda>p. p_providerReference p = Some reference) (payments w) = Some p"
      "p_status p \<noteq> P_PENDING" "res = Inr ()" "w' = emit (Metric m) w"
      "m = (if p_status p = P_SUCCESS then WebhookFailureAfterSuccess else WebhookStaleIgnored ''charge.failed'')"
  | (won) p w1 where "find_one (\<lambda>p. p_providerReference p = Some reference) (payments w) = Some p"
      "p_status p = P_PENDING" "res = Inr ()" "w' = failure_effects env p w1"
      "w1 = w\<lparr>payments := update_where (\<lambda>x. p_id x = p_id p \<and> p_status x = P_PENDING)
              (\<lambda>x. x\<lparr>p_status := P_FAILED\<rparr>) (payments w)\<rparr>"
proof (cases "find_one (\<lambda>p. p_providerReference p = Some reference) (payments w)")
  case None
  with assms show thesis by (intro unknown) (auto simp: handleChargeFailed_def)
next
  case (Some p)
  let ?f = "\<lambda>x. x\<lparr>p_status := P_FAILED\<rparr>"
  from Some have found: "find_payment (p_id p) w = Some p"
    using find_one_SomeD assms(1) find_payment_iff by metis
  show thesis
  proof (cases "p_status p = P_PENDING")
    case True
    obtain w1 where cas: "payment_cas (p_id p) P_PENDING ?f w = (1, w1)"
      using payment_cas_hit [OF assms(1) found True, of ?f] by auto
    from payment_cas_frame [OF cas] have "w1 = w\<lparr>payments := update_where
        (\<lambda>x. p_id x = p_id p \<and> p_status x = P_PENDING) ?f (payments w)\<rparr>" by auto
    with Some True cas assms(2) show thesis by (intro won [of p w1]) (auto simp: handleChargeFailed_def)
  next
    case False
    then have "payment_cas (p_id p) P_PENDING ?f w = (0, w)"
      using payment_cas_miss [OF assms(1)] found by auto
    with Some False found assms(2) show thesis
      by (intro stale [of p "if p_status p = P_SUCCESS then WebhookFailureAfterSuccess
            else WebhookStaleIgnored ''charge.failed''"]) (auto simp: handleChargeFailed_def)
  qed
qed

text \<open>The outcomes of a refund.\<close>

lemma refund_check_Inr:
  "refund_check k userId role w = Inr p \<longleftrightarrow>
   find_payment k w = Some p \<and> (role = ADMIN \<or> role = SUPER_ADMIN \<or> p_userId p = Some userId) \<and>
   p_status p = P_SUCCESS"
  by (auto simp: refund_check_def Let_def split: option.splits if_splits)

lemma refund_commit_success:
  assumes "wf_world w" "find_payment k w = Some p" "p_status p = P_SUCCESS"
  shows "refund_commit k w =
    (Inr (Some (p\<lparr>p_status := P_REFUNDED\<rparr>)),
     w\<lparr>payments := update_where (\<lambda>x. p_id x = k \<and> p_status x = P_SUCCESS)
         (\<lambda>x. x\<lparr>p_status := P_REFUNDED\<rparr>) (payments w)\<rparr>)"
proof -
  obtain w1 where cas: "payment_cas k P_SUCCESS (\<lambda>x. x\<lparr>p_status := P_REFUNDED\<rparr>) w = (1, w1)"
    "find_payment k w1 = Some (p\<lparr>p_status := P_REFUNDED\<rparr>)"
    using payment_cas_hit [OF assms, of "\<lambda>x. x\<lparr>p_status := P_REFUNDED\<rparr>"] by auto
  from payment_cas_frame [OF cas(1)] cas show ?thesis by (auto simp: refund_commit_def)
qed

lemma refund_payment_cases:
  assumes "wf_world w" "refund_payment env k userId role w = (res, w')"
  obtains (refused) e where "refund_check k userId role w = Inl e" "res = Inl e" "w' = w"
  | (provider_error) p e where "refund_check k userId role w = Inr p"
      "paystack_refund env (p_providerReference p) = Inl e" "res = Inl e"
      "w' = emit (PaystackRefund (p_providerReference p)) w"
  | (refunded) p w1 where "refund_check k userId role w = Inr p"
      "res = Inr (Some (p\<lparr>p_status := P_REFUNDED\<rparr>))"
      "w1 = emit (PaystackRefund (p_providerReference p)) w"
      "w' = w1\<lparr>payments := update_where (\<lambda>x. p_id x = k \<and> p_status x = P_SUCCESS)
              (\<lambda>x. x\<lparr>p_status := P_REFUNDED\<rparr>) (payments w)\<rparr>"
proof (cases "refund_check k userId role w")
  case (Inl e)
  with assms show thesis by (intro refused) (auto simp: refund_payment_def)
next
  case (Inr p)
  then have p: "find_payment k w = Some p" "p_status p = P_SUCCESS" "p_id p = k"
    by (auto simp: refund_check_Inr find_payment_iff [OF assms(1)])
  let ?w1 = "emit (PaystackRefund (p_providerReference p)) w"
  show thesis
  proof (cases "paystack_refund env (p_providerReference p)")
    case (Inl e)
    with Inr assms show thesis by (intro provider_error [of p e]) (auto simp: refund_payment_def Let_def)
  next
    case ok: (Inr u)
    have "refund_commit k ?w1 = (Inr (Some (p\<lparr>p_status := P_REFUNDED\<rparr>)),
      ?w1\<lparr>payments := update_where (\<lambda>x. p_id x = k \<and> p_status x = P_SUCCESS)
         (\<lambda>x. x\<lparr>p_status := P_REFUNDED\<rparr>) (payments w)\<rparr>)"
      using refund_commit_success [of ?w1 k p] p assms(1) by (simp add: find_payment_def)
    with Inr ok p assms(2) show thesis
      by (intro refunded [of p ?w1]) (auto simp: refund_payment_def Let_def)
  qed
qed

text \<open>Opening a payment adds one pending row, or none.\<close>

lemma open_payment_shape:
  assumes "open_payment env k bookingId userId amount email w = (res, w')"
  shows "\<exists>p es. w' = w\<lparr>payments := save_row p_id p (payments w), fx := es\<rparr> \<and>
           p_id p = k \<and> p_bookingId p = bookingId \<and> p_userId p = userId \<and> p_amount p = amount \<and>
           p_status p = P_PENDING"
proof -
  let ?p = "new_payment env k bookingId userId amount"
  let ?e = "PaystackInitialize email amount k"
  show ?thesis
  proof (cases "paystack_initialize env email amount k")
    case (Inl e)
    with assms have "w' = w\<lparr>payments := save_row p_id ?p (payments w),
        fx := fx w @ [?e]\<rparr>"
      by (auto simp: open_payment_def Let_def emit_def save_payment_def)
    then show ?thesis
      by (intro exI [of _ ?p] exI [of _ "fx w @ [?e]"]) (simp add: new_payment_def)
  next
    case (Inr y)
    with assms have "w' = w\<lparr>payments := save_row p_id (?p\<lparr>p_providerReference := Some (snd y)\<rparr>)
        (payments w), fx := fx w @ [?e]\<rparr>"
      by (auto simp: open_payment_def Let_def emit_def save_payment_def save_row_twice split: prod.splits)
    then show ?thesis
      by (intro exI [of _ "?p\<lparr>p_providerReference := Some (snd y)\<rparr>"] exI [of _ "fx w @ [?e]"])
        (simp add: new_payment_def)
  qed
qed

lemma initialize_payment_cases:
  assumes "initialize_payment env bookingId userId w = (res, w')"
  obtains (refused) e where "res = Inl e" "w' = w"
  | (reused) b p es where "b \<in> set (bookings w)" "b_id b = bookingId" "b_status b = B_PENDING"
      "p \<in> set (payments w)" "p_bookingId p = bookingId" "p_status p = P_PENDING"
      "w' = w\<lparr>fx := es\<rparr>" "\<And>s. res = Inr s \<Longrightarrow> ps_paymentId s = p_id p"
  | (opened) b p es where "b \<in> set (bookings w)" "b_id b = bookingId" "b_userId b = Some userId"
      "b_status b = B_PENDING" "\<forall>q\<in>set (payments w). \<not> (p_bookingId q = bookingId \<and> p_status q = P_PENDING)"
      "w' = w\<lparr>payments := save_row p_id p (payments w), fx := es\<rparr>"
      "p_id p = uuid1 env" "p_bookingId p = bookingId" "p_status p = P_PENDING" "p_amount p = b_totalAmount b"
proof (cases "find_one (\<lambda>b. b_id b = bookingId \<and> b_userId b = Some userId) (bookings w)")
  case None
  with assms show thesis by (intro refused) (auto simp: initialize_payment_def)
next
  case (Some b)
  then have b: "b \<in> set (bookings w)" "b_id b = bookingId" "b_userId b = Some userId"
    by (auto dest: find_one_SomeD)
  show thesis
  proof (cases "b_status b = B_PENDING")
    case False
    with assms Some show thesis by (intro refused) (auto simp: initialize_payment_def)
  next
    case pend: True
    show thesis
    proof (cases "find_one (\<lambda>p. p_bookingId p = bookingId \<and> p_status p = P_PENDING) (payments w)")
      case ex: (Some p)
      then have p: "p \<in> set (payments w)" "p_bookingId p = bookingId" "p_status p = P_PENDING"
        by (auto dest: find_one_SomeD)
      from assms Some pend ex have "\<exists>es. w' = w\<lparr>fx := es\<rparr>"
        by (auto simp: initialize_payment_def Let_def emit_def split: option.splits sum.splits)
      then obtain es where "w' = w\<lparr>fx := es\<rparr>" by blast
      moreover have "ps_paymentId s = p_id p" if "res = Inr s" for s
        using that assms Some pend ex
        by (auto simp: initialize_payment_def Let_def split: option.splits sum.splits)
      ultimately show thesis using reused [of b p es] b p pend by blast
    next
      case None
      then have none: "\<forall>q\<in>set (payments w). \<not> (p_bookingId q = bookingId \<and> p_status q = P_PENDING)"
        by (simp add: find_one_None_iff)
      let ?p = "new_payment env (uuid1 env) bookingId (Some userId) (b_totalAmount b)"
      have "\<exists>p es. w' = w\<lparr>payments := save_row p_id p (payments w), fx := es\<rparr> \<and>
         p_id p = uuid1 env \<and> p_bookingId p = bookingId \<and> p_status p = P_PENDING \<and>
         p_amount p = b_totalAmount b"
      proof (cases "find_user_by_id env (Some userId) w")
        case None
        with assms Some pend \<open>find_one _ (payments w) = None\<close>
        have "w' = w\<lparr>payments := save_row p_id ?p (payments w), fx := fx w\<rparr>"
          by (auto simp: initialize_payment_def save_payment_def)
        then show ?thesis
          by (intro exI [of _ ?p] exI [of _ "fx w"]) (simp add: new_payment_def)
      next
        case (Some u)
        with assms \<open>find_one _ (bookings w) = Some b\<close> pend \<open>find_one _ (payments w) = None\<close>
        have "open_payment env (uuid1 env) bookingId (Some userId) (b_totalAmount b) (u_email u) w = (res, w')"
          by (simp add: initialize_payment_def)
        from open_payment_shape [OF this] show ?thesis by blast
      qed
      with b pend none opened show thesis by blast
    qed
  qed
qed

lemma handle_webhook_effect:
  assumes "handle_webhook env r cfg rawBody signature requestTime w = (res, w')"
  obtains (ignored) "w' = w"
  | (success) reference data where "handleChargeSuccess env r cfg reference data w = (res, w')"
  | (failure) reference where "handleChargeFailed env reference w = (res, w')"
proof -
  have "w' = w \<or> (\<exists>reference data. handleChargeSuccess env r cfg reference data w = (res, w')) \<or>
        (\<exists>reference. handleChargeFailed env reference w = (res, w'))"
    using assms unfolding handle_webhook_def dispatch_event_def Let_def
    by (auto split: sum.splits if_splits option.splits prod.splits)
  then show thesis using ignored success failure by blast
qed

text \<open>Every payment operation moves the payments along their life.\<close>

lemma handleChargeSuccess_payments:
  assumes "wf_world w" "handleChargeSuccess env r cfg reference data w = (res, w')"
  shows "payments_evolve (payments w) (payments w')"
  using assms
proof (cases rule: handleChargeSuccess_cases)
  case (won p w1)
  have "wf_world w1" unfolding won(5) using assms(1) by (rule wf_payments_update) simp
  from success_effects_keeps(4) [OF this] won(4,5) show ?thesis
    by (auto intro!: payments_evolve_update payment_step.intros simp: charge_of_def)
qed auto

lemma handleChargeFailed_payments:
  assumes "wf_world w" "handleChargeFailed env reference w = (res, w')"
  shows "payments_evolve (payments w) (payments w')"
  using assms
proof (cases rule: handleChargeFailed_cases)
  case (won p w1)
  with failure_effects_fx [of env p w1] show ?thesis
    by (auto intro!: payments_evolve_update payment_step.intros simp: charge_of_def)
qed auto

lemma webhook_payments:
  assumes "wf_world w" "handle_webhook env r cfg rawBody signature requestTime w = (res, w')"
  shows "payments_evolve (payments w) (payments w')"
  using assms(2)
  by (cases rule: handle_webhook_effect)
    (auto dest: handleChargeSuccess_payments [OF assms(1)] handleChargeFailed_payments [OF assms(1)])

lemma refund_payments:
  assumes "wf_world w" "refund_payment env k userId role w = (res, w')"
  shows "payments_evolve (payments w) (payments w')"
  using assms
  by (cases rule: refund_payment_cases)
    (auto intro!: payments_evolve_update payment_step.intros simp: charge_of_def)

lemma initialize_payments:
  assumes "uuid1 env \<notin> p_id ` set (payments w)" "initialize_payment env bookingId userId w = (res, w')"
  shows "payments_evolve (payments w) (payments w')"
  using assms(2)
  by (cases rule: initialize_payment_cases)
    (use assms(1) in \<open>auto intro!: payments_evolve_insert(1) simp: image_iff\<close>)

lemma wf_handleChargeSuccess:
  assumes "wf_world w" "handleChargeSuccess env r cfg reference data w = (res, w')"
  shows "wf_world w'"
  using assms
proof (cases rule: handleChargeSuccess_cases)
  case (won p w1)
  have "wf_world w1" unfolding won(5) using assms(1) by (rule wf_payments_update) simp
  with won(4) show ?thesis by (simp add: success_effects_keeps(1))
qed (use assms(1) in auto)

lemma wf_handleChargeFailed:
  assumes "wf_world w" "handleChargeFailed env reference w = (res, w')"
  shows "wf_world w'"
  using assms
proof (cases rule: handleChargeFailed_cases)
  case (won p w1)
  have "wf_world w1" unfolding won(5) using assms(1) by (rule wf_payments_update) simp
  with won(4) failure_effects_fx [of env p w1] show ?thesis by auto
qed (use assms(1) in auto)

lemma wf_webhook:
  assumes "wf_world w" "handle_webhook env r cfg rawBody signature requestTime w = (res, w')"
  shows "wf_world w'"
  using assms(2)
  by (cases rule: handle_webhook_effect)
    (use assms(1) in \<open>auto dest: wf_handleChargeSuccess [OF assms(1)] wf_handleChargeFailed [OF assms(1)]\<close>)

lemma wf_refund_payment:
  assumes "wf_world w" "refund_payment env k userId role w = (res, w')"
  shows "wf_world w'"
  using assms
  by (cases rule: refund_payment_cases)
    (use assms(1) in \<open>auto simp: wf_world_def uniq_keys_def distinct_update_where\<close>)

lemma wf_initialize_payment:
  assumes "wf_world w" "initialize_payment env bookingId userId w = (res, w')"
  shows "wf_world w'"
  using assms(2)
  by (cases rule: initialize_payment_cases)
    (use assms(1) in \<open>auto simp: wf_world_def uniq_keys_def distinct_save_row\<close>)

text \<open>The first payment with a reference is the same one after an update of the statuses.\<close>

lemma find_reference_update:
  assumes "\<And>p. p_providerReference (f p) = p_providerReference p"
  shows "find_one (\<lambda>p. p_providerReference p = x) (update_where U f rows) =
         map_option (\<lambda>p. if U p then f p else p) (find_one (\<lambda>p. p_providerReference p = x) rows)"
  by (rule find_one_update_where) (rule assms)

text \<open>After a delivery the payment of its reference is not pending any more.\<close>

lemma handleChargeSuccess_settles:
  assumes "wf_world w" "handleChargeSuccess env r cfg reference data w = (Inr (), w')"
  shows "\<exists>p. find_one (\<lambda>p. p_providerReference p = Some reference) (payments w') = Some p \<and>
             p_status p \<noteq> P_PENDING"
  using assms
proof (cases rule: handleChargeSuccess_cases)
  case (won p w1)
  have "wf_world w1" unfolding won(5) using assms(1) by (rule wf_payments_update) simp
  from success_effects_keeps(4) [OF this] won(4) have "payments w' = payments w1" by simp
  with won(1,2,5) show ?thesis by (auto simp: find_reference_update)
qed auto

lemma handleChargeSuccess_stale:
  assumes "wf_world w" "find_one (\<lambda>p. p_providerReference p = Some reference) (payments w) = Some p"
    "p_status p \<noteq> P_PENDING"
  shows "\<exists>m. handleChargeSuccess env r cfg reference data w = (Inr (), emit (Metric m) w)"
proof -
  obtain res w' where e: "handleChargeSuccess env r cfg reference data w = (res, w')" by fastforce
  from assms(1) this show ?thesis
    by (cases rule: handleChargeSuccess_cases) (use assms e in auto)
qed

end
