(* ===== verification/Requests.thy ===== *)
theory Requests
  imports Payments
begin

text \<open>
  The booking and payment requests together, one after the other, in any order, from any clients:
  the step relation \<open>request\<close>, the worlds reachable by it, and the invariants that tie bookings,
  payments, invoices and workspaces together. Every request runs in its own environment (its own
  clock, ids, answers of Paystack and of the Soroban network).
\<close>

section \<open>The requests\<close>

text \<open>The ids the database generates are new.\<close>

definition fresh_ids :: "env \<Rightarrow> world \<Rightarrow> bool" where
  "fresh_ids env w \<longleftrightarrow> uuid1 env \<noteq> uuid2 env \<and>
     (\<forall>k\<in>{uuid1 env, uuid2 env}. k \<notin> b_id ` set (bookings w) \<and> k \<notin> p_id ` set (payments w) \<and>
        k \<notin> w_id ` set (workspaces w))"

inductive request :: "world \<Rightarrow> world \<Rightarrow> bool" where
  creates: "fresh_ids env w \<Longrightarrow> create_booking env dto userId w = (r, w') \<Longrightarrow> request w w'"
| day_pass: "fresh_ids env w \<Longrightarrow> create_public_day_pass env pdto w = (dp, w') \<Longrightarrow> request w w'"
| confirms_booking: "confirm_booking env k w = (r, w') \<Longrightarrow> request w w'"
| cancels: "cancel_booking env k userId role w = (r, w') \<Longrightarrow> request w w'"
| completes_booking: "complete_booking k w = (r, w') \<Longrightarrow> request w w'"
| sweeps: "expireStalePendingBookings env w = (n, w') \<Longrightarrow> request w w'"
| initializes: "fresh_ids env w \<Longrightarrow> initialize_payment env k userId w = (s, w') \<Longrightarrow> request w w'"
| delivers: "handle_webhook env rpc cfg body signature time w = (u, w') \<Longrightarrow> request w w'"
| refunds_payment: "refund_payment env k userId role w = (pr, w') \<Longrightarrow> request w w'"
| adds_workspace: "fresh_ids env w \<Longrightarrow> create_workspace env wdto w = (wr, w') \<Longrightarrow> request w w'"
| edits_workspace: "update_workspace k udto w = (wr, w') \<Longrightarrow>
     (\<And>x. find_workspace k w = Some x \<Longrightarrow> w_totalSeats x \<le> or_else (uw_totalSeats udto) (w_totalSeats x)) \<Longrightarrow>
     request w w'"
| deactivates: "softDelete k w = (ur, w') \<Longrightarrow> request w w'"
| elsewhere: "workspaces w' = workspaces w \<Longrightarrow> bookings w' = bookings w \<Longrightarrow> payments w' = payments w \<Longrightarrow>
     invoices w' = invoices w \<Longrightarrow> inv_seq w' = inv_seq w \<Longrightarrow> uniq_keys u_id (users w') \<Longrightarrow> request w w'"

inductive_cases request_cases: "request w w'"

text \<open>A database without bookings, payments and invoices; its workspaces and users are any.\<close>

definition initial_world :: "world \<Rightarrow> bool" where
  "initial_world w \<longleftrightarrow> bookings w = [] \<and> payments w = [] \<and> invoices w = [] \<and>
     uniq_keys u_id (users w) \<and> uniq_keys w_id (workspaces w)"

inductive reachable :: "world \<Rightarrow> bool" where
  starts: "initial_world w \<Longrightarrow> reachable w"
| continues: "reachable w \<Longrightarrow> request w w' \<Longrightarrow> reachable w'"

section \<open>The invariants\<close>

definition placed :: "world \<Rightarrow> bool" where
  "placed w \<longleftrightarrow> (\<forall>b\<in>set (bookings w). \<exists>x\<in>set (workspaces w). w_id x = b_workspaceId b)"

definition charged :: "world \<Rightarrow> bool" where
  "charged w \<longleftrightarrow> (\<forall>p\<in>set (payments w). \<exists>b\<in>set (bookings w).
     b_id b = p_bookingId p \<and> b_totalAmount b = p_amount p)"

definition settled :: "world \<Rightarrow> bool" where
  "settled w \<longleftrightarrow> (\<forall>b\<in>set (bookings w). \<forall>p\<in>set (payments w).
     b_status b = B_EXPIRED \<and> p_bookingId p = b_id b \<longrightarrow> p_status p \<noteq> P_PENDING)"

definition paid_invoices :: "world \<Rightarrow> bool" where
  "paid_invoices w \<longleftrightarrow> (\<forall>i\<in>set (invoices w). \<exists>p\<in>set (payments w).
     i_paymentId i = Some (p_id p) \<and> i_amountKobo i = p_amount p \<and> i_bookingId i = p_bookingId p \<and>
     (p_status p = P_SUCCESS \<or> p_status p = P_REFUNDED))"

definition system_ok :: "world \<Rightarrow> bool" where
  "system_ok w \<longleftrightarrow> wf_world w \<and> capacity_ok w \<and> invoices_ok w \<and> placed w \<and> charged w \<and>
     settled w \<and> paid_invoices w"

lemma initial_system_ok: "initial_world w \<Longrightarrow> system_ok w"
  by (simp add: initial_world_def system_ok_def wf_world_def capacity_ok_def invoices_ok_def placed_def
      charged_def settled_def paid_invoices_def seats_held_def uniq_keys_def)

section \<open>What a request adds, and what it keeps\<close>

text \<open>The rows after the request come from the rows before it, or are new and harmless.\<close>

definition bookings_from :: "world \<Rightarrow> booking list \<Rightarrow> bool" where
  "bookings_from w rows \<longleftrightarrow> (\<forall>b'\<in>set rows.
     (\<exists>b\<in>set (bookings w). b_id b = b_id b' \<and> b_workspaceId b = b_workspaceId b' \<and>
        (b_status b' = B_EXPIRED \<longrightarrow> b_status b = B_EXPIRED)) \<or>
     (b_status b' = B_PENDING \<and> (\<exists>x\<in>set (workspaces w). w_id x = b_workspaceId b')))"

definition payments_from :: "world \<Rightarrow> payment list \<Rightarrow> bool" where
  "payments_from w rows \<longleftrightarrow> (\<forall>p'\<in>set rows.
     \<exists>p\<in>set (payments w). charge_of p = charge_of p' \<and> (p_status p' = P_PENDING \<longrightarrow> p_status p = P_PENDING))"

lemma bookings_from_refl [simp]: "bookings_from w (bookings w)"
  by (auto simp: bookings_from_def)

lemma payments_from_refl [simp]: "payments_from w (payments w)"
  by (auto simp: payments_from_def)

lemma bookings_from_update:
  assumes "\<And>b. b_id (f b) = b_id b \<and> b_workspaceId (f b) = b_workspaceId b"
    and "\<And>b. b_status (f b) = B_EXPIRED \<Longrightarrow> b_status b = B_EXPIRED"
  shows "bookings_from w (update_where U f (bookings w))"
  unfolding bookings_from_def set_update_where using assms by force

lemma bookings_from_save:
  assumes "b \<in> set (bookings w)" "b_id b' = b_id b" "b_workspaceId b' = b_workspaceId b"
    "b_status b' \<noteq> B_EXPIRED"
  shows "bookings_from w (save_row b_id b' (bookings w))"
  unfolding bookings_from_def using assms by (auto simp: set_save_row)

lemma bookings_from_new:
  assumes "b_status b = B_PENDING" "find_workspace (b_workspaceId b) w = Some x" "wf_world w"
  shows "bookings_from w (save_row b_id b (bookings w))"
  unfolding bookings_from_def using assms by (auto simp: set_save_row find_workspace_iff)

lemma payments_from_update:
  assumes "\<And>p. charge_of (f p) = charge_of p" "\<And>p. p_status (f p) \<noteq> P_PENDING"
  shows "payments_from w (update_where U f (payments w))"
  unfolding payments_from_def set_update_where using assms by force

lemma system_okD:
  assumes "system_ok w"
  shows "wf_world w" "capacity_ok w" "invoices_ok w" "placed w" "charged w" "settled w" "paid_invoices w"
  using assms by (simp_all add: system_ok_def)

lemma charged_step:
  assumes "charged w" "bookings_progress (bookings w) (bookings w')" "payments_from w (payments w')"
  shows "charged w'"
  unfolding charged_def
proof
  fix p' assume "p' \<in> set (payments w')"
  with assms(3) obtain p where p: "p \<in> set (payments w)" "charge_of p = charge_of p'"
    by (auto simp: payments_from_def)
  with assms(1) obtain b where "b \<in> set (bookings w)" "b_id b = p_bookingId p" "b_totalAmount b = p_amount p"
    by (auto simp: charged_def)
  moreover from this assms(2) obtain b' where "b' \<in> set (bookings w')" "terms_of b' = terms_of b"
    unfolding bookings_progress_def by blast
  ultimately show "\<exists>b\<in>set (bookings w'). b_id b = p_bookingId p' \<and> b_totalAmount b = p_amount p'"
    using p(2) by (intro bexI [of _ b']) (auto simp: terms_of_def charge_of_def)
qed

lemma system_ok_step:
  assumes "system_ok w" "wf_world w'" "capacity_ok w'" "invoices_ok w'" "paid_invoices w'"
    "bookings_progress (bookings w) (bookings w')" "bookings_from w (bookings w')"
    "payments_from w (payments w')"
    and ws: "w_id ` set (workspaces w) \<subseteq> w_id ` set (workspaces w')"
  shows "system_ok w'"
proof -
  have "placed w'" unfolding placed_def
  proof
    fix b' assume "b' \<in> set (bookings w')"
    with assms(7) consider b where "b \<in> set (bookings w)" "b_workspaceId b = b_workspaceId b'"
      | x where "x \<in> set (workspaces w)" "w_id x = b_workspaceId b'" by (auto simp: bookings_from_def)
    then have "b_workspaceId b' \<in> w_id ` set (workspaces w)"
    proof cases
      case (1 b)
      with assms(1) obtain x where "x \<in> set (workspaces w)" "w_id x = b_workspaceId b"
        by (auto simp: system_ok_def placed_def)
      with 1 show ?thesis by (auto intro: rev_image_eqI)
    qed (auto intro: rev_image_eqI)
    with ws have "b_workspaceId b' \<in> w_id ` set (workspaces w')" by blast
    then show "\<exists>x\<in>set (workspaces w'). w_id x = b_workspaceId b'" by (auto simp: image_iff)
  qed
  moreover have "charged w'" using charged_step system_okD(5) [OF assms(1)] assms(6,8) by blast
  moreover have "settled w'" unfolding settled_def
  proof (intro ballI impI)
    fix b' p' assume *: "b' \<in> set (bookings w')" "p' \<in> set (payments w')"
      "b_status b' = B_EXPIRED \<and> p_bookingId p' = b_id b'"
    from * assms(7) obtain b where b: "b \<in> set (bookings w)" "b_id b = b_id b'" "b_status b = B_EXPIRED"
      by (auto simp: bookings_from_def)
    from * assms(8) obtain p where p: "p \<in> set (payments w)" "charge_of p = charge_of p'"
      "p_status p' = P_PENDING \<longrightarrow> p_status p = P_PENDING" by (auto simp: payments_from_def)
    from p(2) have "p_bookingId p = p_bookingId p'" by (simp add: charge_of_def)
    with b p * assms(1) show "p_status p' \<noteq> P_PENDING" by (auto simp: system_ok_def settled_def)
  qed
  ultimately show ?thesis using assms by (simp add: system_ok_def)
qed

lemma paid_invoices_evolve:
  assumes "paid_invoices w" "invoices w' = invoices w" "payments_evolve (payments w) (payments w')"
  shows "paid_invoices w'"
  unfolding paid_invoices_def assms(2)
proof
  fix i assume "i \<in> set (invoices w)"
  with assms(1) obtain p where p: "p \<in> set (payments w)" "i_paymentId i = Some (p_id p)"
    "i_amountKobo i = p_amount p" "i_bookingId i = p_bookingId p"
    "p_status p = P_SUCCESS \<or> p_status p = P_REFUNDED" by (auto simp: paid_invoices_def)
  with assms(3) obtain p' where "p' \<in> set (payments w')" "charge_of p' = charge_of p"
    "p_status p' = p_status p \<or> payment_step (p_status p) (p_status p')"
    unfolding payments_evolve_def by blast
  with p show "\<exists>p\<in>set (payments w'). i_paymentId i = Some (p_id p) \<and> i_amountKobo i = p_amount p \<and>
      i_bookingId i = p_bookingId p \<and> (p_status p = P_SUCCESS \<or> p_status p = P_REFUNDED)"
    by (intro bexI [of _ p']) (auto simp: charge_of_def payment_step_from)
qed

lemma invoices_ok_same:
  "invoices_ok w \<Longrightarrow> invoices w' = invoices w \<Longrightarrow> inv_seq w' = inv_seq w \<Longrightarrow> invoices_ok w'"
  by (simp add: invoices_ok_def)

section \<open>Every request keeps the invariants\<close>

text \<open>A request that leaves the payments and invoices alone.\<close>

lemma system_ok_bookings:
  assumes "system_ok w" "wf_world w'" "capacity_ok w'" "bookings_progress (bookings w) (bookings w')"
    "bookings_from w (bookings w')" "payments w' = payments w" "invoices w' = invoices w"
    "inv_seq w' = inv_seq w" "workspaces w' = workspaces w"
  shows "system_ok w'"
proof -
  have "invoices_ok w'" by (rule invoices_ok_same [OF system_okD(3) [OF assms(1)] assms(7,8)])
  moreover have "paid_invoices w'"
    by (rule paid_invoices_evolve [OF system_okD(7) [OF assms(1)] assms(7)]) (simp add: assms(6))
  moreover have "payments_from w (payments w')" by (simp add: assms(6))
  ultimately show ?thesis
    by (intro system_ok_step [OF assms(1-3)] assms(4,5)) (simp_all add: assms(9))
qed

lemma create_booking_ok:
  assumes "system_ok w" "fresh_ids env w" "create_booking env dto userId w = (r, w')"
  shows "system_ok w'"
proof (cases r)
  case (Inl e)
  with assms show ?thesis by (auto dest: create_booking_Inl)
next
  case (Inr b)
  with assms(3) obtain x s e amount where *: "find_workspace (cb_workspaceId dto) w = Some x"
    "b = new_booking env dto userId s e amount"
    "w' = mail_user env BookingCreatedMail (Some userId) (save_booking b w)"
    by (auto elim!: create_booking_Inr)
  note ok = system_okD [OF assms(1)]
  have "uuid1 env \<notin> b_id ` set (bookings w)" using assms(2) by (simp add: fresh_ids_def)
  from create_booking_evolves [OF assms(3) this]
  have "bookings_progress (bookings w) (bookings w')" by (rule evolve_progress)
  moreover have "bookings_from w (bookings w')"
    using * ok(1) by (auto simp: new_booking_def intro!: bookings_from_new)
  ultimately show ?thesis
    using * wf_create_booking [OF ok(1) assms(3)] capacity_create_booking [OF ok(1,2) assms(3)]
    by (intro system_ok_bookings [OF assms(1)]) simp_all
qed

lemma confirm_booking_ok:
  assumes "system_ok w" "confirm_booking env k w = (r, w')"
  shows "system_ok w'"
proof -
  note ok = system_okD [OF assms(1)] and f = confirm_booking_frame [OF assms(2)]
  obtain bs us where "w' = w\<lparr>bookings := bs, users := us\<rparr>" using confirm_booking_shape [OF assms(2)] by blast
  then have "inv_seq w' = inv_seq w" by simp
  moreover have "bookings_from w (bookings w')" unfolding f(7) by (rule bookings_from_update) auto
  ultimately show ?thesis
    using f wf_confirm_booking [OF ok(1) assms(2)] capacity_confirm_booking [OF ok(2) assms(2)]
      evolve_progress [OF confirm_booking_evolves [OF assms(2)]]
    by (intro system_ok_bookings [OF assms(1)]) simp_all
qed

lemma cancel_booking_ok:
  assumes "system_ok w" "cancel_booking env k userId role w = (r, w')"
  shows "system_ok w'"
  using assms(2)
proof (cases rule: cancel_booking_cases)
  case (success b)
  note ok = system_okD [OF assms(1)]
  have "inv_seq w' = inv_seq w"
    using assms(2) by (auto simp: cancel_booking_def Let_def split: option.splits if_splits)
  moreover have "bookings_from w (bookings w')"
    unfolding success(5) using find_booking_set [OF success(1)] by (intro bookings_from_save [of b]) auto
  ultimately show ?thesis
    using success wf_cancel_booking [OF ok(1) assms(2)] capacity_cancel_booking [OF ok(1,2) assms(2)]
      evolve_progress [OF cancel_booking_evolves [OF ok(1) assms(2)]]
    by (intro system_ok_bookings [OF assms(1)]) simp_all
qed (use assms(1) in simp)

lemma complete_booking_ok:
  assumes "system_ok w" "complete_booking k w = (r, w')"
  shows "system_ok w'"
  using assms(2)
proof (cases rule: complete_booking_cases)
  case (success b)
  note ok = system_okD [OF assms(1)]
  have "bookings_from w (bookings w')"
    unfolding success(4) using find_booking_set [OF success(1)] by (auto intro!: bookings_from_save [of b])
  then show ?thesis
    using success wf_complete_booking [OF ok(1) assms(2)] capacity_complete_booking [OF ok(1,2) assms(2)]
      evolve_progress [OF complete_booking_evolves [OF ok(1) assms(2)]]
    by (intro system_ok_bookings [OF assms(1)]) simp_all
qed (use assms(1) in simp)

text \<open>Adding the pending payment of a pending booking.\<close>

lemma payment_added_ok:
  assumes "system_ok w" "p_id p \<notin> p_id ` set (payments w)" "p_status p = P_PENDING"
    "b \<in> set (bookings w)" "b_id b = p_bookingId p" "b_totalAmount b = p_amount p" "b_status b = B_PENDING"
  shows "system_ok (w\<lparr>payments := save_row p_id p (payments w), fx := es\<rparr>)"
proof -
  note ok = system_okD [OF assms(1)]
  let ?w = "w\<lparr>payments := save_row p_id p (payments w), fx := es\<rparr>"
  have rows: "set (payments ?w) = insert p (set (payments w))"
    using assms(2) by (simp add: save_row_fresh)
  have "wf_world ?w" using ok(1) by (simp add: wf_world_def uniq_keys_def distinct_save_row)
  moreover have "capacity_ok ?w" "invoices_ok ?w" "placed ?w"
    using ok by (simp_all add: capacity_ok_def invoices_ok_def placed_def)
  moreover have "paid_invoices ?w" using ok(7) rows by (auto simp: paid_invoices_def)
  moreover have "charged ?w" using ok(5) rows assms by (auto simp: charged_def)
  moreover have "settled ?w" unfolding settled_def
  proof (intro ballI impI)
    fix c q assume cq: "c \<in> set (bookings ?w)" "q \<in> set (payments ?w)"
      "b_status c = B_EXPIRED \<and> p_bookingId q = b_id c"
    show "p_status q \<noteq> P_PENDING"
    proof (cases "q = p")
      case True
      with cq assms(4,5) ok(1) have "c = b"
        by (auto simp: wf_world_def uniq_keys_def distinct_map inj_on_def)
      with cq assms(7) show ?thesis by simp
    next
      case False
      with cq rows ok(6) show ?thesis by (auto simp: settled_def)
    qed
  qed
  ultimately show ?thesis by (simp add: system_ok_def)
qed

lemma initialize_payment_ok:
  assumes "system_ok w" "fresh_ids env w" "initialize_payment env k userId w = (s, w')"
  shows "system_ok w'"
  using assms(3)
proof (cases rule: initialize_payment_cases)
  case (reused b p es)
  then show ?thesis using assms(1)
    by (simp add: system_ok_def capacity_ok_def invoices_ok_def placed_def charged_def settled_def
        paid_invoices_def)
next
  case (opened b p es)
  then show ?thesis
    using payment_added_ok [OF assms(1), of p b es] assms(2) by (simp add: fresh_ids_def)
qed (use assms(1) in simp)

lemma create_public_day_pass_ok:
  assumes "system_ok w" "fresh_ids env w" "create_public_day_pass env dto w = (r, w')"
  shows "system_ok w'"
proof (cases r)
  case (Inl e)
  have "invoices w' = invoices w \<and> inv_seq w' = inv_seq w"
    using assms(3) Inl unfolding create_public_day_pass_def Let_def
    by (auto split: if_splits sum.splits prod.splits elim!: transaction_cases
        simp: rollback_def insert_booking_def open_payment_def Let_def split: option.splits)
  with assms Inl create_public_day_pass_Inl [of env dto w e w'] show ?thesis
    by (simp add: system_ok_def capacity_ok_def invoices_ok_def placed_def charged_def settled_def
        paid_invoices_def wf_world_def)
next
  case (Inr y)
  with assms(3) obtain x d amount w1 where *: "find_workspace (cp_workspaceId dto) w = Some x"
    "booked_sum (cp_workspaceId dto) d d (bookings w) + 1 \<le> w_totalSeats x"
    "w1 = save_booking (new_day_pass env dto d d amount) w"
    "open_payment env (uuid2 env) (uuid1 env) None amount (cp_guestEmail dto) w1 = (Inr (snd y), w')"
    by (auto elim!: create_public_day_pass_Inr)
  note ok = system_okD [OF assms(1)]
  let ?b = "new_day_pass env dto d d amount"
  have b: "b_id ?b = uuid1 env" "b_totalAmount ?b = amount" "b_status ?b = B_PENDING"
    "b_workspaceId ?b = cp_workspaceId dto" "b_startDate ?b = d" "b_endDate ?b = d" "b_seatCount ?b = 1"
    by (simp_all add: new_day_pass_def)
  have new: "uuid1 env \<notin> b_id ` set (bookings w)" using assms(2) by (simp add: fresh_ids_def)
  have "system_ok w1"
  proof (rule system_ok_bookings [OF assms(1)])
    show "wf_world w1" using * ok(1) by (simp add: wf_save_booking)
    show "capacity_ok w1"
      by (rule capacity_save [OF ok(1,2), of _ ?b]) (use * b in auto)
    show "bookings_progress (bookings w) (bookings w1)"
      using * new b by (simp add: evolve_progress bookings_evolve_insert)
    show "bookings_from w (bookings w1)"
      using * b ok(1) by (auto intro!: bookings_from_new)
  qed (use * in simp_all)
  moreover have "uuid2 env \<notin> p_id ` set (payments w1)" using assms(2) * by (simp add: fresh_ids_def)
  moreover have "?b \<in> set (bookings w1)" using * by (simp add: save_row_self)
  ultimately show ?thesis
    using open_payment_shape [OF *(4)] payment_added_ok [of w1 _ ?b] b by fastforce
qed

text \<open>The webhook.\<close>

lemma escrow_stamped_row:
  assumes "escrow_stamped rows rows'" "c \<in> set rows'"
  shows "\<exists>b\<in>set rows. b_id b = b_id c \<and> b_workspaceId b = b_workspaceId c \<and> b_status b = b_status c"
proof (cases "rows' = rows")
  case True
  with assms(2) show ?thesis by blast
next
  case False
  with assms(1) obtain k h where "rows' = update_where (\<lambda>x. b_id x = k)
    (\<lambda>x. x\<lparr>b_sorobanEscrowId := Some h\<rparr>) rows" by (auto simp: escrow_stamped_def)
  with assms(2) obtain b where "b \<in> set rows"
    "c = (if b_id b = k then b\<lparr>b_sorobanEscrowId := Some h\<rparr> else b)" by (auto simp: update_where_def)
  then show ?thesis by (intro bexI [of _ b]) simp_all
qed

lemma escrow_stamped_from:
  assumes "bookings_from w rows" "escrow_stamped rows rows'"
  shows "bookings_from w rows'"
  unfolding bookings_from_def
proof
  fix c assume "c \<in> set rows'"
  from escrow_stamped_row [OF assms(2) this] obtain b where "b \<in> set rows" "b_id b = b_id c"
    "b_workspaceId b = b_workspaceId c" "b_status b = b_status c" by blast
  with assms(1) show "(\<exists>b\<in>set (bookings w). b_id b = b_id c \<and> b_workspaceId b = b_workspaceId c \<and>
      (b_status c = B_EXPIRED \<longrightarrow> b_status b = B_EXPIRED)) \<or>
     (b_status c = B_PENDING \<and> (\<exists>x\<in>set (workspaces w). w_id x = b_workspaceId c))"
    unfolding bookings_from_def by metis
qed

lemma resolveBooking_from:
  assumes "resolveBooking env p w = (bk, w')"
  shows "bookings_from w (bookings w')"
  using assms
proof (cases rule: resolveBooking_cases)
  case (expired b r)
  from expired(3) show ?thesis
  proof (cases rule: reactivateExpired_cases)
    case (revived c x)
    then show ?thesis using find_booking_set [OF revived(2)] by (auto intro!: bookings_from_save [of c])
  qed simp_all
next
  case (confirmed b r)
  then show ?thesis
    unfolding confirm_booking_frame(7) [OF confirmed(3)] by (intro bookings_from_update) auto
qed simp

lemma generate_paid:
  assumes "paid_invoices w" "generateForPayment env k w = (rs, w')"
    "\<And>q. find_payment k w = Some q \<Longrightarrow> p_status q = P_SUCCESS"
  shows "paid_invoices w'"
  using assms(2)
proof (cases rule: generate_cases)
  case (created p i es)
  then have "p \<in> set (payments w)" by (auto simp: find_payment_def find_by_def dest: find_one_SomeD)
  with created assms(1,3) show ?thesis by (auto simp: paid_invoices_def)
qed (use assms(1) in \<open>auto simp: paid_invoices_def\<close>)

lemma handleChargeSuccess_ok:
  assumes "system_ok w" "handleChargeSuccess env r cfg reference data w = (res, w')"
  shows "system_ok w'"
proof -
  note ok = system_okD [OF assms(1)]
  from ok(1) assms(2) show ?thesis
  proof (cases rule: handleChargeSuccess_cases)
    case (stale p m)
    then show ?thesis using assms(1)
      by (simp add: system_ok_def invoices_ok_def placed_def charged_def settled_def paid_invoices_def)
  next
    case (won p w1)
    let ?f = "\<lambda>x. x\<lparr>p_status := P_SUCCESS, p_paidAt := Some (now env), p_metadata := data\<rparr>"
    have wf1: "wf_world w1" unfolding won(5) using ok(1) by (rule wf_payments_update) simp
    have w1: "bookings w1 = bookings w" "workspaces w1 = workspaces w" "invoices w1 = invoices w"
      "inv_seq w1 = inv_seq w" "capacity_ok w1" "invoices_ok w1"
      using ok by (simp_all add: won(5) capacity_ok_def invoices_ok_def)
    note keeps = success_effects_keeps [OF wf1, of env r cfg p, folded won(4)]
    have pay: "payments_from w (payments w')"
      unfolding keeps(4) won(5) by (auto intro!: payments_from_update simp: charge_of_def)
    have evolve: "payments_evolve (payments w) (payments w1)"
      unfolding won(5) by (auto intro!: payments_evolve_update payment_step.intros simp: charge_of_def)
    obtain bk w2 where s: "resolveBooking env p (emit (Metric (WebhookRaceWin ''charge.success'')) w1) = (bk, w2)"
      "escrow_stamped (bookings w2) (bookings w')" "bk = None \<Longrightarrow> invoices w' = invoices w1"
      "bk \<noteq> None \<Longrightarrow> \<exists>w3 rs w4. invoices w3 = invoices w1 \<and> payments w3 = payments w1 \<and>
         generateForPayment env (p_id p) w3 = (rs, w4) \<and> invoices w' = invoices w4"
      by (rule success_effects_cases [of env p w1 r cfg, folded won(4)]) blast
    have "bookings_from w (bookings w2)"
      using resolveBooking_from [OF s(1)] w1 by (simp add: bookings_from_def)
    then have from_: "bookings_from w (bookings w')" using s(2) by (rule escrow_stamped_from)
    have "paid_invoices w1" using paid_invoices_evolve [OF ok(7) w1(3) evolve] .
    have paid: "paid_invoices w'"
    proof (cases bk)
      case None
      with s(3) \<open>paid_invoices w1\<close> keeps(4) show ?thesis by (simp add: paid_invoices_def)
    next
      case (Some b)
      with s(4) obtain w3 rs w4 where g: "invoices w3 = invoices w1" "payments w3 = payments w1"
        "generateForPayment env (p_id p) w3 = (rs, w4)" "invoices w' = invoices w4" by blast
      have "p_status q = P_SUCCESS" if "find_payment (p_id p) w3 = Some q" for q
      proof -
        have "find_payment (p_id p) w = Some p"
          using won(1) ok(1) find_payment_iff find_one_SomeD by metis
        with that g(2) won(2,5) show ?thesis
          by (auto simp: find_payment_def find_by_def find_one_update_where)
      qed
      with g(1-3) \<open>paid_invoices w1\<close> have "paid_invoices w4"
        by (intro generate_paid [OF _ g(3)]) (simp_all add: paid_invoices_def)
      with g generate_frame(4) [OF g(3)] keeps(4) show ?thesis by (simp add: paid_invoices_def)
    qed
    show ?thesis
      by (rule system_ok_step [OF assms(1)])
        (use keeps w1 pay from_ paid in simp_all)
  qed (use assms(1) in simp)
qed

lemma payments_updated_ok:
  assumes "system_ok w" "\<And>p. charge_of (f p) = charge_of p" "\<And>p. p_status (f p) \<noteq> P_PENDING"
    "\<And>p. U p \<Longrightarrow> payment_step (p_status p) (p_status (f p))"
  shows "system_ok (w\<lparr>payments := update_where U f (payments w), fx := es\<rparr>)"
proof -
  note ok = system_okD [OF assms(1)]
  let ?w = "w\<lparr>payments := update_where U f (payments w), fx := es\<rparr>"
  have id: "p_id (f p) = p_id p" for p using assms(2) [of p] by (simp add: charge_of_def)
  have "wf_world ?w"
    using ok(1) by (simp add: wf_world_def uniq_keys_def distinct_update_where id)
  moreover have "capacity_ok ?w" "invoices_ok ?w" using ok by (simp_all add: capacity_ok_def invoices_ok_def)
  moreover have "paid_invoices ?w"
    by (rule paid_invoices_evolve [OF ok(7)]) (use assms in \<open>auto intro: payments_evolve_update\<close>)
  moreover have "payments_from w (payments ?w)"
    using payments_from_update [of f w U] assms(2,3) by simp
  ultimately show ?thesis by (intro system_ok_step [OF assms(1)]) simp_all
qed

lemma handleChargeFailed_ok:
  assumes "system_ok w" "handleChargeFailed env reference w = (res, w')"
  shows "system_ok w'"
  using system_okD(1) [OF assms(1)] assms(2)
proof (cases rule: handleChargeFailed_cases)
  case (stale p m)
  then show ?thesis using assms(1)
    by (simp add: system_ok_def invoices_ok_def placed_def charged_def settled_def paid_invoices_def)
next
  case (won p w1)
  obtain es where "w' = w1\<lparr>fx := es\<rparr>" using won(4) failure_effects_fx [of env p w1] by auto
  with won(5) payments_updated_ok [OF assms(1), of "\<lambda>x. x\<lparr>p_status := P_FAILED\<rparr>"
      "\<lambda>x. p_id x = p_id p \<and> p_status x = P_PENDING" es] show ?thesis
    by (simp add: charge_of_def payment_step.intros)
qed (use assms(1) in simp)

lemma handle_webhook_ok:
  assumes "system_ok w" "handle_webhook env r cfg rawBody signature requestTime w = (res, w')"
  shows "system_ok w'"
  using assms(2) by (cases rule: handle_webhook_effect)
    (use assms(1) in \<open>auto dest: handleChargeSuccess_ok handleChargeFailed_ok\<close>)

lemma refund_payment_ok:
  assumes "system_ok w" "refund_payment env k userId role w = (res, w')"
  shows "system_ok w'"
  using system_okD(1) [OF assms(1)] assms(2)
proof (cases rule: refund_payment_cases)
  case (provider_error p e)
  then show ?thesis using assms(1)
    by (simp add: system_ok_def invoices_ok_def placed_def charged_def settled_def paid_invoices_def)
next
  case (refunded p w1)
  then have "w' = w\<lparr>payments := update_where (\<lambda>x. p_id x = k \<and> p_status x = P_SUCCESS)
      (\<lambda>x. x\<lparr>p_status := P_REFUNDED\<rparr>) (payments w), fx := fx w @ [PaystackRefund (p_providerReference p)]\<rparr>"
    by (simp add: emit_def)
  with payments_updated_ok [OF assms(1), of "\<lambda>x. x\<lparr>p_status := P_REFUNDED\<rparr>"
      "\<lambda>x. p_id x = k \<and> p_status x = P_SUCCESS" "fx w @ [PaystackRefund (p_providerReference p)]"]
  show ?thesis by (simp add: charge_of_def payment_step.intros)
qed (use assms(1) in simp)

text \<open>The sweep expires bookings and fails their payments together.\<close>

lemma sweep_ok:
  assumes "system_ok w" "expireStalePendingBookings env w = (n, w')"
  shows "system_ok w'"
proof -
  note ok = system_okD [OF assms(1)]
  have "uniq_keys b_id (bookings w)" using ok(1) by (simp add: wf_world_def)
  from sweep_is_swept [OF this, of env] assms(2) have sw: "w' = swept env (\<lambda>_. True) w" by simp
  let ?f = "\<lambda>b. b\<lparr>b_status := B_EXPIRED\<rparr>"
  have b: "bookings w' = update_where (overdue env) ?f (bookings w)"
    and p: "payments w' = update_where (abandoned env (\<lambda>_. True) (bookings w)) (\<lambda>p. p\<lparr>p_status := P_FAILED\<rparr>) (payments w)"
    and rest: "workspaces w' = workspaces w" "invoices w' = invoices w" "inv_seq w' = inv_seq w" "users w' = users w"
    by (simp_all add: sw swept_def)
  have "wf_world w'"
    using ok(1) by (simp add: wf_world_def uniq_keys_def b p rest distinct_update_where)
  moreover have "capacity_ok w'"
    by (rule capacity_shrink [OF ok(2) rest(1)])
      (auto simp: b overdue_def holds_seats_def intro!: seats_held_update_le)
  moreover have "invoices_ok w'" by (rule invoices_ok_same [OF ok(3) rest(2,3)])
  moreover have "paid_invoices w'"
    by (rule paid_invoices_evolve [OF ok(7) rest(2)])
      (auto simp: p abandoned_def charge_of_def intro!: payments_evolve_update payment_step.intros)
  moreover have progress: "bookings_progress (bookings w) (bookings w')"
    unfolding b by (auto simp: overdue_def intro!: evolve_progress bookings_evolve_update booking_step.intros)
  moreover have from_: "payments_from w (payments w')"
    unfolding p by (rule payments_from_update) (simp_all add: charge_of_def)
  moreover have "charged w'" by (rule charged_step [OF ok(5) progress from_])
  moreover have "placed w'" using ok(4) by (auto simp: placed_def b set_update_where rest)
  moreover have "settled w'" unfolding settled_def
  proof (intro ballI impI)
    fix c q assume c: "c \<in> set (bookings w')" "q \<in> set (payments w')"
      "b_status c = B_EXPIRED \<and> p_bookingId q = b_id c"
    show "p_status q \<noteq> P_PENDING"
    proof
      assume pend: "p_status q = P_PENDING"
      with c(2) have q: "q \<in> set (payments w)" "\<not> abandoned env (\<lambda>_. True) (bookings w) q"
        by (auto simp: p set_update_where split: if_splits)
      from c(1) consider b0 where "b0 \<in> set (bookings w)" "overdue env b0" "c = ?f b0" | "c \<in> set (bookings w)"
        by (auto simp: b set_update_where split: if_splits)
      then show False
      proof cases
        case (1 b0)
        with q pend c(3) show False by (auto simp: abandoned_def)
      next
        case 2
        with q pend c(3) ok(6) show False by (auto simp: settled_def)
      qed
    qed
  qed
  ultimately show ?thesis by (simp add: system_ok_def)
qed

text \<open>Workspaces.\<close>

lemma seats_held_elsewhere:
  "\<forall>b\<in>set rows. b_workspaceId b \<noteq> k \<Longrightarrow> seats_held k d rows = 0"
  by (induction rows) (auto simp: seats_held_def)

lemma save_workspace_ok:
  assumes "system_ok w"
    and room: "\<And>d. seats_held (w_id x) d (bookings w) \<le> w_totalSeats x"
  shows "system_ok (save_workspace x w)"
proof -
  note ok = system_okD [OF assms(1)]
  let ?w = "save_workspace x w"
  have same: "bookings ?w = bookings w" "payments ?w = payments w" "invoices ?w = invoices w"
    "inv_seq ?w = inv_seq w" "users ?w = users w" "workspaces ?w = save_row w_id x (workspaces w)"
    by (simp_all add: save_workspace_def)
  have ids: "w_id ` set (workspaces w) \<subseteq> w_id ` set (workspaces ?w)"
    by (auto simp: same set_save_row)
  have "wf_world ?w" using ok(1) by (simp add: wf_world_def same uniq_keys_def distinct_save_row)
  moreover have "capacity_ok ?w"
    using ok(2) room by (auto simp: capacity_ok_def same set_save_row)
  moreover have "invoices_ok ?w" by (rule invoices_ok_same [OF ok(3) same(3,4)])
  moreover have "paid_invoices ?w" using ok(7) by (simp add: paid_invoices_def same)
  moreover have "bookings_from w (bookings ?w)" "payments_from w (payments ?w)" by (simp_all add: same)
  moreover have "bookings_progress (bookings w) (bookings ?w)" by (simp add: same)
  ultimately show ?thesis by (intro system_ok_step [OF assms(1) _ _ _ _ _ _ _ ids])
qed

lemma room_of: "system_ok w \<Longrightarrow> x \<in> set (workspaces w) \<Longrightarrow> seats_held (w_id x) d (bookings w) \<le> w_totalSeats x"
  by (auto simp: system_ok_def capacity_ok_def)

lemma create_workspace_ok:
  assumes "system_ok w" "fresh_ids env w" "create_workspace env dto w = (r, w')"
  shows "system_ok w'"
proof -
  have "b_workspaceId b \<noteq> uuid1 env" if b: "b \<in> set (bookings w)" for b
  proof -
    obtain x where "x \<in> set (workspaces w)" "w_id x = b_workspaceId b"
      using system_okD(4) [OF assms(1)] b unfolding placed_def by blast
    moreover have "uuid1 env \<notin> w_id ` set (workspaces w)" using assms(2) by (simp add: fresh_ids_def)
    ultimately show ?thesis by (auto simp: image_iff)
  qed
  then have empty: "seats_held (uuid1 env) d (bookings w) = 0" for d
    by (intro seats_held_elsewhere) blast
  show ?thesis using assms(1,3) empty
    by (auto simp: create_workspace_def Let_def intro!: save_workspace_ok split: option.splits)
qed

lemma update_workspace_ok:
  assumes "system_ok w" "update_workspace k dto w = (r, w')"
    "\<And>x. find_workspace k w = Some x \<Longrightarrow> w_totalSeats x \<le> or_else (uw_totalSeats dto) (w_totalSeats x)"
  shows "system_ok w'"
proof (cases "find_workspace k w")
  case None
  with assms(1,2) show ?thesis by (simp add: update_workspace_def workspace_findById_def)
next
  case (Some x)
  then have x: "x \<in> set (workspaces w)" using assms(1) by (simp add: system_ok_def find_workspace_iff)
  have w': "w' = save_workspace (assign_workspace dto x) w"
    using assms(2) Some by (simp add: update_workspace_def workspace_findById_def Let_def)
  show ?thesis unfolding w'
  proof (rule save_workspace_ok [OF assms(1)])
    fix d
    have "w_totalSeats x \<le> w_totalSeats (assign_workspace dto x)"
      using assms(3) [OF Some] by (simp add: assign_workspace_def)
    with room_of [OF assms(1) x, of d]
    show "seats_held (w_id (assign_workspace dto x)) d (bookings w) \<le> w_totalSeats (assign_workspace dto x)"
      by (simp add: assign_workspace_def)
  qed
qed

lemma softDelete_ok:
  assumes "system_ok w" "softDelete k w = (r, w')"
  shows "system_ok w'"
proof (cases "find_workspace k w")
  case None
  with assms show ?thesis by (simp add: softDelete_def workspace_findById_def)
next
  case (Some x)
  then have x: "x \<in> set (workspaces w)" using assms(1) by (simp add: system_ok_def find_workspace_iff)
  have w': "w' = save_workspace (x\<lparr>w_isActive := False\<rparr>) w"
    using assms(2) Some by (simp add: softDelete_def workspace_findById_def)
  show ?thesis unfolding w'
    by (rule save_workspace_ok [OF assms(1)]) (use room_of [OF assms(1) x] in simp)
qed

lemma request_ok:
  assumes "request w w'" "system_ok w"
  shows "system_ok w'"
  using assms
proof (cases rule: request.cases)
  case (elsewhere)
  then show ?thesis using assms(2)
    by (simp add: system_ok_def wf_world_def capacity_ok_def invoices_ok_def placed_def charged_def
        settled_def paid_invoices_def)
qed (use assms(2) in \<open>blast intro: create_booking_ok create_public_day_pass_ok confirm_booking_ok
  cancel_booking_ok complete_booking_ok sweep_ok initialize_payment_ok handle_webhook_ok
  refund_payment_ok create_workspace_ok update_workspace_ok softDelete_ok\<close>)+

lemma reachable_ok: "reachable w \<Longrightarrow> system_ok w"
  by (induction rule: reachable.induct) (auto intro: initial_system_ok request_ok)

section \<open>Properties\<close>

definition sample_booked :: world where
  "sample_booked = snd (create_booking sample_env sample_dto ''ada'' sample_world)"

lemma sample_world_reachable: "reachable sample_world"
  by (intro starts) code_simp

lemma sample_booked_reachable: "reachable sample_booked"
proof (rule continues [OF sample_world_reachable])
  have "fresh_ids sample_env sample_world" by code_simp
  then show "request sample_world sample_booked"
    unfolding sample_booked_def by (rule creates) (rule prod.collapse [symmetric])
qed



text \<open>C10: every payment charges exactly the price of its booking, which exists.\<close>

theorem payment_charges_price:
  assumes "reachable w" "find_payment k w = Some p"
  shows "\<exists>b. find_booking (p_bookingId p) w = Some b \<and> b_totalAmount b = p_amount p"
proof -
  from reachable_ok [OF assms(1)] have ok: "wf_world w" "charged w" by (simp_all add: system_ok_def)
  with assms(2) obtain b where "b \<in> set (bookings w)" "b_id b = p_bookingId p" "b_totalAmount b = p_amount p"
    by (auto simp: charged_def find_payment_iff)
  with ok(1) show ?thesis by (auto simp: find_booking_iff)
qed

text \<open>
  C18: an invoice exists only for a payment that succeeded (it may have been refunded since), over
  its amount; no payment has two invoices and no number is used twice.
\<close>

theorem invoices_are_paid:
  assumes "reachable w" "i \<in> set (invoices w)"
  shows "(\<exists>p\<in>set (payments w). i_paymentId i = Some (p_id p) \<and> i_amountKobo i = p_amount p \<and>
            (p_status p = P_SUCCESS \<or> p_status p = P_REFUNDED)) \<and>
         (\<forall>j\<in>set (invoices w). i_paymentId j = i_paymentId i \<or> i_invoiceNumber j = i_invoiceNumber i \<longrightarrow> j = i)"
proof -
  from reachable_ok [OF assms(1)] have ok: "paid_invoices w" "invoices_ok w" by (simp_all add: system_ok_def)
  have "\<forall>j\<in>set (invoices w). i_paymentId j = i_paymentId i \<or> i_invoiceNumber j = i_invoiceNumber i \<longrightarrow> j = i"
    using ok(2) assms(2) by (auto simp: invoices_ok_def distinct_map inj_on_def)
  with ok(1) assms(2) show ?thesis unfolding paid_invoices_def by fast
qed

text \<open>no expired booking has a payment that is still pending.\<close>

theorem expired_has_no_open_payment:
  assumes "reachable w" "b \<in> set (bookings w)" "b_status b = B_EXPIRED"
    "p \<in> set (payments w)" "p_bookingId p = b_id b"
  shows "p_status p \<noteq> P_PENDING"
  using reachable_ok [OF assms(1)] assms(2-) by (auto simp: system_ok_def settled_def)

section \<open>The lives of bookings and payments under requests\<close>

text \<open>Without re-confirmation: what one request may do to a booking.\<close>

definition booking_life :: "booking_status \<Rightarrow> booking_status \<Rightarrow> bool" where
  "booking_life s t \<longleftrightarrow> s = t \<or> (s, t) \<in> {(B_PENDING, B_CONFIRMED), (B_PENDING, B_CANCELLED),
     (B_PENDING, B_EXPIRED), (B_CONFIRMED, B_CANCELLED), (B_CONFIRMED, B_COMPLETED)}"

lemma booking_life_step: "booking_life s t \<longleftrightarrow> s = t \<or> (booking_step s t \<and> s \<noteq> B_EXPIRED)"
  by (cases s; cases t) (auto simp: booking_life_def booking_step_simps)

definition bookings_live :: "booking list \<Rightarrow> booking list \<Rightarrow> bool" where
  "bookings_live rows rows' \<longleftrightarrow> (\<forall>b\<in>set rows. \<exists>b'\<in>set rows'.
     terms_of b' = terms_of b \<and> booking_life (b_status b) (b_status b'))"

lemma booking_life_refl [simp]: "booking_life s s"
  by (simp add: booking_life_def)

lemma bookings_live_refl [simp]: "bookings_live rows rows"
  by (auto simp: bookings_live_def)

lemma bookings_live_insert:
  "b_id b \<notin> b_id ` set rows \<Longrightarrow> bookings_live rows (save_row b_id b rows)"
  by (auto simp: bookings_live_def save_row_fresh)

lemma bookings_live_update:
  assumes "\<And>b. U b \<Longrightarrow> terms_of (f b) = terms_of b \<and> booking_life (b_status b) (b_status (f b))"
  shows "bookings_live rows (update_where U f rows)"
  unfolding bookings_live_def
proof
  fix b assume "b \<in> set rows"
  then have "(if U b then f b else b) \<in> set (update_where U f rows)" by (simp add: set_update_where)
  then show "\<exists>b'\<in>set (update_where U f rows). terms_of b' = terms_of b \<and> booking_life (b_status b) (b_status b')"
    using assms by (intro bexI) auto
qed

text \<open>Saving a row back is an update of its key.\<close>

lemma save_row_update:
  assumes "uniq_keys key rows" "r \<in> set rows" "key r' = key r"
  shows "save_row key r' rows = update_where (\<lambda>x. x = r) (\<lambda>_. r') rows"
proof -
  have "key x = key r \<longleftrightarrow> x = r" if "x \<in> set rows" for x
    using that assms(1,2) by (auto simp: uniq_keys_def distinct_map inj_on_def)
  then show ?thesis
    using assms(2,3) by (auto simp: save_row_def update_where_def cong: map_cong)
qed

lemma bookings_live_save:
  assumes "uniq_keys b_id rows" "b \<in> set rows" "terms_of b' = terms_of b"
    "booking_life (b_status b) (b_status b')"
  shows "bookings_live rows (save_row b_id b' rows)"
proof -
  have "b_id b' = b_id b" using assms(3) by (simp add: terms_of_def)
  from save_row_update [OF assms(1,2) this] show ?thesis
    using assms(3,4) by (auto intro: bookings_live_update)
qed

lemma live_stamped:
  assumes "bookings_live xs ys" "escrow_stamped ys zs"
  shows "bookings_live xs zs"
proof -
  have "\<exists>z\<in>set zs. terms_of z = terms_of y \<and> b_status z = b_status y" if "y \<in> set ys" for y
  proof (cases "zs = ys")
    case False
    with assms(2) obtain k h where "zs = update_where (\<lambda>x. b_id x = k)
      (\<lambda>x. x\<lparr>b_sorobanEscrowId := Some h\<rparr>) ys" by (auto simp: escrow_stamped_def)
    with that have "(if b_id y = k then y\<lparr>b_sorobanEscrowId := Some h\<rparr> else y) \<in> set zs"
      by (auto simp: set_update_where)
    then show ?thesis by (rule bexI [rotated]) (simp add: terms_of_def)
  qed (use that in blast)
  with assms(1) show ?thesis unfolding bookings_live_def by metis
qed

text \<open>The booking of the pending payment a delivery settles is not expired.\<close>

lemma webhook_live:
  assumes "system_ok w" "handle_webhook env r cfg rawBody signature requestTime w = (res, w')"
  shows "bookings_live (bookings w) (bookings w')"
  using assms(2)
proof (cases rule: handle_webhook_effect)
  case (success reference data)
  note ok = system_okD [OF assms(1)]
  from ok(1) success show ?thesis
  proof (cases rule: handleChargeSuccess_cases)
    case (won p w1)
    have wf1: "wf_world w1" unfolding won(5) using ok(1) by (rule wf_payments_update) simp
    have bk1: "bookings w1 = bookings w" by (simp add: won(5))
    let ?w = "emit (Metric (WebhookRaceWin ''charge.success'')) w1"
    obtain bk w2 where s: "resolveBooking env p ?w = (bk, w2)" "escrow_stamped (bookings w2) (bookings w')"
      by (rule success_effects_cases [of env p w1 r cfg, folded won(4)]) blast
    have pin: "p \<in> set (payments w)" using won(1) by (auto dest: find_one_SomeD)
    from s(1) have unexpired: "\<exists>U. bookings w2 = update_where U (\<lambda>b. b\<lparr>b_status := B_CONFIRMED\<rparr>) (bookings w) \<and>
        (\<forall>b. U b \<longrightarrow> b_status b = B_PENDING)"
    proof (cases rule: resolveBooking_cases)
      case missing
      then show ?thesis using bk1 by (intro exI [of _ "\<lambda>_. False"]) (simp add: update_where_none)
    next
      case (expired b r)
      from expired(1) bk1 have "b \<in> set (bookings w)" "b_id b = p_bookingId p"
        by (auto dest!: find_booking_set)
      with expired(2) ok(6) pin won(2) show ?thesis by (auto simp: settled_def)
    next
      case (confirmed b r)
      from confirm_booking_frame(7) [OF confirmed(3)] bk1 show ?thesis by auto
    qed
    then obtain U where U: "bookings w2 = update_where U (\<lambda>b. b\<lparr>b_status := B_CONFIRMED\<rparr>) (bookings w)"
      "\<forall>b. U b \<longrightarrow> b_status b = B_PENDING" by blast
    have "bookings_live (bookings w) (bookings w2)"
      unfolding U(1) using U(2) by (auto intro!: bookings_live_update simp: booking_life_def)
    from live_stamped [OF this s(2)] show ?thesis .
  qed auto
next
  case (failure reference)
  from system_okD(1) [OF assms(1)] failure show ?thesis
  proof (cases rule: handleChargeFailed_cases)
    case (won p w1)
    then show ?thesis using failure_effects_fx [of env p w1] by auto
  qed auto
qed auto


lemma request_live:
  assumes "request w w'" "system_ok w"
  shows "bookings_live (bookings w) (bookings w')"
  using assms(1)
proof (cases rule: request.cases)
  case (creates env dto userId r)
  then have new: "uuid1 env \<notin> b_id ` set (bookings w)" by (simp add: fresh_ids_def)
  show ?thesis
  proof (cases r)
    case (Inl e)
    with creates show ?thesis by (auto dest: create_booking_Inl)
  next
    case (Inr b)
    with creates new show ?thesis
      by (auto elim!: create_booking_Inr intro!: bookings_live_insert simp: new_booking_def)
  qed
next
  case (day_pass env dto dp)
  then have new: "uuid1 env \<notin> b_id ` set (bookings w)" by (simp add: fresh_ids_def)
  from create_public_day_pass_bookings [OF day_pass(2)] new show ?thesis
    by (auto intro!: bookings_live_insert simp: new_day_pass_def)
next
  case (confirms_booking env k r)
  then show ?thesis
    by (auto simp: confirm_booking_frame booking_life_def intro!: bookings_live_update)
next
  case (cancels env k userId role r)
  from cancels show ?thesis
  proof (cases rule: cancel_booking_cases)
    case (success b)
    then show ?thesis using system_okD(1) [OF assms(2)] find_booking_set [OF success(1)]
      by (auto simp: wf_world_def booking_life_def intro!: bookings_live_save [of _ b])
  qed simp
next
  case (completes_booking k r)
  from completes_booking show ?thesis
  proof (cases rule: complete_booking_cases)
    case (success b)
    then show ?thesis using system_okD(1) [OF assms(2)] find_booking_set [OF success(1)]
      by (auto simp: wf_world_def booking_life_def intro!: bookings_live_save [of _ b])
  qed simp
next
  case (sweeps env n)
  have "uniq_keys b_id (bookings w)" using system_okD(1) [OF assms(2)] by (simp add: wf_world_def)
  from sweep_is_swept [OF this, of env] sweeps have "w' = swept env (\<lambda>_. True) w" by simp
  then show ?thesis
    by (auto simp: swept_def overdue_def booking_life_def intro!: bookings_live_update)
next
  case (initializes env k userId s)
  from initializes(2) show ?thesis by (cases rule: initialize_payment_cases) auto
next
  case (delivers env rpc cfg body signature time u)
  then show ?thesis by (rule webhook_live [OF assms(2)])
next
  case (refunds_payment env k userId role pr)
  from system_okD(1) [OF assms(2)] refunds_payment show ?thesis
    by (cases rule: refund_payment_cases) auto
next
  case (adds_workspace env dto r)
  then show ?thesis
    by (auto simp: create_workspace_def Let_def save_workspace_def split: option.splits)
next
  case (edits_workspace k dto r)
  then show ?thesis using update_workspace_frame [OF edits_workspace(1)] by simp
next
  case (deactivates k r)
  then show ?thesis by (auto simp: softDelete_def save_workspace_def split: sum.splits)
next
  case elsewhere
  then show ?thesis by simp
qed

lemma sweep_payments:
  assumes "uniq_keys b_id (bookings w)" "expireStalePendingBookings env w = (n, w')"
  shows "payments_evolve (payments w) (payments w')"
proof -
  from sweep_is_swept [OF assms(1), of env] assms(2) have "w' = swept env (\<lambda>_. True) w" by simp
  then show ?thesis
    by (auto simp: swept_def abandoned_def charge_of_def intro!: payments_evolve_update payment_step.intros)
qed

lemma request_payments:
  assumes "request w w'" "system_ok w"
  shows "payments_evolve (payments w) (payments w')"
  using assms(1)
proof (cases rule: request.cases)
  case (creates env dto userId r)
  then show ?thesis
    by (cases r) (auto dest: create_booking_Inl elim!: create_booking_Inr)
next
  case (day_pass env dto dp)
  show ?thesis
  proof (cases dp)
    case (Inl e)
    with day_pass create_public_day_pass_Inl [of env dto w e w'] show ?thesis by simp
  next
    case (Inr y)
    with day_pass(2) obtain d amount w1 where *: "w1 = save_booking (new_day_pass env dto d d amount) w"
      "open_payment env (uuid2 env) (uuid1 env) None amount (cp_guestEmail dto) w1 = (Inr (snd y), w')"
      by (auto elim!: create_public_day_pass_Inr)
    moreover have "uuid2 env \<notin> p_id ` set (payments w)" using day_pass(1) by (simp add: fresh_ids_def)
    moreover obtain p es where "w' = w1\<lparr>payments := save_row p_id p (payments w1), fx := es\<rparr>"
      "p_id p = uuid2 env" using open_payment_shape [OF *(2)] by blast
    ultimately show ?thesis using payments_evolve_insert(1) [of p "payments w"] by simp
  qed
next
  case (confirms_booking env k r)
  then show ?thesis by (simp add: confirm_booking_frame(2))
next
  case (cancels env k userId role r)
  then show ?thesis by (cases rule: cancel_booking_cases) auto
next
  case (completes_booking k r)
  then show ?thesis by (cases rule: complete_booking_cases) auto
next
  case (sweeps env n)
  then show ?thesis using system_okD(1) [OF assms(2)] by (auto simp: wf_world_def intro: sweep_payments)
next
  case (initializes env k userId s)
  then show ?thesis by (intro initialize_payments) (simp_all add: fresh_ids_def)
next
  case (delivers env rpc cfg body signature time u)
  then show ?thesis by (rule webhook_payments [OF system_okD(1) [OF assms(2)]])
next
  case (refunds_payment env k userId role pr)
  then show ?thesis by (rule refund_payments [OF system_okD(1) [OF assms(2)]])
next
  case (adds_workspace env dto r)
  then show ?thesis
    by (auto simp: create_workspace_def Let_def save_workspace_def split: option.splits)
next
  case (edits_workspace k dto r)
  then show ?thesis using update_workspace_frame [OF edits_workspace(1)] by simp
next
  case (deactivates k r)
  then show ?thesis by (auto simp: softDelete_def save_workspace_def split: sum.splits)
next
  case elsewhere
  then show ?thesis by simp
qed

lemma booking_moves:
  assumes "reachable w" "request w w'" "find_booking k w = Some b"
  shows "\<exists>b'. find_booking k w' = Some b' \<and> terms_of b' = terms_of b \<and>
    (b_status b, b_status b') \<in> Id \<union> {(B_PENDING, B_CONFIRMED), (B_PENDING, B_CANCELLED),
       (B_PENDING, B_EXPIRED), (B_CONFIRMED, B_CANCELLED), (B_CONFIRMED, B_COMPLETED)}"
proof -
  note ok = reachable_ok [OF assms(1)]
  from request_ok [OF assms(2) ok] have wf': "wf_world w'" by (simp add: system_ok_def)
  from find_booking_set [OF assms(3)] request_live [OF assms(2) ok]
  obtain b' where "b' \<in> set (bookings w')" "terms_of b' = terms_of b" "booking_life (b_status b) (b_status b')"
    by (auto simp: bookings_live_def)
  moreover from this find_booking_set [OF assms(3)] have "find_booking k w' = Some b'"
    by (auto simp: find_booking_iff [OF wf'] terms_of_def)
  ultimately show ?thesis by (auto simp: booking_life_def)
qed


text \<open>C3: a payment goes from pending to succeeded or failed, from succeeded to refunded, and no other way.\<close>

theorem payment_life_cycle:
  assumes "reachable w" "request w w'" "find_payment k w = Some p"
  shows "\<exists>p'. find_payment k w' = Some p' \<and> p_amount p' = p_amount p \<and> p_bookingId p' = p_bookingId p \<and>
    (p_status p, p_status p') \<in> Id \<union> {(P_PENDING, P_SUCCESS), (P_PENDING, P_FAILED), (P_SUCCESS, P_REFUNDED)}"
proof -
  note ok = reachable_ok [OF assms(1)]
  from request_ok [OF assms(2) ok] have wf': "wf_world w'" by (simp add: system_ok_def)
  have p: "p \<in> set (payments w)" "p_id p = k"
    using assms(3) system_okD(1) [OF ok] by (simp_all add: find_payment_iff)
  from request_payments [OF assms(2) ok] p(1) obtain p' where "p' \<in> set (payments w')"
    "charge_of p' = charge_of p" "p_status p' = p_status p \<or> payment_step (p_status p) (p_status p')"
    by (auto simp: payments_evolve_def)
  moreover from this p(2) have "find_payment k w' = Some p'"
    by (auto simp: find_payment_iff [OF wf'] charge_of_def)
  ultimately show ?thesis by (auto simp: charge_of_def payment_step_from)
qed

section \<open>A sample history\<close>

text \<open>A booking, its payment opened, then either the successful charge or the sweep.\<close>

definition sample_env2 :: env where
  "sample_env2 = sample_env\<lparr>uuid1 := ''id3'', uuid2 := ''id4''\<rparr>"

definition sample_env_late :: env where
  "sample_env_late = sample_env\<lparr>uuid1 := ''id5'', uuid2 := ''id6'', now := 1767312000000\<rparr>"

definition sample_opened :: world where
  "sample_opened = snd (initialize_payment sample_env2 ''id1'' ''ada'' sample_booked)"

definition sample_paid :: world where
  "sample_paid = snd (handle_webhook sample_env_late sample_rpc None ''ok'' ''skok'' [] sample_opened)"

definition sample_swept :: world where
  "sample_swept = snd (expireStalePendingBookings sample_env_late sample_opened)"

lemma sample_opened_request: "request sample_booked sample_opened"
proof -
  have "fresh_ids sample_env2 sample_booked" by code_simp
  then show ?thesis unfolding sample_opened_def by (rule initializes) (rule prod.collapse [symmetric])
qed

lemma sample_paid_request: "request sample_opened sample_paid"
  unfolding sample_paid_def by (rule delivers) (rule prod.collapse [symmetric])

lemma sample_swept_request: "request sample_opened sample_swept"
  unfolding sample_swept_def by (rule sweeps) (rule prod.collapse [symmetric])

lemmas sample_history =
  sample_world_reachable sample_booked_reachable
  continues [OF sample_booked_reachable sample_opened_request]
  continues [OF continues [OF sample_booked_reachable sample_opened_request] sample_paid_request]
  continues [OF continues [OF sample_booked_reachable sample_opened_request] sample_swept_request]

lemma sample_reached:
  "reachable sample_booked" "reachable sample_opened" "reachable sample_paid" "reachable sample_swept"
  using sample_history by blast+

theorem payment_charges_price_witness:
  "\<exists>p b. find_payment ''id3'' sample_paid = Some p \<and> find_booking (p_bookingId p) sample_paid = Some b \<and>
     b_totalAmount b = p_amount p"
proof -
  have "find_payment ''id3'' sample_paid \<noteq> None" by code_simp
  then obtain p where "find_payment ''id3'' sample_paid = Some p" by blast
  with payment_charges_price [OF sample_reached(3) this] show ?thesis by blast
qed

theorem invoices_are_paid_witness:
  "\<exists>i\<in>set (invoices sample_paid). \<exists>p\<in>set (payments sample_paid). i_paymentId i = Some (p_id p) \<and>
     (p_status p = P_SUCCESS \<or> p_status p = P_REFUNDED)"
proof -
  have "invoices sample_paid \<noteq> []" by code_simp
  then obtain i where "i \<in> set (invoices sample_paid)" by (cases "invoices sample_paid") auto
  with invoices_are_paid [OF sample_reached(3) this] show ?thesis by blast
qed

text \<open>The swept database in short, evaluated once.\<close>

lemma sample_swept_rows:
  "map (\<lambda>b. (b_id b, b_status b)) (bookings sample_swept) = [(''id1'', B_EXPIRED)]"
  "map (\<lambda>p. (p_bookingId p, p_providerReference p)) (payments sample_swept) = [(''id1'', Some ''id3'')]"
  by (code_simp, code_simp)

theorem expired_has_no_open_payment_witness:
  "\<exists>b\<in>set (bookings sample_swept). \<exists>p\<in>set (payments sample_swept).
     b_status b = B_EXPIRED \<and> p_bookingId p = b_id b \<and> p_status p \<noteq> P_PENDING"
proof -
  from sample_swept_rows obtain b p where "bookings sample_swept = [b]" "payments sample_swept = [p]"
    "b_id b = ''id1''" "b_status b = B_EXPIRED" "p_bookingId p = ''id1''" by (auto simp: map_eq_Cons_conv)
  then show ?thesis using expired_has_no_open_payment [OF sample_reached(4), of b p] by simp
qed


theorem payment_life_cycle_witness:
  "\<exists>p p'. find_payment ''id3'' sample_opened = Some p \<and> find_payment ''id3'' sample_paid = Some p' \<and>
     p_status p = P_PENDING \<and> p_status p' = P_SUCCESS \<and> p_amount p' = p_amount p"
proof -
  have "find_payment ''id3'' sample_opened \<noteq> None" by code_simp
  then obtain p where p: "find_payment ''id3'' sample_opened = Some p" by blast
  have "map_option p_status (find_payment ''id3'' sample_opened) = Some P_PENDING"
    "map_option p_status (find_payment ''id3'' sample_paid) = Some P_SUCCESS" by code_simp+
  with p payment_life_cycle [OF sample_reached(2) sample_paid_request p] show ?thesis by auto
qed

text \<open>
  a charge that succeeds after the sweep expired its booking is only counted: the payment was
  failed with the booking, so the delivery changes no table and the booking is not revived.
\<close>

theorem late_charge_ignored:
  assumes "reachable w" "find_one (\<lambda>p. p_providerReference p = Some reference) (payments w) = Some p"
    "find_booking (p_bookingId p) w = Some b" "b_status b = B_EXPIRED"
  shows "\<exists>m. handleChargeSuccess env r cfg reference data w = (Inr (), emit (Metric m) w)"
proof -
  note ok = system_okD [OF reachable_ok [OF assms(1)]]
  from assms(2) have "p \<in> set (payments w)" by (auto dest: find_one_SomeD)
  with ok(6) assms(4) find_booking_set [OF assms(3)] have "p_status p \<noteq> P_PENDING"
    by (auto simp: settled_def)
  with handleChargeSuccess_stale [OF ok(1) assms(2)] show ?thesis by blast
qed

theorem late_charge_ignored_witness:
  "\<exists>m. handleChargeSuccess sample_env_late sample_rpc None ''id3'' None sample_swept =
     (Inr (), emit (Metric m) sample_swept)"
proof -
  from sample_swept_rows obtain b p where "bookings sample_swept = [b]" "payments sample_swept = [p]"
    "b_id b = ''id1''" "b_status b = B_EXPIRED" "p_bookingId p = ''id1''"
    "p_providerReference p = Some ''id3''" by (auto simp: map_eq_Cons_conv)
  then have "find_one (\<lambda>p. p_providerReference p = Some ''id3'') (payments sample_swept) = Some p"
    "find_booking (p_bookingId p) sample_swept = Some b" "b_status b = B_EXPIRED"
    by (simp_all add: find_booking_def find_by_def)
  from late_charge_ignored [OF sample_reached(4) this] show ?thesis .
qed

end
