(* ===== verification/Guarantees.thy ===== *)
theory Guarantees
  imports Requests
begin

text \<open>
  What the sweep, the webhook and the refund promise on any database: one-pass equivalence and
  idempotence of the sweep, effects at most once, refused deliveries, refunds.
\<close>

section \<open>The sweep\<close>

text \<open>
  C19: the sweep, plan by plan with its ids and guarded updates, is one pass over the tables: every
  overdue pending booking expires, every pending payment of one of them fails, nothing else
  changes, and the counters are the numbers of those rows.
\<close>

theorem sweep_in_one_pass:
  assumes "uniq_keys b_id (bookings w)"
  shows "expireStalePendingBookings env w =
    ((count_where (overdue env) (bookings w), count_where (abandoned env (\<lambda>_. True) (bookings w)) (payments w)),
     w\<lparr>bookings := update_where (overdue env) (\<lambda>b. b\<lparr>b_status := B_EXPIRED\<rparr>) (bookings w),
       payments := update_where (abandoned env (\<lambda>_. True) (bookings w)) (\<lambda>p. p\<lparr>p_status := P_FAILED\<rparr>) (payments w)\<rparr>)"
  using sweep_is_swept [OF assms, of env] by (simp add: swept_def swept_counts_def)

lemma reachable_uniq: "reachable w \<Longrightarrow> uniq_keys b_id (bookings w)"
  using reachable_ok by (auto simp: system_ok_def wf_world_def)

lemma reachable_wf: "reachable w \<Longrightarrow> wf_world w"
  using reachable_ok by (simp add: system_ok_def)

theorem sweep_in_one_pass_witness:
  "fst (expireStalePendingBookings sample_env_late sample_opened) =
     (count_where (overdue sample_env_late) (bookings sample_opened),
      count_where (abandoned sample_env_late (\<lambda>_. True) (bookings sample_opened)) (payments sample_opened))"
  using sweep_in_one_pass [OF reachable_uniq [OF sample_reached(2)], of sample_env_late] by simp

text \<open>a second sweep at the same time finds nothing to do.\<close>

theorem sweep_idempotent:
  assumes "uniq_keys b_id (bookings w)" "expireStalePendingBookings env w = (n, w')"
  shows "expireStalePendingBookings env w' = ((0, 0), w')"
proof -
  from sweep_is_swept [OF assms(1), of env] assms(2) have w': "w' = swept env (\<lambda>_. True) w" by simp
  have "\<not> overdue env b" if "b \<in> set (bookings w')" for b
    using that unfolding w' by (rule swept_settles)
  then have "swept env (\<lambda>_. True) w' = w'" "swept_counts env (\<lambda>_. True) w' = (0, 0)"
    by (auto simp: swept_def swept_counts_def abandoned_def update_where_none count_where_0_iff)
  with sweep_is_swept [OF uniq_swept [OF assms(1)], of env env "\<lambda>_. True"] show ?thesis by (simp add: w')
qed

theorem sweep_idempotent_witness:
  "expireStalePendingBookings sample_env_late sample_swept = ((0, 0), sample_swept)"
  using sweep_idempotent [OF reachable_uniq [OF sample_reached(2)], of sample_env_late _ sample_swept]
  by (simp add: sample_swept_def prod_eq_iff)

text \<open>
  whatever other requests did since the ids were selected, the batch expires exactly those of
  the selected bookings that are still pending; a booking confirmed or cancelled meanwhile keeps its
  row, and no payment of a selected booking stays pending.
\<close>

theorem expire_batch_guarded:
  assumes "expire_batch ids w = (n, w')"
  shows "(\<forall>b\<in>set (bookings w). b_status b \<noteq> B_PENDING \<or> b_id b \<notin> set ids \<longrightarrow> b \<in> set (bookings w')) \<and>
    (\<forall>b\<in>set (bookings w'). b_id b \<in> set ids \<longrightarrow> b_status b \<noteq> B_PENDING) \<and>
    (\<forall>p\<in>set (payments w'). p_bookingId p \<in> set ids \<longrightarrow> p_status p \<noteq> P_PENDING) \<and>
    fst n = count_where (\<lambda>b. b_id b \<in> set ids \<and> b_status b = B_PENDING) (bookings w)"
  using assms by (auto simp: expire_batch_def Let_def set_update_where image_iff split: if_splits)

theorem expire_batch_guarded_witness:
  "bookings sample_paid \<noteq> [] \<and>
   list_all (\<lambda>b. b \<in> set (bookings (snd (expire_batch [''id1''] sample_paid)))) (bookings sample_paid)"
proof -
  have "map b_status (bookings sample_paid) = [B_CONFIRMED]" by code_simp
  with expire_batch_guarded [of "[''id1'']" sample_paid, OF prod.collapse [symmetric]]
  show ?thesis by (auto simp: list_all_iff map_eq_Cons_conv)
qed

text \<open>
  the sweep is not atomic with the requests between its two steps: a staff member confirming
  an overdue booking after its selection leaves a confirmed booking whose pending payment the
  batch then fails.
\<close>

theorem sweep_fails_payment_of_confirmed_booking:
  "\<exists>w b p. reachable w \<and> find_booking ''id1'' w = Some b \<and> b_status b = B_PENDING \<and>
     (let ids = stale_ids sample_env_late DAILY w;
          w1 = snd (confirm_booking sample_env_late ''id1'' w);
          w2 = snd (expire_batch ids w1)
      in find_booking ''id1'' w2 = Some (b\<lparr>b_status := B_CONFIRMED\<rparr>) \<and>
         find_payment ''id3'' w2 = Some (p\<lparr>p_status := P_FAILED\<rparr>) \<and> p_bookingId p = ''id1'')"
proof -
  have "map (\<lambda>b. (b_id b, b_status b)) (bookings sample_opened) = [(''id1'', B_PENDING)]"
    "map (\<lambda>p. (p_id p, p_bookingId p, p_status p)) (payments sample_opened) = [(''id3'', ''id1'', P_PENDING)]"
    "stale_ids sample_env_late DAILY sample_opened = [''id1'']" by (code_simp, code_simp, code_simp)
  then obtain b p where *: "bookings sample_opened = [b]" "payments sample_opened = [p]" "b_id b = ''id1''"
    "b_status b = B_PENDING" "p_id p = ''id3''" "p_bookingId p = ''id1''" "p_status p = P_PENDING"
    "stale_ids sample_env_late DAILY sample_opened = [''id1'']" by (auto simp: map_eq_Cons_conv)
  let ?w1 = "snd (confirm_booking sample_env_late ''id1'' sample_opened)"
  have "bookings ?w1 = [b\<lparr>b_status := B_CONFIRMED\<rparr>]" "payments ?w1 = [p]"
    using confirm_booking_frame(2,7) [of sample_env_late "''id1''" sample_opened, OF prod.collapse [symmetric]] *
    by simp_all
  with * show ?thesis
    by (intro exI [of _ sample_opened] exI [of _ b] exI [of _ p])
      (simp add: sample_reached find_booking_def find_payment_def find_by_def expire_batch_def Let_def)
qed

section \<open>The webhook\<close>

text \<open>
  C4: the effects of a successful charge happen at most once: after a delivery that was accepted,
  every further delivery with the same reference, successful or failed, changes no table.
\<close>

theorem webhook_at_most_once:
  assumes "wf_world w" "handleChargeSuccess env r cfg reference data w = (Inr (), w')"
  shows "(\<exists>m. handleChargeSuccess env' r' cfg' reference data' w' = (Inr (), emit (Metric m) w')) \<and>
         (\<exists>m. handleChargeFailed env' reference w' = (Inr (), emit (Metric m) w'))"
proof -
  from handleChargeSuccess_settles [OF assms] obtain p where
    p: "find_one (\<lambda>p. p_providerReference p = Some reference) (payments w') = Some p" "p_status p \<noteq> P_PENDING"
    by blast
  have wf': "wf_world w'" by (rule wf_handleChargeSuccess [OF assms])
  have "\<exists>m. handleChargeFailed env' reference w' = (Inr (), emit (Metric m) w')"
  proof -
    obtain res w2 where e: "handleChargeFailed env' reference w' = (res, w2)" by fastforce
    from wf' this show ?thesis by (cases rule: handleChargeFailed_cases) (use p e in auto)
  qed
  with handleChargeSuccess_stale [OF wf' p] show ?thesis by blast
qed

theorem webhook_at_most_once_witness:
  "\<exists>m w'. snd (handleChargeSuccess sample_env_late sample_rpc None ''id3'' None sample_opened) = w' \<and>
     handleChargeSuccess sample_env2 sample_rpc None ''id3'' None w' = (Inr (), emit (Metric m) w')"
proof -
  let ?h = "handleChargeSuccess sample_env_late sample_rpc None ''id3'' None sample_opened"
  have "is_ok (fst ?h)" by code_simp
  then have "?h = (Inr (), snd ?h)" by (simp add: is_ok_iff prod_eq_iff)
  with webhook_at_most_once [OF reachable_wf [OF sample_reached(2)]] show ?thesis by blast
qed

text \<open>
  C39: a delivery without the right signature, or dated more than five minutes away from the
  server's clock in either direction, is refused before anything is read or written.
\<close>

theorem webhook_gate:
  assumes "config env ''PAYSTACK_SECRET_KEY'' = Some secretKey"
    and "hmac_sha512 env secretKey rawBody \<noteq> signature \<or>
         (requestTime \<noteq> [] \<and> (case js_date_ms (date_ext env) requestTime of
            None \<Rightarrow> True | Some t \<Rightarrow> \<bar>now env - t\<bar> > 5 * 60 * 1000))"
  shows "\<exists>e. is_http_exception e \<and> handle_webhook env r cfg rawBody signature requestTime w = (Inl e, w)"
  using assms
  by (auto simp: handle_webhook_def verifyWebhookSignature_def check_request_time_def MAX_WEBHOOK_AGE_MS_def
      Let_def split: option.splits)

theorem webhook_gate_witness:
  "\<exists>e. handle_webhook sample_env sample_rpc None ''ok'' ''forged'' [] sample_opened = (Inl e, sample_opened)"
proof -
  have "config sample_env ''PAYSTACK_SECRET_KEY'' = Some ''sk''" "hmac_sha512 sample_env ''sk'' ''ok'' \<noteq> ''forged''"
    by (simp_all add: sample_env_def)
  with webhook_gate [of sample_env "''sk''" "''ok''" "''forged''" "[]" sample_rpc None sample_opened]
  show ?thesis by blast
qed

text \<open>
  a delivery that found its payment always answers success, whatever the booking, the workspace,
  the invoice, the mails and the Soroban network do; it never asks Paystack to retry.
\<close>

theorem webhook_never_fails_after_payment:
  assumes "find_one (\<lambda>p. p_providerReference p = Some reference) (payments w) = Some p"
  shows "fst (handleChargeSuccess env r cfg reference data w) = Inr ()"
  using assms by (simp add: handleChargeSuccess_def split: prod.splits)

theorem webhook_never_fails_after_payment_witness:
  "fst (handleChargeSuccess sample_env_late sample_rpc None ''id3'' None sample_swept) = Inr ()"
proof -
  from sample_swept_rows obtain p where "payments sample_swept = [p]" "p_providerReference p = Some ''id3''"
    by (auto simp: map_eq_Cons_conv)
  then show ?thesis by (intro webhook_never_fails_after_payment [of _ _ p]) simp
qed

section \<open>Refunds\<close>

text \<open>
  a refund succeeds only for a payment that succeeded and that the caller owns or an
  administrator asks for; it asks Paystack once, marks this payment refunded, and changes no other
  row.
\<close>

theorem refund_refunds_once:
  assumes "wf_world w" "refund_payment env k userId role w = (Inr res, w')"
  shows "\<exists>p. find_payment k w = Some p \<and> p_status p = P_SUCCESS \<and>
    (role = ADMIN \<or> role = SUPER_ADMIN \<or> p_userId p = Some userId) \<and>
    res = Some (p\<lparr>p_status := P_REFUNDED\<rparr>) \<and> find_payment k w' = res \<and>
    (\<forall>k'. k' \<noteq> k \<longrightarrow> find_payment k' w' = find_payment k' w) \<and> bookings w' = bookings w \<and>
    fx w' = fx w @ [PaystackRefund (p_providerReference p)] \<and>
    (\<exists>e. refund_payment env' k userId' role' w' = (Inl e, w'))"
  using assms
proof (cases rule: refund_payment_cases)
  case (refunded p w1)
  then have p: "find_payment k w = Some p" "p_status p = P_SUCCESS" "p_id p = k"
    "role = ADMIN \<or> role = SUPER_ADMIN \<or> p_userId p = Some userId"
    by (auto simp: refund_check_Inr find_payment_iff [OF assms(1)])
  let ?f = "\<lambda>x. if p_id x = k \<and> p_status x = P_SUCCESS then x\<lparr>p_status := P_REFUNDED\<rparr> else x"
  have after: "find_payment k' w' = map_option ?f (find_payment k' w)" for k'
    unfolding refunded(4) find_payment_def find_by_def by (simp add: find_one_update_where)
  have same: "find_payment k' w' = find_payment k' w" if "k' \<noteq> k" for k'
  proof (cases "find_payment k' w")
    case None
    with after [of k'] show ?thesis by simp
  next
    case (Some a)
    then have "p_id a = k'" by (simp add: find_payment_iff [OF assms(1)])
    with Some after [of k'] that show ?thesis by simp
  qed
  have mine: "find_payment k w' = Some (p\<lparr>p_status := P_REFUNDED\<rparr>)" using after [of k] p by simp
  then have "\<exists>e. refund_payment env' k userId' role' w' = (Inl e, w')"
    by (auto simp: refund_payment_def refund_check_def Let_def)
  with p mine same refunded show ?thesis by (intro exI [of _ p]) auto
qed auto

theorem refund_refunds_once_witness:
  "\<exists>res w'. refund_payment sample_env_late ''id3'' ''ada'' USER sample_paid = (Inr (Some res), w') \<and>
     p_status res = P_REFUNDED \<and> (\<exists>e. refund_payment sample_env_late ''id3'' ''ada'' USER w' = (Inl e, w'))"
proof -
  let ?r = "refund_payment sample_env_late ''id3'' ''ada'' USER sample_paid"
  have "is_ok (fst ?r)" by code_simp
  then obtain res where r: "?r = (Inr res, snd ?r)" by (auto simp: is_ok_iff prod_eq_iff)
  from refund_refunds_once [OF reachable_wf [OF sample_reached(3)] r, of sample_env_late "''ada''" USER]
  show ?thesis using r by fastforce
qed

section \<open>Opening a payment\<close>

text \<open>
  opening a payment for a booking that already has a pending one reuses it: the answer names
  the pending payment and no row is added.
\<close>

theorem initialize_reuses_pending:
  assumes "initialize_payment env bookingId userId w = (Inr s, w')"
    and "q \<in> set (payments w)" "p_bookingId q = bookingId" "p_status q = P_PENDING"
  shows "payments w' = payments w \<and> bookings w' = bookings w \<and>
    (\<exists>p\<in>set (payments w). p_bookingId p = bookingId \<and> p_status p = P_PENDING \<and> ps_paymentId s = p_id p)"
  using assms(1)
proof (cases rule: initialize_payment_cases)
  case (opened b p es)
  with assms(2-4) show ?thesis by auto
qed auto

theorem initialize_reuses_pending_witness:
  "\<exists>s w'. initialize_payment sample_env_late ''id1'' ''ada'' sample_opened = (Inr s, w') \<and>
     payments w' = payments sample_opened"
proof -
  let ?r = "initialize_payment sample_env_late ''id1'' ''ada'' sample_opened"
  have "is_ok (fst ?r)" by code_simp
  then obtain s where r: "?r = (Inr s, snd ?r)" by (auto simp: is_ok_iff prod_eq_iff)
  have "map (\<lambda>p. (p_bookingId p, p_status p)) (payments sample_opened) = [(''id1'', P_PENDING)]" by code_simp
  then obtain q where "q \<in> set (payments sample_opened)" "p_bookingId q = ''id1''" "p_status q = P_PENDING"
    by (auto simp: map_eq_Cons_conv)
  from initialize_reuses_pending [OF r this] r show ?thesis by blast
qed

end
