(* ===== verification/Payment_Races.thy ===== *)
theory Payment_Races
  imports Guarantees
begin

text \<open>
  Refund requests interleaved with each other and with every other request (the two round trips of
  \<open>refund-payment.provider.ts\<close> around the call to Paystack), and what the escrow client can and
  cannot do behind the webhook.
\<close>

section \<open>Refunds between other requests\<close>

record refund_state =
  rf_world :: world
  rf_asked :: "payment list"    \<comment> \<open>passed the checks, Paystack not called yet\<close>
  rf_called :: "payment list"   \<comment> \<open>accepted by Paystack, update not made yet\<close>
  rf_marked :: "uuid list"      \<comment> \<open>payments whose update affected a row, latest first\<close>

definition marks :: "uuid \<Rightarrow> world \<Rightarrow> bool" where
  "marks k w \<longleftrightarrow> fst (payment_cas k P_SUCCESS (\<lambda>p. p\<lparr>p_status := P_REFUNDED\<rparr>) w) \<noteq> 0"

inductive refund_step :: "refund_state \<Rightarrow> refund_state \<Rightarrow> bool" where
  asks: "refund_check k userId role (rf_world s) = Inr p \<Longrightarrow> refund_step s (s\<lparr>rf_asked := p # rf_asked s\<rparr>)"
| calls: "p \<in> set (rf_asked s) \<Longrightarrow> paystack_refund (env :: env) (p_providerReference p) = Inr () \<Longrightarrow>
     refund_step s (s\<lparr>rf_world := emit (PaystackRefund (p_providerReference p)) (rf_world s),
       rf_asked := remove1 p (rf_asked s), rf_called := p # rf_called s\<rparr>)"
| refused: "p \<in> set (rf_asked s) \<Longrightarrow> paystack_refund (env :: env) (p_providerReference p) = Inl e \<Longrightarrow>
     refund_step s (s\<lparr>rf_world := emit (PaystackRefund (p_providerReference p)) (rf_world s),
       rf_asked := remove1 p (rf_asked s)\<rparr>)"
| commits: "p \<in> set (rf_called s) \<Longrightarrow> refund_commit (p_id p) (rf_world s) = (r, w') \<Longrightarrow>
     refund_step s (s\<lparr>rf_world := w', rf_called := remove1 p (rf_called s),
       rf_marked := (if marks (p_id p) (rf_world s) then p_id p # rf_marked s else rf_marked s)\<rparr>)"
| others: "request (rf_world s) w' \<Longrightarrow> refund_step s (s\<lparr>rf_world := w'\<rparr>)"

inductive refunding :: "refund_state \<Rightarrow> bool" where
  begins: "reachable w \<Longrightarrow> refunding \<lparr>rf_world = w, rf_asked = [], rf_called = [], rf_marked = []\<rparr>"
| goes_on: "refunding s \<Longrightarrow> refund_step s s' \<Longrightarrow> refunding s'"

definition refunded_in :: "world \<Rightarrow> uuid \<Rightarrow> bool" where
  "refunded_in w k \<longleftrightarrow> (\<exists>p. find_payment k w = Some p \<and> p_status p = P_REFUNDED)"

definition refunding_ok :: "refund_state \<Rightarrow> bool" where
  "refunding_ok s \<longleftrightarrow> system_ok (rf_world s) \<and> distinct (rf_marked s) \<and> (\<forall>k\<in>set (rf_marked s). refunded_in (rf_world s) k)"

lemma refunded_stays:
  assumes "system_ok w" "request w w'" "refunded_in w k"
  shows "refunded_in w' k"
proof -
  from request_ok [OF assms(2,1)] have wf': "wf_world w'" by (simp add: system_ok_def)
  from assms(3) obtain p where p: "p \<in> set (payments w)" "p_id p = k" "p_status p = P_REFUNDED"
    using system_okD(1) [OF assms(1)] by (auto simp: refunded_in_def find_payment_iff)
  from request_payments [OF assms(2,1)] p(1) obtain p' where "p' \<in> set (payments w')"
    "charge_of p' = charge_of p" "p_status p' = p_status p \<or> payment_step (p_status p) (p_status p')"
    by (auto simp: payments_evolve_def)
  with p show ?thesis
    using payment_step_from [of "p_status p" "p_status p'"]
    by (auto simp: refunded_in_def find_payment_iff [OF wf'] charge_of_def)
qed

lemma emit_request: "system_ok w \<Longrightarrow> request w (emit e w)"
  by (rule elsewhere) (auto dest!: system_okD(1) simp: wf_world_def)

text \<open>An update that affects a row is the update of a refund request made at that moment.\<close>

lemma commit_cases:
  assumes "system_ok w" "refund_commit k w = (r, w')"
  obtains (lost) "\<not> marks k w" "w' = w"
  | (won) w1 where "marks k w" "request w w1" "request w1 w'" "refunded_in w' k" "\<not> refunded_in w k"
proof -
  note wf = system_okD(1) [OF assms(1)]
  show thesis
  proof (cases "\<exists>p. find_payment k w = Some p \<and> p_status p = P_SUCCESS")
    case False
    then have "payment_cas k P_SUCCESS (\<lambda>p. p\<lparr>p_status := P_REFUNDED\<rparr>) w = (0, w)"
      using payment_cas_miss [OF wf, of k P_SUCCESS] by (cases "find_payment k w") auto
    with assms(2) lost show thesis by (auto simp: marks_def refund_commit_def split: option.splits if_splits)
  next
    case True
    then obtain p where p: "find_payment k w = Some p" "p_status p = P_SUCCESS" by blast
    from payment_cas_hit [OF wf p, of "\<lambda>p. p\<lparr>p_status := P_REFUNDED\<rparr>"] obtain v where
      v: "payment_cas k P_SUCCESS (\<lambda>p. p\<lparr>p_status := P_REFUNDED\<rparr>) w = (1, v)"
        "find_payment k v = Some (p\<lparr>p_status := P_REFUNDED\<rparr>)" by auto
    then have w': "w' = v" using assms(2) by (auto simp: refund_commit_def)
    define env where "env = sample_env\<lparr>paystack_refund := (\<lambda>_. Inr ())\<rparr>"
    obtain r1 w1 where r1: "refund_payment env k [] ADMIN w = (r1, w1)" by force
    have "refund_check k [] ADMIN w = Inr p" using p by (simp add: refund_check_Inr)
    with r1 have "w1 = snd (refund_commit k (emit (PaystackRefund (p_providerReference p)) w))"
      using p(1) by (simp add: refund_payment_def env_def Let_def find_payment_iff [OF wf])
    then have t: "payments w1 = payments w'" "users w1 = users w'" "workspaces w1 = workspaces w'"
      "bookings w1 = bookings w'" "invoices w1 = invoices w'" "inv_seq w1 = inv_seq w'"
      using v w' by (auto simp: refund_commit_def payment_cas_def emit_def cas_by_def split: prod.splits option.splits if_splits)
    from r1 have q1: "request w w1" by (rule refunds_payment)
    have "wf_world w1" using request_ok [OF q1 assms(1)] by (simp add: system_ok_def)
    then have "request w1 w'"
      using t by (intro elsewhere) (simp_all add: wf_world_def)
    moreover have "marks k w" using v by (simp add: marks_def)
    ultimately show thesis using won [OF _ q1] v w' p by (simp add: refunded_in_def)
  qed
qed

lemma refunding_ok_step: "refund_step s s' \<Longrightarrow> refunding_ok s \<Longrightarrow> refunding_ok s'"
proof (induction rule: refund_step.induct)
  case (commits p s r w')
  then have ok: "system_ok (rf_world s)" by (simp add: refunding_ok_def)
  from ok commits.hyps(2) show ?case
  proof (cases rule: commit_cases)
    case lost
    with commits.prems show ?thesis by (simp add: refunding_ok_def)
  next
    case (won w1)
    with request_ok ok have "system_ok w1" "system_ok w'" by blast+
    with won refunded_stays [OF ok won(2)] refunded_stays [OF \<open>system_ok w1\<close> won(3)] commits.prems
    show ?thesis by (auto simp: refunding_ok_def)
  qed
next
  case (others s w')
  then show ?case using request_ok refunded_stays by (auto simp: refunding_ok_def)
next
  case (asks k userId role s p)
  then show ?case by (simp add: refunding_ok_def)
next
  case (calls p s env)
  then show ?case using request_ok emit_request refunded_stays by (auto simp: refunding_ok_def)
next
  case (refused p s env e)
  then show ?case using request_ok emit_request refunded_stays by (auto simp: refunding_ok_def)
qed

lemma refunding_invariant: "refunding s \<Longrightarrow> refunding_ok s"
proof (induction rule: refunding.induct)
  case (begins w)
  then show ?case using reachable_ok by (simp add: refunding_ok_def)
next
  case (goes_on s s')
  then show ?case using refunding_ok_step by blast
qed

text \<open>
  C7: however refund requests interleave with each other and with all other requests, the
  conditional update marks a payment refunded at most once, and what is marked stays refunded. The
  call to Paystack is not covered by it: of two requests that passed the check before either
  update, both call.
\<close>

theorem refund_marked_once:
  assumes "refunding s"
  shows "distinct (rf_marked s) \<and>
    (\<forall>k\<in>set (rf_marked s). \<exists>p. find_payment k (rf_world s) = Some p \<and> p_status p = P_REFUNDED) \<and>
    (\<forall>p (env :: env). p \<in> set (rf_asked s) \<and> p \<in> set (remove1 p (rf_asked s)) \<and> paystack_refund env (p_providerReference p) = Inr () \<longrightarrow>
       (\<exists>s'. refunding s' \<and> fx (rf_world s') = fx (rf_world s) @
          [PaystackRefund (p_providerReference p), PaystackRefund (p_providerReference p)] \<and> rf_marked s' = rf_marked s))"
proof (intro conjI allI impI)
  from refunding_invariant [OF assms] have ok: "refunding_ok s" .
  then show "distinct (rf_marked s)" by (simp add: refunding_ok_def)
  show "\<forall>k\<in>set (rf_marked s). \<exists>p. find_payment k (rf_world s) = Some p \<and> p_status p = P_REFUNDED"
    using ok by (simp add: refunding_ok_def refunded_in_def)
  fix p and env :: env
  assume *: "p \<in> set (rf_asked s) \<and> p \<in> set (remove1 p (rf_asked s)) \<and> paystack_refund env (p_providerReference p) = Inr ()"
  let ?s = "\<lambda>s. s\<lparr>rf_world := emit (PaystackRefund (p_providerReference p)) (rf_world s),
       rf_asked := remove1 p (rf_asked s), rf_called := p # rf_called s\<rparr>"
  have "refunding (?s s)" using assms calls [of p s env] * by (blast intro: goes_on)
  moreover from this have "refunding (?s (?s s))" using calls [of p "?s s" env] * by (force intro: goes_on)
  ultimately show "\<exists>s'. refunding s' \<and> fx (rf_world s') = fx (rf_world s) @
          [PaystackRefund (p_providerReference p), PaystackRefund (p_providerReference p)] \<and> rf_marked s' = rf_marked s"
    by (intro exI [of _ "?s (?s s)"]) simp
qed

theorem refund_marked_once_witness:
  "\<exists>s. refunding s \<and> count_where (\<lambda>e. e = PaystackRefund (Some ''id3'')) (fx (rf_world s)) = 2 \<and> rf_marked s = []"
proof -
  let ?s0 = "\<lparr>rf_world = sample_paid, rf_asked = [], rf_called = [], rf_marked = []\<rparr>"
  have s0: "refunding ?s0" by (rule begins) (rule sample_reached(3))
  have "map_sum id p_providerReference (refund_check ''id3'' ''ada'' USER sample_paid) = Inr (Some ''id3'')" by code_simp
  then obtain p where p: "refund_check ''id3'' ''ada'' USER sample_paid = Inr p" "p_providerReference p = Some ''id3''"
    by (cases "refund_check ''id3'' ''ada'' USER sample_paid") auto
  let ?s2 = "?s0\<lparr>rf_asked := [p, p]\<rparr>"
  have "refund_step ?s0 (?s0\<lparr>rf_asked := [p]\<rparr>)" using asks [of "''id3''" "''ada''" USER ?s0 p] p(1) by simp
  with s0 have s1: "refunding (?s0\<lparr>rf_asked := [p]\<rparr>)" by (rule goes_on)
  have "refund_step (?s0\<lparr>rf_asked := [p]\<rparr>) ?s2"
    using asks [of "''id3''" "''ada''" USER "?s0\<lparr>rf_asked := [p]\<rparr>" p] p(1) by simp
  with s1 have "refunding ?s2" by (rule goes_on)
  from conjunct2 [OF conjunct2 [OF refund_marked_once [OF this]], rule_format, of p sample_env]
  obtain s' where s': "refunding s'" "fx (rf_world s') = fx sample_paid @ [PaystackRefund (Some ''id3''), PaystackRefund (Some ''id3'')]"
    "rf_marked s' = []" using p(2) by (auto simp: sample_env_def)
  moreover have "count_where (\<lambda>e. e = PaystackRefund (Some ''id3'')) (fx sample_paid) = 0" by code_simp
  ultimately show ?thesis by (intro exI [of _ s']) (simp add: table_simps)
qed

section \<open>Escrow\<close>

text \<open>
  when the driver returns bigint columns as strings, as PostgreSQL's does, no escrow is ever
  created: the amount fails the test for a safe integer before anything is sent, and the delivery
  only counts the failure.
\<close>

theorem escrow_never_created:
  assumes "bigint_strings env"
  shows "recordSorobanEscrow env r cfg p b w = emit (Metric (SorobanEscrowFailure ''create_escrow'')) w"
  using assms
  by (auto simp: recordSorobanEscrow_def createEscrow_def amount_read_def escrow_amount_def assertEnabled_def
      split: option.splits)

theorem escrow_never_created_witness:
  "(\<exists>p b. recordSorobanEscrow sample_env sample_rpc (Some sample_config) p b sample_paid =
      emit (Metric (SorobanEscrowFailure ''create_escrow'')) sample_paid) \<and>
   is_ok (fst (createEscrow sample_env sample_rpc (Some sample_config) ''id1'' (NumAmount 5) ''d'' 0))"
proof
  have "bigint_strings sample_env" by (simp add: sample_env_def)
  from escrow_never_created [OF this]
  show "\<exists>p b. recordSorobanEscrow sample_env sample_rpc (Some sample_config) p b sample_paid =
      emit (Metric (SorobanEscrowFailure ''create_escrow'')) sample_paid" by blast
  show "is_ok (fst (createEscrow sample_env sample_rpc (Some sample_config) ''id1'' (NumAmount 5) ''d'' 0))"
    by code_simp
qed

text \<open>Nor can one be read back: mapping the status of the decoded record always throws.\<close>

lemma escrow_status_always_fails: "\<exists>e. getEscrowStatus env r cfg escrowId = Inl (BadGateway e)"
  using read_escrow_fails
  by (auto simp: getEscrowStatus_def assertEnabled_def split: option.splits sum.splits)
    (metis read_escrow_fails sum.distinct(1))

lemma wait_loop_ge: "wait_loop r hash elapsed k response = (x, n) \<Longrightarrow> k \<le> n"
proof (induction r hash elapsed k response arbitrary: x n rule: wait_loop.induct)
  case (1 r hash elapsed k response)
  show ?case
  proof (cases "response = TX_NOT_FOUND \<and> elapsed < 30 * 1000")
    case False
    with 1(2) show ?thesis by (simp add: wait_loop_stop [OF False])
  next
    case True
    show ?thesis
    proof (cases "rpc_getTransaction r k hash")
      case (Inl e)
      with 1(2) show ?thesis unfolding wait_loop_step [OF True] by auto
    next
      case (Inr response')
      with 1(2) have "wait_loop r hash (elapsed + 1000 + poll_delay r k) (Suc k) response' = (x, n)"
        unfolding wait_loop_step [OF True] by simp
      from 1(1) [OF True Inr this] show ?thesis by simp
    qed
  qed
qed

text \<open>
  waiting for a transaction to settle always ends, after at most 31 requests; the answer "not
  found" is given only when every request got it and the thirty seconds are over.
\<close>

theorem settlement_wait_bounded:
  "\<exists>x n. waitForSettlement r hash = (x, n) \<and> 1 \<le> n \<and> n \<le> 31 \<and>
     (x = Inr TX_NOT_FOUND \<longrightarrow> (\<forall>i<n. rpc_getTransaction r i hash = Inr TX_NOT_FOUND) \<and>
        30 * 1000 \<le> (\<Sum>i = 1..<n. 1000 + poll_delay r i))"
proof -
  obtain x n where xn: "waitForSettlement r hash = (x, n)" by force
  have "1 \<le> n \<and> n \<le> 31 \<and> (x = Inr TX_NOT_FOUND \<longrightarrow> (\<forall>i<n. rpc_getTransaction r i hash = Inr TX_NOT_FOUND) \<and>
        30 * 1000 \<le> (\<Sum>i = 1..<n. 1000 + poll_delay r i))"
  proof (cases "rpc_getTransaction r 0 hash")
    case (Inl e)
    with xn show ?thesis by (auto simp: waitForSettlement_def)
  next
    case (Inr response)
    with xn have w: "wait_loop r hash 0 1 response = (x, n)" by (simp add: waitForSettlement_def)
    from wait_loop_polls [OF w] wait_loop_ge [OF w] have "1 \<le> n \<and> n \<le> 31" by simp
    moreover have "(\<forall>i<n. rpc_getTransaction r i hash = Inr TX_NOT_FOUND) \<and>
        30 * 1000 \<le> (\<Sum>i = 1..<n. 1000 + poll_delay r i)" if "x = Inr TX_NOT_FOUND"
    proof -
      from wait_loop_NOT_FOUND [OF w [unfolded that]] have q: "response = TX_NOT_FOUND"
        "\<forall>i. 1 \<le> i \<and> i < n \<longrightarrow> rpc_getTransaction r i hash = Inr TX_NOT_FOUND"
        "30 * 1000 \<le> (\<Sum>i = 1..<n. 1000 + poll_delay r i)" by auto
      have "rpc_getTransaction r i hash = Inr TX_NOT_FOUND" if "i < n" for i
        using q(1,2) Inr that by (cases i) auto
      with q(3) show ?thesis by blast
    qed
    ultimately show ?thesis by blast
  qed
  with xn show ?thesis by blast
qed

theorem settlement_wait_bounded_witness:
  "\<exists>n \<le> 31. waitForSettlement (sample_rpc\<lparr>rpc_getTransaction := (\<lambda>_ _. Inr TX_NOT_FOUND)\<rparr>) ''tx'' = (Inr TX_NOT_FOUND, n)"
proof -
  let ?r = "sample_rpc\<lparr>rpc_getTransaction := (\<lambda>_ _. Inr TX_NOT_FOUND)\<rparr>"
  have stay: "wait_loop ?r ''tx'' e k TX_NOT_FOUND = (x, n) \<Longrightarrow> x = Inr TX_NOT_FOUND" for e k x n
  proof (induction "30 * 1000 - e" arbitrary: e k rule: less_induct)
    case less
    show ?case
    proof (cases "e < 30 * 1000")
      case False
      with less.prems show ?thesis by (simp add: wait_loop_stop)
    next
      case True
      with less.prems have "wait_loop ?r ''tx'' (e + 1000 + poll_delay ?r k) (Suc k) TX_NOT_FOUND = (x, n)"
        by (subst (asm) wait_loop_step) simp_all
      with less.hyps [of "e + 1000 + poll_delay ?r k"] True show ?thesis by simp
    qed
  qed
  obtain x n where xn: "waitForSettlement ?r ''tx'' = (x, n)" "n \<le> 31"
    using settlement_wait_bounded [of ?r "''tx''"] by auto
  then have "wait_loop ?r ''tx'' 0 1 TX_NOT_FOUND = (x, n)" by (simp add: waitForSettlement_def)
  with stay xn show ?thesis by blast
qed

end
