(* ===== verification/Tracking.thy ===== *)
theory Tracking
  imports NL_Sample
begin

text \<open>
  Presence tracking: \<open>workspace-tracking/providers/check-in.provider.ts\<close> and
  \<open>occupancy.provider.ts\<close>. A log row is open while its \<open>checkedOutAt\<close> is null.

  \<open>checkIn\<close> reads the workspace and the open log, then inserts: the two halves
  (\<open>check_in_guard\<close>, \<open>check_in_insert\<close>) are separate definitions, so that two requests can be
  interleaved between them. The step relation \<open>tracking_step\<close> serves one request at a time.
\<close>

section \<open>Checking in and out\<close>

record check_in_dto =
  ci_workspaceId :: uuid
  ci_bookingId :: "uuid option"
  ci_notes :: "string option"
  ci_hash :: "string option"
  ci_storageReference :: "string option"
  ci_location :: "string option"
  ci_vendor :: "string option"
  ci_other :: "(string \<times> json) list"   \<comment> \<open>the body's properties the class does not name\<close>

definition denied_fields :: "string list" where
  "denied_fields =
     [''biometricTemplate'', ''biometricTemplateData'', ''biometricSample'', ''biometricPayload'',
      ''rawBiometricTemplate'', ''fingerprintTemplate'', ''faceTemplate'']"

definition validateBiometricPrivacy :: "check_in_dto \<Rightarrow> unit result" where
  "validateBiometricPrivacy dto =
     (if filter (\<lambda>f. js_truthy (map_of (rev (ci_other dto)) f)) denied_fields \<noteq> []
      then Inl (BadRequest ''Raw biometric templates are not allowed'')
      else if ci_location dto = Some ''vendor'' \<and>
              (case ci_vendor dto of None \<Rightarrow> True | Some v \<Rightarrow> trim v = [])
      then Inl (BadRequest ''A biometric vendor must be supplied'')
      else Inr ())"

definition open_log :: "workspace_log \<Rightarrow> bool" where
  "open_log l \<longleftrightarrow> l_checkedOutAt l = None"

definition check_in_guard :: "check_in_dto \<Rightarrow> uuid \<Rightarrow> world \<Rightarrow> unit result" where
  "check_in_guard dto userId w =
     (case validateBiometricPrivacy dto of
        Inl e \<Rightarrow> Inl e
      | Inr _ \<Rightarrow>
          (case find_one (\<lambda>x. w_id x = ci_workspaceId dto \<and> w_isActive x) (workspaces w) of
             None \<Rightarrow> Inl (NotFound ''Workspace'')
           | Some _ \<Rightarrow>
               (case find_one (\<lambda>l. l_userId l = userId \<and> l_workspaceId l = ci_workspaceId dto \<and> open_log l)
                       (logs w) of
                  Some _ \<Rightarrow> Inl (BadRequest ''You already have an active check-in for this workspace'')
                | None \<Rightarrow> Inr ())))"

definition new_log :: "env \<Rightarrow> check_in_dto \<Rightarrow> uuid \<Rightarrow> workspace_log" where
  "new_log env dto userId =
     \<lparr>l_id = uuid1 env, l_userId = userId, l_workspaceId = ci_workspaceId dto,
      l_bookingId = ci_bookingId dto, l_checkedInAt = now env, l_checkedOutAt = None,
      l_durationMinutes = None, l_notes = ci_notes dto, l_biometricTemplateHash = ci_hash dto,
      l_biometricStorageReference = ci_storageReference dto,
      l_biometricProcessingLocation = ci_location dto, l_biometricVendor = ci_vendor dto,
      l_hubId = None\<rparr>"

text \<open>The \<open>INSERT\<close>, under the table's foreign keys to \<open>users\<close> and \<open>bookings\<close>.\<close>

definition check_in_insert :: "env \<Rightarrow> check_in_dto \<Rightarrow> uuid \<Rightarrow> world \<Rightarrow> workspace_log result \<times> world" where
  "check_in_insert env dto userId w =
     (if userId \<notin> u_id ` set (users w) \<or>
         (case ci_bookingId dto of None \<Rightarrow> False | Some b \<Rightarrow> b \<notin> b_id ` set (bookings w))
      then (Inl (DbError ''foreign key''), w)
      else (Inr (new_log env dto userId), w\<lparr>logs := save_row l_id (new_log env dto userId) (logs w)\<rparr>))"

definition checkIn :: "env \<Rightarrow> check_in_dto \<Rightarrow> uuid \<Rightarrow> world \<Rightarrow> workspace_log result \<times> world" where
  "checkIn env dto userId w =
     (case check_in_guard dto userId w of
        Inl e \<Rightarrow> (Inl e, w)
      | Inr _ \<Rightarrow> check_in_insert env dto userId w)"

text \<open>\<open>Math.round(ms / 60000)\<close>: to the nearest minute, halves up.\<close>

definition minutes_between :: "instant \<Rightarrow> instant \<Rightarrow> int" where
  "minutes_between a b = (2 * (b - a) + 60000) div 120000"

definition closed_log :: "env \<Rightarrow> workspace_log \<Rightarrow> workspace_log" where
  "closed_log env l =
     l\<lparr>l_checkedOutAt := Some (now env), l_durationMinutes := Some (minutes_between (l_checkedInAt l) (now env))\<rparr>"

definition checkOut :: "env \<Rightarrow> uuid \<Rightarrow> uuid \<Rightarrow> world \<Rightarrow> workspace_log result \<times> world" where
  "checkOut env logId userId w =
     (case find_one (\<lambda>l. l_id l = logId \<and> l_userId l = userId \<and> open_log l) (logs w) of
        None \<Rightarrow> (Inl (NotFound ''Active check-in not found or already checked out''), w)
      | Some l \<Rightarrow> (Inr (closed_log env l), w\<lparr>logs := save_row l_id (closed_log env l) (logs w)\<rparr>))"

definition getActiveCheckIn :: "uuid \<Rightarrow> uuid option \<Rightarrow> world \<Rightarrow> workspace_log option" where
  "getActiveCheckIn userId workspaceId w =
     find_one (\<lambda>l. l_userId l = userId \<and> open_log l \<and>
       (case workspaceId of None \<Rightarrow> True | Some [] \<Rightarrow> True | Some k \<Rightarrow> l_workspaceId l = k)) (logs w)"

record storage_audit =
  sa_totalLogs :: nat
  sa_hashed :: nat
  sa_references :: nat
  sa_rawRows :: nat
  sa_storagePolicy :: string
  sa_recommendedProcessing :: string

definition getStorageAuditSummary :: "world \<Rightarrow> storage_audit" where
  "getStorageAuditSummary w =
     \<lparr>sa_totalLogs = count_where (\<lambda>_. True) (logs w),
      sa_hashed = count_where (\<lambda>l. l_biometricTemplateHash l \<noteq> None) (logs w),
      sa_references = count_where (\<lambda>l. l_biometricStorageReference l \<noteq> None) (logs w),
      sa_rawRows = 0, sa_storagePolicy = ''hash-only-or-opaque-reference'',
      sa_recommendedProcessing = ''local-processing-preferred''\<rparr>"

section \<open>Occupancy\<close>

text \<open>
  \<open>Math.round((occupancy / seats) * 100)\<close> on doubles, and \<open>Math.round\<close> of a non-negative double.
\<close>

definition fl_math_round :: "double \<Rightarrow> nat" where
  "fl_math_round x = (2 * fst x + 2 ^ snd x) div 2 ^ (snd x + 1)"

definition utilizationPercent :: "nat \<Rightarrow> nat \<Rightarrow> nat" where
  "utilizationPercent occupancy seats =
     (if 0 < seats then fl_math_round (fl_mult (fl_quotient occupancy seats) (fl_of_nat 100)) else 0)"

record workspace_occupancy =
  wo_workspaceId :: uuid
  wo_workspaceName :: string
  wo_totalSeats :: nat
  wo_currentOccupancy :: nat
  wo_utilizationPercent :: nat

definition occupancy_count :: "env \<Rightarrow> uuid \<Rightarrow> world \<Rightarrow> nat" where
  "occupancy_count env k w =
     count_where (\<lambda>l. l_workspaceId l = k \<and> where_eq env None (l_checkedOutAt l)) (logs w)"

definition getCurrentOccupancy :: "env \<Rightarrow> uuid option \<Rightarrow> world \<Rightarrow> workspace_occupancy list" where
  "getCurrentOccupancy env workspaceId w =
     map (\<lambda>x. \<lparr>wo_workspaceId = w_id x, wo_workspaceName = w_name x, wo_totalSeats = w_totalSeats x,
                wo_currentOccupancy = occupancy_count env (w_id x) w,
                wo_utilizationPercent = utilizationPercent (occupancy_count env (w_id x) w) (w_totalSeats x)\<rparr>)
       (filter (\<lambda>x. w_isActive x \<and>
          (case workspaceId of None \<Rightarrow> True | Some [] \<Rightarrow> True | Some k \<Rightarrow> w_id x = k)) (workspaces w))"

text \<open>
  The utilization report. A group's rows are closed visits; the average is rounded to minutes,
  the hours are kept in tenths (\<open>Math.round(h * 10)\<close>, the code then divides by ten). The sums
  are those of the visits' durations, which are not negative.
\<close>

record occupancy_query =
  oq_workspaceId :: "uuid option"
  oq_from :: "string option"
  oq_to :: "string option"

record utilization_stats =
  us_workspaceId :: uuid
  us_workspaceName :: string
  us_totalVisits :: nat
  us_uniqueUsers :: nat
  us_avgDurationMinutes :: nat
  us_totalHours_tenths :: nat

definition instant_of :: "env \<Rightarrow> string \<Rightarrow> instant result" where
  "instant_of env s =
     (case iso_day s of
        Some d \<Rightarrow> Inr (d * ms_per_day)
      | None \<Rightarrow> (case pg_timestamp env s of Some t \<Rightarrow> Inr t | None \<Rightarrow> Inl (DbError ''invalid timestamp'')))"

definition day_after :: "env \<Rightarrow> string \<Rightarrow> instant result" where
  "day_after env s =
     (case js_date_ms (date_ext env) s of
        Some t \<Rightarrow> Inr (t + 86400000)
      | None \<Rightarrow> Inl (JsError ''Invalid time value''))"

definition given :: "string option \<Rightarrow> bool" where
  "given s \<longleftrightarrow> s \<noteq> None \<and> s \<noteq> Some []"

definition utilization_rows :: "env \<Rightarrow> occupancy_query \<Rightarrow> world \<Rightarrow> workspace_log list result" where
  "utilization_rows env q w =
     (case (if given (oq_to q) then map_sum id Some (day_after env (the (oq_to q))) else Inr None) of
        Inl e \<Rightarrow> Inl e
      | Inr upper \<Rightarrow>
          (case (if given (oq_from q) then map_sum id Some (instant_of env (the (oq_from q))) else Inr None) of
             Inl e \<Rightarrow> Inl e
           | Inr lower \<Rightarrow>
               Inr (filter (\<lambda>l. l_checkedOutAt l \<noteq> None \<and>
                  (given (oq_workspaceId q) \<longrightarrow> l_workspaceId l = the (oq_workspaceId q)) \<and>
                  (case lower of None \<Rightarrow> True | Some t \<Rightarrow> t \<le> l_checkedInAt l) \<and>
                  (case upper of None \<Rightarrow> True | Some t \<Rightarrow> l_checkedInAt l < t)) (logs w))))"

definition utilization_of :: "world \<Rightarrow> uuid \<Rightarrow> workspace_log list \<Rightarrow> utilization_stats" where
  "utilization_of w k rows =
     (let mine = filter (\<lambda>l. l_workspaceId l = k) rows;
          minutes = List.map_filter l_durationMinutes mine;
          sum = nat (sum_list minutes)
      in \<lparr>us_workspaceId = k,
          us_workspaceName = (case find_workspace k w of Some x \<Rightarrow> w_name x | None \<Rightarrow> ''Unknown''),
          us_totalVisits = length mine,
          us_uniqueUsers = length (remdups (map l_userId mine)),
          us_avgDurationMinutes =
            (if minutes = [] then 0 else (2 * sum + length minutes) div (2 * length minutes)),
          us_totalHours_tenths = fl_math_round (fl_mult (fl_quotient sum 60) (fl_of_nat 10))\<rparr>)"

definition getUtilizationStats :: "env \<Rightarrow> occupancy_query \<Rightarrow> world \<Rightarrow> utilization_stats list result" where
  "getUtilizationStats env q w =
     (case utilization_rows env q w of
        Inl e \<Rightarrow> Inl e
      | Inr rows \<Rightarrow> Inr (map (\<lambda>k. utilization_of w k rows) (remdups (map l_workspaceId rows))))"

definition getRecentLogs :: "uuid option \<Rightarrow> int \<Rightarrow> world \<Rightarrow> workspace_log list result" where
  "getRecentLogs workspaceId lmt w =
     paginate 1 lmt (newest_first l_checkedInAt
       (filter (\<lambda>l. given workspaceId \<longrightarrow> l_workspaceId l = the workspaceId) (logs w)))"

section \<open>Case rules and frames\<close>

lemma check_in_guard_Inr:
  "check_in_guard dto userId w = Inr u \<longleftrightarrow>
     validateBiometricPrivacy dto = Inr () \<and>
     (\<exists>x\<in>set (workspaces w). w_id x = ci_workspaceId dto \<and> w_isActive x) \<and>
     (\<forall>l\<in>set (logs w). \<not> (l_userId l = userId \<and> l_workspaceId l = ci_workspaceId dto \<and> open_log l))"
  unfolding check_in_guard_def
  by (auto split: sum.splits option.splits simp: find_one_None_iff dest: find_one_SomeD)

lemma check_in_insert_cases:
  assumes "check_in_insert env dto userId w = (r, w')"
  obtains e where "r = Inl e" "w' = w"
  | "r = Inr (new_log env dto userId)" "w' = w\<lparr>logs := save_row l_id (new_log env dto userId) (logs w)\<rparr>"
  using assms by (auto simp: check_in_insert_def split: if_splits)

lemma checkIn_cases:
  assumes "checkIn env dto userId w = (r, w')"
  obtains e where "r = Inl e" "w' = w"
  | (entered) "r = Inr (new_log env dto userId)"
      "w' = w\<lparr>logs := save_row l_id (new_log env dto userId) (logs w)\<rparr>"
      "check_in_guard dto userId w = Inr ()"
  using assms unfolding checkIn_def
  by (cases "check_in_guard dto userId w") (auto elim: check_in_insert_cases)

lemma checkOut_cases:
  assumes "checkOut env logId userId w = (r, w')"
  obtains e where "r = Inl e" "w' = w"
  | (left) l where "l \<in> set (logs w)" "l_id l = logId" "l_userId l = userId" "open_log l"
      "r = Inr (closed_log env l)" "w' = w\<lparr>logs := save_row l_id (closed_log env l) (logs w)\<rparr>"
proof (cases "find_one (\<lambda>l. l_id l = logId \<and> l_userId l = userId \<and> open_log l) (logs w)")
  case None
  with assms have "\<exists>e. r = Inl e" "w' = w" by (auto simp: checkOut_def)
  with that(1) show ?thesis by blast
next
  case (Some l)
  with assms that(2) [of l] show ?thesis by (auto simp: checkOut_def dest: find_one_SomeD)
qed

lemma new_log_simps [simp]:
  "l_id (new_log env dto u) = uuid1 env" "l_userId (new_log env dto u) = u"
  "l_workspaceId (new_log env dto u) = ci_workspaceId dto" "open_log (new_log env dto u)"
  "l_checkedInAt (new_log env dto u) = now env" "l_checkedOutAt (new_log env dto u) = None"
  "l_durationMinutes (new_log env dto u) = None"
  by (simp_all add: new_log_def open_log_def)

lemma closed_log_simps [simp]:
  "l_id (closed_log env l) = l_id l" "l_userId (closed_log env l) = l_userId l"
  "l_workspaceId (closed_log env l) = l_workspaceId l" "\<not> open_log (closed_log env l)"
  "l_checkedInAt (closed_log env l) = l_checkedInAt l" "l_checkedOutAt (closed_log env l) = Some (now env)"
  "l_durationMinutes (closed_log env l) = Some (minutes_between (l_checkedInAt l) (now env))"
  by (simp_all add: closed_log_def open_log_def)

lemma minutes_between_nonneg: "a \<le> b \<Longrightarrow> 0 \<le> minutes_between a b"
  by (simp add: minutes_between_def)

lemma minutes_between_error: "\<bar>60000 * minutes_between a b - (b - a)\<bar> \<le> 30000"
proof -
  define q r where "q = (2 * (b - a) + 60000) div 120000" and "r = (2 * (b - a) + 60000) mod 120000"
  define x where "x = 60000 * q - (b - a)"
  have "q * 120000 + r = 2 * (b - a) + 60000" "0 \<le> r" "r < 120000" by (simp_all add: q_def r_def)
  then have "2 * x = 60000 - r" "0 \<le> r" "r < 120000" by (simp_all add: x_def algebra_simps)
  then have "\<bar>x\<bar> \<le> 30000" by linarith
  then show ?thesis unfolding minutes_between_def q_def [symmetric] x_def .
qed

section \<open>Requests one at a time\<close>

text \<open>\<open>tracking t w\<close>: \<open>w\<close> is reached by check-ins and check-outs, the last one at time \<open>t\<close>.\<close>

inductive tracking :: "instant \<Rightarrow> world \<Rightarrow> bool" where
  opens: "logs w = [] \<Longrightarrow> tracking t w"
| enters: "tracking t w \<Longrightarrow> t \<le> now env \<Longrightarrow> uuid1 env \<notin> l_id ` set (logs w) \<Longrightarrow>
     checkIn env dto userId w = (r, w') \<Longrightarrow> tracking (now env) w'"
| leaves: "tracking t w \<Longrightarrow> t \<le> now env \<Longrightarrow> checkOut env logId userId w = (r, w') \<Longrightarrow> tracking (now env) w'"

definition one_open :: "world \<Rightarrow> bool" where
  "one_open w \<longleftrightarrow> (\<forall>l\<in>set (logs w). \<forall>l'\<in>set (logs w). open_log l \<longrightarrow> open_log l' \<longrightarrow>
     l_userId l = l_userId l' \<longrightarrow> l_workspaceId l = l_workspaceId l' \<longrightarrow> l = l')"

definition stamped :: "instant \<Rightarrow> workspace_log \<Rightarrow> bool" where
  "stamped t l \<longleftrightarrow> l_checkedInAt l \<le> t \<and>
     (case l_checkedOutAt l of
        None \<Rightarrow> l_durationMinutes l = None
      | Some c \<Rightarrow> l_checkedInAt l \<le> c \<and> c \<le> t \<and> l_durationMinutes l = Some (minutes_between (l_checkedInAt l) c))"

lemma stamped_later: "stamped t l \<Longrightarrow> t \<le> t' \<Longrightarrow> stamped t' l"
  by (auto simp: stamped_def split: option.splits)

lemma stamped_new: "stamped (now env) (new_log env dto u)"
  by (simp add: stamped_def)

lemma stamped_closed: "stamped t l \<Longrightarrow> t \<le> now env \<Longrightarrow> stamped (now env) (closed_log env l)"
  by (simp add: stamped_def)

lemma one_open_enter:
  assumes "one_open w" "check_in_guard dto u w = Inr ()" "uuid1 env \<notin> l_id ` set (logs w)"
  shows "one_open (w\<lparr>logs := save_row l_id (new_log env dto u) (logs w)\<rparr>)"
  using assms unfolding one_open_def check_in_guard_Inr
  by (simp add: set_save_row) metis

lemma one_open_leave:
  "one_open w \<Longrightarrow> one_open (w\<lparr>logs := save_row l_id (closed_log env l) (logs w)\<rparr>)"
  unfolding one_open_def by (simp add: set_save_row)

lemma tracking_ok:
  "tracking t w \<Longrightarrow> uniq_keys l_id (logs w) \<and> one_open w \<and> (\<forall>l\<in>set (logs w). stamped t l)"
proof (induction rule: tracking.induct)
  case (opens w t)
  then show ?case by (simp add: uniq_keys_def one_open_def)
next
  case (enters t w env dto userId r w')
  have stay: "uniq_keys l_id (logs w) \<and> one_open w \<and> (\<forall>l\<in>set (logs w). stamped (now env) l)"
    using enters.IH enters.hyps(2) stamped_later by blast
  from enters.hyps(4) show ?case
  proof (cases rule: checkIn_cases)
    case (1 e)
    with stay show ?thesis by simp
  next
    case entered
    with stay one_open_enter [OF _ entered(3) enters.hyps(3)] show ?thesis
      by (auto simp: uniq_keys_def distinct_save_row set_save_row stamped_new)
  qed
next
  case (leaves t w env logId userId r w')
  have stay: "uniq_keys l_id (logs w) \<and> one_open w \<and> (\<forall>l\<in>set (logs w). stamped (now env) l)"
    using leaves.IH leaves.hyps(2) stamped_later by blast
  from leaves.hyps(3) show ?case
  proof (cases rule: checkOut_cases)
    case (1 e)
    with stay show ?thesis by simp
  next
    case (left l)
    with leaves have "stamped (now env) (closed_log env l)" using stamped_closed by blast
    with left stay one_open_leave [of w env l] show ?thesis
      by (auto simp: uniq_keys_def distinct_save_row set_save_row)
  qed
qed

section \<open>What the tracking keeps\<close>

text \<open>
  after any sequence of check-ins and check-outs, in time order, a user has at most one open
  log per workspace; an open log has no duration, a closed one has a duration that is not negative
  and within half a minute of the time between the two stamps.
\<close>

theorem one_open_check_in:
  assumes "tracking t w" and "l \<in> set (logs w)"
  shows "(\<forall>l'\<in>set (logs w). open_log l \<and> open_log l' \<and> l_userId l' = l_userId l \<and>
       l_workspaceId l' = l_workspaceId l \<longrightarrow> l' = l) \<and>
     (open_log l \<longleftrightarrow> l_durationMinutes l = None) \<and>
     (\<forall>c m. l_checkedOutAt l = Some c \<and> l_durationMinutes l = Some m \<longrightarrow>
        l_checkedInAt l \<le> c \<and> c \<le> t \<and> 0 \<le> m \<and> \<bar>60000 * m - (c - l_checkedInAt l)\<bar> \<le> 30000)"
proof -
  from tracking_ok [OF assms(1)] assms(2) have "one_open w" "stamped t l" by auto
  then show ?thesis
    using assms(2) minutes_between_nonneg minutes_between_error
    by (auto simp: one_open_def stamped_def open_log_def split: option.splits)
qed

definition sample_check_in :: check_in_dto where
  "sample_check_in =
     \<lparr>ci_workspaceId = ''ws1'', ci_bookingId = None, ci_notes = Some ''desk 4'', ci_hash = None,
      ci_storageReference = None, ci_location = None, ci_vendor = None, ci_other = []\<rparr>"

definition sample_leave_env :: env where
  "sample_leave_env = sample_env\<lparr>now := 1767225690000, uuid1 := ''id7''\<rparr>"

definition sample_entered :: world where
  "sample_entered = snd (checkIn sample_env sample_check_in ''ada'' sample_world)"

definition sample_left :: world where
  "sample_left = snd (checkOut sample_leave_env ''id1'' ''ada'' sample_entered)"

lemma sample_tracking: "tracking (now sample_leave_env) sample_left"
proof -
  have t: "tracking 0 sample_world" by (rule tracking.opens) (simp add: sample_world_def)
  have c: "checkIn sample_env sample_check_in ''ada'' sample_world =
      (fst (checkIn sample_env sample_check_in ''ada'' sample_world), sample_entered)"
    by (simp add: sample_entered_def)
  have t': "tracking (now sample_env) sample_entered"
    by (rule tracking.enters [OF t _ _ c]) (simp_all add: sample_env_def sample_world_def)
  have c': "checkOut sample_leave_env ''id1'' ''ada'' sample_entered =
      (fst (checkOut sample_leave_env ''id1'' ''ada'' sample_entered), sample_left)"
    by (simp add: sample_left_def)
  show ?thesis
    by (rule tracking.leaves [OF t' _ c']) (simp add: sample_env_def sample_leave_env_def)
qed

lemma sample_left_logs:
  "map (\<lambda>l. (l_id l, l_userId l, l_durationMinutes l)) (logs sample_left) = [(''id1'', ''ada'', Some 2)]"
  by code_simp

theorem one_open_check_in_witness:
  "\<exists>l\<in>set (logs sample_left). l_durationMinutes l = Some 2 \<and> \<not> open_log l"
proof -
  from sample_left_logs obtain l where l: "l \<in> set (logs sample_left)" "l_durationMinutes l = Some 2"
    by (auto simp: map_eq_Cons_conv)
  with one_open_check_in [OF sample_tracking l(1)] show ?thesis by auto
qed

text \<open>
  a check-in opens the user's session in the workspace: it is the active check-in, a second
  one is refused, and its check-out closes exactly that log, once.
\<close>

theorem check_in_out_roundtrip:
  assumes "checkIn env dto userId w = (Inr l, w')"
    and "uniq_keys l_id (logs w)" and "uuid1 env \<notin> l_id ` set (logs w)"
  shows "getActiveCheckIn userId (Some (ci_workspaceId dto)) w' \<noteq> None \<and>
    (\<exists>e. checkIn env' dto userId w' = (Inl (BadRequest e), w')) \<and>
    (\<exists>w''. checkOut env' (l_id l) userId w' = (Inr (closed_log env' l), w'') \<and>
       logs w'' = logs w @ [closed_log env' l] \<and>
       (\<exists>e. checkOut env'' (l_id l) userId w'' = (Inl (NotFound e), w'')))"
  using assms(1)
proof (cases rule: checkIn_cases)
  case entered
  then have l: "l = new_log env dto userId" by simp
  have lw: "logs w' = logs w @ [l]"
    using entered assms(3) by (simp add: l save_row_fresh)
  have active: "getActiveCheckIn userId (Some (ci_workspaceId dto)) w' \<noteq> None"
    by (cases "ci_workspaceId dto")
      (auto simp: getActiveCheckIn_def lw l find_one_None_iff simp flip: not_None_eq)
  have "validateBiometricPrivacy dto = Inr ()"
    "find_one (\<lambda>x. w_id x = ci_workspaceId dto \<and> w_isActive x) (workspaces w') \<noteq> None"
    using entered by (auto simp: check_in_guard_Inr find_one_None_iff)
  moreover have "find_one (\<lambda>k. l_userId k = userId \<and> l_workspaceId k = ci_workspaceId dto \<and> open_log k)
      (logs w') \<noteq> None"
    by (simp add: lw find_one_None_iff l)
  ultimately have again: "\<exists>e. checkIn env' dto userId w' = (Inl (BadRequest e), w')"
    by (auto simp: checkIn_def check_in_guard_def)
  have "l_id k \<noteq> l_id l" if "k \<in> set (logs w)" for k
    using assms(3) that by (metis l new_log_simps(1) imageI)
  then have "find_one (\<lambda>k. l_id k = l_id l \<and> l_userId k = userId \<and> open_log k) (logs w) = None"
    by (auto simp: find_one_None_iff)
  then have "find_one (\<lambda>k. l_id k = l_id l \<and> l_userId k = userId \<and> open_log k) (logs w') = Some l"
    by (simp add: lw table_simps) (simp add: l)
  moreover have sv: "save_row l_id (closed_log env' l) (logs w') = logs w @ [closed_log env' l]"
    using \<open>\<And>k. k \<in> set (logs w) \<Longrightarrow> l_id k \<noteq> l_id l\<close> by (auto simp: save_row_def lw intro!: map_idI)
  moreover have "find_one (\<lambda>k. l_id k = l_id l \<and> l_userId k = userId \<and> open_log k)
      (logs w @ [closed_log env' l]) = None"
    using \<open>find_one (\<lambda>k. l_id k = l_id l \<and> l_userId k = userId \<and> open_log k) (logs w) = None\<close>
    by (simp add: table_simps)
  ultimately show ?thesis using active again by (simp add: checkOut_def)
qed simp

theorem check_in_out_roundtrip_witness:
  "\<exists>l :: workspace_log. l_id l = ''id1'' \<and> getActiveCheckIn ''ada'' (Some ''ws1'') sample_entered \<noteq> None \<and>
     (\<exists>e. fst (checkIn sample_leave_env sample_check_in ''ada'' sample_entered) = Inl e)"
proof -
  let ?r = "checkIn sample_env sample_check_in ''ada'' sample_world"
  have "(case fst ?r of Inl _ \<Rightarrow> None | Inr l \<Rightarrow> Some (l_id l)) = Some ''id1''" by code_simp
  then obtain l where l: "?r = (Inr l, sample_entered)" "l_id l = ''id1''"
    by (auto simp: sample_entered_def prod_eq_iff split: sum.splits)
  have "uniq_keys l_id (logs sample_world)" "uuid1 sample_env \<notin> l_id ` set (logs sample_world)"
    by (simp_all add: uniq_keys_def sample_world_def)
  from check_in_out_roundtrip [OF l(1) this, of sample_leave_env sample_leave_env]
  have "getActiveCheckIn ''ada'' (Some ''ws1'') sample_entered \<noteq> None"
    "\<exists>e. fst (checkIn sample_leave_env sample_check_in ''ada'' sample_entered) = Inl e"
    by (auto simp: sample_check_in_def)
  with l(2) show ?thesis by blast
qed

text \<open>
  two check-ins of one user for one workspace whose guards both ran before either insert leave
  two open logs: nothing in the table forbids it.
\<close>

theorem concurrent_check_ins_both_open:
  assumes "check_in_guard dto userId w = Inr ()"
    and "check_in_insert env1 dto userId w = (Inr l1, w1)" and "check_in_insert env2 dto userId w1 = (Inr l2, w2)"
    and "uuid1 env1 \<noteq> uuid1 env2"
  shows "l1 \<noteq> l2 \<and> {l1, l2} \<subseteq> set (logs w2) \<and> open_log l1 \<and> open_log l2 \<and>
    l_userId l1 = l_userId l2 \<and> l_workspaceId l1 = l_workspaceId l2"
proof -
  from assms(2) have 1: "l1 = new_log env1 dto userId" "logs w1 = save_row l_id l1 (logs w)"
    by (auto elim: check_in_insert_cases)
  from assms(3) have 2: "l2 = new_log env2 dto userId" "logs w2 = save_row l_id l2 (logs w1)"
    by (auto elim: check_in_insert_cases)
  have ne: "l_id l1 \<noteq> l_id l2" using assms(4) by (simp add: 1(1) 2(1))
  have "l1 \<in> set (logs w1)" by (simp add: 1(2) save_row_self)
  with ne have "l1 \<in> set (logs w2)" by (simp add: 2(2) save_row_keeps)
  moreover have "l2 \<in> set (logs w2)" by (simp add: 2(2) save_row_self)
  moreover have "l1 \<noteq> l2" using ne by blast
  ultimately show ?thesis by (simp add: 1(1) 2(1))
qed

theorem concurrent_check_ins_both_open_witness:
  "\<exists>l1 l2. l1 \<noteq> l2 \<and> open_log l1 \<and> open_log l2 \<and> l_userId l1 = l_userId l2"
proof -
  let ?r1 = "check_in_insert sample_env sample_check_in ''ada'' sample_world"
  let ?r2 = "check_in_insert sample_leave_env sample_check_in ''ada'' (snd ?r1)"
  have g: "check_in_guard sample_check_in ''ada'' sample_world = Inr ()" by code_simp
  have "is_ok (fst ?r1)" by code_simp
  then obtain l1 where r1: "?r1 = (Inr l1, snd ?r1)" by (auto simp: is_ok_iff prod_eq_iff)
  have "is_ok (fst ?r2)" by code_simp
  then obtain l2 where r2: "?r2 = (Inr l2, snd ?r2)" by (auto simp: is_ok_iff prod_eq_iff)
  have "uuid1 sample_env \<noteq> uuid1 sample_leave_env" by (simp add: sample_env_def sample_leave_env_def)
  from concurrent_check_ins_both_open [OF g r1 r2 this] show ?thesis by blast
qed

text \<open>
  the occupancy report filters its logs by checkedOutAt: null. TypeORM drops a condition on
  null, so the report counts every log the workspace ever had: checking out changes none of its rows.
\<close>

theorem occupancy_ignores_check_out:
  assumes "null_ignored env" and "uniq_keys l_id (logs w)"
    and "checkOut env' logId userId w = (r, w')"
  shows "getCurrentOccupancy env workspaceId w' = getCurrentOccupancy env workspaceId w \<and>
    occupancy_count env k w = length (filter (\<lambda>l. l_workspaceId l = k) (logs w))"
proof -
  have len: "occupancy_count env k w = length (filter (\<lambda>l. l_workspaceId l = k) (logs w))" for k w
    using assms(1) by (simp add: occupancy_count_def where_eq_def count_where_def)
  from assms(3) have "occupancy_count env k w' = occupancy_count env k w \<and> workspaces w' = workspaces w" for k
  proof (cases rule: checkOut_cases)
    case (left l)
    have "map l_workspaceId (logs w') = map l_workspaceId (logs w)"
      using left assms(2) by (simp add: map_column_save_row [of _ _ l] uniq_keys_def)
    then have "filter (\<lambda>x. x = k) (map l_workspaceId (logs w')) = filter (\<lambda>x. x = k) (map l_workspaceId (logs w))"
      by simp
    then have "length (filter (\<lambda>l. l_workspaceId l = k) (logs w')) = length (filter (\<lambda>l. l_workspaceId l = k) (logs w))"
      by (simp add: filter_map comp_def) (metis length_map)
    with left show ?thesis by (simp add: len)
  qed simp
  with len show ?thesis by (simp add: getCurrentOccupancy_def)
qed

theorem occupancy_ignores_check_out_witness:
  "\<not> open_log (hd (logs sample_left)) \<and> occupancy_count sample_env ''ws1'' sample_left = 1"
proof -
  have "null_ignored sample_env" by (simp add: sample_env_def)
  moreover have "uniq_keys l_id (logs sample_left)" using tracking_ok [OF sample_tracking] by blast
  moreover have "checkOut sample_leave_env ''id1'' ''ada'' sample_left =
      (fst (checkOut sample_leave_env ''id1'' ''ada'' sample_left), snd (checkOut sample_leave_env ''id1'' ''ada'' sample_left))"
    by simp
  ultimately have "occupancy_count sample_env ''ws1'' sample_left =
      length (filter (\<lambda>l. l_workspaceId l = ''ws1'') (logs sample_left))"
    using occupancy_ignores_check_out by blast
  moreover have "map (\<lambda>l. (l_workspaceId l, open_log l)) (logs sample_left) = [(''ws1'', False)]" by code_simp
  ultimately show ?thesis by (auto simp: map_eq_Cons_conv)
qed

section \<open>The presence board\<close>

text \<open>
  What the tracking promises: a set of (user, workspace) pairs, to which a check-in adds a pair not
  in it and from which a check-out takes one.
\<close>

definition present :: "world \<Rightarrow> (uuid \<times> uuid) set" where
  "present w = (\<lambda>l. (l_userId l, l_workspaceId l)) ` set (filter open_log (logs w))"

definition enter_board :: "uuid \<times> uuid \<Rightarrow> (uuid \<times> uuid) set \<Rightarrow> (uuid \<times> uuid) set option" where
  "enter_board p s = (if p \<in> s then None else Some (insert p s))"

definition leave_board :: "uuid \<times> uuid \<Rightarrow> (uuid \<times> uuid) set \<Rightarrow> (uuid \<times> uuid) set option" where
  "leave_board p s = (if p \<in> s then Some (s - {p}) else None)"

lemma present_enter:
  assumes "uniq_keys l_id (logs w)" "check_in_guard dto u w = Inr ()" "uuid1 env \<notin> l_id ` set (logs w)"
  shows "enter_board (u, ci_workspaceId dto) (present w) =
    Some (present (w\<lparr>logs := save_row l_id (new_log env dto u) (logs w)\<rparr>))"
  using assms(2,3) unfolding check_in_guard_Inr
  by (auto simp: enter_board_def present_def save_row_fresh)

lemma present_leave:
  assumes "one_open w" "l \<in> set (logs w)" "open_log l" "uniq_keys l_id (logs w)"
  shows "leave_board (l_userId l, l_workspaceId l) (present w) =
    Some (present (w\<lparr>logs := save_row l_id (closed_log env l) (logs w)\<rparr>))"
proof -
  let ?p = "\<lambda>l. (l_userId l, l_workspaceId l)"
  have only: "x = l" if "x \<in> set (logs w)" "open_log x" "?p x = ?p l" for x
    using assms(1-3) that by (simp add: one_open_def)
  have "?p l \<in> present w" using assms(2,3) by (auto simp: present_def)
  moreover have "present (w\<lparr>logs := save_row l_id (closed_log env l) (logs w)\<rparr>) =
      ?p ` {x \<in> set (logs w). open_log x \<and> l_id x \<noteq> l_id l}"
    by (auto simp: present_def set_save_row)
  moreover have "l_id x \<noteq> l_id l \<longleftrightarrow> x \<noteq> l" if "x \<in> set (logs w)" for x
    using assms(2,4) that by (auto simp: uniq_keys_def dest: find_one_key)
      (metis find_one_key option.inject)
  ultimately show ?thesis using only by (auto simp: leave_board_def present_def) 
qed

text \<open>
  C35: the check-ins and check-outs refine that board: a request that succeeds does what the board
  does, one that fails changes nothing, and a check-in fails on a pair that is on the board.
\<close>

theorem tracking_refines_board:
  assumes "tracking t w" and "uuid1 env \<notin> l_id ` set (logs w)"
  shows "(case checkIn env dto userId w of
       (Inr l, w') \<Rightarrow> enter_board (userId, ci_workspaceId dto) (present w) = Some (present w')
     | (Inl e, w') \<Rightarrow> w' = w) \<and>
    (case checkOut env logId userId w of
       (Inr l, w') \<Rightarrow> leave_board (userId, l_workspaceId l) (present w) = Some (present w')
     | (Inl e, w') \<Rightarrow> w' = w)"
proof -
  from tracking_ok [OF assms(1)] have ok: "uniq_keys l_id (logs w)" "one_open w" by auto
  show ?thesis
  proof (intro conjI)
    obtain r w' where c: "checkIn env dto userId w = (r, w')" by force
    then show "case checkIn env dto userId w of
       (Inr l, w') \<Rightarrow> enter_board (userId, ci_workspaceId dto) (present w) = Some (present w')
     | (Inl e, w') \<Rightarrow> w' = w"
      by (cases rule: checkIn_cases) (use present_enter [OF ok(1) _ assms(2)] c in simp_all)
    obtain r w' where c: "checkOut env logId userId w = (r, w')" by force
    then show "case checkOut env logId userId w of
       (Inr l, w') \<Rightarrow> leave_board (userId, l_workspaceId l) (present w) = Some (present w')
     | (Inl e, w') \<Rightarrow> w' = w"
      by (cases rule: checkOut_cases) (use present_leave [OF ok(2) _ _ ok(1)] c in auto)
  qed
qed

theorem tracking_refines_board_witness:
  "enter_board (''ada'', ''ws1'') (present sample_left) = Some {(''ada'', ''ws1'')}"
proof -
  let ?env = "sample_leave_env\<lparr>uuid1 := ''id8''\<rparr>"
  let ?r = "checkIn ?env sample_check_in ''ada'' sample_left"
  have "map l_id (logs sample_left) = [''id1'']" by code_simp
  then have "uuid1 ?env \<notin> l_id ` set (logs sample_left)" by (auto simp flip: set_map)
  note * = tracking_refines_board [OF sample_tracking this, where dto = sample_check_in and userId = "''ada''"]
  have "is_ok (fst ?r)" by code_simp
  then obtain l w where r: "?r = (Inr l, w)" "w = snd ?r" by (auto simp: is_ok_iff prod_eq_iff)
  have "map (\<lambda>l. (l_userId l, l_workspaceId l)) (filter open_log (logs (snd ?r))) = [(''ada'', ''ws1'')]"
    by code_simp
  then have "set (map (\<lambda>l. (l_userId l, l_workspaceId l)) (filter open_log (logs w))) = {(''ada'', ''ws1'')}"
    unfolding r(2) by simp
  then have "present w = {(''ada'', ''ws1'')}" by (simp add: present_def)
  moreover have "ci_workspaceId sample_check_in = ''ws1''" by (simp add: sample_check_in_def)
  ultimately show ?thesis using conjunct1 [OF *] unfolding r(1) by simp
qed

end
