(* ===== verification/Auth_Tokens.thy ===== *)
theory Auth_Tokens
  imports NL_Sample
begin

text \<open>
  Access and refresh tokens: \<open>auth/helper/jwt-helper.ts\<close>, \<open>auth/helper/refresh-token-hash.ts\<close>,
  \<open>auth/providers/refreshToken.repository.ts\<close> and \<open>AuthService.refreshToken\<close>.

  A refresh is three database round trips: read the stored row, mark it consumed, insert the
  successor. They are separate definitions (\<open>refresh_check\<close>, \<open>markTokenConsumed\<close>,
  \<open>refresh_insert\<close>), so that \<open>refresh_step\<close> can interleave any number of refreshes;
  \<open>refreshToken\<close> composes them.
\<close>

section \<open>Parameters of the authentication code\<close>

text \<open>
  \<open>jsonwebtoken\<close> (a signature is a function of the secret, the payload, the options and the
  second it is made in; signing fails without a secret, verifying fails by an exception), the
  default hub's cached id, \<open>Math.random\<close> (a double below one, and its base 36 digits), the
  \<open>otplib\<close>, \<open>qrcode\<close> and \<open>crypto\<close> calls of the two-factor code, the breach service's answer
  and whether the mail queue takes a job.
\<close>

record sign_options =
  so_expiresIn :: string
  so_issuer :: "string option"
  so_audience :: "string option"

record auth_env =
  jwt_sign :: "string option \<Rightarrow> json \<Rightarrow> sign_options \<Rightarrow> int \<Rightarrow> string result"
  jwt_verify :: "string option \<Rightarrow> string \<Rightarrow> instant \<Rightarrow> json result"
  default_hub :: "uuid option"
  random_double :: double
  random_base36 :: string
  totp_secret :: string
  totp_verify :: "string \<Rightarrow> string \<Rightarrow> bool"
  otpauth_qr :: "string \<Rightarrow> string \<Rightarrow> string \<Rightarrow> string result"
  random_codes :: "string list"
  sha1_hex :: "string \<Rightarrow> string"
  breach_range :: "string \<Rightarrow> string result"
  mail_queue_up :: bool

section \<open>JWT helper\<close>

definition env_default :: "env \<Rightarrow> string \<Rightarrow> string \<Rightarrow> string" where
  "env_default env k d = (case config env k of None \<Rightarrow> d | Some v \<Rightarrow> v)"

definition env_nonempty :: "env \<Rightarrow> string \<Rightarrow> string \<Rightarrow> string" where
  "env_nonempty env k d = (case config env k of None \<Rightarrow> d | Some v \<Rightarrow> if v = [] then d else v)"

definition validateRefreshToken :: "env \<Rightarrow> auth_env \<Rightarrow> string \<Rightarrow> json option result" where
  "validateRefreshToken env ae token =
     (case jwt_verify ae (config env ''JWT_REFRESH_SECRET'') token (now env) of
        Inl e \<Rightarrow> Inl (Unauthorized ''Invalid or expired refresh token'')
      | Inr p \<Rightarrow> Inr (case js_get ''sub'' (Some p) of Some (Some JNull) \<Rightarrow> None | Some v \<Rightarrow> v | None \<Rightarrow> None))"

definition access_claims :: "auth_env \<Rightarrow> user \<Rightarrow> json" where
  "access_claims ae u =
     JObj ([(''sub'', JStr (u_id u)), (''email'', JStr (u_email u)), (''fullName'', JStr (fullName u)),
            (''role'', JStr (role_string (u_role u)))] @
           (case u_hubId u of
              Some h \<Rightarrow> [(''hubId'', JStr h)]
            | None \<Rightarrow> (case default_hub ae of Some h \<Rightarrow> [(''hubId'', JStr h)] | None \<Rightarrow> [])))"

definition generateAccessToken :: "env \<Rightarrow> auth_env \<Rightarrow> user \<Rightarrow> string result" where
  "generateAccessToken env ae u =
     jwt_sign ae (config env ''JWT_SECRET'') (access_claims ae u)
       \<lparr>so_expiresIn = env_default env ''JWT_EXPIRATION'' ''15m'',
        so_issuer = Some (env_nonempty env ''JWT_ISSUER'' ''novalabs''),
        so_audience = Some (env_nonempty env ''JWT_AUDIENCE'' ''novalabs-api'')\<rparr> (now env div 1000)"

definition generateRefreshToken :: "env \<Rightarrow> auth_env \<Rightarrow> user \<Rightarrow> string result" where
  "generateRefreshToken env ae u =
     jwt_sign ae (config env ''JWT_REFRESH_SECRET'')
       (JObj [(''sub'', JStr (u_id u)), (''email'', JStr (u_email u)), (''fullName'', JStr (fullName u))])
       \<lparr>so_expiresIn = env_default env ''JWT_REFRESH_EXPIRATION'' ''7d'',
        so_issuer = Some (env_nonempty env ''JWT_ISSUER'' ''novalabs''),
        so_audience = Some (env_nonempty env ''JWT_AUDIENCE'' ''novalabs-api'')\<rparr> (now env div 1000)"

record token_pair =
  tp_accessToken :: string
  tp_refreshToken :: string

definition generateTokens :: "env \<Rightarrow> auth_env \<Rightarrow> user \<Rightarrow> token_pair result" where
  "generateTokens env ae u =
     (case generateAccessToken env ae u of
        Inl e \<Rightarrow> Inl e
      | Inr a \<Rightarrow> (case generateRefreshToken env ae u of
                    Inl e \<Rightarrow> Inl e
                  | Inr r \<Rightarrow> Inr \<lparr>tp_accessToken = a, tp_refreshToken = r\<rparr>))"

definition generateTempToken :: "env \<Rightarrow> auth_env \<Rightarrow> uuid \<Rightarrow> string result" where
  "generateTempToken env ae userId =
     jwt_sign ae (config env ''JWT_SECRET'') (JObj [(''sub'', JStr userId), (''type'', JStr ''2fa_pending'')])
       \<lparr>so_expiresIn = ''5m'', so_issuer = None, so_audience = None\<rparr> (now env div 1000)"

text \<open>The payload of a pending two-factor login; the caller reads its \<open>sub\<close>.\<close>

definition verifyTempToken :: "env \<Rightarrow> auth_env \<Rightarrow> string \<Rightarrow> json result" where
  "verifyTempToken env ae token =
     (case jwt_verify ae (config env ''JWT_SECRET'') token (now env) of
        Inl e \<Rightarrow> Inl (Unauthorized ''Invalid or expired 2FA token'')
      | Inr p \<Rightarrow> if js_get ''type'' (Some p) = Some (Some (JStr ''2fa_pending'')) then Inr p
                 else Inl (Unauthorized ''Invalid or expired 2FA token''))"

text \<open>
  \<open>findOne({ where: { id: sub } })\<close>: a subject that is not a string is no \<open>uuid\<close> for the
  database.
\<close>

definition find_subject :: "env \<Rightarrow> json option \<Rightarrow> world \<Rightarrow> user option result" where
  "find_subject env sub w =
     (case sub of
        None \<Rightarrow> Inr (find_user env (\<lambda>u. where_eq env None (Some (u_id u))) w)
      | Some (JStr s) \<Rightarrow> Inr (find_user env (\<lambda>u. where_eq env (Some s) (Some (u_id u))) w)
      | Some _ \<Rightarrow> Inl (DbError ''invalid input syntax for type uuid''))"

section \<open>The refresh token table\<close>

definition hashRefreshToken :: "env \<Rightarrow> string \<Rightarrow> string" where
  "hashRefreshToken env token = sha256 env token"

definition isHashedRefreshToken :: "string \<Rightarrow> bool" where
  "isHashedRefreshToken v \<longleftrightarrow>
     length v = 64 \<and> list_all (\<lambda>c. c \<in> set ''0123456789abcdef'') v"

text \<open>
  \<open>Number(raw)\<close> when it is finite; a fraction of a millisecond is dropped by \<open>Date\<close>.
\<close>

definition computeExpiryFromEnv :: "env \<Rightarrow> instant option" where
  "computeExpiryFromEnv env =
     (case config env ''JWT_REFRESH_EXPIRATION'' of
        None \<Rightarrow> None
      | Some raw \<Rightarrow>
          if raw = [] then None
          else (case config_num env ''JWT_REFRESH_EXPIRATION'' of
                  Some ms \<Rightarrow> if 0 < ms then Some (now env + \<lfloor>ms\<rfloor>) else None
                | None \<Rightarrow> None))"

definition generateFamilyId :: "env \<Rightarrow> auth_env \<Rightarrow> string" where
  "generateFamilyId env ae =
     ''fam_'' @ nat_str (nat (now env)) @ ''_'' @ take 13 (drop 2 (random_base36 ae))"

definition fam_ver :: "refresh_token \<Rightarrow> string \<times> nat" where
  "fam_ver t = (t_familyId t, t_version t)"

text \<open>The insert, under the unique indexes on \<open>token\<close> and on \<open>(familyId, version)\<close>.\<close>

definition new_token :: "env \<Rightarrow> user \<Rightarrow> string \<Rightarrow> string \<Rightarrow> nat \<Rightarrow> refresh_token" where
  "new_token env u token fam ver =
     \<lparr>t_id = uuid1 env, t_userId = u_id u, t_token = hashRefreshToken env token,
      t_familyId = fam, t_version = ver, t_expiresAt = computeExpiryFromEnv env,
      t_revoked = False, t_consumedAt = None\<rparr>"

definition createRefreshToken ::
  "env \<Rightarrow> user \<Rightarrow> string \<Rightarrow> string \<Rightarrow> nat \<Rightarrow> world \<Rightarrow> refresh_token result \<times> world" where
  "createRefreshToken env u token fam ver w =
     (let rt = new_token env u token fam ver
      in if t_token rt \<in> t_token ` set (tokens w) \<or> fam_ver rt \<in> fam_ver ` set (tokens w)
         then (Inl (DbError ''duplicate key value violates unique constraint''), w)
         else (Inr rt, w\<lparr>tokens := save_row t_id rt (tokens w)\<rparr>))"

definition saveRefreshToken :: "env \<Rightarrow> auth_env \<Rightarrow> user \<Rightarrow> string \<Rightarrow> world \<Rightarrow> refresh_token result \<times> world" where
  "saveRefreshToken env ae u token w = createRefreshToken env u token (generateFamilyId env ae) 1 w"

definition findByToken :: "env \<Rightarrow> string \<Rightarrow> world \<Rightarrow> refresh_token option" where
  "findByToken env token w = find_one (\<lambda>t. t_token t = hashRefreshToken env token) (tokens w)"

definition update_tokens :: "(refresh_token \<Rightarrow> bool) \<Rightarrow> (refresh_token \<Rightarrow> refresh_token) \<Rightarrow> world \<Rightarrow> world" where
  "update_tokens P f w = w\<lparr>tokens := update_where P f (tokens w)\<rparr>"

definition revokeToken :: "env \<Rightarrow> string \<Rightarrow> world \<Rightarrow> world" where
  "revokeToken env token w =
     update_tokens (\<lambda>t. t_token t = hashRefreshToken env token) (\<lambda>t. t\<lparr>t_revoked := True\<rparr>) w"

definition expired_token :: "env \<Rightarrow> refresh_token \<Rightarrow> bool" where
  "expired_token env t \<longleftrightarrow> (case t_expiresAt t of None \<Rightarrow> False | Some e \<Rightarrow> e < now env)"

definition findValidToken :: "env \<Rightarrow> string \<Rightarrow> world \<Rightarrow> refresh_token option" where
  "findValidToken env token w =
     (case findByToken env token w of
        None \<Rightarrow> None
      | Some t \<Rightarrow> if t_revoked t then None
                  else if t_consumedAt t \<noteq> None then None
                  else if expired_token env t then None
                  else Some t)"

definition markTokenConsumed :: "env \<Rightarrow> refresh_token \<Rightarrow> world \<Rightarrow> world" where
  "markTokenConsumed env t w =
     update_tokens (\<lambda>x. t_id x = t_id t) (\<lambda>x. x\<lparr>t_consumedAt := Some (now env)\<rparr>) w"

definition revokeFamily :: "env \<Rightarrow> string \<Rightarrow> world \<Rightarrow> world" where
  "revokeFamily env fam w =
     update_tokens (\<lambda>t. t_familyId t = fam \<and> \<not> t_revoked t)
       (\<lambda>t. t\<lparr>t_revoked := True, t_consumedAt := Some (now env)\<rparr>) w"

definition revokeAllRefreshTokens :: "uuid \<Rightarrow> world \<Rightarrow> world" where
  "revokeAllRefreshTokens userId w =
     update_tokens (\<lambda>t. t_userId t = userId) (\<lambda>t. t\<lparr>t_revoked := True\<rparr>) w"

section \<open>Refreshing\<close>

definition invalid_refresh :: exn where
  "invalid_refresh = Unauthorized ''Invalid or expired refresh token''"

definition refresh_check :: "env \<Rightarrow> auth_env \<Rightarrow> string \<Rightarrow> world \<Rightarrow> (user \<times> refresh_token) result" where
  "refresh_check env ae token w =
     (case validateRefreshToken env ae token of
        Inl e \<Rightarrow> Inl e
      | Inr sub \<Rightarrow>
          (case find_subject env sub w of
             Inl e \<Rightarrow> Inl e
           | Inr None \<Rightarrow> Inl invalid_refresh
           | Inr (Some u) \<Rightarrow>
               (case findByToken env token w of
                  None \<Rightarrow> Inl invalid_refresh
                | Some st \<Rightarrow> Inr (u, st))))"

definition reused :: "refresh_token \<Rightarrow> bool" where
  "reused t \<longleftrightarrow> t_revoked t \<or> t_consumedAt t \<noteq> None"

definition refresh_reuse :: "env \<Rightarrow> user \<Rightarrow> refresh_token \<Rightarrow> world \<Rightarrow> world" where
  "refresh_reuse env u st w =
     (let w1 = revokeFamily env (t_familyId st) w;
          w2 = w1\<lparr>audit := audit w1 @
                 [\<lparr>a_actorId = Some (u_id u), a_actorEmail = Some (u_email u),
                   a_actorRole = Some (role_string (u_role u)), a_action = ''auth.refresh.family.revoked'',
                   a_targetType = Some ''refresh_token_family'', a_targetId = Some (t_familyId st)\<rparr>]\<rparr>
      in emit (Mail FamilyRevokedMail (u_email u)) w2)"

definition refresh_insert ::
  "env \<Rightarrow> auth_env \<Rightarrow> user \<Rightarrow> refresh_token \<Rightarrow> world \<Rightarrow> token_pair result \<times> world" where
  "refresh_insert env ae u st w =
     (case generateTokens env ae u of
        Inl e \<Rightarrow> (Inl e, w)
      | Inr tp \<Rightarrow>
          (case createRefreshToken env u (tp_refreshToken tp) (t_familyId st) (t_version st + 1) w of
             (Inl e, w') \<Rightarrow> (Inl e, w')
           | (Inr _, w') \<Rightarrow> (Inr tp, w')))"

definition refreshToken :: "env \<Rightarrow> auth_env \<Rightarrow> string \<Rightarrow> world \<Rightarrow> token_pair result \<times> world" where
  "refreshToken env ae token w =
     (case refresh_check env ae token w of
        Inl e \<Rightarrow> (Inl e, w)
      | Inr (u, st) \<Rightarrow>
          if reused st then (Inl invalid_refresh, refresh_reuse env u st w)
          else if expired_token env st then (Inl invalid_refresh, w)
          else refresh_insert env ae u st (markTokenConsumed env st w))"

section \<open>Tables of families\<close>

definition live :: "refresh_token \<Rightarrow> bool" where
  "live t \<longleftrightarrow> \<not> reused t"

text \<open>
  A family is a chain of versions: each (family, version) names one row, no version is skipped,
  and only the last one may be live.
\<close>

definition lineage :: "refresh_token list \<Rightarrow> bool" where
  "lineage rows \<longleftrightarrow> uniq_keys t_id rows \<and>
     (\<forall>t\<in>set rows. 1 \<le> t_version t) \<and>
     (\<forall>t\<in>set rows. \<forall>t'\<in>set rows. fam_ver t = fam_ver t' \<longrightarrow> t = t') \<and>
     (\<forall>t\<in>set rows. \<forall>n. 1 \<le> n \<and> n < t_version t \<longrightarrow> (t_familyId t, n) \<in> fam_ver ` set rows) \<and>
     (\<forall>t\<in>set rows. \<forall>t'\<in>set rows. t_familyId t = t_familyId t' \<longrightarrow> t_version t < t_version t' \<longrightarrow> \<not> live t)"

text \<open>A row's identity: an update of the table keeps it and revives nothing.\<close>

definition kills :: "(refresh_token \<Rightarrow> refresh_token) \<Rightarrow> bool" where
  "kills f \<longleftrightarrow> (\<forall>t. t_id (f t) = t_id t \<and> fam_ver (f t) = fam_ver t \<and> (live (f t) \<longrightarrow> live t))"

lemma kills_if: "kills f \<Longrightarrow> kills (\<lambda>t. if P t then f t else t)"
  by (simp add: kills_def)

lemma kills_updates [simp]:
  "kills (\<lambda>t. t\<lparr>t_revoked := True\<rparr>)" "kills (\<lambda>t. t\<lparr>t_consumedAt := Some c\<rparr>)"
  "kills (\<lambda>t. t\<lparr>t_revoked := True, t_consumedAt := Some c\<rparr>)"
  by (simp_all add: kills_def fam_ver_def live_def reused_def)

lemma fam_ver_eq: "fam_ver t = fam_ver t' \<longleftrightarrow> t_familyId t = t_familyId t' \<and> t_version t = t_version t'"
  by (auto simp: fam_ver_def)

lemma lineage_map:
  assumes "kills g" "lineage rows"
  shows "lineage (map g rows)"
proof -
  from assms(1) have k: "t_id (g t) = t_id t" "t_familyId (g t) = t_familyId t" "t_version (g t) = t_version t"
    "live (g t) \<Longrightarrow> live t" for t
    by (auto simp: kills_def fam_ver_eq)
  then have fv: "fam_ver (g t) = fam_ver t" for t by (simp add: fam_ver_eq)
  have keys: "map t_id (map g rows) = map t_id rows" "fam_ver ` set (map g rows) = fam_ver ` set rows"
    using k(1) fv by (simp_all add: image_image)
  from assms(2) have l: "distinct (map t_id rows)" "\<forall>t\<in>set rows. 1 \<le> t_version t"
    "\<forall>t\<in>set rows. \<forall>t'\<in>set rows. fam_ver t = fam_ver t' \<longrightarrow> t = t'"
    "\<forall>t\<in>set rows. \<forall>n. 1 \<le> n \<and> n < t_version t \<longrightarrow> (t_familyId t, n) \<in> fam_ver ` set rows"
    "\<forall>t\<in>set rows. \<forall>t'\<in>set rows. t_familyId t = t_familyId t' \<longrightarrow> t_version t < t_version t' \<longrightarrow> \<not> live t"
    by (simp_all add: lineage_def uniq_keys_def)
  show ?thesis
    unfolding lineage_def uniq_keys_def keys
  proof (intro conjI)
    show "distinct (map t_id rows)" by (rule l(1))
    show "\<forall>t\<in>set (map g rows). 1 \<le> t_version t" using l(2) k(3) by simp
    show "\<forall>t\<in>set (map g rows). \<forall>t'\<in>set (map g rows). fam_ver t = fam_ver t' \<longrightarrow> t = t'"
      using l(3) fv by simp metis
    show "\<forall>t\<in>set (map g rows). \<forall>n. 1 \<le> n \<and> n < t_version t \<longrightarrow> (t_familyId t, n) \<in> fam_ver ` set rows"
      using l(4) k(2,3) by simp
    show "\<forall>t\<in>set (map g rows). \<forall>t'\<in>set (map g rows).
        t_familyId t = t_familyId t' \<longrightarrow> t_version t < t_version t' \<longrightarrow> \<not> live t"
      using l(5) k(2-4) by simp blast
  qed
qed

lemma lineage_update: "kills f \<Longrightarrow> lineage rows \<Longrightarrow> lineage (update_where P f rows)"
  unfolding update_where_def by (rule lineage_map [OF kills_if])

lemma lineage_unique:
  "lineage rows \<Longrightarrow> t \<in> set rows \<Longrightarrow> t' \<in> set rows \<Longrightarrow> fam_ver t = fam_ver t' \<Longrightarrow> t = t'"
  unfolding lineage_def by blast

lemma lineage_below:
  "lineage rows \<Longrightarrow> t \<in> set rows \<Longrightarrow> 1 \<le> n \<Longrightarrow> n < t_version t \<Longrightarrow>
   (t_familyId t, n) \<in> fam_ver ` set rows"
  unfolding lineage_def by blast

lemma lineage_dead:
  "lineage rows \<Longrightarrow> t \<in> set rows \<Longrightarrow> t' \<in> set rows \<Longrightarrow> t_familyId t = t_familyId t' \<Longrightarrow>
   t_version t < t_version t' \<Longrightarrow> \<not> live t"
  unfolding lineage_def by blast

lemma lineage_ge_1: "lineage rows \<Longrightarrow> t \<in> set rows \<Longrightarrow> 1 \<le> t_version t"
  unfolding lineage_def by blast

text \<open>The next version of a dead row may be added, and so may a first version.\<close>

definition next_of :: "refresh_token list \<Rightarrow> refresh_token \<Rightarrow> bool" where
  "next_of rows rt \<longleftrightarrow> t_version rt = 1 \<or>
     (\<exists>st\<in>set rows. t_familyId st = t_familyId rt \<and> t_version rt = Suc (t_version st) \<and> \<not> live st)"

lemma next_of_ge_1: "next_of rows rt \<Longrightarrow> 1 \<le> t_version rt"
  by (auto simp: next_of_def)

lemma next_of_top:
  assumes "lineage rows" "fam_ver rt \<notin> fam_ver ` set rows" "next_of rows rt"
    and "t \<in> set rows" "t_familyId t = t_familyId rt"
  shows "t_version t < t_version rt"
proof (rule ccontr)
  assume *: "\<not> t_version t < t_version rt"
  have "(t_familyId t, t_version rt) \<in> fam_ver ` set rows"
  proof (cases "t_version t = t_version rt")
    case True
    with assms(4) show ?thesis by (auto simp: fam_ver_def)
  next
    case False
    with * have "t_version rt < t_version t" by linarith
    with lineage_below [OF assms(1,4) next_of_ge_1 [OF assms(3)]] show ?thesis .
  qed
  with assms(2,5) show False by (simp add: fam_ver_def)
qed

lemma next_of_dead:
  assumes "lineage rows" "fam_ver rt \<notin> fam_ver ` set rows" "next_of rows rt"
    and "t \<in> set rows" "t_familyId t = t_familyId rt"
  shows "\<not> live t"
proof -
  have less: "t_version t < t_version rt" by (rule next_of_top [OF assms])
  with lineage_ge_1 [OF assms(1,4)] assms(3) obtain st where
    st: "st \<in> set rows" "t_familyId st = t_familyId rt" "t_version rt = Suc (t_version st)" "\<not> live st"
    by (auto simp: next_of_def)
  show ?thesis
  proof (cases "t_version t = t_version st")
    case True
    with lineage_unique [OF assms(1,4) st(1)] st(2,4) assms(5) show ?thesis by (simp add: fam_ver_def)
  next
    case False
    with less st(3) have "t_version t < t_version st" by linarith
    with lineage_dead [OF assms(1,4) st(1)] st(2) assms(5) show ?thesis by simp
  qed
qed

lemma next_of_below:
  assumes "lineage rows" "next_of rows rt" "1 \<le> n" "n < t_version rt"
  shows "(t_familyId rt, n) \<in> fam_ver ` set rows"
proof -
  from assms(2-4) obtain st where
    st: "st \<in> set rows" "t_familyId st = t_familyId rt" "t_version rt = Suc (t_version st)"
    by (auto simp: next_of_def)
  show ?thesis
  proof (cases "n = t_version st")
    case True
    with st show ?thesis by (intro image_eqI [of _ _ st]) (auto simp: fam_ver_def)
  next
    case False
    with assms(4) st(3) have "n < t_version st" by linarith
    with lineage_below [OF assms(1) st(1) assms(3)] st(2) show ?thesis by simp
  qed
qed

lemma lineage_append:
  assumes "lineage rows" "t_id rt \<notin> t_id ` set rows" "fam_ver rt \<notin> fam_ver ` set rows"
    and "next_of rows rt"
  shows "lineage (rows @ [rt])"
  unfolding lineage_def
proof (intro conjI ballI impI allI)
  show "uniq_keys t_id (rows @ [rt])" using assms(1,2) by (simp add: uniq_keys_def lineage_def)
next
  fix t assume "t \<in> set (rows @ [rt])"
  then show "1 \<le> t_version t" using lineage_ge_1 [OF assms(1)] next_of_ge_1 [OF assms(4)] by auto
next
  fix t t' assume "t \<in> set (rows @ [rt])" "t' \<in> set (rows @ [rt])" "fam_ver t = fam_ver t'"
  moreover have "fam_ver x \<noteq> fam_ver rt" if "x \<in> set rows" for x
    using assms(3) that by (metis imageI)
  ultimately show "t = t'" using lineage_unique [OF assms(1)] by auto metis
next
  fix t n assume "t \<in> set (rows @ [rt])" "1 \<le> n \<and> n < t_version t"
  then show "(t_familyId t, n) \<in> fam_ver ` set (rows @ [rt])"
    using lineage_below [OF assms(1)] next_of_below [OF assms(1,4)] by auto
next
  fix t t' assume m: "t \<in> set (rows @ [rt])" "t' \<in> set (rows @ [rt])"
    and fam: "t_familyId t = t_familyId t'" and less: "t_version t < t_version t'"
  show "\<not> live t"
  proof (cases "t = rt")
    case True
    with m(2) less have "t' \<in> set rows" by auto
    with next_of_top [OF assms(1,3,4)] fam less True show ?thesis by (metis not_less_iff_gr_or_eq)
  next
    case False
    with m(1) have "t \<in> set rows" by simp
    then show ?thesis
      using next_of_dead [OF assms(1,3,4)] lineage_dead [OF assms(1)] m(2) fam less by auto
  qed
qed

section \<open>Any interleaving of sessions and refreshes\<close>

text \<open>
  \<open>checked\<close> are the refreshes that read a live row and have not marked it yet, \<open>consumed\<close>
  those that have and are about to insert the successor. Every database round trip is a step.
\<close>

record refresh_state =
  rs_world :: world
  checked :: "(user \<times> refresh_token) list"
  consumed :: "(user \<times> refresh_token) list"

inductive refresh_step :: "refresh_state \<Rightarrow> refresh_state \<Rightarrow> bool" where
  opens_session: "uuid1 env \<notin> t_id ` set (tokens (rs_world s)) \<Longrightarrow>
     saveRefreshToken env ae u token (rs_world s) = (r, w') \<Longrightarrow> refresh_step s (s\<lparr>rs_world := w'\<rparr>)"
| checks: "refresh_check env ae token (rs_world s) = Inr (u, st) \<Longrightarrow> live st \<Longrightarrow> \<not> expired_token env st \<Longrightarrow>
     refresh_step s (s\<lparr>checked := (u, st) # checked s\<rparr>)"
| detects: "refresh_check env ae token (rs_world s) = Inr (u, st) \<Longrightarrow> reused st \<Longrightarrow>
     refresh_step s (s\<lparr>rs_world := refresh_reuse env u st (rs_world s)\<rparr>)"
| consumes: "(u, st) \<in> set (checked s) \<Longrightarrow>
     refresh_step s (s\<lparr>rs_world := markTokenConsumed env st (rs_world s),
       checked := remove1 (u, st) (checked s), consumed := (u, st) # consumed s\<rparr>)"
| inserts: "(u, st) \<in> set (consumed s) \<Longrightarrow> uuid1 env \<notin> t_id ` set (tokens (rs_world s)) \<Longrightarrow>
     refresh_insert env ae u st (rs_world s) = (r, w') \<Longrightarrow>
     refresh_step s (s\<lparr>rs_world := w', consumed := remove1 (u, st) (consumed s)\<rparr>)"
| revokes_token: "refresh_step s (s\<lparr>rs_world := revokeToken env token (rs_world s)\<rparr>)"
| revokes_all: "refresh_step s (s\<lparr>rs_world := revokeAllRefreshTokens userId (rs_world s)\<rparr>)"
| other_tables: "tokens w' = tokens (rs_world s) \<Longrightarrow> refresh_step s (s\<lparr>rs_world := w'\<rparr>)"

inductive refresh_reachable :: "refresh_state \<Rightarrow> bool" where
  no_tokens: "tokens (rs_world s) = [] \<Longrightarrow> checked s = [] \<Longrightarrow> consumed s = [] \<Longrightarrow> refresh_reachable s"
| one_more: "refresh_reachable s \<Longrightarrow> refresh_step s s' \<Longrightarrow> refresh_reachable s'"

definition row_of :: "refresh_token list \<Rightarrow> refresh_token \<Rightarrow> refresh_token \<Rightarrow> bool" where
  "row_of rows st t \<longleftrightarrow> t \<in> set rows \<and> t_id t = t_id st \<and> fam_ver t = fam_ver st"

definition refresh_ok :: "refresh_state \<Rightarrow> bool" where
  "refresh_ok s \<longleftrightarrow> lineage (tokens (rs_world s)) \<and>
     (\<forall>(u, st)\<in>set (checked s). \<exists>t. row_of (tokens (rs_world s)) st t) \<and>
     (\<forall>(u, st)\<in>set (consumed s). \<exists>t. row_of (tokens (rs_world s)) st t \<and> \<not> live t)"

lemma new_token_simps [simp]:
  "t_id (new_token env u token fam ver) = uuid1 env" "t_userId (new_token env u token fam ver) = u_id u"
  "t_token (new_token env u token fam ver) = hashRefreshToken env token"
  "t_familyId (new_token env u token fam ver) = fam" "t_version (new_token env u token fam ver) = ver"
  "fam_ver (new_token env u token fam ver) = (fam, ver)" "live (new_token env u token fam ver)"
  by (simp_all add: new_token_def fam_ver_def live_def reused_def)

lemma createRefreshToken_cases:
  assumes "createRefreshToken env u token fam ver w = (r, w')"
  obtains e where "r = Inl e" "w' = w"
  | (created) "r = Inr (new_token env u token fam ver)"
      "w' = w\<lparr>tokens := save_row t_id (new_token env u token fam ver) (tokens w)\<rparr>"
      "(fam, ver) \<notin> fam_ver ` set (tokens w)" "hashRefreshToken env token \<notin> t_token ` set (tokens w)"
proof (cases "hashRefreshToken env token \<in> t_token ` set (tokens w) \<or> (fam, ver) \<in> fam_ver ` set (tokens w)")
  case True
  with assms have "\<exists>e. r = Inl e" "w' = w" by (auto simp: createRefreshToken_def Let_def)
  with that(1) show ?thesis by blast
next
  case False
  with assms that(2) show ?thesis by (simp add: createRefreshToken_def Let_def)
qed

lemma row_of_map:
  assumes "kills g" "row_of rows st t"
  shows "row_of (map g rows) st (g t) \<and> (live (g t) \<longrightarrow> live t)"
proof -
  from assms(1) have "t_id (g t) = t_id t" "fam_ver (g t) = fam_ver t" "live (g t) \<longrightarrow> live t"
    unfolding kills_def by blast+
  with assms(2) show ?thesis unfolding row_of_def set_map by (metis imageI)
qed

lemma row_of_update:
  "kills f \<Longrightarrow> row_of rows st t \<Longrightarrow> \<exists>t'. row_of (update_where P f rows) st t' \<and> (live t' \<longrightarrow> live t)"
  unfolding update_where_def using row_of_map [OF kills_if] by blast

lemma refresh_ok_keep:
  assumes ok: "refresh_ok s" and "lineage (tokens w')"
    and keep: "\<And>st t. row_of (tokens (rs_world s)) st t \<Longrightarrow> \<exists>t'. row_of (tokens w') st t' \<and> (live t' \<longrightarrow> live t)"
  shows "refresh_ok (s\<lparr>rs_world := w'\<rparr>)"
proof -
  have "\<exists>t. row_of (tokens w') st t" if "(u, st) \<in> set (checked s)" for u st
    using ok that keep unfolding refresh_ok_def by blast
  moreover have "\<exists>t. row_of (tokens w') st t \<and> \<not> live t" if "(u, st) \<in> set (consumed s)" for u st
    using ok that keep unfolding refresh_ok_def by blast
  ultimately show ?thesis using assms(2) unfolding refresh_ok_def by auto
qed

lemma refresh_ok_update:
  assumes "refresh_ok s" "tokens w' = update_where P f (tokens (rs_world s))" "kills f"
  shows "refresh_ok (s\<lparr>rs_world := w'\<rparr>)"
proof (rule refresh_ok_keep [OF assms(1)])
  show "lineage (tokens w')" using assms lineage_update [OF assms(3)] by (simp add: refresh_ok_def)
qed (use row_of_update [OF assms(3)] assms(2) in auto)

lemma refresh_ok_append:
  assumes "refresh_ok s" "tokens w' = tokens (rs_world s) @ [rt]" "t_id rt \<notin> t_id ` set (tokens (rs_world s))"
    and "fam_ver rt \<notin> fam_ver ` set (tokens (rs_world s))" "next_of (tokens (rs_world s)) rt"
  shows "refresh_ok (s\<lparr>rs_world := w'\<rparr>)"
proof (rule refresh_ok_keep [OF assms(1)])
  show "lineage (tokens w')" using lineage_append [OF _ assms(3-5)] assms(1,2) by (simp add: refresh_ok_def)
qed (auto simp: row_of_def assms(2))

lemma refresh_ok_created:
  assumes "refresh_ok s" "createRefreshToken env u token fam ver (rs_world s) = (r, w')"
    and "uuid1 env \<notin> t_id ` set (tokens (rs_world s))"
    and "ver = 1 \<or> (\<exists>st\<in>set (tokens (rs_world s)). t_familyId st = fam \<and> ver = Suc (t_version st) \<and> \<not> live st)"
  shows "refresh_ok (s\<lparr>rs_world := w'\<rparr>)"
  using assms(2)
proof (cases rule: createRefreshToken_cases)
  case 1
  with assms(1) show ?thesis by simp
next
  case created
  show ?thesis
  proof (rule refresh_ok_append [OF assms(1)])
    show "tokens w' = tokens (rs_world s) @ [new_token env u token fam ver]"
      using created assms(3) by (simp add: save_row_fresh)
    show "next_of (tokens (rs_world s)) (new_token env u token fam ver)"
      using assms(4) by (simp add: next_of_def)
  qed (use created assms(3) in simp_all)
qed

lemma refresh_check_row:
  "refresh_check env ae token w = Inr (u, st) \<Longrightarrow> row_of (tokens w) st st"
  by (auto simp: refresh_check_def row_of_def findByToken_def split: sum.splits option.splits
      dest: find_one_SomeD)

lemma refresh_ok_step: "refresh_step s s' \<Longrightarrow> refresh_ok s \<Longrightarrow> refresh_ok s'"
proof (induction rule: refresh_step.induct)
  case (opens_session env s ae u token r w')
  then show ?case by (intro refresh_ok_created [where ver = 1]) (auto simp: saveRefreshToken_def)
next
  case (checks env ae token s u st)
  then show ?case using refresh_check_row unfolding refresh_ok_def by fastforce
next
  case (detects env ae token s u st)
  then show ?case
    by (intro refresh_ok_update) (auto simp: refresh_reuse_def revokeFamily_def update_tokens_def Let_def)
next
  case (consumes u st s env)
  let ?w = "markTokenConsumed env st (rs_world s)"
  have w: "tokens ?w = update_where (\<lambda>x. t_id x = t_id st) (\<lambda>x. x\<lparr>t_consumedAt := Some (now env)\<rparr>) (tokens (rs_world s))"
    by (simp add: markTokenConsumed_def update_tokens_def)
  have ok: "refresh_ok (s\<lparr>rs_world := ?w\<rparr>)" by (rule refresh_ok_update [OF consumes.prems w]) simp
  from consumes obtain t where t: "row_of (tokens (rs_world s)) st t" unfolding refresh_ok_def by blast
  then have "row_of (tokens ?w) st (t\<lparr>t_consumedAt := Some (now env)\<rparr>)"
    by (auto simp: row_of_def w set_update_where fam_ver_def image_iff intro!: bexI [of _ t])
  moreover have "\<not> live (t\<lparr>t_consumedAt := Some (now env)\<rparr>)" by (simp add: live_def reused_def)
  ultimately show ?case using ok unfolding refresh_ok_def
    by (auto dest: in_set_remove1 notin_set_remove1 set_mp [OF set_remove1_subset])
next
  case (inserts u st s env ae r w')
  from inserts.prems inserts.hyps(1) obtain t where
    t: "row_of (tokens (rs_world s)) st t" "\<not> live t" unfolding refresh_ok_def by blast
  then have "refresh_ok (s\<lparr>rs_world := w'\<rparr>)"
    using inserts refresh_ok_created [OF inserts.prems, where env = env]
    by (fastforce simp: refresh_insert_def row_of_def fam_ver_def split: sum.splits prod.splits)
  then show ?case unfolding refresh_ok_def by (auto dest: set_mp [OF set_remove1_subset])
next
  case (revokes_token s env token)
  then show ?case by (intro refresh_ok_update) (auto simp: revokeToken_def update_tokens_def)
next
  case (revokes_all s userId)
  then show ?case by (intro refresh_ok_update) (auto simp: revokeAllRefreshTokens_def update_tokens_def)
next
  case (other_tables w' s)
  then show ?case unfolding refresh_ok_def by simp
qed

lemma refresh_reachable_ok: "refresh_reachable s \<Longrightarrow> refresh_ok s"
proof (induction rule: refresh_reachable.induct)
  case (no_tokens s)
  then show ?case by (simp add: refresh_ok_def lineage_def uniq_keys_def)
next
  case (one_more s s')
  then show ?case using refresh_ok_step by blast
qed

section \<open>A concrete run\<close>

definition sample_auth :: auth_env where
  "sample_auth =
     \<lparr>jwt_sign = (\<lambda>_ p _ t. case js_get ''sub'' (Some p) of
          Some (Some (JStr s)) \<Rightarrow> Inr (s @ (if t = 0 then '':0'' else '':1''))
        | _ \<Rightarrow> Inl (JsError ''payload'')),
      jwt_verify = (\<lambda>_ t _. Inr (JObj [(''sub'', JStr (takeWhile (\<lambda>c. c \<noteq> CHR '':'') t)), (''type'', JStr ''2fa_pending'')])),
      default_hub = Some ''hub'', random_double = (1, 1), random_base36 = ''0.abc'', totp_secret = ''secret'',
      totp_verify = (\<lambda>t _. t = ''123456''), otpauth_qr = (\<lambda>_ _ s. Inr s), random_codes = [''code1'', ''code2''],
      sha1_hex = (\<lambda>s. s), breach_range = (\<lambda>_. Inr []), mail_queue_up = True\<rparr>"

definition auth_time :: "instant \<Rightarrow> uuid \<Rightarrow> env" where
  "auth_time t k = sample_env\<lparr>now := t, uuid1 := k\<rparr>"

definition sample_ada :: user where
  "sample_ada = sample_user ''ada'' ''ada@nova'' USER"

definition sample_session :: world where
  "sample_session = snd (saveRefreshToken (auth_time 7 ''t1'') sample_auth sample_ada ''ada:0'' sample_world)"

definition sample_refreshed :: world where
  "sample_refreshed = snd (refreshToken (auth_time 1007 ''t2'') sample_auth ''ada:0'' sample_session)"

lemma sample_session_tokens:
  "map (\<lambda>t. (t_id t, t_token t, t_version t, live t)) (tokens sample_session) = [(''t1'', ''hada:0'', 1, True)]"
  by code_simp

lemma sample_refreshed_tokens:
  "map (\<lambda>t. (t_id t, t_token t, t_version t, live t)) (tokens sample_refreshed) =
     [(''t1'', ''hada:0'', 1, False), (''t2'', ''hada:1'', 2, True)]"
  by code_simp

lemma sample_session_reachable:
  "refresh_reachable \<lparr>rs_world = sample_session, checked = [], consumed = []\<rparr>"
proof -
  let ?s = "\<lparr>rs_world = sample_world, checked = [], consumed = []\<rparr>"
  have "refresh_reachable ?s" by (rule no_tokens) (simp_all add: sample_world_def)
  moreover have "refresh_step ?s (?s\<lparr>rs_world := sample_session\<rparr>)"
    unfolding sample_session_def
    by (rule opens_session [where r = "fst (saveRefreshToken (auth_time 7 ''t1'') sample_auth sample_ada ''ada:0'' sample_world)"])
      (simp_all add: sample_world_def)
  ultimately have "refresh_reachable (?s\<lparr>rs_world := sample_session\<rparr>)" by (rule one_more)
  then show ?thesis by simp
qed

section \<open>What refreshing guarantees\<close>

text \<open>
  C6: however the round trips of logins, refreshes and revocations interleave, at most one token
  of a family is live, and it is the family's newest version.
\<close>

theorem one_live_token_per_family:
  assumes "refresh_reachable s"
    and "t \<in> set (tokens (rs_world s))" "live t"
    and "t' \<in> set (tokens (rs_world s))" "t_familyId t' = t_familyId t"
  shows "t_version t' \<le> t_version t \<and> (live t' \<longrightarrow> t' = t)"
proof -
  from refresh_reachable_ok [OF assms(1)] have l: "lineage (tokens (rs_world s))" by (simp add: refresh_ok_def)
  have le: "t_version t' \<le> t_version t"
    using lineage_dead [OF l assms(2,4)] assms(3,5) by (metis not_le)
  moreover have "t' = t" if "live t'"
  proof -
    have "\<not> t_version t' < t_version t" using lineage_dead [OF l assms(4,2)] assms(5) that by metis
    with le have "fam_ver t' = fam_ver t" using assms(5) by (simp add: fam_ver_def)
    with lineage_unique [OF l assms(4,2)] show ?thesis .
  qed
  ultimately show ?thesis by blast
qed

theorem one_live_token_per_family_witness:
  "\<exists>t\<in>set (tokens sample_session). live t \<and> t_version t = 1 \<and> t_version t \<le> t_version t"
proof -
  from sample_session_tokens obtain t where t: "t \<in> set (tokens sample_session)" "live t" "t_version t = 1"
    by (auto simp: map_eq_Cons_conv)
  with one_live_token_per_family [OF sample_session_reachable, of t t] show ?thesis by auto
qed

lemma refreshToken_Inr:
  assumes "refreshToken env ae token w = (Inr tp, w')"
  obtains u st where "refresh_check env ae token w = Inr (u, st)" "live st" "\<not> expired_token env st"
    "refresh_insert env ae u st (markTokenConsumed env st w) = (Inr tp, w')"
  using assms unfolding refreshToken_def by (auto simp: live_def split: sum.splits if_splits)

lemma refresh_insert_Inr:
  assumes "refresh_insert env ae u st w = (Inr tp, w')"
  obtains "generateTokens env ae u = Inr tp"
    "createRefreshToken env u (tp_refreshToken tp) (t_familyId st) (t_version st + 1) w =
       (Inr (new_token env u (tp_refreshToken tp) (t_familyId st) (t_version st + 1)), w')"
  using assms unfolding refresh_insert_def
  by (auto split: sum.splits prod.splits elim: createRefreshToken_cases)

lemma findByToken_row: "findByToken env token w = Some st \<Longrightarrow> st \<in> set (tokens w) \<and> t_token st = hashRefreshToken env token"
  unfolding findByToken_def by (blast dest: find_one_SomeD)

lemma refresh_check_found: "refresh_check env ae token w = Inr (u, st) \<Longrightarrow> findByToken env token w = Some st"
  by (auto simp: refresh_check_def split: sum.splits option.splits)

lemma markTokenConsumed_tokens:
  "tokens (markTokenConsumed env st w) =
     update_where (\<lambda>x. t_id x = t_id st) (\<lambda>x. x\<lparr>t_consumedAt := Some (now env)\<rparr>) (tokens w)"
  by (simp add: markTokenConsumed_def update_tokens_def)

lemma find_token_mark:
  "find_one (\<lambda>t. t_token t = h) (tokens (markTokenConsumed env st w)) =
   map_option (\<lambda>t. if t_id t = t_id st then t\<lparr>t_consumedAt := Some (now env)\<rparr> else t)
     (find_one (\<lambda>t. t_token t = h) (tokens w))"
  unfolding markTokenConsumed_tokens by (rule find_one_update_where) simp

lemma refresh_reuse_tokens:
  "tokens (refresh_reuse env u st w) =
     update_where (\<lambda>t. t_familyId t = t_familyId st \<and> \<not> t_revoked t)
       (\<lambda>t. t\<lparr>t_revoked := True, t_consumedAt := Some (now env)\<rparr>) (tokens w)"
  by (simp add: refresh_reuse_def revokeFamily_def update_tokens_def Let_def)

lemma refresh_reuse_kills:
  "t \<in> set (tokens (refresh_reuse env u st w)) \<Longrightarrow> t_familyId t = t_familyId st \<Longrightarrow> \<not> live t"
  by (auto simp: refresh_reuse_tokens set_update_where live_def reused_def split: if_splits)

text \<open>
  C33: a refresh replaces the presented token by the next version of its family: the old one is
  consumed, the new one is stored by its hash and live. Presenting the old token again is refused,
  and leaves no token of the family live.
\<close>

theorem refresh_rotates:
  assumes "refreshToken env ae token w = (Inr tp, w')"
    and "uuid1 env \<notin> t_id ` set (tokens w)"
  shows "\<exists>st new. findByToken env token w = Some st \<and> live st \<and>
     findByToken env (tp_refreshToken tp) w' = Some new \<and> live new \<and>
     t_familyId new = t_familyId st \<and> t_version new = t_version st + 1 \<and>
     findByToken env token w' = Some (st\<lparr>t_consumedAt := Some (now env)\<rparr>) \<and>
     (\<forall>env' ae' u st'. sha256 env' = sha256 env \<and> refresh_check env' ae' token w' = Inr (u, st') \<longrightarrow>
        fst (refreshToken env' ae' token w') = Inl invalid_refresh \<and>
        (\<forall>t\<in>set (tokens (snd (refreshToken env' ae' token w'))). t_familyId t = t_familyId st \<longrightarrow> \<not> live t))"
proof -
  from assms(1) obtain u st where c: "refresh_check env ae token w = Inr (u, st)" "live st"
    and i: "refresh_insert env ae u st (markTokenConsumed env st w) = (Inr tp, w')"
    by (rule refreshToken_Inr)
  let ?m = "markTokenConsumed env st w" and ?new = "new_token env u (tp_refreshToken tp) (t_familyId st) (t_version st + 1)"
  let ?old = "st\<lparr>t_consumedAt := Some (now env)\<rparr>"
  have st: "findByToken env token w = Some st" by (rule refresh_check_found [OF c(1)])
  from i have cr: "createRefreshToken env u (tp_refreshToken tp) (t_familyId st) (t_version st + 1) ?m = (Inr ?new, w')"
    by (rule refresh_insert_Inr)
  have ids: "t_id ` set (tokens ?m) = t_id ` set (tokens w)"
    unfolding markTokenConsumed_tokens by (rule image_key_update_where) simp
  from cr have w': "tokens w' = tokens ?m @ [?new]"
    and fresh: "hashRefreshToken env (tp_refreshToken tp) \<notin> t_token ` set (tokens ?m)"
    using assms(2) by (auto elim!: createRefreshToken_cases simp: save_row_fresh ids)
  have old: "findByToken env token w' = Some ?old"
    using st by (simp add: findByToken_def w' table_simps find_token_mark)
  have "find_one (\<lambda>t. t_token t = hashRefreshToken env (tp_refreshToken tp)) (tokens ?m) = None"
    using fresh by (rule find_one_key_None)
  then have new: "findByToken env (tp_refreshToken tp) w' = Some ?new"
    by (simp add: findByToken_def w' table_simps)
  have replay: "fst (refreshToken env' ae' token w') = Inl invalid_refresh \<and>
      (\<forall>t\<in>set (tokens (snd (refreshToken env' ae' token w'))). t_familyId t = t_familyId st \<longrightarrow> \<not> live t)"
    if "sha256 env' = sha256 env" "refresh_check env' ae' token w' = Inr (u', st')" for env' ae' u' st'
  proof -
    have "st' = ?old"
      using refresh_check_found [OF that(2)] old that(1) by (simp add: findByToken_def hashRefreshToken_def)
    then have "reused st'" "t_familyId st' = t_familyId st" by (simp_all add: reused_def)
    with that(2) refresh_reuse_kills show ?thesis by (auto simp: refreshToken_def)
  qed
  show ?thesis
    using st c(2) new old replay by (intro exI [of _ st] exI [of _ ?new]) auto
qed

theorem refresh_rotates_witness:
  "\<exists>tp. tp_refreshToken tp = ''ada:1'' \<and> fst (refreshToken (auth_time 1007 ''t2'') sample_auth ''ada:0'' sample_session) = Inr tp \<and>
     fst (refreshToken (auth_time 2007 ''t3'') sample_auth ''ada:0'' sample_refreshed) = Inl invalid_refresh"
proof -
  let ?r = "refreshToken (auth_time 1007 ''t2'') sample_auth ''ada:0'' sample_session"
  have "map_sum id tp_refreshToken (fst ?r) = Inr ''ada:1''" by code_simp
  then obtain tp where tp: "?r = (Inr tp, sample_refreshed)" "tp_refreshToken tp = ''ada:1''"
    by (cases "fst ?r") (auto simp: sample_refreshed_def prod_eq_iff)
  have "map t_id (tokens sample_session) = [''t1'']" by code_simp
  then have "uuid1 (auth_time 1007 ''t2'') \<notin> t_id ` set (tokens sample_session)"
    by (auto simp: auth_time_def simp flip: set_map)
  note * = refresh_rotates [OF tp(1) this]
  have "sha256 (auth_time 2007 ''t3'') = sha256 (auth_time 1007 ''t2'')" by (simp add: auth_time_def)
  moreover have "is_ok (refresh_check (auth_time 2007 ''t3'') sample_auth ''ada:0'' sample_refreshed)" by code_simp
  then obtain u st' where "refresh_check (auth_time 2007 ''t3'') sample_auth ''ada:0'' sample_refreshed = Inr (u, st')"
    by (auto simp: is_ok_iff)
  ultimately have "fst (refreshToken (auth_time 2007 ''t3'') sample_auth ''ada:0'' sample_refreshed) = Inl invalid_refresh"
    using * by blast
  with tp show ?thesis by simp
qed

text \<open>
  reuse detection does not end a family for good: a refresh that marked its token before the
  revocation inserts the successor after it, and that successor is live.
\<close>

theorem reuse_detection_outrun:
  assumes "refresh_check env ae token w = Inr (u, st)" "reused st"
    and "refresh_insert env' ae' u' st0 (refresh_reuse env u st w) = (Inr tp, w')"
    and "t_familyId st0 = t_familyId st" and "uuid1 env' \<notin> t_id ` set (tokens w)"
  shows "refreshToken env ae token w = (Inl invalid_refresh, refresh_reuse env u st w) \<and>
    (\<forall>t\<in>set (tokens (refresh_reuse env u st w)). t_familyId t = t_familyId st \<longrightarrow> \<not> live t) \<and>
    (\<exists>t. findByToken env' (tp_refreshToken tp) w' = Some t \<and> t_familyId t = t_familyId st \<and> live t)"
proof -
  let ?d = "refresh_reuse env u st w" and ?new = "new_token env' u' (tp_refreshToken tp) (t_familyId st0) (t_version st0 + 1)"
  have ids: "t_id ` set (tokens ?d) = t_id ` set (tokens w)"
    unfolding refresh_reuse_tokens by (rule image_key_update_where) simp
  from assms(3) have "createRefreshToken env' u' (tp_refreshToken tp) (t_familyId st0) (t_version st0 + 1) ?d = (Inr ?new, w')"
    by (rule refresh_insert_Inr)
  then have w': "tokens w' = tokens ?d @ [?new]"
    and fresh: "hashRefreshToken env' (tp_refreshToken tp) \<notin> t_token ` set (tokens ?d)"
    using assms(5) by (auto elim!: createRefreshToken_cases simp: save_row_fresh ids)
  have "find_one (\<lambda>t. t_token t = hashRefreshToken env' (tp_refreshToken tp)) (tokens ?d) = None"
    using fresh by (rule find_one_key_None)
  then have "findByToken env' (tp_refreshToken tp) w' = Some ?new"
    by (simp add: findByToken_def w' table_simps)
  with assms(1,2,4) refresh_reuse_kills show ?thesis by (auto simp: refreshToken_def)
qed

theorem reuse_detection_outrun_witness:
  "\<exists>st u st0 w' tp t. refresh_reuse (auth_time 1008 ''t9'') u st (markTokenConsumed (auth_time 1007 ''t2'') st0 sample_session) = w' \<and>
     refresh_insert (auth_time 1007 ''t2'') sample_auth u st0 w' = (Inr tp, t) \<and>
     findByToken (auth_time 1007 ''t2'') ''ada:1'' t \<noteq> None"
proof -
  let ?e = "auth_time 1007 ''t2''" and ?e' = "auth_time 1008 ''t9''"
  have "is_ok (refresh_check ?e sample_auth ''ada:0'' sample_session)" by code_simp
  then obtain u0 st0 where c0: "refresh_check ?e sample_auth ''ada:0'' sample_session = Inr (u0, st0)" by (auto simp: is_ok_iff)
  let ?w = "\<lambda>st0. markTokenConsumed ?e st0 sample_session"
  have "map_sum id (\<lambda>(u, st0). map_sum id (\<lambda>(u, st). (t_familyId st = t_familyId st0, reused st,
        map_sum id tp_refreshToken (fst (refresh_insert ?e sample_auth u st0 (refresh_reuse ?e' u st (?w st0))))))
        (refresh_check ?e' sample_auth ''ada:0'' (?w st0)))
      (refresh_check ?e sample_auth ''ada:0'' sample_session) = Inr (Inr (True, True, Inr ''ada:1''))"
    by code_simp
  then have "map_sum id (\<lambda>(u, st). (t_familyId st = t_familyId st0, reused st,
        map_sum id tp_refreshToken (fst (refresh_insert ?e sample_auth u st0 (refresh_reuse ?e' u st (?w st0))))))
        (refresh_check ?e' sample_auth ''ada:0'' (?w st0)) = Inr (True, True, Inr ''ada:1'')"
    unfolding c0 by simp
  then obtain u st where c: "refresh_check ?e' sample_auth ''ada:0'' (?w st0) = Inr (u, st)"
    and q: "t_familyId st0 = t_familyId st" "reused st"
      "map_sum id tp_refreshToken (fst (refresh_insert ?e sample_auth u st0 (refresh_reuse ?e' u st (?w st0)))) = Inr ''ada:1''"
    by (cases "refresh_check ?e' sample_auth ''ada:0'' (?w st0)") auto
  from q(3) obtain tp t where i: "refresh_insert ?e sample_auth u st0 (refresh_reuse ?e' u st (?w st0)) = (Inr tp, t)"
    "tp_refreshToken tp = ''ada:1''"
    by (cases "refresh_insert ?e sample_auth u st0 (refresh_reuse ?e' u st (?w st0))"; cases "fst (refresh_insert ?e sample_auth u st0 (refresh_reuse ?e' u st (?w st0)))") auto
  have "map t_id (tokens sample_session) = [''t1'']" by code_simp
  moreover have "t_id ` set (tokens (?w st0)) = set (map t_id (tokens sample_session))"
    unfolding markTokenConsumed_tokens set_map by (rule image_key_update_where) simp
  ultimately have "uuid1 ?e \<notin> t_id ` set (tokens (?w st0))" by (simp add: auth_time_def)
  from reuse_detection_outrun [OF c q(2) i(1) q(1) this] i show ?thesis by (metis option.discI)
qed

text \<open>
  a refresh in the second its token was signed in destroys the session. The signature has no
  other input than the user, the configuration and the second, so the successor is the presented
  token; the unique index refuses it after the old row was marked, the caller gets a database
  error, and the next use of the token is taken for a replay.
\<close>

theorem refresh_in_same_second:
  assumes "generateRefreshToken env0 ae u = Inr token" "config env0 = config env"
    and "now env0 div 1000 = now env div 1000"
    and "refresh_check env ae token w = Inr (u, st)" "live st" "\<not> expired_token env st"
    and "is_ok (generateAccessToken env ae u)"
  shows "\<exists>e. refreshToken env ae token w = (Inl (DbError e), markTokenConsumed env st w) \<and>
    (\<forall>env' ae'. sha256 env' = sha256 env \<and> is_ok (refresh_check env' ae' token (markTokenConsumed env st w)) \<longrightarrow>
       fst (refreshToken env' ae' token (markTokenConsumed env st w)) = Inl invalid_refresh)"
proof -
  let ?m = "markTokenConsumed env st w"
  from assms(1-3) have "generateRefreshToken env ae u = Inr token"
    by (simp add: generateRefreshToken_def env_default_def env_nonempty_def)
  moreover from assms(7) obtain a where "generateAccessToken env ae u = Inr a" by (auto simp: is_ok_iff)
  ultimately have g: "generateTokens env ae u = Inr \<lparr>tp_accessToken = a, tp_refreshToken = token\<rparr>"
    by (simp add: generateTokens_def)
  have st: "findByToken env token w = Some st" by (rule refresh_check_found [OF assms(4)])
  then have old: "findByToken env token ?m = Some (st\<lparr>t_consumedAt := Some (now env)\<rparr>)"
    by (simp add: findByToken_def find_token_mark)
  have "hashRefreshToken env token \<in> t_token ` set (tokens ?m)"
    using findByToken_row [OF old] by (metis imageI)
  then obtain e where "createRefreshToken env u token (t_familyId st) (t_version st + 1) ?m = (Inl (DbError e), ?m)"
    by (simp add: createRefreshToken_def Let_def)
  with assms(4-6) g have "refreshToken env ae token w = (Inl (DbError e), ?m)"
    by (simp add: refreshToken_def refresh_insert_def live_def)
  moreover have "fst (refreshToken env' ae' token ?m) = Inl invalid_refresh"
    if "sha256 env' = sha256 env" "is_ok (refresh_check env' ae' token ?m)" for env' ae'
  proof -
    from that(2) obtain u' st' where c: "refresh_check env' ae' token ?m = Inr (u', st')" by (auto simp: is_ok_iff)
    with refresh_check_found [OF c] old that(1) have "reused st'"
      by (auto simp: findByToken_def hashRefreshToken_def reused_def)
    with c show ?thesis by (simp add: refreshToken_def)
  qed
  ultimately show ?thesis by blast
qed

theorem refresh_in_same_second_witness:
  "\<exists>e w. refreshToken (auth_time 8 ''t2'') sample_auth ''ada:0'' sample_session = (Inl (DbError e), w) \<and>
     fst (refreshToken (auth_time 1007 ''t3'') sample_auth ''ada:0'' w) = Inl invalid_refresh"
proof -
  let ?e = "auth_time 8 ''t2''" and ?e' = "auth_time 1007 ''t3''"
  have "map_sum id (\<lambda>(u, st). (generateRefreshToken (auth_time 7 ''t1'') sample_auth u, live st, expired_token ?e st,
      is_ok (generateAccessToken ?e sample_auth u),
      is_ok (refresh_check ?e' sample_auth ''ada:0'' (markTokenConsumed ?e st sample_session))))
      (refresh_check ?e sample_auth ''ada:0'' sample_session) = Inr (Inr ''ada:0'', True, False, True, True)"
    by code_simp
  then obtain u st where c: "refresh_check ?e sample_auth ''ada:0'' sample_session = Inr (u, st)"
    and q: "generateRefreshToken (auth_time 7 ''t1'') sample_auth u = Inr ''ada:0''" "live st" "\<not> expired_token ?e st"
      "is_ok (generateAccessToken ?e sample_auth u)"
      "is_ok (refresh_check ?e' sample_auth ''ada:0'' (markTokenConsumed ?e st sample_session))"
    by (cases "refresh_check ?e sample_auth ''ada:0'' sample_session") auto
  have "config (auth_time 7 ''t1'') = config ?e" "now (auth_time 7 ''t1'') div 1000 = now ?e div 1000"
    "sha256 ?e' = sha256 ?e" by (simp_all add: auth_time_def)
  with refresh_in_same_second [OF q(1) this(1,2) c q(2,3,4)] q(5) show ?thesis by metis
qed

end
