(* ===== verification/Auth.thy ===== *)
theory Auth
  imports Auth_Tokens
begin

text \<open>
  \<open>AuthService\<close> (\<open>auth/auth.service.ts\<close>) with its helpers \<open>auth/helper/user-helper.ts\<close> and
  \<open>auth/providers/password-breach.service.ts\<close>: registration, e-mail verification by a one-time
  code, login, password reset by a one-time code.

  An operation is a sequence of database accesses; \<open>then_do\<close> runs the next one on the state the
  previous one left, unless that one threw.
\<close>

definition then_do :: "'a result \<times> world \<Rightarrow> ('a \<Rightarrow> world \<Rightarrow> 'b result \<times> world) \<Rightarrow> 'b result \<times> world" where
  "then_do m k = (case m of (Inl e, w) \<Rightarrow> (Inl e, w) | (Inr x, w) \<Rightarrow> k x w)"

definition check_that :: "'a result \<Rightarrow> ('a \<Rightarrow> world \<Rightarrow> 'b result \<times> world) \<Rightarrow> world \<Rightarrow> 'b result \<times> world" where
  "check_that r k w = (case r of Inl e \<Rightarrow> (Inl e, w) | Inr x \<Rightarrow> k x w)"

lemma then_do_Inr: "then_do m k = (Inr y, w') \<longleftrightarrow> (\<exists>x w. m = (Inr x, w) \<and> k x w = (Inr y, w'))"
  by (cases m; cases "fst m") (auto simp: then_do_def)

lemma check_that_Inr: "check_that r k w = (Inr y, w') \<longleftrightarrow> (\<exists>x. r = Inr x \<and> k x w = (Inr y, w'))"
  by (cases r) (auto simp: check_that_def)

section \<open>User helper\<close>

definition verifyPassword :: "env \<Rightarrow> string \<Rightarrow> string option \<Rightarrow> bool result" where
  "verifyPassword env plain hashed =
     (case hashed of
        None \<Rightarrow> Inl (JsError ''data and hash arguments required'')
      | Some h \<Rightarrow> Inr (bcrypt_compare env plain h))"

definition hashPassword :: "env \<Rightarrow> string \<Rightarrow> string" where
  "hashPassword env pw = bcrypt_hash env pw"

record user_response =
  ur_id :: uuid
  ur_firstname :: string
  ur_lastname :: string
  ur_email :: string
  ur_role :: user_role
  ur_hubId :: "uuid option"
  ur_isActive :: bool
  ur_isSuspended :: bool
  ur_isDeleted :: bool
  ur_createdAt :: instant
  ur_deletedAt :: "instant option"

definition formatUserResponse :: "user \<Rightarrow> user_response" where
  "formatUserResponse u =
     \<lparr>ur_id = u_id u, ur_firstname = u_firstname u, ur_lastname = u_lastname u, ur_email = u_email u,
      ur_role = u_role u, ur_hubId = u_hubId u, ur_isActive = u_isActive u, ur_isSuspended = u_isSuspended u,
      ur_isDeleted = u_isDeleted u, ur_createdAt = u_createdAt u, ur_deletedAt = u_deletedAt u\<rparr>"

definition isValidPassword :: "string \<Rightarrow> bool" where
  "isValidPassword pw \<longleftrightarrow>
     8 \<le> length pw \<and> list_ex is_upper pw \<and> list_ex is_lower pw \<and> list_ex is_digit pw"

text \<open>\<open>(Math.floor(Math.random() * (max - min + 1)) + min).toString()\<close>, on doubles.\<close>

definition generateVerificationCode :: "auth_env \<Rightarrow> nat \<Rightarrow> string" where
  "generateVerificationCode ae digits =
     (let mx = 10 ^ digits - 1; mn = 10 ^ (digits - 1)
      in nat_str (fl_floor (fl_mult (random_double ae) (fl_of_nat (mx - mn + 1))) + mn))"

section \<open>Breached passwords\<close>

fun split_on :: "char \<Rightarrow> string \<Rightarrow> string list" where
  "split_on c [] = [[]]"
| "split_on c (x # xs) =
     (if x = c then [] # split_on c xs
      else (case split_on c xs of [] \<Rightarrow> [[x]] | p # ps \<Rightarrow> (x # p) # ps))"

definition BREACH_THRESHOLD :: nat where
  "BREACH_THRESHOLD = 5"

text \<open>\<open>parseInt(s, 10)\<close> of a string of the service; \<open>None\<close> is \<open>NaN\<close> or negative.\<close>

definition parse_count :: "string \<Rightarrow> nat option" where
  "parse_count s =
     (let t = trim s; d = takeWhile is_digit (if t \<noteq> [] \<and> hd t = CHR ''+'' then tl t else t)
      in if d = [] then None else Some (num_of d))"

text \<open>A line without a colon throws inside the \<open>try\<close>: the error is logged, the password passes.\<close>

fun breach_lines :: "string \<Rightarrow> string list \<Rightarrow> unit result" where
  "breach_lines suffix [] = Inr ()"
| "breach_lines suffix (line # rest) =
     (let parts = split_on (CHR '':'') line
      in if trim (hd parts) = suffix
         then (case tl parts of
                 [] \<Rightarrow> Inr ()
               | c # _ \<Rightarrow>
                   (case parse_count c of
                      Some n \<Rightarrow> if BREACH_THRESHOLD < n
                                 then Inl (BadRequest ''This password has appeared in a known data breach'')
                                 else Inr ()
                    | None \<Rightarrow> Inr ()))
         else breach_lines suffix rest)"

definition to_upper :: "string \<Rightarrow> string" where
  "to_upper s = map (\<lambda>c. if is_lower c then char_of (of_char c - 32 :: nat) else c) s"

definition checkPassword :: "auth_env \<Rightarrow> string \<Rightarrow> unit result" where
  "checkPassword ae pw =
     (let sha1 = to_upper (sha1_hex ae pw)
      in case breach_range ae (take 5 sha1) of
           Inl e \<Rightarrow> Inr ()
         | Inr body \<Rightarrow> breach_lines (drop 5 sha1) (split_on (CHR 0x0A) body))"

section \<open>Mails and rows\<close>

text \<open>\<open>enqueueCritical\<close>: throws when the queue does not take the job.\<close>

definition send_critical :: "auth_env \<Rightarrow> mail \<Rightarrow> string \<Rightarrow> world \<Rightarrow> unit result \<times> world" where
  "send_critical ae m recipient w =
     (if mail_queue_up ae then (Inr (), emit (Mail m recipient) w)
      else (Inl (ServiceUnavailable ''Email delivery is temporarily unavailable''), w))"

text \<open>
  The insert of a new user: \<open>email\<close> is unique over all rows, soft-deleted ones included, and the
  columns the code leaves out take their defaults.
\<close>

definition blank_user :: "env \<Rightarrow> string \<Rightarrow> string \<Rightarrow> string \<Rightarrow> string \<Rightarrow> user_role \<Rightarrow> user" where
  "blank_user env mailbox firstname lastname pw role =
     \<lparr>u_id = uuid1 env, u_firstname = firstname, u_lastname = lastname, u_username = None,
      u_email = mailbox, u_password = Some pw, u_role = role, u_passwordResetToken = None,
      u_passwordResetExpiresIn = None, u_lastPasswordResetSentAt = None, u_verificationToken = None,
      u_verificationTokenExpiry = None, u_lastVerificationEmailSent = None, u_verificationCode = None,
      u_verificationCodeExpiresAt = None, u_passwordResetCode = None,
      u_passwordResetCodeExpiresAt = None, u_isVerified = False, u_isActive = True, u_isDeleted = False,
      u_isSuspended = False, u_profilePicture = None, u_phone = None, u_createdAt = now env,
      u_twoFactorEnabled = False, u_totpSecret = None, u_totpBackupCodes = None,
      u_passkeyCredentials = None, u_membershipStatus = M_INACTIVE, u_memberSince = None,
      u_profileCompleteness = 0, u_deletedAt = None, u_hubId = None\<rparr>"

definition insert_user :: "user \<Rightarrow> world \<Rightarrow> unit result \<times> world" where
  "insert_user u w =
     (if u_email u \<in> u_email ` set (users w) then (Inl (DbError ''duplicate key value: email''), w)
      else save_user u w)"

text \<open>\<open>user.x = undefined\<close> before a \<open>save\<close>.\<close>

definition set_undefined :: "env \<Rightarrow> 'a option \<Rightarrow> 'a option" where
  "set_undefined env old = (if undefined_skipped env then old else None)"

definition ten_minutes :: "env \<Rightarrow> instant" where
  "ten_minutes env = now env + 600000"

section \<open>Registration\<close>

record create_user_dto =
  cu_email :: string
  cu_firstname :: string
  cu_lastname :: string
  cu_password :: string

definition new_password :: "env \<Rightarrow> auth_env \<Rightarrow> create_user_dto \<Rightarrow> world \<Rightarrow> string result" where
  "new_password env ae dto w =
     (if find_user env (\<lambda>u. u_email u = cu_email dto) w \<noteq> None
      then Inl (Conflict ''user already in exist, please login'')
      else if \<not> isValidPassword (cu_password dto) then Inl (Conflict ''Password must be at least 8 characters long, contain uppercase and lowercase letters, and at least one digit.'')
      else map_sum id (\<lambda>_. hashPassword env (cu_password dto)) (checkPassword ae (cu_password dto)))"

definition registered :: "env \<Rightarrow> auth_env \<Rightarrow> user \<Rightarrow> world \<Rightarrow> (user_response \<times> string) result \<times> world" where
  "registered env ae u w =
     (map_sum id (\<lambda>a. (formatUserResponse u, a)) (generateAccessToken env ae u), w)"

definition createUser :: "env \<Rightarrow> auth_env \<Rightarrow> create_user_dto \<Rightarrow> world \<Rightarrow> (user_response \<times> string) result \<times> world" where
  "createUser env ae dto w =
     check_that (new_password env ae dto w) (\<lambda>pw w.
       let code = generateVerificationCode ae 4;
           u = (blank_user env (cu_email dto) (cu_firstname dto) (cu_lastname dto) pw USER)
                 \<lparr>u_verificationCode := Some code, u_verificationCodeExpiresAt := Some (ten_minutes env)\<rparr>
       in then_do (insert_user u w) (\<lambda>_ w.
          then_do (send_critical ae VerificationMail (u_email u) w) (\<lambda>_ w.
          registered env ae u w))) w"

definition createAdminUser :: "env \<Rightarrow> auth_env \<Rightarrow> create_user_dto \<Rightarrow> world \<Rightarrow> (user_response \<times> string) result \<times> world" where
  "createAdminUser env ae dto w =
     check_that (new_password env ae dto w) (\<lambda>pw w.
       let u = blank_user env (cu_email dto) (cu_firstname dto) (cu_lastname dto) pw ADMIN
       in then_do (insert_user u w) (\<lambda>_ w. registered env ae u w)) w"

section \<open>One-time codes\<close>

definition session_for :: "env \<Rightarrow> auth_env \<Rightarrow> user \<Rightarrow> world \<Rightarrow> token_pair result \<times> world" where
  "session_for env ae u w =
     check_that (generateTokens env ae u) (\<lambda>tp w.
       then_do (saveRefreshToken env ae u (tp_refreshToken tp) w) (\<lambda>_ w. (Inr tp, w))) w"

definition mintAuthTokensForUser :: "env \<Rightarrow> auth_env \<Rightarrow> user \<Rightarrow> world \<Rightarrow> token_pair result \<times> world" where
  "mintAuthTokensForUser env ae u w = session_for env ae u w"

definition code_expired :: "env \<Rightarrow> instant option \<Rightarrow> bool" where
  "code_expired env expiry = (case expiry of None \<Rightarrow> True | Some t \<Rightarrow> t < now env)"

definition verified_user :: "env \<Rightarrow> user \<Rightarrow> user" where
  "verified_user env u =
     u\<lparr>u_isVerified := True, u_verificationCode := Some [],
       u_verificationCodeExpiresAt := set_undefined env (u_verificationCodeExpiresAt u)\<rparr>"

definition verifyOtp :: "env \<Rightarrow> auth_env \<Rightarrow> string \<Rightarrow> string \<Rightarrow> world \<Rightarrow> (user_response \<times> token_pair) result \<times> world" where
  "verifyOtp env ae mailbox otp w =
     (if mailbox = [] then (Inl (BadRequest ''Email is required''), w)
      else if otp = [] then (Inl (BadRequest ''Verification code is required''), w)
      else case find_user env (\<lambda>u. u_email u = mailbox) w of
        None \<Rightarrow> (Inl (Unauthorized ''User not found.''), w)
      | Some u \<Rightarrow>
          if u_verificationCode u \<noteq> Some otp then (Inl (Unauthorized ''Invalid otp code''), w)
          else if code_expired env (u_verificationCodeExpiresAt u) then (Inl (Unauthorized ''Otp code has Expired''), w)
          else then_do (save_user (verified_user env u) w) (\<lambda>_ w.
               then_do (session_for env ae (verified_user env u) w) (\<lambda>tp w.
               (Inr (formatUserResponse (verified_user env u), tp), w))))"

definition resendVerificationOtp :: "env \<Rightarrow> auth_env \<Rightarrow> string \<Rightarrow> world \<Rightarrow> unit result \<times> world" where
  "resendVerificationOtp env ae mailbox w =
     (if mailbox = [] then (Inl (BadRequest ''Email is required''), w)
      else case find_user env (\<lambda>u. u_email u = mailbox) w of
        None \<Rightarrow> (Inl (NotFound ''User not found.''), w)
      | Some u \<Rightarrow>
          then_do (save_user (u\<lparr>u_verificationCode := Some (generateVerificationCode ae 4),
              u_verificationCodeExpiresAt := Some (ten_minutes env)\<rparr>) w) (\<lambda>_ w.
            send_critical ae VerificationMail (u_email u) w))"

text \<open>\<open>requestResetPasswordOtp\<close> and \<open>resendResetPasswordVerificationOtp\<close> have the same body.\<close>

definition requestResetPasswordOtp :: "env \<Rightarrow> auth_env \<Rightarrow> string \<Rightarrow> world \<Rightarrow> unit result \<times> world" where
  "requestResetPasswordOtp env ae mailbox w =
     (if mailbox = [] then (Inl (BadRequest ''Email is required''), w)
      else case find_user env (\<lambda>u. u_email u = mailbox) w of
        None \<Rightarrow> (Inl (NotFound ''User not found.''), w)
      | Some u \<Rightarrow>
          then_do (save_user (u\<lparr>u_passwordResetCode := Some (generateVerificationCode ae 4),
              u_passwordResetCodeExpiresAt := Some (ten_minutes env)\<rparr>) w) (\<lambda>_ w.
            send_critical ae PasswordResetMail (u_email u) w))"

definition resendResetPasswordVerificationOtp :: "env \<Rightarrow> auth_env \<Rightarrow> string \<Rightarrow> world \<Rightarrow> unit result \<times> world" where
  "resendResetPasswordVerificationOtp env ae mailbox w = requestResetPasswordOtp env ae mailbox w"

definition verifyResetPasswordOtp :: "env \<Rightarrow> string \<Rightarrow> string \<Rightarrow> world \<Rightarrow> unit result \<times> world" where
  "verifyResetPasswordOtp env mailbox otp w =
     (if mailbox = [] then (Inl (BadRequest ''Email is required''), w)
      else if otp = [] then (Inl (BadRequest ''Verification code is required''), w)
      else case find_user env (\<lambda>u. u_email u = mailbox) w of
        None \<Rightarrow> (Inl (NotFound ''User not found.''), w)
      | Some u \<Rightarrow>
          if u_passwordResetCode u \<noteq> Some otp then (Inl (Unauthorized ''Invalid otp code''), w)
          else if code_expired env (u_passwordResetCodeExpiresAt u) then (Inl (Unauthorized ''Otp code has Expired''), w)
          else save_user u w)"

record reset_password_dto =
  rp_otp :: string
  rp_newPassword :: string
  rp_confirmNewPassword :: string

definition reset_user :: "env \<Rightarrow> string \<Rightarrow> user \<Rightarrow> user" where
  "reset_user env pw u =
     u\<lparr>u_password := Some (hashPassword env pw),
       u_passwordResetCode := set_undefined env (u_passwordResetCode u),
       u_passwordResetCodeExpiresAt := set_undefined env (u_passwordResetCodeExpiresAt u)\<rparr>"

definition resetPassword :: "env \<Rightarrow> auth_env \<Rightarrow> reset_password_dto \<Rightarrow> world \<Rightarrow> unit result \<times> world" where
  "resetPassword env ae dto w =
     (case find_user env (\<lambda>u. u_passwordResetCode u = Some (rp_otp dto)) w of
        None \<Rightarrow> (Inl (NotFound ''User not found.''), w)
      | Some u \<Rightarrow>
          if code_expired env (u_passwordResetCodeExpiresAt u) then (Inl (Unauthorized ''Otp code has Expired''), w)
          else if \<not> isValidPassword (rp_newPassword dto) then (Inl (BadRequest ''Password must be at least 8 characters long, contain uppercase and lowercase letters, and at least one digit.''), w)
          else if rp_newPassword dto \<noteq> rp_confirmNewPassword dto then (Inl (BadRequest ''New Password and Confirm Password must Match.''), w)
          else check_that (checkPassword ae (rp_newPassword dto)) (\<lambda>_ w.
            save_user (reset_user env (rp_newPassword dto) u) w) w)"

section \<open>Login\<close>

datatype login_result =
    LoggedIn user_response token_pair
  | EmailNotVerified user_response
  | RequiresTwoFactor string

definition login :: "env \<Rightarrow> auth_env \<Rightarrow> string \<Rightarrow> string \<Rightarrow> world \<Rightarrow> login_result result \<times> world" where
  "login env ae mailbox pw w =
     (case find_user env (\<lambda>u. u_email u = mailbox) w of
        None \<Rightarrow> (Inl (Unauthorized ''Invalid credentials or account not exists''), w)
      | Some u \<Rightarrow>
          check_that (verifyPassword env pw (u_password u)) (\<lambda>ok w.
            if \<not> ok then (Inl (Unauthorized ''Invalid credentials or account not exists''), w)
            else if \<not> u_isVerified u then
              then_do (resendVerificationOtp env ae mailbox w) (\<lambda>_ w.
                (Inr (EmailNotVerified (formatUserResponse u)), w))
            else if u_twoFactorEnabled u then
              (map_sum id RequiresTwoFactor (generateTempToken env ae (u_id u)), w)
            else then_do (session_for env ae u w) (\<lambda>tp w.
              (Inr (LoggedIn (formatUserResponse u) tp), w))) w)"

definition retrieveUserById :: "env \<Rightarrow> uuid \<Rightarrow> world \<Rightarrow> user_response result" where
  "retrieveUserById env k w =
     (case find_user env (\<lambda>u. u_id u = k) w of
        None \<Rightarrow> Inl (Unauthorized ''User not found.'')
      | Some u \<Rightarrow> Inr (formatUserResponse u))"

section \<open>One-time codes are four digits\<close>

lemma scaled_below:
  fixes m e :: nat
  assumes "m < 2 ^ e" "e \<le> 53"
  shows "fl_floor (fl_round (m * 9000) e) \<le> 8999"
proof -
  define n k where "n = m * 9000" and "k = nbits (m * 9000) - 53"
  have nb: "n + 9000 \<le> 9000 * 2 ^ e" using assms(1) by (simp add: n_def)
  show ?thesis
  proof (cases "k = 0")
    case True
    then have "fl_round n e = (n, e)" by (simp add: fl_round_def n_def k_def)
    moreover have "n div 2 ^ e < 9000" using nb by (simp add: div_less_iff_less_mult)
    ultimately show ?thesis by (simp add: fl_floor_def n_def)
  next
    case False
    have "n < 2 ^ e * 2 ^ 14" using nb by simp
    also have "\<dots> \<le> 2 ^ 53 * 2 ^ 14" using power_increasing [OF assms(2), of "2::nat"] by simp
    finally have "nbits n \<le> 67" using nbits_le [of n 67] by simp
    then have k14: "k \<le> 14" by (simp add: k_def n_def)
    have "(2::nat) ^ 53 \<le> n"
      using False nbits_le [of n 53] by (cases "n < 2 ^ 53") (auto simp: k_def n_def not_less)
    with nb have "(2::nat) ^ 53 < 9000 * 2 ^ e" by linarith
    moreover have "(9000::nat) * 2 ^ e \<le> 9000 * 2 ^ 14" if "e < 14"
      using power_increasing [of e 14 "2::nat"] that by simp
    ultimately have "14 \<le> e" by (cases "e < 14") (auto simp: not_less)
    with k14 have ke: "k \<le> e" by linarith
    have pow: "(2::nat) ^ (e - k) * 2 ^ k = 2 ^ e" using ke by (simp flip: power_add)
    have "(2::nat) ^ (k - 1) \<le> 2 ^ 13" using k14 by (intro power_increasing) auto
    with nb have "n + 2 ^ (k - 1) < 9000 * 2 ^ (e - k) * 2 ^ k"
      using pow by (simp add: mult.assoc)
    then have "round_half_even n k < 9000 * 2 ^ (e - k)" using False by (intro round_half_even_less) auto
    then have "round_half_even n k div 2 ^ (e - k) < 9000" by (simp add: div_less_iff_less_mult)
    moreover have "fl_round n e = (round_half_even n k, e - k)"
      using ke by (simp add: fl_round_def n_def k_def Let_def)
    ultimately show ?thesis by (simp add: fl_floor_def n_def)
  qed
qed

text \<open>
  whatever Math.random returns, the one-time code has exactly four digits and no leading
  zero: the rounding of the product never reaches the upper end.
\<close>

theorem verification_code_four_digits:
  assumes "random_double ae = (m, e)" "m < 2 ^ e" "e \<le> 53"
  shows "length (generateVerificationCode ae 4) = 4 \<and> list_all is_digit (generateVerificationCode ae 4) \<and>
    1000 \<le> num_of (generateVerificationCode ae 4) \<and> num_of (generateVerificationCode ae 4) \<le> 9999"
proof -
  define n where "n = fl_floor (fl_round (m * 9000) e) + 1000"
  have n: "1000 \<le> n" "n \<le> 9999" using scaled_below [OF assms(2,3)] by (simp_all add: n_def)
  have "fl_of_nat 9000 = (9000, 0)" by (rule fl_of_nat_exact) simp
  then have code: "generateVerificationCode ae 4 = nat_str n"
    by (simp add: generateVerificationCode_def Let_def assms(1) fl_mult_def n_def)
  have "length (nat_str n) \<le> 4" using n length_nat_str_le [of n 4] by simp
  moreover have "\<not> length (nat_str n) \<le> 3"
  proof
    assume "length (nat_str n) \<le> 3"
    then have "(10::nat) ^ length (nat_str n) \<le> 10 ^ 3" by (intro power_increasing) auto
    with num_of_less [OF digits_nat_str [of n]] n(1) show False by (simp add: num_of_nat_str)
  qed
  ultimately show ?thesis using n digits_nat_str by (simp add: code num_of_nat_str)
qed

theorem verification_code_four_digits_witness:
  "length (generateVerificationCode sample_auth 4) = 4"
  using verification_code_four_digits [of sample_auth 1 1] by (simp add: sample_auth_def)

section \<open>Verification, login, reset\<close>

lemma save_user_Inr: "save_user u w = (Inr x, w') \<longleftrightarrow> u_password u \<noteq> None \<and> w' = w\<lparr>users := save_row u_id u (users w)\<rparr>"
  by (auto simp: save_user_def)

lemma createRefreshToken_stored:
  assumes "createRefreshToken env u token fam ver w = (Inr t, w')" "uuid1 env \<notin> t_id ` set (tokens w)"
  shows "users w' = users w" "live t" "t_userId t = u_id u" "findByToken env token w' = Some t"
proof -
  from assms(1) have *: "t = new_token env u token fam ver" "w' = w\<lparr>tokens := save_row t_id t (tokens w)\<rparr>"
    "hashRefreshToken env token \<notin> t_token ` set (tokens w)"
    by (auto elim: createRefreshToken_cases)
  show "users w' = users w" "live t" "t_userId t = u_id u" using * by simp_all
  have "tokens w' = tokens w @ [t]" using * assms(2) by (simp add: save_row_fresh)
  then show "findByToken env token w' = Some t"
    using find_one_key_None [OF *(3)] by (simp add: findByToken_def table_simps *(1))
qed

lemma session_stored:
  assumes "session_for env ae u w = (Inr tp, w')" "uuid1 env \<notin> t_id ` set (tokens w)"
  shows "users w' = users w"
    "\<exists>t. findByToken env (tp_refreshToken tp) w' = Some t \<and> live t \<and> t_userId t = u_id u"
  using assms(1) createRefreshToken_stored [OF _ assms(2)]
  unfolding session_for_def check_that_Inr then_do_Inr saveRefreshToken_def by auto

lemma find_user_saved:
  assumes "uniq_keys u_id (users w)" "find_user env P w = Some u" "u_id u' = u_id u"
    "u_deletedAt u' = u_deletedAt u" "P u'" "users w' = save_row u_id u' (users w)" "soft_hidden env' = soft_hidden env"
  shows "find_user env' P w' = Some u'"
proof -
  have "soft_hidden env \<longrightarrow> u_deletedAt u = None"
    using assms(2) find_one_SomeD unfolding find_user_def by fastforce
  with assms show ?thesis
    unfolding find_user_def by (simp add: find_one_save_found uniq_keys_def)
qed

lemma find_userD: "find_user env P w = Some u \<Longrightarrow> u \<in> set (users w) \<and> P u"
  by (auto simp: find_user_def dest: find_one_SomeD)

text \<open>
  C37: verifying the e-mail marks the user verified, opens a session, and uses the code up: the same
  code is refused from then on.
\<close>

theorem otp_verifies_once:
  assumes "verifyOtp env ae mailbox otp w = (Inr (resp, tp), w')"
    and "uniq_keys u_id (users w)" "uuid1 env \<notin> t_id ` set (tokens w)" "soft_hidden env' = soft_hidden env"
  shows "(\<exists>u t. find_user env (\<lambda>u. u_email u = mailbox) w = Some u \<and> u_verificationCode u = Some otp \<and>
       \<not> code_expired env (u_verificationCodeExpiresAt u) \<and>
       find_user env (\<lambda>u. u_email u = mailbox) w' = Some (verified_user env u) \<and> u_isVerified (verified_user env u) \<and>
       findByToken env (tp_refreshToken tp) w' = Some t \<and> live t \<and> t_userId t = u_id u) \<and>
    (\<exists>e. verifyOtp env' ae' mailbox otp w' = (Inl (Unauthorized e), w'))"
proof -
  from assms(1) have given: "mailbox \<noteq> []" "otp \<noteq> []" by (auto simp: verifyOtp_def split: if_splits)
  from assms(1) given obtain u where u: "find_user env (\<lambda>u. u_email u = mailbox) w = Some u"
    by (auto simp: verifyOtp_def split: option.splits)
  let ?v = "verified_user env u"
  from assms(1) given u have ok: "u_verificationCode u = Some otp" "\<not> code_expired env (u_verificationCodeExpiresAt u)"
    by (auto simp: verifyOtp_def split: if_splits)
  with assms(1) given u obtain w1 where w1: "save_user ?v w = (Inr (), w1)" "session_for env ae ?v w1 = (Inr tp, w')"
    by (auto simp: verifyOtp_def then_do_Inr)
  then have sv: "users w1 = save_row u_id ?v (users w)" "tokens w1 = tokens w"
    by (auto simp: save_user_Inr)
  have v: "u_id ?v = u_id u" "u_deletedAt ?v = u_deletedAt u" "u_email ?v = mailbox" "u_verificationCode ?v = Some []"
    using find_userD [OF u] by (simp_all add: verified_user_def)
  note st = session_stored [OF w1(2), unfolded sv(2), OF assms(3)]
  have found: "find_user env'' (\<lambda>u. u_email u = mailbox) w' = Some ?v" if "soft_hidden env'' = soft_hidden env" for env''
    using find_user_saved [OF assms(2) u v(1,2), of w' env''] v(3) st(1) sv(1) that by simp
  have "\<exists>e. verifyOtp env' ae' mailbox otp w' = (Inl (Unauthorized e), w')"
    using found [OF assms(4)] given v(4) by (auto simp: verifyOtp_def)
  moreover have "u_isVerified ?v" by (simp add: verified_user_def)
  ultimately show ?thesis using u ok found [OF refl] st(2) v(1) by auto
qed

definition sample_new_user :: user where
  "sample_new_user = (sample_user ''bob'' ''bob@nova'' USER)
     \<lparr>u_password := Some ''Passw0rd'', u_isVerified := False, u_verificationCode := Some ''5500'',
      u_verificationCodeExpiresAt := Some 600000, u_passwordResetCode := Some ''7700'',
      u_passwordResetCodeExpiresAt := Some 600000\<rparr>"

definition sample_registered :: world where
  "sample_registered = sample_world\<lparr>users := users sample_world @ [sample_new_user]\<rparr>"

definition sample_verified :: world where
  "sample_verified = snd (verifyOtp (auth_time 7 ''t1'') sample_auth ''bob@nova'' ''5500'' sample_registered)"

lemma sample_uniq: "uniq_keys u_id (users sample_registered)" "uniq_keys u_id (users sample_verified)"
  by (code_simp, code_simp)

theorem otp_verifies_once_witness:
  "\<exists>r e. verifyOtp (auth_time 7 ''t1'') sample_auth ''bob@nova'' ''5500'' sample_registered = (Inr r, sample_verified) \<and>
     verifyOtp (auth_time 8 ''t2'') sample_auth ''bob@nova'' ''5500'' sample_verified = (Inl (Unauthorized e), sample_verified)"
proof -
  let ?r = "verifyOtp (auth_time 7 ''t1'') sample_auth ''bob@nova'' ''5500'' sample_registered"
  have "is_ok (fst ?r)" by code_simp
  then obtain resp tp where r: "?r = (Inr (resp, tp), sample_verified)"
    by (auto simp: is_ok_iff sample_verified_def prod_eq_iff)
  have "uuid1 (auth_time 7 ''t1'') \<notin> t_id ` set (tokens sample_registered)"
    by (simp add: sample_registered_def sample_world_def)
  moreover have "soft_hidden (auth_time 8 ''t2'') = soft_hidden (auth_time 7 ''t1'')" by (simp add: auth_time_def)
  ultimately show ?thesis using otp_verifies_once [OF r sample_uniq(1)] r by blast
qed

lemma login_cases:
  assumes "login env ae mailbox pw w = (Inr (LoggedIn resp tp), w')"
  obtains u where "find_user env (\<lambda>u. u_email u = mailbox) w = Some u"
    "verifyPassword env pw (u_password u) = Inr True" "u_isVerified u" "\<not> u_twoFactorEnabled u"
    "session_for env ae u w = (Inr tp, w')" "resp = formatUserResponse u"
proof -
  from assms obtain u ok where u: "find_user env (\<lambda>u. u_email u = mailbox) w = Some u"
    "verifyPassword env pw (u_password u) = Inr ok"
    by (auto simp: login_def check_that_Inr split: option.splits)
  have temp: "map_sum id RequiresTwoFactor r \<noteq> Inr (LoggedIn resp tp)" for r :: "string result"
    by (cases r) auto
  from assms u have "ok" by (auto simp: login_def check_that_def split: if_splits)
  moreover from assms u \<open>ok\<close> have "u_isVerified u"
    by (auto simp: login_def check_that_def then_do_Inr split: if_splits)
  moreover from assms u \<open>ok\<close> \<open>u_isVerified u\<close> temp have "\<not> u_twoFactorEnabled u"
    by (auto simp: login_def check_that_def)
  ultimately have "session_for env ae u w = (Inr tp, w') \<and> resp = formatUserResponse u"
    using assms u by (auto simp: login_def check_that_def then_do_Inr)
  with that [of u] u \<open>ok\<close> \<open>u_isVerified u\<close> \<open>\<not> u_twoFactorEnabled u\<close> show ?thesis by simp
qed

text \<open>
  C17: a login opens a session only for a verified user without two-factor login whose password
  matches; the session's refresh token is stored live for that user, and no user row changes.
\<close>

theorem login_opens_session:
  assumes "login env ae mailbox pw w = (Inr (LoggedIn resp tp), w')" "uuid1 env \<notin> t_id ` set (tokens w)"
  shows "\<exists>u h t. find_user env (\<lambda>u. u_email u = mailbox) w = Some u \<and> u_password u = Some h \<and>
     bcrypt_compare env pw h \<and> u_isVerified u \<and> \<not> u_twoFactorEnabled u \<and> resp = formatUserResponse u \<and>
     findByToken env (tp_refreshToken tp) w' = Some t \<and> live t \<and> t_userId t = u_id u \<and> users w' = users w"
  using assms(1)
proof (rule login_cases)
  fix u
  assume u: "find_user env (\<lambda>u. u_email u = mailbox) w = Some u" "verifyPassword env pw (u_password u) = Inr True"
    "u_isVerified u" "\<not> u_twoFactorEnabled u" "session_for env ae u w = (Inr tp, w')" "resp = formatUserResponse u"
  from u(2) obtain h where "u_password u = Some h" "bcrypt_compare env pw h"
    by (auto simp: verifyPassword_def split: option.splits)
  with u session_stored [OF u(5) assms(2)] show ?thesis by blast
qed

theorem login_opens_session_witness:
  "\<exists>resp tp w t. login (auth_time 1007 ''t2'') sample_auth ''bob@nova'' ''Passw0rd'' sample_verified = (Inr (LoggedIn resp tp), w) \<and>
     findByToken (auth_time 1007 ''t2'') (tp_refreshToken tp) w = Some t \<and> live t"
proof -
  let ?r = "login (auth_time 1007 ''t2'') sample_auth ''bob@nova'' ''Passw0rd'' sample_verified"
  have "(case fst ?r of Inr (LoggedIn _ _) \<Rightarrow> True | _ \<Rightarrow> False)" by code_simp
  then obtain resp tp where r: "?r = (Inr (LoggedIn resp tp), snd ?r)"
    by (auto simp: prod_eq_iff split: sum.splits login_result.splits)
  have "map t_id (tokens sample_verified) = [''t1'']" by code_simp
  then have "uuid1 (auth_time 1007 ''t2'') \<notin> t_id ` set (tokens sample_verified)"
    by (auto simp: auth_time_def simp flip: set_map)
  from login_opens_session [OF r this] r show ?thesis by blast
qed

definition flagged :: "user \<Rightarrow> user" where
  "flagged u = u\<lparr>u_isActive := False, u_isSuspended := True, u_isDeleted := True\<rparr>"

definition flag_all :: "world \<Rightarrow> world" where
  "flag_all w = w\<lparr>users := map flagged (users w)\<rparr>"

lemma flagged_columns:
  "u_deletedAt (flagged u) = u_deletedAt u" "u_id (flagged u) = u_id u" "u_email (flagged u) = u_email u"
  "fullName (flagged u) = fullName u" "u_role (flagged u) = u_role u" "u_hubId (flagged u) = u_hubId u"
  "u_password (flagged u) = u_password u" "u_isVerified (flagged u) = u_isVerified u"
  "u_twoFactorEnabled (flagged u) = u_twoFactorEnabled u"
  by (simp_all add: flagged_def fullName_def)

lemma find_user_flag_all:
  "(\<And>u. P (flagged u) = P u) \<Longrightarrow> find_user env P (flag_all w) = map_option flagged (find_user env P w)"
proof -
  assume P: "\<And>u. P (flagged u) = P u"
  have "find_one (\<lambda>u. (soft_hidden env \<longrightarrow> u_deletedAt u = None) \<and> P u) (map flagged us) =
      map_option flagged (find_one (\<lambda>u. (soft_hidden env \<longrightarrow> u_deletedAt u = None) \<and> P u) us)" for us
    by (induction us) (simp_all add: P flagged_columns)
  then show ?thesis by (simp add: find_user_def flag_all_def)
qed

lemma generateTokens_flagged: "generateTokens env ae (flagged u) = generateTokens env ae u"
proof -
  have "generateAccessToken env ae (flagged u) = generateAccessToken env ae u"
    by (simp add: generateAccessToken_def access_claims_def flagged_columns)
  moreover have "generateRefreshToken env ae (flagged u) = generateRefreshToken env ae u"
    by (simp add: generateRefreshToken_def flagged_columns)
  ultimately show ?thesis unfolding generateTokens_def by (simp only:)
qed

lemma createRefreshToken_flagged:
  "createRefreshToken env u token fam ver w = (Inr t, w') \<Longrightarrow>
   createRefreshToken env (flagged u) token fam ver (flag_all w) = (Inr t, flag_all w')"
  by (auto simp: createRefreshToken_def new_token_def flag_all_def Let_def flagged_columns split: if_splits)

lemma session_for_flagged:
  "session_for env ae u w = (Inr tp, w') \<Longrightarrow>
   session_for env ae (flagged u) (flag_all w) = (Inr tp, flag_all w')"
  using createRefreshToken_flagged
  unfolding session_for_def check_that_Inr then_do_Inr saveRefreshToken_def generateTokens_flagged by blast

text \<open>
  neither suspension, deactivation nor the deleted flag stops a login: were those flags set on
  every account, a login that succeeds would succeed all the same, with the same tokens.
\<close>

theorem login_ignores_flags:
  assumes "login env ae mailbox pw w = (Inr (LoggedIn resp tp), w')"
  shows "\<exists>resp'. login env ae mailbox pw (flag_all w) = (Inr (LoggedIn resp' tp), flag_all w') \<and>
    ur_isSuspended resp' \<and> \<not> ur_isActive resp' \<and> ur_id resp' = ur_id resp"
proof -
  from login_cases [OF assms] obtain u where u: "find_user env (\<lambda>u. u_email u = mailbox) w = Some u"
    "verifyPassword env pw (u_password u) = Inr True" "u_isVerified u" "\<not> u_twoFactorEnabled u"
    "session_for env ae u w = (Inr tp, w')" "resp = formatUserResponse u" .
  have "find_user env (\<lambda>u. u_email u = mailbox) (flag_all w) = Some (flagged u)"
    using u(1) by (subst find_user_flag_all) (simp_all add: flagged_columns)
  moreover have "verifyPassword env pw (u_password (flagged u)) = Inr True" "u_isVerified (flagged u)"
    "\<not> u_twoFactorEnabled (flagged u)"
    using u(2-4) by (simp_all add: flagged_columns)
  ultimately have "login env ae mailbox pw (flag_all w) =
      (Inr (LoggedIn (formatUserResponse (flagged u)) tp), flag_all w')"
    using session_for_flagged [OF u(5)] by (simp add: login_def check_that_def then_do_def)
  then show ?thesis by (simp add: u(6) formatUserResponse_def flagged_def)
qed

theorem login_ignores_flags_witness:
  "\<exists>resp tp w. login (auth_time 1007 ''t2'') sample_auth ''bob@nova'' ''Passw0rd'' (flag_all sample_verified) =
     (Inr (LoggedIn resp tp), w) \<and> ur_isSuspended resp"
proof -
  let ?r = "login (auth_time 1007 ''t2'') sample_auth ''bob@nova'' ''Passw0rd'' sample_verified"
  have "(case fst ?r of Inr (LoggedIn _ _) \<Rightarrow> True | _ \<Rightarrow> False)" by code_simp
  then obtain resp tp where r: "?r = (Inr (LoggedIn resp tp), snd ?r)"
    by (auto simp: prod_eq_iff split: sum.splits login_result.splits)
  from login_ignores_flags [OF r] show ?thesis by blast
qed

text \<open>
  a reset code survives the password reset: save skips the properties set to undefined, so
  until the code expires the same request succeeds again, with any other valid password.
\<close>

theorem reset_code_survives:
  assumes "resetPassword env ae dto w = (Inr (), w')" "uniq_keys u_id (users w)"
    and "undefined_skipped env" "soft_hidden env' = soft_hidden env"
  shows "\<exists>u expiry. find_user env (\<lambda>u. u_passwordResetCode u = Some (rp_otp dto)) w = Some u \<and>
     u_passwordResetCodeExpiresAt u = Some expiry \<and> now env \<le> expiry \<and>
     find_user env' (\<lambda>u. u_passwordResetCode u = Some (rp_otp dto)) w' =
       Some (u\<lparr>u_password := Some (hashPassword env (rp_newPassword dto))\<rparr>) \<and>
     (\<forall>dto'. now env' \<le> expiry \<and> rp_otp dto' = rp_otp dto \<and> isValidPassword (rp_newPassword dto') \<and>
        rp_confirmNewPassword dto' = rp_newPassword dto' \<and> checkPassword ae (rp_newPassword dto') = Inr () \<longrightarrow>
        fst (resetPassword env' ae dto' w') = Inr ())"
proof -
  from assms(1) obtain u where u: "find_user env (\<lambda>u. u_passwordResetCode u = Some (rp_otp dto)) w = Some u"
    by (auto simp: resetPassword_def split: option.splits)
  let ?v = "u\<lparr>u_password := Some (hashPassword env (rp_newPassword dto))\<rparr>"
  from assms(1) u have "\<not> code_expired env (u_passwordResetCodeExpiresAt u)"
    by (auto simp: resetPassword_def split: if_splits)
  then obtain expiry where e: "u_passwordResetCodeExpiresAt u = Some expiry" "now env \<le> expiry"
    by (auto simp: code_expired_def split: option.splits)
  have "reset_user env (rp_newPassword dto) u = ?v" using assms(3) by (simp add: reset_user_def set_undefined_def)
  with assms(1) u have w': "w' = w\<lparr>users := save_row u_id ?v (users w)\<rparr>"
    by (auto simp: resetPassword_def check_that_Inr save_user_Inr split: if_splits)
  have f: "find_user env' (\<lambda>u. u_passwordResetCode u = Some (rp_otp dto)) w' = Some ?v"
    using find_user_saved [OF assms(2) u, of ?v w' env'] find_userD [OF u] w' assms(4) by simp
  have "fst (resetPassword env' ae dto' w') = Inr ()"
    if "now env' \<le> expiry" "rp_otp dto' = rp_otp dto" "isValidPassword (rp_newPassword dto')"
      "rp_confirmNewPassword dto' = rp_newPassword dto'" "checkPassword ae (rp_newPassword dto') = Inr ()" for dto'
    using f that e by (simp add: resetPassword_def code_expired_def check_that_def save_user_def reset_user_def)
  with u e f show ?thesis by blast
qed

definition sample_reset :: "string \<Rightarrow> reset_password_dto" where
  "sample_reset pw = \<lparr>rp_otp = ''7700'', rp_newPassword = pw, rp_confirmNewPassword = pw\<rparr>"

theorem reset_code_survives_witness:
  "\<exists>w. resetPassword (auth_time 8 ''t2'') sample_auth (sample_reset ''Secret12'') sample_registered = (Inr (), w) \<and>
     fst (resetPassword (auth_time 9 ''t3'') sample_auth (sample_reset ''Hijack34'') w) = Inr ()"
proof -
  let ?r = "resetPassword (auth_time 8 ''t2'') sample_auth (sample_reset ''Secret12'') sample_registered"
  have "fst ?r = Inr ()" by code_simp
  then have r: "?r = (Inr (), snd ?r)" by (simp add: prod_eq_iff)
  have s: "undefined_skipped (auth_time 8 ''t2'')" "soft_hidden (auth_time 9 ''t3'') = soft_hidden (auth_time 8 ''t2'')"
    by (simp_all add: auth_time_def sample_env_def)
  from reset_code_survives [OF r sample_uniq(1) s] obtain u expiry where
    u: "find_user (auth_time 8 ''t2'') (\<lambda>u. u_passwordResetCode u = Some ''7700'') sample_registered = Some u"
      "u_passwordResetCodeExpiresAt u = Some expiry"
    and again: "\<And>dto'. now (auth_time 9 ''t3'') \<le> expiry \<and> rp_otp dto' = ''7700'' \<and> isValidPassword (rp_newPassword dto') \<and>
        rp_confirmNewPassword dto' = rp_newPassword dto' \<and> checkPassword sample_auth (rp_newPassword dto') = Inr () \<Longrightarrow>
        fst (resetPassword (auth_time 9 ''t3'') sample_auth dto' (snd ?r)) = Inr ()"
    by (auto simp: sample_reset_def)
  have "map_option u_passwordResetCodeExpiresAt
      (find_user (auth_time 8 ''t2'') (\<lambda>u. u_passwordResetCode u = Some ''7700'') sample_registered) = Some (Some 600000)"
    by code_simp
  with u have "expiry = 600000" by simp
  moreover have "isValidPassword ''Hijack34''" "checkPassword sample_auth ''Hijack34'' = Inr ()"
    by (code_simp, code_simp)
  ultimately have "fst (resetPassword (auth_time 9 ''t3'') sample_auth (sample_reset ''Hijack34'') (snd ?r)) = Inr ()"
    by (intro again) (simp add: sample_reset_def auth_time_def)
  with r show ?thesis by blast
qed

end
