(* ===== verification/Two_Factor.thy ===== *)
theory Two_Factor
  imports Auth
begin

text \<open>
  Two-factor login: \<open>auth/providers/setup-totp.provider.ts\<close>, \<open>verify-totp.provider.ts\<close>,
  \<open>manage-totp.provider.ts\<close>, and the trusted devices of \<open>trusted-device.service.ts\<close>, which keep
  a table of their own.
\<close>

section \<open>Setting up\<close>

definition initiate2faSetup :: "env \<Rightarrow> auth_env \<Rightarrow> uuid \<Rightarrow> world \<Rightarrow> (string \<times> string) result \<times> world" where
  "initiate2faSetup env ae userId w =
     (case find_user env (\<lambda>u. u_id u = userId) w of
        None \<Rightarrow> (Inl (Unauthorized ''User not found''), w)
      | Some u \<Rightarrow>
          then_do (save_user (u\<lparr>u_totpSecret := Some (totp_secret ae)\<rparr>) w) (\<lambda>_ w.
            (map_sum id (\<lambda>qr. (totp_secret ae, qr)) (otpauth_qr ae ''NovaLabs'' (u_email u) (totp_secret ae)), w)))"

text \<open>\<open>!user.totpSecret\<close>: null or empty. The codes are stored by their \<open>bcrypt\<close> hashes.\<close>

definition has_secret :: "user \<Rightarrow> bool" where
  "has_secret u \<longleftrightarrow> u_totpSecret u \<noteq> None \<and> u_totpSecret u \<noteq> Some []"

definition confirm2faSetup :: "env \<Rightarrow> auth_env \<Rightarrow> uuid \<Rightarrow> string \<Rightarrow> world \<Rightarrow> string list result \<times> world" where
  "confirm2faSetup env ae userId token w =
     (case find_user env (\<lambda>u. u_id u = userId) w of
        None \<Rightarrow> (Inl (Unauthorized ''2FA setup not initiated''), w)
      | Some u \<Rightarrow>
          if \<not> has_secret u then (Inl (Unauthorized ''2FA setup not initiated''), w)
          else if \<not> totp_verify ae token (the (u_totpSecret u)) then (Inl (Unauthorized ''Invalid TOTP code''), w)
          else then_do (save_user (u\<lparr>u_twoFactorEnabled := True,
              u_totpBackupCodes := Some (map (bcrypt_hash env) (random_codes ae))\<rparr>) w) (\<lambda>_ w.
            (Inr (random_codes ae), w)))"

section \<open>Logging in with the second factor\<close>

text \<open>\<open>findOne({ where: { id: payload.sub } })\<close> for a verified temporary token.\<close>

definition pending_user :: "env \<Rightarrow> auth_env \<Rightarrow> string \<Rightarrow> world \<Rightarrow> user option result" where
  "pending_user env ae tempToken w =
     (case verifyTempToken env ae tempToken of
        Inl e \<Rightarrow> Inl e
      | Inr p \<Rightarrow> find_subject env (case js_get ''sub'' (Some p) of Some (Some JNull) \<Rightarrow> None | Some v \<Rightarrow> v | None \<Rightarrow> None) w)"

definition verifyTotpLogin :: "env \<Rightarrow> auth_env \<Rightarrow> string \<Rightarrow> string \<Rightarrow> world \<Rightarrow> (user \<times> token_pair) result" where
  "verifyTotpLogin env ae token tempToken w =
     (case pending_user env ae tempToken w of
        Inl e \<Rightarrow> Inl e
      | Inr None \<Rightarrow> Inl (Unauthorized ''User not found or 2FA not set up'')
      | Inr (Some u) \<Rightarrow>
          if \<not> has_secret u then Inl (Unauthorized ''User not found or 2FA not set up'')
          else if \<not> totp_verify ae token (the (u_totpSecret u)) then Inl (Unauthorized ''Invalid TOTP code'')
          else map_sum id (Pair u) (generateTokens env ae u))"

text \<open>The loop over the stored hashes: the index of the first that matches.\<close>

fun match_index :: "(string \<Rightarrow> bool) \<Rightarrow> string list \<Rightarrow> nat option" where
  "match_index P [] = None"
| "match_index P (h # hs) = (if P h then Some 0 else map_option Suc (match_index P hs))"

definition drop_index :: "nat \<Rightarrow> 'a list \<Rightarrow> 'a list" where
  "drop_index i xs = map snd (filter (\<lambda>p. fst p \<noteq> i) (enumerate 0 xs))"

definition verifyBackupCode ::
  "env \<Rightarrow> auth_env \<Rightarrow> string \<Rightarrow> string \<Rightarrow> world \<Rightarrow> (user \<times> token_pair \<times> nat) result \<times> world" where
  "verifyBackupCode env ae backupCode tempToken w =
     (case pending_user env ae tempToken w of
        Inl e \<Rightarrow> (Inl e, w)
      | Inr None \<Rightarrow> (Inl (Unauthorized ''User not found or no backup codes available''), w)
      | Inr (Some u) \<Rightarrow>
          (case u_totpBackupCodes u of
             None \<Rightarrow> (Inl (Unauthorized ''User not found or no backup codes available''), w)
           | Some codes \<Rightarrow>
               if codes = [] then (Inl (Unauthorized ''User not found or no backup codes available''), w)
               else (case match_index (bcrypt_compare env backupCode) codes of
                  None \<Rightarrow> (Inl (Unauthorized ''Invalid backup code''), w)
                | Some i \<Rightarrow>
                    let u' = u\<lparr>u_totpBackupCodes := Some (drop_index i codes)\<rparr>
                    in then_do (save_user u' w) (\<lambda>_ w.
                         (map_sum id (\<lambda>tp. (u', tp, length (drop_index i codes))) (generateTokens env ae u'), w)))))"

section \<open>Managing\<close>

definition disable2fa :: "env \<Rightarrow> uuid \<Rightarrow> string \<Rightarrow> world \<Rightarrow> unit result \<times> world" where
  "disable2fa env userId pw w =
     (case find_user env (\<lambda>u. u_id u = userId) w of
        None \<Rightarrow> (Inl (Unauthorized ''User not found''), w)
      | Some u \<Rightarrow>
          check_that (verifyPassword env pw (u_password u)) (\<lambda>ok w.
            if \<not> ok then (Inl (Unauthorized ''Invalid password''), w)
            else save_user (u\<lparr>u_twoFactorEnabled := False, u_totpSecret := None, u_totpBackupCodes := None\<rparr>) w) w)"

definition get2faStatus :: "env \<Rightarrow> uuid \<Rightarrow> world \<Rightarrow> (bool \<times> nat) result" where
  "get2faStatus env userId w =
     (case find_user env (\<lambda>u. u_id u = userId) w of
        None \<Rightarrow> Inl (Unauthorized ''User not found'')
      | Some u \<Rightarrow> Inr (u_twoFactorEnabled u, case u_totpBackupCodes u of None \<Rightarrow> 0 | Some cs \<Rightarrow> length cs))"

section \<open>Trusted devices\<close>

record trusted_device =
  td_id :: uuid
  td_userId :: uuid
  td_deviceToken :: string
  td_deviceLabel :: string
  td_expiresAt :: instant
  td_createdAt :: instant

definition TRUST_DAYS :: int where
  "TRUST_DAYS = 30"

text \<open>
  \<open>setDate(getDate() + 30)\<close>: thirty days later in local time, that is, in UTC, where the server
  runs. \<open>raw\<close> is the random token.
\<close>

definition createTrustedDevice ::
  "env \<Rightarrow> user \<Rightarrow> string \<Rightarrow> string \<Rightarrow> trusted_device list \<Rightarrow> string \<times> trusted_device list" where
  "createTrustedDevice env u label raw devs =
     (raw, save_row td_id
        \<lparr>td_id = uuid1 env, td_userId = u_id u, td_deviceToken = bcrypt_hash env raw, td_deviceLabel = label,
         td_expiresAt = now env + TRUST_DAYS * ms_per_day, td_createdAt = now env\<rparr> devs)"

definition pruneExpired :: "env \<Rightarrow> user \<Rightarrow> trusted_device list \<Rightarrow> trusted_device list" where
  "pruneExpired env u devs = delete_where (\<lambda>d. td_userId d = u_id u \<and> td_expiresAt d < now env) devs"

definition isTrustedDevice :: "env \<Rightarrow> user \<Rightarrow> string \<Rightarrow> trusted_device list \<Rightarrow> bool \<times> trusted_device list" where
  "isTrustedDevice env u raw devs =
     (let devs' = pruneExpired env u devs
      in (list_ex (\<lambda>d. \<not> td_expiresAt d < now env \<and> bcrypt_compare env raw (td_deviceToken d))
            (filter (\<lambda>d. td_userId d = u_id u) devs'), devs'))"

definition listTrustedDevices ::
  "env \<Rightarrow> user \<Rightarrow> trusted_device list \<Rightarrow> (uuid \<times> string \<times> instant \<times> instant) list \<times> trusted_device list" where
  "listTrustedDevices env u devs =
     (let devs' = pruneExpired env u devs
      in (map (\<lambda>d. (td_id d, td_deviceLabel d, td_expiresAt d, td_createdAt d))
            (newest_first td_createdAt (filter (\<lambda>d. td_userId d = u_id u) devs')), devs'))"

definition revokeTrustedDevice :: "user \<Rightarrow> uuid \<Rightarrow> trusted_device list \<Rightarrow> unit result \<times> trusted_device list" where
  "revokeTrustedDevice u deviceId devs =
     (case find_by td_id deviceId devs of
        None \<Rightarrow> (Inl (NotFound ''Trusted device not found.''), devs)
      | Some d \<Rightarrow>
          if td_userId d \<noteq> u_id u then (Inl (Forbidden ''Cannot revoke another user's device.''), devs)
          else (Inr (), delete_where (\<lambda>x. td_id x = deviceId) devs))"

definition revokeAllTrustedDevices :: "user \<Rightarrow> trusted_device list \<Rightarrow> nat \<times> trusted_device list" where
  "revokeAllTrustedDevices u devs =
     (count_where (\<lambda>d. td_userId d = u_id u) devs, delete_where (\<lambda>d. td_userId d = u_id u) devs)"

text \<open>The device table is a repository as the entity tables of the world are.\<close>

interpretation device_repo: repository "find_by td_id" "save_row td_id" td_id
  by (rule repository_list)

section \<open>What the second factor gives\<close>

lemma refreshToken_unknown:
  assumes "findByToken env token w = None"
  shows "\<exists>e. refreshToken env ae token w = (Inl e, w)"
  using assms unfolding refreshToken_def refresh_check_def
  by (auto split: sum.splits option.splits)

text \<open>
  a session opened through the second factor cannot be refreshed: neither verifyTotpLogin nor
  verifyBackupCode stores the refresh token they hand out, so presenting it is refused, whatever
  the time, unless that very token had been stored before.
\<close>

theorem two_factor_session_not_refreshable:
  assumes "verifyTotpLogin env ae token tempToken w = Inr (u, tp) \<and> w' = w \<or>
           verifyBackupCode env ae code tempToken w = (Inr (u, tp, n), w')"
    and "findByToken env (tp_refreshToken tp) w = None" and "sha256 env' = sha256 env"
  shows "tokens w' = tokens w \<and> (\<exists>e. refreshToken env' ae' (tp_refreshToken tp) w' = (Inl e, w'))"
proof -
  have "tokens w' = tokens w"
    using assms(1)
    by (auto simp: verifyBackupCode_def then_do_Inr save_user_Inr Let_def split: sum.splits option.splits if_splits)
  moreover from this assms(2,3) have "findByToken env' (tp_refreshToken tp) w' = None"
    by (simp add: findByToken_def hashRefreshToken_def)
  ultimately show ?thesis using refreshToken_unknown by blast
qed

definition sample_2fa :: world where
  "sample_2fa = sample_world\<lparr>users := users sample_world @
     [sample_new_user\<lparr>u_isVerified := True, u_twoFactorEnabled := True, u_totpSecret := Some ''secret'',
        u_totpBackupCodes := Some [''code1'', ''code2'']\<rparr>]\<rparr>"

theorem two_factor_session_not_refreshable_witness:
  "\<exists>u tp e. verifyTotpLogin (auth_time 7 ''t1'') sample_auth ''123456'' ''bob:0'' sample_2fa = Inr (u, tp) \<and>
     refreshToken (auth_time 1007 ''t2'') sample_auth (tp_refreshToken tp) sample_2fa = (Inl e, sample_2fa)"
proof -
  let ?r = "verifyTotpLogin (auth_time 7 ''t1'') sample_auth ''123456'' ''bob:0'' sample_2fa"
  have "is_ok ?r" by code_simp
  then obtain u tp where r: "?r = Inr (u, tp)" by (auto simp: is_ok_iff)
  have "findByToken (auth_time 7 ''t1'') (tp_refreshToken tp) sample_2fa = None"
    by (simp add: findByToken_def sample_2fa_def sample_world_def)
  moreover have "sha256 (auth_time 1007 ''t2'') = sha256 (auth_time 7 ''t1'')" by (simp add: auth_time_def)
  ultimately have "\<exists>e. refreshToken (auth_time 1007 ''t2'') sample_auth (tp_refreshToken tp) sample_2fa = (Inl e, sample_2fa)"
    using two_factor_session_not_refreshable [of _ _ _ _ sample_2fa u tp sample_2fa] r by blast
  with r show ?thesis by blast
qed

section \<open>Backup codes and devices\<close>

lemma match_index_Some:
  "match_index P hs = Some i \<Longrightarrow> i < length hs \<and> P (hs ! i) \<and> (\<forall>j<i. \<not> P (hs ! j))"
  by (induction hs arbitrary: i) (auto simp: less_Suc_eq_0_disj split: if_splits)

lemma match_index_None: "match_index P hs = None \<longleftrightarrow> (\<forall>h\<in>set hs. \<not> P h)"
  by (induction hs) auto

lemma drop_index_enumerate:
  "map snd (filter (\<lambda>p. fst p \<noteq> n + i) (enumerate n xs)) = take i xs @ drop (Suc i) xs"
proof (induction xs arbitrary: n i)
  case Nil
  then show ?case by simp
next
  case (Cons x xs)
  show ?case
  proof (cases i)
    case 0
    have "filter (\<lambda>p. fst p \<noteq> n) (enumerate (Suc n) xs) = enumerate (Suc n) xs"
      by (rule filter_True) (auto simp: in_set_enumerate_eq)
    with 0 show ?thesis by simp
  next
    case (Suc j)
    with Cons.IH [of "Suc n" j] show ?thesis by simp
  qed
qed

lemma drop_index_take_drop: "drop_index i xs = take i xs @ drop (Suc i) xs"
  using drop_index_enumerate [of 0 i xs] by (simp add: drop_index_def)

text \<open>
  A backup code that matches one stored hash is spent by its use: exactly that hash goes, and the
  code is refused afterwards.
\<close>

lemma backup_code_spent:
  assumes "verifyBackupCode env ae code tempToken w = (Inr (u', tp, n), w')"
    and "uniq_keys u_id (users w)"
  obtains u codes i where "pending_user env ae tempToken w = Inr (Some u)" "u_totpBackupCodes u = Some codes"
    "match_index (bcrypt_compare env code) codes = Some i" "n + 1 = length codes"
    "u_totpBackupCodes u' = Some (take i codes @ drop (Suc i) codes)"
    "u' \<in> set (users w')"
proof -
  from assms(1) obtain u codes where u: "pending_user env ae tempToken w = Inr (Some u)"
    "u_totpBackupCodes u = Some codes" "codes \<noteq> []"
    by (auto simp: verifyBackupCode_def split: sum.splits option.splits if_splits)
  with assms(1) obtain i where i: "match_index (bcrypt_compare env code) codes = Some i"
    by (auto simp: verifyBackupCode_def split: option.splits)
  let ?u = "u\<lparr>u_totpBackupCodes := Some (drop_index i codes)\<rparr>"
  have ms: "map_sum id (\<lambda>tp. (?u, tp, length (drop_index i codes))) r = Inr (u', tp, n) \<Longrightarrow>
      u' = ?u \<and> n = length (drop_index i codes)" for r :: "token_pair result"
    by (cases r) auto
  from assms(1) u i have "u' = ?u" "n = length (drop_index i codes)" "users w' = save_row u_id ?u (users w)"
    using ms by (auto simp: verifyBackupCode_def then_do_Inr save_user_Inr Let_def)
  moreover have "i < length codes" using match_index_Some [OF i] by blast
  ultimately show ?thesis
    using that [OF u(1,2) i] save_row_self [of ?u u_id] by (simp add: drop_index_take_drop)
qed

text \<open>A remembered device is recognised for thirty days and no longer.\<close>

lemma device_remembered:
  assumes "\<And>p. bcrypt_compare env' p (bcrypt_hash env p)" "uuid1 env \<notin> td_id ` set devs"
    and "createTrustedDevice env u label raw devs = (raw', devs')"
    and "now env' \<le> now env + 30 * ms_per_day"
  shows "fst (isTrustedDevice env' u raw' devs')"
  using assms
  by (auto simp: createTrustedDevice_def isTrustedDevice_def pruneExpired_def delete_where_def
      save_row_fresh TRUST_DAYS_def Let_def list_ex_iff)

lemma device_forgotten:
  assumes "\<forall>d\<in>set devs. td_userId d = u_id u \<longrightarrow> td_expiresAt d < now env"
  shows "\<not> fst (isTrustedDevice env u raw devs)"
  using assms by (auto simp: isTrustedDevice_def pruneExpired_def delete_where_def Let_def list_ex_iff)

text \<open>
  Starting the set-up again replaces the secret of an account whose second factor is on: the codes
  of the device it was set up with are refused from then on.
\<close>

lemma setup_replaces_secret:
  assumes "initiate2faSetup env ae userId w = (r, w')" "uniq_keys u_id (users w)"
    and "find_user env (\<lambda>u. u_id u = userId) w = Some u" "u_password u \<noteq> None"
    and "pending_user env ae tempToken w' = Inr (find_user env (\<lambda>u. u_id u = userId) w')"
    and "\<not> totp_verify ae token (totp_secret ae)"
  shows "find_user env (\<lambda>u. u_id u = userId) w' = Some (u\<lparr>u_totpSecret := Some (totp_secret ae)\<rparr>) \<and>
    (\<exists>e. verifyTotpLogin env ae token tempToken w' = Inl (Unauthorized e))"
proof -
  let ?v = "u\<lparr>u_totpSecret := Some (totp_secret ae)\<rparr>"
  from assms(1,3,4) have "users w' = save_row u_id ?v (users w)"
    by (auto simp: initiate2faSetup_def then_do_def save_user_def)
  with find_user_saved [OF assms(2,3), of ?v w' env] find_userD [OF assms(3)]
  have "find_user env (\<lambda>u. u_id u = userId) w' = Some ?v" by simp
  with assms(5,6) show ?thesis by (auto simp: verifyTotpLogin_def has_secret_def)
qed

end
