(* ===== verification/Users.thy ===== *)
theory Users
  imports Two_Factor
begin

text \<open>
  The users module: the access rules of \<open>users/utils/user-access.util.ts\<close>, account updates,
  deletion and anonymisation, membership status, the member list and statistics, the profile
  picture and the password reset by a mailed link (\<open>users/providers/\<close>).

  A property of an update body is a \<open>patch\<close>: absent (\<open>None\<close>), null (\<open>Some None\<close>) or a value.
\<close>

type_synonym 'a patch = "'a option option"

text \<open>\<open>utils/error.ts\<close>: HTTP exceptions pass, anything else becomes a 500.\<close>

definition ErrorCatch :: "string \<Rightarrow> 'a result \<Rightarrow> 'a result" where
  "ErrorCatch msg r =
     (case r of
        Inl e \<Rightarrow> if is_http_exception e then Inl e else Inl (InternalServerError msg)
      | Inr x \<Rightarrow> Inr x)"

section \<open>Access rules\<close>

definition ADMIN_ONLY_UPDATE_FIELDS :: "string list" where
  "ADMIN_ONLY_UPDATE_FIELDS =
     [''role'', ''isVerified'', ''isActive'', ''verificationToken'', ''verificationTokenExpiry'',
      ''passwordResetToken'', ''passwordResetExpiresIn'', ''lastPasswordResetSentAt'',
      ''lastVerificationEmailSent'']"

definition isAdminLike :: "string option \<Rightarrow> bool" where
  "isAdminLike role \<longleftrightarrow> role = Some (role_string ADMIN) \<or> role = Some (role_string SUPER_ADMIN)"

definition canMutateUser :: "string option \<Rightarrow> uuid option \<Rightarrow> uuid \<Rightarrow> bool" where
  "canMutateUser role actorId target \<longleftrightarrow>
     (if actorId = None \<or> actorId = Some [] then False else actorId = Some target \<or> isAdminLike role)"

record update_user_dto =
  uu_firstname :: "string patch"
  uu_lastname :: "string patch"
  uu_username :: "string patch"
  uu_email :: "string patch"
  uu_password :: "string patch"
  uu_role :: "string patch"
  uu_verificationToken :: "string patch"
  uu_verificationTokenExpiry :: "instant patch"
  uu_passwordResetToken :: "string patch"
  uu_passwordResetExpiresIn :: "instant patch"
  uu_lastPasswordResetSentAt :: "instant patch"
  uu_lastVerificationEmailSent :: "instant patch"
  uu_isVerified :: "bool patch"
  uu_isActive :: "bool patch"

definition given_fields :: "update_user_dto \<Rightarrow> (string \<times> bool) list" where
  "given_fields d =
     [(''firstname'', uu_firstname d \<noteq> None), (''lastname'', uu_lastname d \<noteq> None),
      (''username'', uu_username d \<noteq> None), (''email'', uu_email d \<noteq> None),
      (''password'', uu_password d \<noteq> None), (''role'', uu_role d \<noteq> None),
      (''verificationToken'', uu_verificationToken d \<noteq> None),
      (''verificationTokenExpiry'', uu_verificationTokenExpiry d \<noteq> None),
      (''passwordResetToken'', uu_passwordResetToken d \<noteq> None),
      (''passwordResetExpiresIn'', uu_passwordResetExpiresIn d \<noteq> None),
      (''lastPasswordResetSentAt'', uu_lastPasswordResetSentAt d \<noteq> None),
      (''lastVerificationEmailSent'', uu_lastVerificationEmailSent d \<noteq> None),
      (''isVerified'', uu_isVerified d \<noteq> None), (''isActive'', uu_isActive d \<noteq> None)]"

definition field_given :: "update_user_dto \<Rightarrow> string \<Rightarrow> bool" where
  "field_given d f \<longleftrightarrow> map_of (given_fields d) f = Some True"

definition findAdminOnlyFields :: "update_user_dto \<Rightarrow> string list" where
  "findAdminOnlyFields d = filter (field_given d) ADMIN_ONLY_UPDATE_FIELDS"

section \<open>Updating an account\<close>

fun keep :: "'a patch \<Rightarrow> 'a \<Rightarrow> 'a" where
  "keep (Some (Some v)) old = v"
| "keep _ old = old"

fun keep_null :: "'a patch \<Rightarrow> 'a option \<Rightarrow> 'a option" where
  "keep_null (Some v) old = v"
| "keep_null None old = old"

definition role_of_string :: "string \<Rightarrow> user_role option" where
  "role_of_string s = find_one (\<lambda>r. role_string r = s) [SUPER_ADMIN, ADMIN, STAFF, USER]"

text \<open>
  What the database rejects of the assigned row: null in a \<open>NOT NULL\<close> column, a role outside the
  enumeration, an e-mail another row holds.
\<close>

definition rejected_update :: "update_user_dto \<Rightarrow> user \<Rightarrow> world \<Rightarrow> bool" where
  "rejected_update d u w \<longleftrightarrow>
     uu_firstname d = Some None \<or> uu_lastname d = Some None \<or> uu_email d = Some None \<or>
     uu_password d = Some None \<or> uu_role d = Some None \<or> uu_isVerified d = Some None \<or>
     uu_isActive d = Some None \<or>
     (case uu_role d of Some (Some s) \<Rightarrow> role_of_string s = None | _ \<Rightarrow> False) \<or>
     (case uu_email d of
        Some (Some m) \<Rightarrow> list_ex (\<lambda>x. u_id x \<noteq> u_id u \<and> u_email x = m) (users w) | _ \<Rightarrow> False)"

text \<open>\<open>Object.assign(user, updateData)\<close>, with the password hashed when it is truthy.\<close>

definition assign_user :: "env \<Rightarrow> update_user_dto \<Rightarrow> user \<Rightarrow> user" where
  "assign_user env d u =
     u\<lparr>u_firstname := keep (uu_firstname d) (u_firstname u),
       u_lastname := keep (uu_lastname d) (u_lastname u),
       u_username := keep_null (uu_username d) (u_username u),
       u_email := keep (uu_email d) (u_email u),
       u_password := (case uu_password d of
          Some (Some p) \<Rightarrow> Some (if p = [] then p else hashPassword env p) | _ \<Rightarrow> u_password u),
       u_role := (case uu_role d of
          Some (Some s) \<Rightarrow> (case role_of_string s of Some r \<Rightarrow> r | None \<Rightarrow> u_role u) | _ \<Rightarrow> u_role u),
       u_verificationToken := keep_null (uu_verificationToken d) (u_verificationToken u),
       u_verificationTokenExpiry := keep_null (uu_verificationTokenExpiry d) (u_verificationTokenExpiry u),
       u_passwordResetToken := keep_null (uu_passwordResetToken d) (u_passwordResetToken u),
       u_passwordResetExpiresIn := keep_null (uu_passwordResetExpiresIn d) (u_passwordResetExpiresIn u),
       u_lastPasswordResetSentAt := keep_null (uu_lastPasswordResetSentAt d) (u_lastPasswordResetSentAt u),
       u_lastVerificationEmailSent := keep_null (uu_lastVerificationEmailSent d) (u_lastVerificationEmailSent u),
       u_isVerified := keep (uu_isVerified d) (u_isVerified u),
       u_isActive := keep (uu_isActive d) (u_isActive u)\<rparr>"

definition role_change_requested :: "update_user_dto \<Rightarrow> user \<Rightarrow> bool" where
  "role_change_requested d u \<longleftrightarrow> uu_role d \<noteq> None \<and> uu_role d \<noteq> Some (Some (role_string (u_role u)))"

definition remaining_admins :: "env \<Rightarrow> uuid \<Rightarrow> world \<Rightarrow> nat" where
  "remaining_admins env k w =
     count_where (\<lambda>u. (soft_hidden env \<longrightarrow> u_deletedAt u = None) \<and> u_id u \<noteq> k \<and> u_isActive u \<and>
       \<not> u_isDeleted u \<and> (u_role u = ADMIN \<or> u_role u = SUPER_ADMIN)) (users w)"

record actor =
  ac_id :: "uuid option"
  ac_role :: "string option"
  ac_email :: "string option"

definition audit_of :: "actor \<Rightarrow> string \<Rightarrow> uuid \<Rightarrow> audit_log" where
  "audit_of ac what target =
     \<lparr>a_actorId = ac_id ac, a_actorEmail = ac_email ac, a_actorRole = ac_role ac, a_action = what,
      a_targetType = Some ''user'', a_targetId = Some target\<rparr>"

definition add_audit :: "audit_log \<Rightarrow> world \<Rightarrow> world" where
  "add_audit a w = w\<lparr>audit := audit w @ [a]\<rparr>"

text \<open>The gates, in the order of the code: the user found, or the exception.\<close>

definition update_gates :: "env \<Rightarrow> uuid \<Rightarrow> update_user_dto \<Rightarrow> actor \<Rightarrow> world \<Rightarrow> user result" where
  "update_gates env k d ac w =
     (case find_user env (\<lambda>u. u_id u = k) w of
        None \<Rightarrow> Inl (NotFound ''User not found'')
      | Some u \<Rightarrow>
          if \<not> list_ex snd (given_fields d) then Inl (BadRequest ''No fields provided for update'')
          else if \<not> canMutateUser (ac_role ac) (ac_id ac) k
          then Inl (Forbidden ''You do not have permission to update this user'')
          else if findAdminOnlyFields d \<noteq> [] \<and> \<not> isAdminLike (ac_role ac)
          then Inl (Forbidden ''Field(s) not allowed for self-service updates'')
          else if role_change_requested d u \<and> ac_id ac = Some k
          then Inl (Forbidden ''You cannot change your own role; ask another administrator'')
          else if role_change_requested d u \<and> isAdminLike (Some (role_string (u_role u))) \<and>
                  \<not> isAdminLike (case uu_role d of Some r \<Rightarrow> r | None \<Rightarrow> None) \<and> remaining_admins env k w = 0
          then Inl (BadRequest ''Cannot demote the last active administrator'')
          else Inr u)"

definition updateUser :: "env \<Rightarrow> uuid \<Rightarrow> update_user_dto \<Rightarrow> actor \<Rightarrow> world \<Rightarrow> user result \<times> world" where
  "updateUser env k d ac w =
     (case update_gates env k d ac w of
        Inl e \<Rightarrow> (ErrorCatch ''Failed to update user'' (Inl e), w)
      | Inr u \<Rightarrow>
          if rejected_update d u w then (ErrorCatch ''Failed to update user'' (Inl (DbError ''users'')), w)
          else let u' = assign_user env d u; w1 = w\<lparr>users := save_row u_id u' (users w)\<rparr>
               in (Inr u', if role_change_requested d u
                           then add_audit (audit_of ac ''users.role_change'' k) w1 else w1))"

section \<open>Deleting and anonymising\<close>

text \<open>
  The hard delete. \<open>bookings\<close>, \<open>payments\<close>, \<open>invoices\<close> and \<open>workspace_logs\<close> restrict it, refresh
  tokens cascade.
\<close>

definition referenced_user :: "uuid \<Rightarrow> world \<Rightarrow> bool" where
  "referenced_user k w \<longleftrightarrow>
     list_ex (\<lambda>b. b_userId b = Some k) (bookings w) \<or> list_ex (\<lambda>p. p_userId p = Some k) (payments w) \<or>
     list_ex (\<lambda>i. i_userId i = Some k) (invoices w) \<or> list_ex (\<lambda>l. l_userId l = k) (logs w)"

definition deleteUser :: "uuid \<Rightarrow> actor \<Rightarrow> world \<Rightarrow> unit result \<times> world" where
  "deleteUser k ac w =
     (if \<not> isAdminLike (ac_role ac) then (Inl (Forbidden ''Only administrators can delete user accounts''), w)
      else if count_where (\<lambda>u. u_id u = k) (users w) = 0 then (Inl (NotFound ''User not found''), w)
      else if referenced_user k w then (ErrorCatch ''Failed to delete user'' (Inl (DbError ''foreign key'')), w)
      else (Inr (), add_audit (audit_of ac ''users.admin_delete'' k)
              (w\<lparr>users := delete_where (\<lambda>u. u_id u = k) (users w),
                 tokens := delete_where (\<lambda>t. t_userId t = k) (tokens w)\<rparr>)))"

definition placeholder_name :: "uuid \<Rightarrow> string" where
  "placeholder_name k = ''deleted-user-'' @ takeWhile (\<lambda>c. c \<noteq> CHR ''-'') k"

definition anonymised_user :: "env \<Rightarrow> string \<Rightarrow> user \<Rightarrow> user" where
  "anonymised_user env salt u =
     u\<lparr>u_email := sha256 env (u_email u @ ''::'' @ salt) @ ''@deleted.novalabs.internal'',
       u_firstname := placeholder_name (u_id u), u_lastname := [], u_phone := None,
       u_profilePicture := None, u_password := None, u_passwordResetToken := None,
       u_passwordResetExpiresIn := None, u_lastPasswordResetSentAt := None, u_verificationToken := None,
       u_verificationTokenExpiry := None, u_lastVerificationEmailSent := None, u_verificationCode := None,
       u_verificationCodeExpiresAt := None, u_passwordResetCode := None,
       u_passwordResetCodeExpiresAt := None, u_totpSecret := None, u_totpBackupCodes := None,
       u_passkeyCredentials := None, u_twoFactorEnabled := False, u_isVerified := False,
       u_isActive := False, u_isSuspended := False, u_isDeleted := True, u_deletedAt := Some (now env)\<rparr>"

definition unlink_user :: "uuid \<Rightarrow> world \<Rightarrow> world" where
  "unlink_user k w =
     w\<lparr>tokens := delete_where (\<lambda>t. t_userId t = k) (tokens w),
       logs := delete_where (\<lambda>l. l_userId l = k) (logs w),
       bookings := update_where (\<lambda>b. b_userId b = Some k) (\<lambda>b. b\<lparr>b_userId := None\<rparr>) (bookings w),
       payments := update_where (\<lambda>p. p_userId p = Some k) (\<lambda>p. p\<lparr>p_userId := None\<rparr>) (payments w)\<rparr>"

definition purge_user :: "uuid \<Rightarrow> world \<Rightarrow> world" where
  "purge_user k w =
     w\<lparr>tokens := delete_where (\<lambda>t. t_userId t = k) (tokens w),
       logs := delete_where (\<lambda>l. l_userId l = k) (logs w)\<rparr>"

definition anonymise :: "env \<Rightarrow> string \<Rightarrow> uuid \<Rightarrow> world \<Rightarrow> unit result \<times> world" where
  "anonymise env salt k w =
     (case find_user env (\<lambda>u. u_id u = k) w of
        None \<Rightarrow> (Inl (NotFound ''User not found''), w)
      | Some u \<Rightarrow>
          if u_isDeleted u then (Inr (), w)
          else (case transaction (\<lambda>w.
                  let ac = \<lparr>ac_id = Some (u_id u), ac_role = Some (role_string (u_role u)), ac_email = Some (u_email u)\<rparr>;
                      w1 = add_audit (audit_of ac ''users.anonymise'' (u_id u)) w
                  in save_user (anonymised_user env salt u) (unlink_user k w1)) w of
                (Inl e, w') \<Rightarrow> (Inl e, w')
              | (Inr _, w') \<Rightarrow> (Inr (), purge_user k w')))"

definition hardenDeletedUsers :: "env \<Rightarrow> world \<Rightarrow> (nat \<times> nat) \<times> world" where
  "hardenDeletedUsers env w =
     (let ids = map u_id (filter (\<lambda>u. (soft_hidden env \<longrightarrow> u_deletedAt u = None) \<and> u_isDeleted u) (users w))
      in if ids = [] then ((0, 0), w)
         else ((count_where (\<lambda>t. t_userId t \<in> set ids) (tokens w), count_where (\<lambda>l. l_userId l \<in> set ids) (logs w)),
               w\<lparr>tokens := delete_where (\<lambda>t. t_userId t \<in> set ids) (tokens w),
                 logs := delete_where (\<lambda>l. l_userId l \<in> set ids) (logs w),
                 users := update_where (\<lambda>u. u_id u \<in> set ids \<and> u_deletedAt u = None)
                   (\<lambda>u. u\<lparr>u_deletedAt := Some (now env)\<rparr>) (users w)\<rparr>))"

definition countAnonymisedFinancialRecords :: "world \<Rightarrow> nat \<times> nat" where
  "countAnonymisedFinancialRecords w =
     (count_where (\<lambda>b. b_userId b = None) (bookings w), count_where (\<lambda>p. p_userId p = None) (payments w))"

section \<open>Members\<close>

definition updateStatus :: "env \<Rightarrow> uuid \<Rightarrow> membership_status \<Rightarrow> world \<Rightarrow> user result \<times> world" where
  "updateStatus env k status w =
     (case find_user env (\<lambda>u. u_id u = k) w of
        None \<Rightarrow> (Inl (NotFound ''Member not found''), w)
      | Some u \<Rightarrow>
          let u' = u\<lparr>u_membershipStatus := status, u_isSuspended := (status = M_SUSPENDED),
                     u_isActive := (status \<noteq> M_SUSPENDED),
                     u_memberSince := (if status = M_ACTIVE \<and> u_memberSince u = None then Some (now env)
                                       else u_memberSince u)\<rparr>
          in then_do (save_user u' w) (\<lambda>_ w. (Inr u', w)))"

text \<open>
  \<open>LIKE\<close>: a percent sign stands for any text, an underscore for one character, a backslash
  escapes.
\<close>

fun like :: "string \<Rightarrow> string \<Rightarrow> bool" where
  "like [] s = (s = [])"
| "like (p # ps) s =
     (if p = CHR ''%'' then like ps s \<or> (case s of [] \<Rightarrow> False | c # t \<Rightarrow> like (p # ps) t)
      else if p = CHR 0x5C
      then (case ps of [] \<Rightarrow> False | q # qs \<Rightarrow> (case s of [] \<Rightarrow> False | c # t \<Rightarrow> if c = q then like qs t else False))
      else (case s of [] \<Rightarrow> False | c # t \<Rightarrow> if p = CHR ''_'' \<or> c = p then like ps t else False))"

record member_query =
  mq_page :: "int option"
  mq_limit :: "int option"
  mq_status :: "membership_status option"
  mq_search :: "string option"

definition member_filter :: "env \<Rightarrow> member_query \<Rightarrow> user \<Rightarrow> bool" where
  "member_filter env q u \<longleftrightarrow>
     (soft_hidden env \<longrightarrow> u_deletedAt u = None) \<and> \<not> u_isDeleted u \<and>
     (case mq_status q of None \<Rightarrow> True | Some s \<Rightarrow> u_membershipStatus u = s) \<and>
     (case mq_search q of
        None \<Rightarrow> True
      | Some [] \<Rightarrow> True
      | Some s \<Rightarrow> (let pat = ''%'' @ to_lower s @ ''%''
                   in like pat (to_lower (u_firstname u)) \<or> like pat (to_lower (u_lastname u)) \<or>
                      like pat (to_lower (u_email u))))"

record member_page =
  mp_data :: "user list"
  mp_total :: nat
  mp_page :: int
  mp_limit :: int
  mp_totalPages :: nat

definition getMembers :: "env \<Rightarrow> member_query \<Rightarrow> world \<Rightarrow> member_page result" where
  "getMembers env q w =
     (let page = (case mq_page q of None \<Rightarrow> 1 | Some p \<Rightarrow> p);
          lmt = (case mq_limit q of None \<Rightarrow> 20 | Some l \<Rightarrow> l);
          rows = filter (member_filter env q) (users w)
      in case paginate page lmt (newest_first u_createdAt rows) of
           Inl e \<Rightarrow> Inl e
         | Inr xs \<Rightarrow> Inr \<lparr>mp_data = xs, mp_total = length rows, mp_page = page, mp_limit = lmt,
                          mp_totalPages = total_pages (length rows) (nat lmt)\<rparr>)"

record member_stats =
  ms_total :: nat
  ms_active :: nat
  ms_inactive :: nat
  ms_suspended :: nat
  ms_verified :: nat

definition member_count :: "env \<Rightarrow> (user \<Rightarrow> bool) \<Rightarrow> world \<Rightarrow> nat" where
  "member_count env P w =
     count_where (\<lambda>u. (soft_hidden env \<longrightarrow> u_deletedAt u = None) \<and> \<not> u_isDeleted u \<and> P u) (users w)"

definition getStats :: "env \<Rightarrow> world \<Rightarrow> member_stats" where
  "getStats env w =
     \<lparr>ms_total = member_count env (\<lambda>_. True) w,
      ms_active = member_count env (\<lambda>u. u_membershipStatus u = M_ACTIVE) w,
      ms_inactive = member_count env (\<lambda>u. u_membershipStatus u = M_INACTIVE) w,
      ms_suspended = member_count env (\<lambda>u. u_membershipStatus u = M_SUSPENDED) w,
      ms_verified = member_count env u_isVerified w\<rparr>"

definition nonempty :: "string option \<Rightarrow> bool" where
  "nonempty s \<longleftrightarrow> s \<noteq> None \<and> s \<noteq> Some []"

definition computeProfileCompleteness :: "user \<Rightarrow> int" where
  "computeProfileCompleteness u =
     (if u_firstname u \<noteq> [] \<and> u_lastname u \<noteq> [] then 10 else 0) +
     (if u_isVerified u then 20 else 0) + (if nonempty (u_phone u) then 15 else 0) +
     (if nonempty (u_profilePicture u) then 15 else 0) + (if nonempty (u_username u) then 10 else 0) +
     (if u_memberSince u \<noteq> None then 10 else 0) + (if u_membershipStatus u = M_ACTIVE then 20 else 0)"

definition findUserById :: "env \<Rightarrow> uuid \<Rightarrow> world \<Rightarrow> user result" where
  "findUserById env k w =
     (case find_user env (\<lambda>u. u_id u = k) w of
        None \<Rightarrow> Inl (Unauthorized ''Credentials are not valid'')
      | Some u \<Rightarrow> Inr u)"

definition getMemberProfile :: "env \<Rightarrow> uuid \<Rightarrow> world \<Rightarrow> user result \<times> world" where
  "getMemberProfile env k w =
     (case findUserById env k w of
        Inl e \<Rightarrow> (Inl e, w)
      | Inr u \<Rightarrow>
          let c = computeProfileCompleteness u
          in if u_profileCompleteness u = c then (Inr u, w)
             else (Inr (u\<lparr>u_profileCompleteness := c\<rparr>),
                   w\<lparr>users := update_where (\<lambda>x. u_id x = u_id u) (\<lambda>x. x\<lparr>u_profileCompleteness := c\<rparr>) (users w)\<rparr>))"

section \<open>Passwords by mailed link, pictures, export\<close>

text \<open>
  \<open>parseInt\<close> of the configured milliseconds, \<open>NaN\<close> makes an invalid date. \<open>raw\<close> is the random
  token.
\<close>

definition forgotPassword :: "env \<Rightarrow> auth_env \<Rightarrow> string \<Rightarrow> string \<Rightarrow> world \<Rightarrow> unit result \<times> world" where
  "forgotPassword env ae raw mailbox w =
     (case find_user env (\<lambda>u. u_email u = mailbox) w of
        None \<Rightarrow> (Inl (NotFound ''Email not registered''), w)
      | Some u \<Rightarrow>
          (case parse_count (env_nonempty env ''PASSWORD_RESET_EXPIRATION_MS'' ''300000'') of
             None \<Rightarrow> (ErrorCatch ''Failed to initiate password reset'' (Inl (DbError ''invalid date'')), w)
           | Some ms \<Rightarrow>
               then_do (save_user (u\<lparr>u_passwordResetToken := Some (sha256 env raw),
                   u_passwordResetExpiresIn := Some (now env + int ms)\<rparr>) w) (\<lambda>_ w.
                 send_critical ae PasswordResetLinkMail (u_email u) w)))"

definition resetPasswordByToken :: "env \<Rightarrow> auth_env \<Rightarrow> string \<Rightarrow> string \<Rightarrow> world \<Rightarrow> unit result \<times> world" where
  "resetPasswordByToken env ae raw pw w =
     (case find_user env (\<lambda>u. u_passwordResetToken u = Some (sha256 env raw)) w of
        None \<Rightarrow> (Inl (Unauthorized ''Invalid reset token''), w)
      | Some u \<Rightarrow>
          if code_expired env (u_passwordResetExpiresIn u) then (Inl (BadRequest ''Reset token has expired''), w)
          else then_do (save_user (u\<lparr>u_password := Some (hashPassword env pw), u_passwordResetToken := None,
                 u_passwordResetExpiresIn := None\<rparr>) w) (\<lambda>_ w.
               (Inr (), let w1 = revokeAllRefreshTokens (u_id u) w
                        in if mail_queue_up ae then emit (Mail PasswordResetSuccessMail (u_email u)) w1 else w1)))"

text \<open>\<open>upload\<close> is Cloudinary's answer: the picture's address.\<close>

definition uploadProfilePicture ::
  "env \<Rightarrow> string option \<Rightarrow> uuid \<Rightarrow> uuid \<Rightarrow> user_role \<Rightarrow> world \<Rightarrow> (uuid \<times> string) result \<times> world" where
  "uploadProfilePicture env upload target current role w =
     (if current \<noteq> target \<and> role \<noteq> ADMIN
      then (Inl (BadRequest ''You can only update your own profile picture''), w)
      else case find_user env (\<lambda>u. u_id u = target) w of
        None \<Rightarrow> (Inl (BadRequest ''Failed to upload profile picture''), w)
      | Some u \<Rightarrow>
          (case upload of
             None \<Rightarrow> (Inl (BadRequest ''Failed to upload profile picture''), w)
           | Some url \<Rightarrow>
               (case save_user (u\<lparr>u_profilePicture := Some url\<rparr>) w of
                  (Inl e, w') \<Rightarrow> (Inl (BadRequest ''Failed to upload profile picture''), w')
                | (Inr _, w') \<Rightarrow> (Inr (u_id u, url), w'))))"

text \<open>The four files of the exported archive; the profile is the row without its password.\<close>

definition exportUserData :: "env \<Rightarrow> uuid \<Rightarrow> world \<Rightarrow> (user \<times> booking list \<times> payment list \<times> workspace_log list) result" where
  "exportUserData env k w =
     (case findUserById env k w of
        Inl e \<Rightarrow> Inl e
      | Inr u \<Rightarrow> Inr (u\<lparr>u_password := None\<rparr>, filter (\<lambda>b. b_userId b = Some k) (bookings w),
                 filter (\<lambda>p. p_userId p = Some k) (payments w), filter (\<lambda>l. l_userId l = k) (logs w)))"

section \<open>Routes\<close>

text \<open>
  The routes of \<open>UsersController\<close> in the order of its methods. The router takes the first whose
  verb and path fit; a parameter fits any one segment.
\<close>

datatype segment = Lit string | Param

datatype users_handler =
    H_uploadProfilePicture | H_resetPassword | H_findOne | H_findAll | H_update | H_remove
  | H_exportUserData | H_anonymiseMe

definition users_routes :: "(string \<times> segment list \<times> users_handler) list" where
  "users_routes =
     [(''POST'', [Param, Lit ''profile-picture''], H_uploadProfilePicture),
      (''POST'', [Lit ''reset-password''], H_resetPassword),
      (''GET'', [Param], H_findOne),
      (''GET'', [], H_findAll),
      (''PATCH'', [Param], H_update),
      (''DELETE'', [Param], H_remove),
      (''GET'', [Lit ''me'', Lit ''export.json''], H_exportUserData),
      (''DELETE'', [Lit ''me''], H_anonymiseMe)]"

fun path_fits :: "segment list \<Rightarrow> string list \<Rightarrow> bool" where
  "path_fits [] [] = True"
| "path_fits (Lit a # ps) (s # ss) = (a = s \<and> path_fits ps ss)"
| "path_fits (Param # ps) (s # ss) = path_fits ps ss"
| "path_fits _ _ = False"

definition users_dispatch :: "string \<Rightarrow> string list \<Rightarrow> users_handler option" where
  "users_dispatch verb path =
     map_option (snd \<circ> snd) (find_one (\<lambda>(v, ps, h). v = verb \<and> path_fits ps path) users_routes)"

section \<open>Who may change what\<close>

lemma ErrorCatch_Inl: "ErrorCatch msg (Inl e) \<noteq> Inr x"
  by (simp add: ErrorCatch_def)

lemma update_gates_Inr:
  assumes "update_gates env k d ac w = Inr u"
  shows "find_user env (\<lambda>u. u_id u = k) w = Some u" "canMutateUser (ac_role ac) (ac_id ac) k"
    "findAdminOnlyFields d \<noteq> [] \<longrightarrow> isAdminLike (ac_role ac)"
    "role_change_requested d u \<longrightarrow> ac_id ac \<noteq> Some k"
    "role_change_requested d u \<longrightarrow> isAdminLike (Some (role_string (u_role u))) \<longrightarrow>
       isAdminLike (case uu_role d of Some r \<Rightarrow> r | None \<Rightarrow> None) \<or> remaining_admins env k w \<noteq> 0"
  using assms unfolding update_gates_def
  by (auto split: option.splits if_splits)

lemma updateUser_Inr:
  assumes "updateUser env k d ac w = (Inr u', w')"
  obtains u where "update_gates env k d ac w = Inr u" "\<not> rejected_update d u w" "u' = assign_user env d u"
    "users w' = save_row u_id u' (users w)"
    "audit w' = (if role_change_requested d u then audit w @ [audit_of ac ''users.role_change'' k] else audit w)"
  using assms unfolding updateUser_def
  by (auto simp: ErrorCatch_def Let_def add_audit_def split: sum.splits if_splits)

text \<open>The columns an update by a plain user must leave alone.\<close>

definition guarded_columns :: "user \<Rightarrow> user_role \<times> bool \<times> bool \<times> string option \<times> instant option \<times>
    string option \<times> instant option \<times> instant option \<times> instant option" where
  "guarded_columns u = (u_role u, u_isVerified u, u_isActive u, u_verificationToken u, u_verificationTokenExpiry u,
     u_passwordResetToken u, u_passwordResetExpiresIn u, u_lastPasswordResetSentAt u, u_lastVerificationEmailSent u)"

lemma no_admin_fields:
  "findAdminOnlyFields d = [] \<Longrightarrow> guarded_columns (assign_user env d u) = guarded_columns u"
  by (simp add: findAdminOnlyFields_def ADMIN_ONLY_UPDATE_FIELDS_def field_given_def given_fields_def
      guarded_columns_def assign_user_def split: if_splits)

lemma assign_user_same [simp]:
  "u_id (assign_user env d u) = u_id u" "u_isDeleted (assign_user env d u) = u_isDeleted u"
  "u_deletedAt (assign_user env d u) = u_deletedAt u" "u_isSuspended (assign_user env d u) = u_isSuspended u"
  by (simp_all add: assign_user_def)

lemma role_string_inj: "role_string r = role_string r' \<longleftrightarrow> r = r'"
  by (cases r; cases r') simp_all

lemma role_of_string_Some: "role_of_string s = Some r \<Longrightarrow> role_string r = s"
  unfolding role_of_string_def by (drule find_one_SomeD) simp

lemma role_changes_only_on_request:
  "\<not> role_change_requested d u \<Longrightarrow> u_role (assign_user env d u) = u_role u"
  by (auto simp: role_change_requested_def assign_user_def role_of_string_Some role_string_inj
      split: option.splits dest!: role_of_string_Some)

text \<open>
  C9: an account is updated only by its owner or an administrator, and touches that row alone; a
  non-administrator changes neither the role nor the verification, activity and token columns; a
  role changes only by an administrator other than its owner, with an audit row; a supplied
  password is stored by its hash.
\<close>

theorem update_user_authorised:
  assumes "updateUser env k d ac w = (Inr u', w')" and "uniq_keys u_id (users w)"
  shows "\<exists>u. find_user env (\<lambda>u. u_id u = k) w = Some u \<and>
     (ac_id ac = Some k \<or> isAdminLike (ac_role ac)) \<and>
     (\<not> isAdminLike (ac_role ac) \<longrightarrow> guarded_columns u' = guarded_columns u) \<and>
     (u_role u' \<noteq> u_role u \<longrightarrow> isAdminLike (ac_role ac) \<and> ac_id ac \<noteq> Some k \<and>
        audit w' = audit w @ [audit_of ac ''users.role_change'' k]) \<and>
     (\<forall>p. uu_password d = Some (Some p) \<and> p \<noteq> [] \<longrightarrow> u_password u' = Some (hashPassword env p)) \<and>
     u' \<in> set (users w') \<and> {x \<in> set (users w'). u_id x \<noteq> k} = {x \<in> set (users w). u_id x \<noteq> k}"
  using assms(1)
proof (rule updateUser_Inr)
  fix u
  assume u: "update_gates env k d ac w = Inr u" "u' = assign_user env d u"
    "users w' = save_row u_id u' (users w)"
    "audit w' = (if role_change_requested d u then audit w @ [audit_of ac ''users.role_change'' k] else audit w)"
  note g = update_gates_Inr [OF u(1)]
  have k: "u_id u' = k" using find_userD [OF g(1)] u(2) by simp
  have adm: "isAdminLike (ac_role ac)" if "role_change_requested d u"
  proof -
    from that have "''role'' \<in> set (findAdminOnlyFields d)"
      by (simp add: role_change_requested_def findAdminOnlyFields_def ADMIN_ONLY_UPDATE_FIELDS_def
          field_given_def given_fields_def)
    with g(3) show ?thesis by auto
  qed
  have role: "role_change_requested d u" if "u_role u' \<noteq> u_role u"
    using role_changes_only_on_request that u(2) by blast
  have "ac_id ac = Some k \<or> isAdminLike (ac_role ac)"
    using g(2) by (auto simp: canMutateUser_def split: if_splits)
  moreover have "guarded_columns u' = guarded_columns u" if "\<not> isAdminLike (ac_role ac)"
    using g(3) that no_admin_fields u(2) by blast
  moreover have "u_password u' = Some (hashPassword env p)" if "uu_password d = Some (Some p)" "p \<noteq> []" for p
    using that by (simp add: u(2) assign_user_def)
  moreover have "u' \<in> set (users w')" "{x \<in> set (users w'). u_id x \<noteq> k} = {x \<in> set (users w). u_id x \<noteq> k}"
    using k by (auto simp: u(3) set_save_row)
  ultimately show ?thesis using g(1,4) u(4) role adm by (intro exI [of _ u]) auto
qed

definition no_update :: update_user_dto where
  "no_update =
     \<lparr>uu_firstname = None, uu_lastname = None, uu_username = None, uu_email = None, uu_password = None,
      uu_role = None, uu_verificationToken = None, uu_verificationTokenExpiry = None,
      uu_passwordResetToken = None, uu_passwordResetExpiresIn = None, uu_lastPasswordResetSentAt = None,
      uu_lastVerificationEmailSent = None, uu_isVerified = None, uu_isActive = None\<rparr>"

definition sample_actor :: "uuid \<Rightarrow> user_role \<Rightarrow> actor" where
  "sample_actor k r = \<lparr>ac_id = Some k, ac_role = Some (role_string r), ac_email = None\<rparr>"

theorem update_user_authorised_witness:
  "\<exists>u w. updateUser sample_env ''ada'' (no_update\<lparr>uu_role := Some (Some ''staff'')\<rparr>) (sample_actor ''admin'' ADMIN) sample_world =
     (Inr u, w) \<and> u_role u = STAFF \<and> u \<in> set (users w)"
proof -
  let ?r = "updateUser sample_env ''ada'' (no_update\<lparr>uu_role := Some (Some ''staff'')\<rparr>) (sample_actor ''admin'' ADMIN) sample_world"
  have "map_sum id u_role (fst ?r) = Inr STAFF" by code_simp
  then obtain u where r: "?r = (Inr u, snd ?r)" "u_role u = STAFF"
    by (cases "fst ?r") (auto simp: prod_eq_iff)
  have "uniq_keys u_id (users sample_world)" by code_simp
  from update_user_authorised [OF r(1) this] r show ?thesis by blast
qed

section \<open>Administrators\<close>

definition active_admin :: "env \<Rightarrow> user \<Rightarrow> bool" where
  "active_admin env u \<longleftrightarrow> (soft_hidden env \<longrightarrow> u_deletedAt u = None) \<and> u_isActive u \<and> \<not> u_isDeleted u \<and>
     (u_role u = ADMIN \<or> u_role u = SUPER_ADMIN)"

lemma remaining_admins_count: "remaining_admins env k w = count_where (\<lambda>u. u_id u \<noteq> k \<and> active_admin env u) (users w)"
  unfolding remaining_admins_def active_admin_def by (rule arg_cong [where f = "\<lambda>P. count_where P (users w)"]) auto

lemma isAdminLike_role: "isAdminLike (Some (role_string r)) \<longleftrightarrow> r = ADMIN \<or> r = SUPER_ADMIN"
  by (cases r) (simp_all add: isAdminLike_def)

lemma count_where_save_row:
  assumes "\<not> P r" "key r \<in> key ` set rows"
  shows "count_where P (save_row key r rows) = count_where (\<lambda>x. key x \<noteq> key r \<and> P x) rows"
proof -
  have "count_where P (map (\<lambda>x. if key x = key r then r else x) xs) = count_where (\<lambda>x. key x \<noteq> key r \<and> P x) xs" for xs
    using assms(1) by (induction xs) auto
  with assms(2) show ?thesis by (simp add: save_row_def)
qed

text \<open>
  demoting an administrator leaves an active one, but that guard looks at the role alone: an
  administrator may switch the activity of their own account off, and as many active
  administrators remain as there were besides them, possibly none.
\<close>

theorem last_admin_deactivates:
  assumes "find_user env (\<lambda>u. u_id u = k) w = Some u" and "k \<noteq> []"
    and "active_admin env u" and "ac_id ac = Some k" and "ac_role ac = Some (role_string (u_role u))"
  shows "\<exists>w'. updateUser env k (no_update\<lparr>uu_isActive := Some (Some False)\<rparr>) ac w = (Inr (u\<lparr>u_isActive := False\<rparr>), w') \<and>
     count_where (active_admin env) (users w') = remaining_admins env k w"
proof -
  let ?d = "no_update\<lparr>uu_isActive := Some (Some False)\<rparr>" and ?u = "u\<lparr>u_isActive := False\<rparr>"
  have adm: "isAdminLike (ac_role ac)"
    using assms(3,5) by (auto simp: isAdminLike_role active_admin_def)
  have "\<not> role_change_requested ?d u" "list_ex snd (given_fields ?d)"
    by (simp_all add: role_change_requested_def no_update_def given_fields_def)
  moreover have "canMutateUser (ac_role ac) (ac_id ac) k" using assms(2,4) by (simp add: canMutateUser_def)
  ultimately have "update_gates env k ?d ac w = Inr u"
    using assms(1) adm by (simp add: update_gates_def)
  moreover have "\<not> rejected_update ?d u w" by (simp add: rejected_update_def no_update_def)
  moreover have "assign_user env ?d u = ?u" by (simp add: assign_user_def no_update_def)
  ultimately have "updateUser env k ?d ac w = (Inr ?u, w\<lparr>users := save_row u_id ?u (users w)\<rparr>)"
    using \<open>\<not> role_change_requested ?d u\<close> by (simp add: updateUser_def Let_def)
  moreover have "count_where (active_admin env) (save_row u_id ?u (users w)) = remaining_admins env k w"
  proof -
    have "u \<in> set (users w)" "u_id u = k" using find_userD [OF assms(1)] by auto
    then have "count_where (active_admin env) (save_row u_id ?u (users w)) =
        count_where (\<lambda>x. u_id x \<noteq> u_id ?u \<and> active_admin env x) (users w)"
      by (intro count_where_save_row) (auto simp: active_admin_def)
    with \<open>u_id u = k\<close> show ?thesis by (simp add: remaining_admins_count)
  qed
  ultimately show ?thesis by simp
qed

theorem last_admin_deactivates_witness:
  "\<exists>u w. updateUser sample_env ''admin'' (no_update\<lparr>uu_isActive := Some (Some False)\<rparr>) (sample_actor ''admin'' ADMIN) sample_world =
     (Inr u, w) \<and> count_where (active_admin sample_env) (users w) = 0"
proof -
  have "map_option (\<lambda>u. (active_admin sample_env u, u_role u)) (find_user sample_env (\<lambda>u. u_id u = ''admin'') sample_world) = Some (True, ADMIN)"
    by code_simp
  then obtain u where u: "find_user sample_env (\<lambda>u. u_id u = ''admin'') sample_world = Some u"
    "active_admin sample_env u" "u_role u = ADMIN" by auto
  have "ac_id (sample_actor ''admin'' ADMIN) = Some ''admin''"
    "ac_role (sample_actor ''admin'' ADMIN) = Some (role_string (u_role u))"
    using u(3) by (simp_all add: sample_actor_def)
  moreover have "remaining_admins sample_env ''admin'' sample_world = 0" by code_simp
  ultimately show ?thesis using last_admin_deactivates [OF u(1) _ u(2)] by fastforce
qed

section \<open>Anonymising\<close>

text \<open>
  anonymising an account never completes: the row it saves has no password, which the column
  forbids, so the transaction is rolled back and the call fails. What remains is the audit row,
  written outside the transaction, saying that the account was anonymised.
\<close>

theorem anonymise_never_completes:
  assumes "find_user env (\<lambda>u. u_id u = k) w = Some u" and "\<not> u_isDeleted u"
  shows "\<exists>e w'. anonymise env salt k w = (Inl (DbError e), w') \<and>
     users w' = users w \<and> tokens w' = tokens w \<and> logs w' = logs w \<and> bookings w' = bookings w \<and>
     payments w' = payments w \<and> map a_action (audit w') = map a_action (audit w) @ [''users.anonymise'']"
  using assms
  by (simp add: anonymise_def transaction_def save_user_def anonymised_user_def add_audit_def audit_of_def
      unlink_user_def Let_def)

theorem anonymise_never_completes_witness:
  "\<exists>e w. anonymise sample_env ''salt'' ''ada'' sample_world = (Inl (DbError e), w) \<and> users w = users sample_world"
proof -
  have "map_option u_isDeleted (find_user sample_env (\<lambda>u. u_id u = ''ada'') sample_world) = Some False" by code_simp
  then obtain u where "find_user sample_env (\<lambda>u. u_id u = ''ada'') sample_world = Some u" "\<not> u_isDeleted u" by auto
  from anonymise_never_completes [OF this, of "''salt''"] show ?thesis by blast
qed

text \<open>
  The request meant for it does not even arrive there: the parametrised route declared before it
  takes every \<open>DELETE\<close> with one segment.
\<close>

lemma anonymise_route_shadowed:
  "users_dispatch ''DELETE'' [''me''] = Some H_remove" "users_dispatch verb path \<noteq> Some H_anonymiseMe"
proof -
  show "users_dispatch ''DELETE'' [''me''] = Some H_remove" by code_simp
  show "users_dispatch verb path \<noteq> Some H_anonymiseMe"
  proof
    assume "users_dispatch verb path = Some H_anonymiseMe"
    then show False
      by (cases path rule: list.exhaust [case_names Nil Cons]; cases "tl path")
        (auto simp: users_dispatch_def users_routes_def split: if_splits)
  qed
qed

text \<open>The nightly sweep sees no account that was soft-deleted, which is what it is there for.\<close>

lemma harden_sees_no_soft_deleted:
  assumes "soft_hidden env" "\<forall>u\<in>set (users w). u_isDeleted u \<longrightarrow> u_deletedAt u \<noteq> None"
  shows "hardenDeletedUsers env w = ((0, 0), w)"
proof -
  have "filter (\<lambda>u. (soft_hidden env \<longrightarrow> u_deletedAt u = None) \<and> u_isDeleted u) (users w) = []"
    using assms by (auto simp: filter_empty_conv)
  then show ?thesis by (simp add: hardenDeletedUsers_def)
qed

section \<open>Reset by link, members\<close>

text \<open>A reset by the mailed link spends the link and ends every session of the account.\<close>

lemma reset_by_token_ends_sessions:
  assumes "resetPasswordByToken env ae raw pw w = (Inr (), w')"
  shows "\<exists>u. find_user env (\<lambda>u. u_passwordResetToken u = Some (sha256 env raw)) w = Some u \<and>
    (\<forall>t\<in>set (tokens w'). t_userId t = u_id u \<longrightarrow> \<not> live t) \<and>
    (\<exists>u'\<in>set (users w'). u_id u' = u_id u \<and> u_passwordResetToken u' = None \<and> u_password u' = Some (hashPassword env pw))"
proof -
  from assms obtain u where u: "find_user env (\<lambda>u. u_passwordResetToken u = Some (sha256 env raw)) w = Some u"
    by (auto simp: resetPasswordByToken_def split: option.splits)
  let ?u = "u\<lparr>u_password := Some (hashPassword env pw), u_passwordResetToken := None, u_passwordResetExpiresIn := None\<rparr>"
  from assms u have "users w' = save_row u_id ?u (users w)" "tokens w' = tokens (revokeAllRefreshTokens (u_id u) w)"
    by (auto simp: resetPasswordByToken_def then_do_Inr save_user_Inr Let_def revokeAllRefreshTokens_def
        update_tokens_def split: if_splits)
  moreover have "?u \<in> set (save_row u_id ?u (users w))" by (rule save_row_self)
  ultimately show ?thesis
    using u by (auto simp: revokeAllRefreshTokens_def update_tokens_def set_update_where live_def reused_def
        intro!: bexI [of _ ?u] split: if_splits)
qed

lemma profile_completeness_bounds:
  "0 \<le> computeProfileCompleteness u \<and> computeProfileCompleteness u \<le> 100"
  by (simp add: computeProfileCompleteness_def)

text \<open>A search without pattern characters finds the members whose names contain it.\<close>

lemma like_suffix: "like [CHR ''%''] s"
  by (induction s) auto

lemma like_prefix:
  "list_all (\<lambda>c. c \<notin> {CHR ''%'', CHR ''_'', CHR 0x5C}) pat \<Longrightarrow> like (pat @ [CHR ''%'']) s \<longleftrightarrow> is_prefix pat s"
proof (induction pat arbitrary: s)
  case Nil
  then show ?case using like_suffix [of s] by simp
next
  case (Cons c pat)
  then show ?case by (cases s) auto
qed

lemma like_contains:
  assumes "list_all (\<lambda>c. c \<notin> {CHR ''%'', CHR ''_'', CHR 0x5C}) pat"
  shows "like (''%'' @ pat @ ''%'') s \<longleftrightarrow> str_includes s pat"
proof (induction s)
  case Nil
  show ?case using like_prefix [OF assms, of "[]"] by (cases pat) simp_all
next
  case (Cons c s)
  then show ?case using like_prefix [OF assms, of "c # s"] by simp
qed

end
