(* ===== verification/Newsletter.thy ===== *)
theory Newsletter
  imports Users
begin

text \<open>
  The newsletter module: subscribing, confirming and unsubscribing
  (\<open>newsletter/providers/subscription.provider.ts\<close>), the subscribers' list
  (\<open>newsletter/providers/list-subscribers.provider.ts\<close>) and the client address the controller
  records.

  The table and the mails it sends are a state of their own. \<open>subscribe\<close> reads the row of the
  address in one statement (\<open>subscribe_check\<close>) and saves it in another (\<open>subscribe_save\<close>), so two
  requests can interleave. The two random tokens are arguments.
\<close>

section \<open>State\<close>

record subscriber =
  s_id :: uuid
  s_email :: string
  s_isVerified :: bool
  s_verifiedAt :: "instant option"
  s_verificationToken :: "string option"
  s_verificationTokenExpiresAt :: "instant option"
  s_subscribedAt :: instant
  s_isActive :: bool
  s_unsubscribeToken :: string
  s_consentedAt :: "instant option"
  s_ipAddress :: "string option"
  s_createdAt :: instant
  s_deletedAt :: "instant option"

text \<open>The mails, with the greeting and the links their templates get.\<close>

datatype news_mail =
    ConfirmationMail string string
  | ConfirmedMail string string
  | UnsubscribedMail string

record news =
  subscribers :: "subscriber list"
  news_mails :: "(string \<times> news_mail) list"

definition send_template :: "auth_env \<Rightarrow> string \<Rightarrow> news_mail \<Rightarrow> news \<Rightarrow> news" where
  "send_template ae recipient m n =
     (if mail_queue_up ae then n\<lparr>news_mails := news_mails n @ [(recipient, m)]\<rparr> else n)"

section \<open>Addresses and links\<close>

definition isDisposableEmail :: "string \<Rightarrow> bool" where
  "isDisposableEmail mailbox \<longleftrightarrow>
     (case split_on (CHR ''@'') mailbox of
        _ # domain # _ \<Rightarrow> to_lower domain \<in> {''mailinator.com'', ''tempmail.com'', ''10minutemail.com''}
      | _ \<Rightarrow> False)"

definition name_char :: "char \<Rightarrow> bool" where
  "name_char c \<longleftrightarrow> is_upper c \<or> is_lower c \<or> is_digit c \<or> c \<in> {CHR ''.'', CHR ''_'', CHR ''-''} \<or> is_space c"

definition safeNameFromEmail :: "string \<Rightarrow> string" where
  "safeNameFromEmail mailbox =
     (let cleaned = take 40 (filter name_char (trim (hd (split_on (CHR ''@'') mailbox))))
      in if cleaned = [] then ''there'' else cleaned)"

definition hex_digit :: "nat \<Rightarrow> char" where
  "hex_digit d = (if d < 10 then char_of (48 + d) else char_of (55 + d))"

definition percent :: "nat \<Rightarrow> string" where
  "percent b = [CHR ''%'', hex_digit (b div 16), hex_digit (b mod 16)]"

text \<open>\<open>encodeURIComponent\<close>, on the code units below 256 (one or two bytes of UTF-8).\<close>

definition encodeURIComponent :: "string \<Rightarrow> string" where
  "encodeURIComponent s =
     concat (map (\<lambda>c. let b = of_char c :: nat
        in if is_upper c \<or> is_lower c \<or> is_digit c \<or> c \<in> set ''-_.!~*'' \<or> b \<in> {39, 40, 41} then [c]
           else if b < 128 then percent b
           else percent (192 + b div 64) @ percent (128 + b mod 64)) s)"

definition buildFrontendUrl :: "env \<Rightarrow> string \<Rightarrow> string" where
  "buildFrontendUrl env path =
     (let t = trim (env_default env ''FRONTEND_URL'' []);
          base = (if t \<noteq> [] \<and> last t = CHR ''/'' then butlast t else t)
      in base @ (if is_prefix ''/'' path then path else CHR ''/'' # path))"

definition getClientIp :: "string option \<Rightarrow> string option \<Rightarrow> string option" where
  "getClientIp forwarded ip =
     (case forwarded of
        Some f \<Rightarrow> if f \<noteq> [] then Some (trim (hd (split_on (CHR '','') f))) else ip
      | None \<Rightarrow> ip)"

section \<open>Subscribing\<close>

definition subscribe_check :: "string \<Rightarrow> news \<Rightarrow> subscriber option result" where
  "subscribe_check raw n =
     (let mailbox = to_lower (trim raw)
      in if isDisposableEmail mailbox then Inl (BadRequest ''Disposable email addresses are not allowed.'')
         else case find_one (\<lambda>s. s_email s = mailbox) (subscribers n) of
                None \<Rightarrow> Inr None
              | Some s \<Rightarrow> if s_isActive s \<and> s_isVerified s \<and> s_deletedAt s = None
                          then Inl (Conflict ''Email is already subscribed.'') else Inr (Some s))"

definition new_subscriber :: "env \<Rightarrow> string \<Rightarrow> subscriber" where
  "new_subscriber env mailbox =
     \<lparr>s_id = uuid1 env, s_email = mailbox, s_isVerified = False, s_verifiedAt = None,
      s_verificationToken = None, s_verificationTokenExpiresAt = None, s_subscribedAt = now env,
      s_isActive = True, s_unsubscribeToken = [], s_consentedAt = None, s_ipAddress = None,
      s_createdAt = now env, s_deletedAt = None\<rparr>"

text \<open>An undefined address (\<open>ipAddress ?? undefined\<close>) leaves the column as it is.\<close>

definition pending_row :: "env \<Rightarrow> string option \<Rightarrow> string \<Rightarrow> string \<Rightarrow> subscriber \<Rightarrow> subscriber" where
  "pending_row env ip verificationToken unsubscribeToken s =
     s\<lparr>s_subscribedAt := now env, s_consentedAt := Some (now env),
       s_ipAddress := (case ip of Some a \<Rightarrow> Some a | None \<Rightarrow> set_undefined env (s_ipAddress s)),
       s_isVerified := False, s_verifiedAt := None, s_isActive := False,
       s_verificationToken := Some verificationToken, s_unsubscribeToken := unsubscribeToken,
       s_deletedAt := None, s_verificationTokenExpiresAt := Some (now env + 86400000)\<rparr>"

text \<open>
  The save, under the unique index on the address (error code 23505) and the width of the address
  column; only the former becomes a 409.
\<close>

definition save_subscriber :: "subscriber \<Rightarrow> news \<Rightarrow> unit result \<times> news" where
  "save_subscriber s n =
     (if (case s_ipAddress s of Some a \<Rightarrow> 64 < length a | None \<Rightarrow> False)
      then (Inl (DbError ''22001''), n)
      else if list_ex (\<lambda>x. s_email x = s_email s \<and> s_id x \<noteq> s_id s) (subscribers n)
      then (Inl (DbError ''23505''), n)
      else (Inr (), n\<lparr>subscribers := save_row s_id s (subscribers n)\<rparr>))"

type_synonym subscribe_response = "uuid \<times> string \<times> instant \<times> bool"

definition subscribe_save ::
  "env \<Rightarrow> auth_env \<Rightarrow> string \<Rightarrow> string option \<Rightarrow> string \<Rightarrow> string \<Rightarrow> subscriber option \<Rightarrow> news \<Rightarrow>
   subscribe_response result \<times> news" where
  "subscribe_save env ae raw ip vt ut existing n =
     (let mailbox = to_lower (trim raw);
          s = pending_row env ip vt ut (case existing of Some x \<Rightarrow> x | None \<Rightarrow> new_subscriber env mailbox)
      in case save_subscriber s n of
           (Inl e, n') \<Rightarrow> (Inl (if e = DbError ''23505'' then Conflict ''Email is already subscribed.'' else e), n')
         | (Inr _, n') \<Rightarrow>
             (Inr (s_id s, s_email s, s_subscribedAt s, s_isActive s),
              send_template ae mailbox
                (ConfirmationMail (safeNameFromEmail mailbox)
                  (buildFrontendUrl env (''/newsletter/confirm?token='' @ encodeURIComponent vt))) n'))"

definition subscribe ::
  "env \<Rightarrow> auth_env \<Rightarrow> string \<Rightarrow> string option \<Rightarrow> string \<Rightarrow> string \<Rightarrow> news \<Rightarrow> subscribe_response result \<times> news" where
  "subscribe env ae raw ip vt ut n =
     (case subscribe_check raw n of
        Inl e \<Rightarrow> (Inl e, n)
      | Inr existing \<Rightarrow> subscribe_save env ae raw ip vt ut existing n)"

section \<open>Confirming and unsubscribing\<close>

datatype news_answer = Confirmed | AlreadyConfirmed | Unsubscribed | AlreadyUnsubscribed

definition confirmed_row :: "env \<Rightarrow> subscriber \<Rightarrow> subscriber" where
  "confirmed_row env s =
     s\<lparr>s_isVerified := True, s_isActive := True, s_verifiedAt := Some (now env),
       s_verificationToken := None, s_verificationTokenExpiresAt := None\<rparr>"

definition confirm :: "env \<Rightarrow> auth_env \<Rightarrow> string \<Rightarrow> news \<Rightarrow> news_answer result \<times> news" where
  "confirm env ae raw n =
     (let token = trim raw
      in case find_one (\<lambda>s. s_verificationToken s = Some token) (subscribers n) of
           None \<Rightarrow> (Inl (NotFound ''Invalid confirmation token.''), n)
         | Some s \<Rightarrow>
             if (case s_verificationTokenExpiresAt s of Some t \<Rightarrow> t < now env | None \<Rightarrow> False)
             then (Inl (BadRequest ''Confirmation link has expired.''), n)
             else if s_deletedAt s \<noteq> None then (Inl (BadRequest ''Subscription is no longer available.''), n)
             else if s_isVerified s \<and> s_isActive s then (Inr AlreadyConfirmed, n)
             else (Inr Confirmed,
                   send_template ae (s_email s)
                     (ConfirmedMail (safeNameFromEmail (s_email s))
                       (buildFrontendUrl env (''/newsletter/unsubscribe?token='' @
                          encodeURIComponent (s_unsubscribeToken s))))
                     (n\<lparr>subscribers := save_row s_id (confirmed_row env s) (subscribers n)\<rparr>)))"

text \<open>
  \<open>softRemove\<close> sets the delete date; whether it also writes the changed \<open>isActive\<close> is TypeORM's
  matter and a parameter.
\<close>

definition unsubscribe :: "env \<Rightarrow> auth_env \<Rightarrow> bool \<Rightarrow> string \<Rightarrow> news \<Rightarrow> news_answer result \<times> news" where
  "unsubscribe env ae writes_changes raw n =
     (let token = trim raw
      in case find_one (\<lambda>s. s_unsubscribeToken s = token) (subscribers n) of
           None \<Rightarrow> (Inl (NotFound ''Invalid unsubscribe token.''), n)
         | Some s \<Rightarrow>
             if \<not> s_isActive s \<or> s_deletedAt s \<noteq> None then (Inr AlreadyUnsubscribed, n)
             else let s' = s\<lparr>s_isActive := (if writes_changes then False else s_isActive s),
                             s_deletedAt := Some (now env)\<rparr>
                  in (Inr Unsubscribed,
                      send_template ae (s_email s) (UnsubscribedMail (safeNameFromEmail (s_email s)))
                        (n\<lparr>subscribers := save_row s_id s' (subscribers n)\<rparr>)))"

section \<open>The subscribers' list\<close>

record news_query =
  nq_page :: "int option"
  nq_perPage :: "int option"
  nq_searchTerm :: "string option"
  nq_category :: "string option"

definition news_filter :: "news_query \<Rightarrow> subscriber \<Rightarrow> bool" where
  "news_filter q s \<longleftrightarrow>
     s_deletedAt s = None \<and>
     (case nq_searchTerm q of
        None \<Rightarrow> True
      | Some [] \<Rightarrow> True
      | Some t \<Rightarrow> like (''%'' @ to_lower (trim t) @ ''%'') (to_lower (s_email s))) \<and>
     (let category = (case nq_category q of Some c \<Rightarrow> to_lower (trim c) | None \<Rightarrow> [])
      in if category = ''active'' then s_isActive s
         else if category = ''inactive'' then \<not> s_isActive s
         else if category = ''verified'' then s_isVerified s
         else if category = ''pending'' then \<not> s_isVerified s
         else True)"

record news_page =
  np_items :: "subscriber list"
  np_currentPage :: int
  np_itemsPerPage :: int
  np_totalItems :: nat
  np_totalPages :: nat
  np_hasPreviousPage :: bool
  np_hasNextPage :: bool

definition list_subscribers :: "news_query \<Rightarrow> news \<Rightarrow> news_page result" where
  "list_subscribers q n =
     (let page = (case nq_page q of Some p \<Rightarrow> p | None \<Rightarrow> 1);
          perPage = (case nq_perPage q of Some p \<Rightarrow> p | None \<Rightarrow> 10);
          rows = filter (news_filter q) (subscribers n);
          pages = max 1 (total_pages (length rows) (nat perPage))
      in case paginate page perPage (newest_first s_createdAt rows) of
           Inl e \<Rightarrow> Inl e
         | Inr xs \<Rightarrow> Inr \<lparr>np_items = xs, np_currentPage = page, np_itemsPerPage = perPage,
                          np_totalItems = length rows, np_totalPages = pages,
                          np_hasPreviousPage = (1 < page), np_hasNextPage = (page < int pages)\<rparr>)"

section \<open>The life cycle of a subscription\<close>

text \<open>What the module promises of an address: one of four states, and the edges between them.\<close>

datatype news_status = Absent | Pending | Subscribed | Gone

definition status_of_row :: "subscriber \<Rightarrow> news_status" where
  "status_of_row s =
     (if s_deletedAt s \<noteq> None then Gone else if s_isActive s \<and> s_isVerified s then Subscribed else Pending)"

definition news_status :: "news \<Rightarrow> string \<Rightarrow> news_status" where
  "news_status n mailbox =
     (case find_one (\<lambda>s. s_email s = mailbox) (subscribers n) of None \<Rightarrow> Absent | Some s \<Rightarrow> status_of_row s)"

definition news_edge :: "news_status \<Rightarrow> news_status \<Rightarrow> bool" where
  "news_edge a b \<longleftrightarrow>
     (a, b) \<in> {(Absent, Pending), (Pending, Pending), (Gone, Pending), (Pending, Subscribed), (Subscribed, Gone)}"

definition row_ok :: "subscriber \<Rightarrow> bool" where
  "row_ok s \<longleftrightarrow> (s_isVerified s \<longrightarrow> s_verificationToken s = None) \<and> (s_isActive s \<longrightarrow> s_isVerified s)"

definition news_ok :: "news \<Rightarrow> bool" where
  "news_ok n \<longleftrightarrow> uniq_keys s_id (subscribers n) \<and> uniq_keys s_email (subscribers n) \<and>
     (\<forall>s\<in>set (subscribers n). row_ok s)"

inductive news_step :: "news \<Rightarrow> news \<Rightarrow> bool" where
  subscribes: "uuid1 env \<notin> s_id ` set (subscribers n) \<Longrightarrow> subscribe env ae raw ip vt ut n = (r, n') \<Longrightarrow> news_step n n'"
| confirms: "confirm env ae raw n = (r, n') \<Longrightarrow> news_step n n'"
| unsubscribes: "unsubscribe env ae writes_changes raw n = (r, n') \<Longrightarrow> news_step n n'"

inductive news_reachable :: "news \<Rightarrow> bool" where
  no_subscribers: "subscribers n = [] \<Longrightarrow> news_reachable n"
| news_more: "news_reachable n \<Longrightarrow> news_step n n' \<Longrightarrow> news_reachable n'"

lemma send_template_rows [simp]: "subscribers (send_template ae to m n) = subscribers n"
  by (simp add: send_template_def)

lemma news_ok_cong: "subscribers n = subscribers n' \<Longrightarrow> news_ok n = news_ok n'"
  by (simp add: news_ok_def)

lemma news_status_cong: "subscribers n = subscribers n' \<Longrightarrow> news_status n = news_status n'"
  by (simp add: news_status_def fun_eq_iff)

text \<open>
  Every operation that writes replaces one row by one of the same id and address, or inserts a row
  of a new id and address. \<open>row_saved\<close> says so once.
\<close>

definition row_saved :: "subscriber \<Rightarrow> news \<Rightarrow> news \<Rightarrow> bool" where
  "row_saved s n n' \<longleftrightarrow> subscribers n' = save_row s_id s (subscribers n) \<and> row_ok s \<and>
     ((\<exists>x\<in>set (subscribers n). s_id x = s_id s \<and> s_email x = s_email s) \<or>
      s_id s \<notin> s_id ` set (subscribers n) \<and> s_email s \<notin> s_email ` set (subscribers n))"

lemma row_saved_emails:
  assumes "row_saved s n n'" "news_ok n"
  shows "subscribers n' = save_row s_email s (subscribers n)"
proof -
  from assms have d: "distinct (map s_id (subscribers n))" "distinct (map s_email (subscribers n))"
    by (simp_all add: news_ok_def uniq_keys_def)
  have "save_row s_id s (subscribers n) = save_row s_email s (subscribers n)"
    using assms(1) unfolding row_saved_def
  proof (elim conjE disjE bexE)
    fix x assume x: "x \<in> set (subscribers n)" "s_id x = s_id s" "s_email x = s_email s"
    have inj: "inj_on s_id (set (subscribers n))" "inj_on s_email (set (subscribers n))"
      using d by (simp_all add: distinct_map)
    have "s_id y = s_id s \<longleftrightarrow> s_email y = s_email s" if "y \<in> set (subscribers n)" for y
      using inj_onD [OF inj(1) _ that x(1)] inj_onD [OF inj(2) _ that x(1)] x(2,3) by metis
    moreover have "s_id s \<in> s_id ` set (subscribers n)" "s_email s \<in> s_email ` set (subscribers n)"
      using x by (metis image_eqI)+
    ultimately show ?thesis by (simp add: save_row_def)
  qed (simp add: save_row_fresh)
  then show ?thesis using assms(1) by (simp add: row_saved_def)
qed

lemma row_saved_ok:
  assumes "row_saved s n n'" "news_ok n"
  shows "news_ok n'"
proof -
  have "row_ok x" if "x \<in> set (subscribers n')" for x
    using that assms by (auto simp: row_saved_def news_ok_def set_save_row)
  moreover have "uniq_keys s_id (subscribers n')"
    using assms distinct_save_row [of s_id "subscribers n" s] by (simp add: row_saved_def news_ok_def uniq_keys_def)
  moreover have "uniq_keys s_email (subscribers n')"
    using row_saved_emails [OF assms] assms(2) distinct_save_row [of s_email "subscribers n" s]
    by (simp add: news_ok_def uniq_keys_def)
  ultimately show ?thesis by (simp add: news_ok_def)
qed

lemma row_saved_status:
  assumes "row_saved s n n'" "news_ok n"
  shows "news_status n' m = (if m = s_email s then status_of_row s else news_status n m)"
  using row_saved_emails [OF assms] find_one_save_same [of s_email s] find_one_save_other [of m s_email s]
  by (simp add: news_status_def)

lemma subscribe_saves:
  assumes "subscribe env ae raw ip vt ut n = (r, n')" "uuid1 env \<notin> s_id ` set (subscribers n)"
  shows "subscribers n' = subscribers n \<and> (\<exists>e. r = Inl e) \<or>
    (\<exists>s. row_saved s n n' \<and> s_email s = to_lower (trim raw) \<and> status_of_row s = Pending \<and>
         s_verificationToken s = Some vt \<and> s_unsubscribeToken s = ut \<and> \<not> s_isVerified s \<and> \<not> s_isActive s \<and>
         s_deletedAt s = None \<and> s_verificationTokenExpiresAt s = Some (now env + 86400000) \<and>
         news_status n (s_email s) \<noteq> Subscribed)"
proof (cases "subscribe_check raw n")
  case (Inl e)
  with assms show ?thesis by (auto simp: subscribe_def)
next
  case (Inr existing)
  let ?m = "to_lower (trim raw)"
  let ?x = "case existing of Some x \<Rightarrow> x | None \<Rightarrow> new_subscriber env ?m"
  let ?s = "pending_row env ip vt ut ?x"
  have f: "existing = find_one (\<lambda>s. s_email s = ?m) (subscribers n)" "news_status n ?m \<noteq> Subscribed"
    using Inr by (auto simp: subscribe_check_def Let_def news_status_def status_of_row_def split: if_splits option.splits)
  have e: "s_email ?s = ?m" "s_id ?s = s_id ?x"
    using f(1) by (auto simp: pending_row_def new_subscriber_def split: option.splits dest: find_one_SomeD)
  have k: "(\<exists>x\<in>set (subscribers n). s_id x = s_id ?s \<and> s_email x = s_email ?s) \<or>
      s_id ?s \<notin> s_id ` set (subscribers n) \<and> s_email ?s \<notin> s_email ` set (subscribers n)"
  proof (cases existing)
    case None
    then have "?m \<notin> s_email ` set (subscribers n)"
      using f(1) find_one_None_iff [of "\<lambda>s. s_email s = ?m" "subscribers n"] by auto
    with None e assms(2) show ?thesis by (auto simp: new_subscriber_def)
  next
    case (Some x)
    with f(1) have x: "x \<in> set (subscribers n)" "s_email x = ?m" by (auto dest: find_one_SomeD [OF sym])
    have "s_id ?s = s_id x" "s_email ?s = s_email x" using e x Some by simp_all
    with x(1) show ?thesis by metis
  qed
  have "subscribers n' = subscribers n \<and> (\<exists>e. r = Inl e) \<or> subscribers n' = save_row s_id ?s (subscribers n)"
    using assms(1) Inr by (auto simp: subscribe_def subscribe_save_def Let_def save_subscriber_def split: if_splits)
  then show ?thesis
  proof
    assume "subscribers n' = save_row s_id ?s (subscribers n)"
    with k have "row_saved ?s n n'" by (simp add: row_saved_def row_ok_def pending_row_def)
    moreover have "status_of_row ?s = Pending" by (simp add: status_of_row_def pending_row_def)
    ultimately show ?thesis using e f(2) by (intro disjI2 exI [of _ ?s]) (simp add: pending_row_def)
  qed simp
qed

lemma confirm_saves:
  assumes "confirm env ae raw n = (r, n')" "news_ok n"
  shows "subscribers n' = subscribers n \<and> r \<noteq> Inr Confirmed \<and> r \<noteq> Inr AlreadyConfirmed \<or>
    (\<exists>s\<in>set (subscribers n). r = Inr Confirmed \<and> row_saved (confirmed_row env s) n n' \<and>
       s_verificationToken s = Some (trim raw) \<and> status_of_row s = Pending)"
proof (cases "find_one (\<lambda>s. s_verificationToken s = Some (trim raw)) (subscribers n)")
  case None
  with assms show ?thesis by (auto simp: confirm_def)
next
  case (Some s)
  then have s: "s \<in> set (subscribers n)" "s_verificationToken s = Some (trim raw)" by (auto dest: find_one_SomeD)
  with assms(2) have v: "\<not> s_isVerified s" by (auto simp: news_ok_def row_ok_def)
  have "row_ok (confirmed_row env s)" "s_id (confirmed_row env s) = s_id s" "s_email (confirmed_row env s) = s_email s"
    by (simp_all add: row_ok_def confirmed_row_def)
  then have c: "row_saved (confirmed_row env s) n n'" if "subscribers n' = save_row s_id (confirmed_row env s) (subscribers n)"
    using that s(1) unfolding row_saved_def by metis
  show ?thesis
  proof (cases "(case s_verificationTokenExpiresAt s of Some t \<Rightarrow> t < now env | None \<Rightarrow> False) \<or> s_deletedAt s \<noteq> None")
    case True
    with assms(1) Some show ?thesis by (auto simp: confirm_def split: option.splits if_splits)
  next
    case False
    with assms(1) Some v have "r = Inr Confirmed" "subscribers n' = save_row s_id (confirmed_row env s) (subscribers n)"
      by (auto simp: confirm_def)
    with c s v False show ?thesis by (intro disjI2 bexI [of _ s]) (auto simp: status_of_row_def)
  qed
qed

lemma unsubscribe_saves:
  assumes "unsubscribe env ae wc raw n = (r, n')" "news_ok n"
  shows "subscribers n' = subscribers n \<and> r \<noteq> Inr Unsubscribed \<or>
    (\<exists>s\<in>set (subscribers n). \<exists>s'. r = Inr Unsubscribed \<and> row_saved s' n n' \<and> s_email s' = s_email s \<and>
       s_unsubscribeToken s = trim raw \<and> s_unsubscribeToken s' = trim raw \<and>
       status_of_row s = Subscribed \<and> status_of_row s' = Gone)"
proof (cases "find_one (\<lambda>s. s_unsubscribeToken s = trim raw) (subscribers n)")
  case None
  with assms show ?thesis by (auto simp: unsubscribe_def)
next
  case (Some s)
  let ?s = "s\<lparr>s_isActive := (if wc then False else s_isActive s), s_deletedAt := Some (now env)\<rparr>"
  from Some have s: "s \<in> set (subscribers n)" "s_unsubscribeToken s = trim raw" by (auto dest: find_one_SomeD)
  show ?thesis
  proof (cases "\<not> s_isActive s \<or> s_deletedAt s \<noteq> None")
    case True
    with Some assms(1) show ?thesis by (auto simp: unsubscribe_def)
  next
    case False
    with s assms(2) have v: "row_ok s" "s_isVerified s" by (auto simp: news_ok_def row_ok_def)
    have "row_saved ?s n n'" using s v False assms(1) Some by (auto simp: row_saved_def row_ok_def unsubscribe_def Let_def)
    moreover have "r = Inr Unsubscribed" using False assms(1) Some by (auto simp: unsubscribe_def Let_def)
    moreover have "status_of_row s = Subscribed" "status_of_row ?s = Gone" using v False by (auto simp: status_of_row_def)
    ultimately show ?thesis using s by (intro disjI2 bexI [of _ s] exI [of _ ?s]) simp_all
  qed
qed


lemma news_ok_step: "news_step n n' \<Longrightarrow> news_ok n \<Longrightarrow> news_ok n'"
proof (induction rule: news_step.induct)
  case (subscribes env n ae raw ip vt ut r n')
  then show ?case using subscribe_saves [OF subscribes(2,1)] row_saved_ok news_ok_cong by blast
next
  case (confirms env ae raw n r n')
  then show ?case using confirm_saves row_saved_ok news_ok_cong by blast
next
  case (unsubscribes env ae wc raw n r n')
  then show ?case using unsubscribe_saves row_saved_ok news_ok_cong by blast
qed

lemma news_reachable_ok: "news_reachable n \<Longrightarrow> news_ok n"
proof (induction rule: news_reachable.induct)
  case (no_subscribers n)
  then show ?case by (simp add: news_ok_def uniq_keys_def)
next
  case (news_more n n')
  then show ?case using news_ok_step by blast
qed

lemma status_of_member: "news_ok n \<Longrightarrow> s \<in> set (subscribers n) \<Longrightarrow> news_status n (s_email s) = status_of_row s"
  using find_one_key [of s_email "subscribers n" s] by (simp add: news_ok_def uniq_keys_def news_status_def)

text \<open>The address a step touches, if any, moves along one edge; the others keep their state.\<close>

definition moves_one :: "news \<Rightarrow> news \<Rightarrow> bool" where
  "moves_one n n' \<longleftrightarrow> (\<exists>m. (\<forall>m'. m' \<noteq> m \<longrightarrow> news_status n' m' = news_status n m') \<and>
     (news_status n' m = news_status n m \<or> news_edge (news_status n m) (news_status n' m)))"

lemma moves_none: "subscribers n' = subscribers n \<Longrightarrow> moves_one n n'"
  unfolding moves_one_def using news_status_cong [of n' n] by simp

lemma moves_saved:
  assumes "row_saved s n n'" "news_ok n" "news_edge (news_status n (s_email s)) (status_of_row s)"
  shows "moves_one n n'"
  unfolding moves_one_def by (rule exI [of _ "s_email s"]) (use assms row_saved_status [OF assms(1,2)] in simp)

lemma newsletter_step_moves: "news_step n n' \<Longrightarrow> news_ok n \<Longrightarrow> moves_one n n'"
proof (induction rule: news_step.induct)
  case (subscribes env n ae raw ip vt ut r n')
  from subscribe_saves [OF subscribes(2,1)] show ?case
  proof (elim disjE conjE exE)
    fix s assume s: "row_saved s n n'" "status_of_row s = Pending" "news_status n (s_email s) \<noteq> Subscribed"
    have "news_edge (news_status n (s_email s)) (status_of_row s)"
      using s(2,3) by (cases "news_status n (s_email s)") (simp_all add: news_edge_def)
    then show ?thesis by (rule moves_saved [OF s(1) subscribes(3)])
  qed (simp add: moves_none)
next
  case (confirms env ae raw n r n')
  from confirm_saves [OF confirms] show ?case
  proof (elim disjE conjE bexE)
    fix s assume s: "s \<in> set (subscribers n)" "row_saved (confirmed_row env s) n n'" "status_of_row s = Pending"
    then have "news_edge (news_status n (s_email (confirmed_row env s))) (status_of_row (confirmed_row env s))"
      using status_of_member [OF confirms(2) s(1)]
      by (auto simp: news_edge_def status_of_row_def confirmed_row_def split: if_splits)
    then show ?thesis by (rule moves_saved [OF s(2) confirms(2)])
  qed (simp add: moves_none)
next
  case (unsubscribes env ae wc raw n r n')
  from unsubscribe_saves [OF unsubscribes] show ?case
  proof (elim disjE conjE bexE exE)
    fix s s' assume s: "s \<in> set (subscribers n)" "row_saved s' n n'" "s_email s' = s_email s"
      "status_of_row s = Subscribed" "status_of_row s' = Gone"
    then have "news_edge (news_status n (s_email s')) (status_of_row s')"
      using status_of_member [OF unsubscribes(2) s(1)] by (simp add: news_edge_def)
    then show ?thesis by (rule moves_saved [OF s(2) unsubscribes(2)])
  qed (simp add: moves_none)
qed


definition sample_news :: news where
  "sample_news = \<lparr>subscribers = [], news_mails = []\<rparr>"

definition sample_pending :: news where
  "sample_pending = snd (subscribe (auth_time 7 ''n1'') sample_auth '' Eve@Nova'' None ''vt'' ''ut'' sample_news)"

lemma sample_pending_eve: "news_status sample_pending ''eve@nova'' = Pending"
  by code_simp


section \<open>A subscription from its request to its end\<close>

lemma find_one_save_only:
  assumes "P r" "\<forall>x\<in>set rows. key x \<noteq> key r \<longrightarrow> \<not> P x"
  shows "find_one P (save_row key r rows) = Some r"
proof -
  have "find_one P (save_row key r rows) \<noteq> None"
    using assms(1) save_row_self [of r key rows] by (auto simp: find_one_None_iff)
  then obtain y where y: "find_one P (save_row key r rows) = Some y" by auto
  then show ?thesis using assms(2) find_one_SomeD [OF y] by (auto dest: set_save_rowD)
qed

lemma find_one_save_none:
  assumes "\<not> P r" "\<forall>x\<in>set rows. key x \<noteq> key r \<longrightarrow> \<not> P x"
  shows "find_one P (save_row key r rows) = None"
  using assms by (auto simp: find_one_None_iff dest: set_save_rowD)


text \<open>
  C20: Newsletter: the links of one subscription. With fresh tokens, the token of the
  confirmation mail confirms the address within its 24 hours; a second use answers 404, the code's
  own answer for a repeated confirmation is never reached; the token of the unsubscribe link then
  ends the subscription, and its repeated use answers that it has ended.
\<close>

theorem subscription_roundtrip:
  assumes "news_ok n" and "uuid1 env \<notin> s_id ` set (subscribers n)"
    and "Some vt \<notin> s_verificationToken ` set (subscribers n)" and "ut \<notin> s_unsubscribeToken ` set (subscribers n)"
    and "trim vt = vt" and "trim ut = ut"
    and "subscribe env ae raw ip vt ut n = (Inr x, n1)" and "now env' \<le> now env + 86400000"
  shows "\<exists>n2 n3. confirm env' ae vt n1 = (Inr Confirmed, n2) \<and> news_status n2 (to_lower (trim raw)) = Subscribed \<and>
    fst (confirm env' ae vt n2) = Inl (NotFound ''Invalid confirmation token.'') \<and>
    unsubscribe env' ae wc ut n2 = (Inr Unsubscribed, n3) \<and> news_status n3 (to_lower (trim raw)) = Gone \<and>
    unsubscribe env' ae wc ut n3 = (Inr AlreadyUnsubscribed, n3)"
proof -
  let ?m = "to_lower (trim raw)"
  obtain s where s: "row_saved s n n1" "s_email s = ?m" "s_verificationToken s = Some vt" "s_unsubscribeToken s = ut"
      "\<not> s_isVerified s" "\<not> s_isActive s" "s_deletedAt s = None"
      "s_verificationTokenExpiresAt s = Some (now env + 86400000)"
    using subscribe_saves [OF assms(7,2)] by blast
  let ?c = "confirmed_row env' s"
  let ?u = "?c\<lparr>s_isActive := (if wc then False else s_isActive ?c), s_deletedAt := Some (now env')\<rparr>"
  have c: "s_id ?c = s_id s" "s_email ?c = ?m" "s_verificationToken ?c = None" "s_unsubscribeToken ?c = ut"
      "s_isVerified ?c" "s_isActive ?c" "s_deletedAt ?c = None"
    using s by (simp_all add: confirmed_row_def)
  have rows1: "subscribers n1 = save_row s_id s (subscribers n)" using s(1) by (simp add: row_saved_def)
  have ok1: "news_ok n1" by (rule row_saved_ok [OF s(1) assms(1)])
  have others: "\<forall>y\<in>set (subscribers n). s_verificationToken y \<noteq> Some vt \<and> s_unsubscribeToken y \<noteq> ut"
    using assms(3,4) by force
  have f1: "find_one (\<lambda>s. s_verificationToken s = Some vt) (subscribers n1) = Some s"
    unfolding rows1 using s(3) others by (intro find_one_save_only) auto
  obtain n2 where n2: "confirm env' ae vt n1 = (Inr Confirmed, n2)" "subscribers n2 = save_row s_id ?c (subscribers n)"
    using f1 s assms(5,8) by (auto simp: confirm_def rows1 save_row_twice c(1))
  have sv2: "row_saved ?c n n2"
    using s(1,2) c n2(2) by (auto simp: row_saved_def row_ok_def)
  have ok2: "news_ok n2" by (rule row_saved_ok [OF sv2 assms(1)])
  have st2: "news_status n2 ?m = Subscribed"
    using row_saved_status [OF sv2 assms(1), of ?m] c by (simp add: status_of_row_def)
  have "find_one (\<lambda>s. s_verificationToken s = Some vt) (subscribers n2) = None"
    unfolding n2(2) using others c(3) by (intro find_one_save_none) auto
  then have again: "fst (confirm env' ae vt n2) = Inl (NotFound ''Invalid confirmation token.'')"
    by (simp add: confirm_def assms(5))
  have f2: "find_one (\<lambda>s. s_unsubscribeToken s = ut) (subscribers n2) = Some ?c"
    unfolding n2(2) using others c by (intro find_one_save_only) auto
  obtain n3 where n3: "unsubscribe env' ae wc ut n2 = (Inr Unsubscribed, n3)" "subscribers n3 = save_row s_id ?u (subscribers n)"
    using f2 c assms(6) by (auto simp: unsubscribe_def Let_def n2(2) save_row_twice)
  have sv3: "row_saved ?u n n3"
    using s(1,2) c n3(2) by (auto simp: row_saved_def row_ok_def)
  have st3: "news_status n3 ?m = Gone"
    using row_saved_status [OF sv3 assms(1), of ?m] c by (simp add: status_of_row_def)
  have "find_one (\<lambda>s. s_unsubscribeToken s = ut) (subscribers n3) = Some ?u"
    unfolding n3(2) using others c by (intro find_one_save_only) auto
  then have "unsubscribe env' ae wc ut n3 = (Inr AlreadyUnsubscribed, n3)"
    by (simp add: unsubscribe_def assms(6))
  with n2(1) st2 again n3(1) st3 show ?thesis by blast
qed

theorem subscription_roundtrip_witness:
  "\<exists>n2 n3. confirm (auth_time 1007 ''n2'') sample_auth ''vt'' sample_pending = (Inr Confirmed, n2) \<and>
    news_status n2 (to_lower (trim '' Eve@Nova'')) = Subscribed \<and>
    fst (confirm (auth_time 1007 ''n2'') sample_auth ''vt'' n2) = Inl (NotFound ''Invalid confirmation token.'') \<and>
    unsubscribe (auth_time 1007 ''n2'') sample_auth False ''ut'' n2 = (Inr Unsubscribed, n3) \<and>
    news_status n3 (to_lower (trim '' Eve@Nova'')) = Gone \<and>
    unsubscribe (auth_time 1007 ''n2'') sample_auth False ''ut'' n3 = (Inr AlreadyUnsubscribed, n3)"
proof (rule subscription_roundtrip [where n = sample_news and env = "auth_time 7 ''n1''"])
  show "news_ok sample_news" by (simp add: sample_news_def news_ok_def uniq_keys_def)
  show "subscribe (auth_time 7 ''n1'') sample_auth '' Eve@Nova'' None ''vt'' ''ut'' sample_news =
      (Inr (''n1'', ''eve@nova'', 7, False), sample_pending)"
    unfolding sample_pending_def by (rule prod_eqI) (code_simp, simp)
  show "trim ''vt'' = ''vt''" by code_simp
  show "trim ''ut'' = ''ut''" by code_simp
qed (simp_all add: sample_news_def auth_time_def)

text \<open>
  Two first subscriptions of one address that both read before either saved: the second save meets
  the unique index and becomes a 409.
\<close>

lemma concurrent_subscriptions:
  assumes "subscribe_check raw n = Inr None"
    and "subscribe_save env ae raw ip vt ut None n = (Inr x, n1)" and "uuid1 env' \<noteq> uuid1 env"
    and "length (case ip' of Some a \<Rightarrow> a | None \<Rightarrow> []) \<le> 64"
  shows "subscribe_save env' ae raw ip' vt' ut' None n1 = (Inl (Conflict ''Email is already subscribed.''), n1)"
proof -
  let ?s = "pending_row env ip vt ut (new_subscriber env (to_lower (trim raw)))"
  have "?s \<in> set (subscribers n1)"
    using assms(2) by (auto simp: subscribe_save_def save_subscriber_def Let_def save_row_self split: if_splits)
  moreover have "s_email ?s = to_lower (trim raw)" "s_id ?s = uuid1 env" by (simp_all add: pending_row_def new_subscriber_def)
  ultimately have "list_ex (\<lambda>x. s_email x = to_lower (trim raw) \<and> s_id x \<noteq> uuid1 env') (subscribers n1)"
    using assms(3) by (auto simp: list_ex_iff intro!: bexI [of _ ?s])
  then show ?thesis
    using assms(4) by (auto simp: subscribe_save_def save_subscriber_def pending_row_def new_subscriber_def Let_def set_undefined_def
      split: option.splits)
qed

text \<open>The greeting a template gets is short, never empty and free of markup.\<close>

lemma safe_name_bounds:
  "safeNameFromEmail m \<noteq> [] \<and> length (safeNameFromEmail m) \<le> 40 \<and> list_all name_char (safeNameFromEmail m)"
proof -
  have "list_all name_char (take 40 (filter name_char xs))" for xs
    by (auto simp: list_all_iff dest: in_set_takeD)
  moreover have "list_all name_char ''there''" by code_simp
  ultimately show ?thesis by (auto simp: safeNameFromEmail_def Let_def)
qed

lemma name_char_safe: "name_char c \<Longrightarrow> c \<notin> set ''<>&'' \<and> c \<noteq> CHR 0x22"
  by (auto simp: name_char_def is_upper_def is_lower_def is_digit_def is_space_def)

text \<open>A hexadecimal token needs no escaping in a link.\<close>

lemma encode_hex_token: "list_all (\<lambda>c. is_digit c \<or> is_lower c) s \<Longrightarrow> encodeURIComponent s = s"
  by (induction s) (auto simp: encodeURIComponent_def Let_def)

end
