(* ===== verification/Access.thy ===== *)
theory Access
  imports Newsletter
begin

text \<open>
  What stands between a request and its handler: the content type and CSRF middlewares, the JWT
  strategy with its guard, the CSRF guard, the role guard, the tenant interceptor, the guard of the
  metrics endpoint (\<open>main.ts\<close>, \<open>common/\<close>, \<open>auth/guard/\<close>, \<open>auth/strategy/\<close>, \<open>hub/\<close>, \<open>metrics/\<close>),
  the routes the controllers declare, the authentication cookies and the CORS configuration.

  Third-party parts are parameters: the extraction of a bearer token from the header and its
  verification by \<open>passport-jwt\<close>. The rate limiter is not modelled; it only refuses.
\<close>

section \<open>Requests\<close>

text \<open>Header names are lower case, the path is what follows the prefix \<open>/api\<close>.\<close>

record request =
  rq_method :: string
  rq_path :: "string list"
  rq_url :: string
  rq_headers :: "string \<Rightarrow> string option"
  rq_cookies :: "string \<Rightarrow> string option"
  rq_ip :: "string option"
  rq_body :: json

record gate_env =
  bearer :: "string \<Rightarrow> string option"
  verify_jwt :: "string \<Rightarrow> string \<Rightarrow> string \<Rightarrow> string \<Rightarrow> instant \<Rightarrow> json result"

definition blank :: "string option \<Rightarrow> bool" where
  "blank v \<longleftrightarrow> v = None \<or> v = Some []"

section \<open>Roles\<close>

definition ROLE_HIERARCHY :: "user_role \<Rightarrow> nat" where
  "ROLE_HIERARCHY r = (case r of SUPER_ADMIN \<Rightarrow> 4 | ADMIN \<Rightarrow> 3 | STAFF \<Rightarrow> 2 | USER \<Rightarrow> 1)"

lemma ROLE_HIERARCHY_inj: "ROLE_HIERARCHY r = ROLE_HIERARCHY s \<longleftrightarrow> r = s"
  by (cases r; cases s) (simp_all add: ROLE_HIERARCHY_def)

instantiation user_role :: linorder
begin

definition less_eq_user_role :: "user_role \<Rightarrow> user_role \<Rightarrow> bool" where
  "r \<le> s \<longleftrightarrow> ROLE_HIERARCHY r \<le> ROLE_HIERARCHY s"

definition less_user_role :: "user_role \<Rightarrow> user_role \<Rightarrow> bool" where
  "r < s \<longleftrightarrow> ROLE_HIERARCHY r < ROLE_HIERARCHY s"

instance
  by standard (auto simp: less_eq_user_role_def less_user_role_def ROLE_HIERARCHY_inj)

end

record request_user =
  ru_id :: uuid
  ru_fullName :: string
  ru_email :: string
  ru_role :: "json option"
  ru_hubId :: "json option"

text \<open>\<open>ROLE_HIERARCHY[user.role] ?? 0\<close>.\<close>

definition user_level :: "json option \<Rightarrow> nat" where
  "user_level role =
     (case role of
        Some (JStr s) \<Rightarrow> (case role_of_string s of Some r \<Rightarrow> ROLE_HIERARCHY r | None \<Rightarrow> 0)
      | _ \<Rightarrow> 0)"

definition roles_guard :: "user_role list option \<Rightarrow> request_user option \<Rightarrow> unit result" where
  "roles_guard required user =
     (case required of
        None \<Rightarrow> Inr ()
      | Some roles \<Rightarrow>
          (case user of
             None \<Rightarrow> Inl (Forbidden ''user not authenticated'')
           | Some u \<Rightarrow>
               if list_ex (\<lambda>r. ROLE_HIERARCHY r \<le> user_level (ru_role u)) roles then Inr ()
               else Inl (Forbidden ''You do not have permission to perform this action'')))"

section \<open>Authentication\<close>

text \<open>\<open>JwtStrategy.validate\<close>: the account is looked up, role and hub come from the token.\<close>

definition jwt_validate :: "env \<Rightarrow> json \<Rightarrow> world \<Rightarrow> request_user result" where
  "jwt_validate env payload w =
     (case js_get ''sub'' (Some payload) of
        None \<Rightarrow> Inl (Unauthorized ''Invalid access token'')
      | Some sub \<Rightarrow>
          (case find_subject env (if sub = Some JNull then None else sub) w of
             Inr (Some u) \<Rightarrow>
               Inr \<lparr>ru_id = u_id u, ru_fullName = u_firstname u @ '' '' @ u_lastname u, ru_email = u_email u,
                    ru_role = (case js_get ''role'' (Some payload) of Some r \<Rightarrow> r | None \<Rightarrow> None),
                    ru_hubId = (case js_get ''hubId'' (Some payload) of Some h \<Rightarrow> h | None \<Rightarrow> None)\<rparr>
           | _ \<Rightarrow> Inl (Unauthorized ''Invalid access token'')))"

text \<open>The strategy throws at start-up without \<open>JWT_SECRET\<close>; only the Authorization header is read.\<close>

definition authenticate :: "env \<Rightarrow> gate_env \<Rightarrow> request \<Rightarrow> world \<Rightarrow> request_user result" where
  "authenticate env ge req w =
     (case config env ''JWT_SECRET'' of
        None \<Rightarrow> Inl (JsError ''JWT_SECRET is not set'')
      | Some secret \<Rightarrow>
          if secret = [] then Inl (JsError ''JWT_SECRET is not set'')
          else (case rq_headers req ''authorization'' of
                  None \<Rightarrow> Inl (Unauthorized ''Unauthorized'')
                | Some h \<Rightarrow>
                    (case bearer ge h of
                       None \<Rightarrow> Inl (Unauthorized ''Unauthorized'')
                     | Some token \<Rightarrow>
                         (case verify_jwt ge secret (env_nonempty env ''JWT_ISSUER'' ''novalabs'')
                                 (env_nonempty env ''JWT_AUDIENCE'' ''novalabs-api'') token (now env) of
                            Inl e \<Rightarrow> Inl (Unauthorized ''Unauthorized'')
                          | Inr payload \<Rightarrow> jwt_validate env payload w))))"

definition jwt_guard :: "env \<Rightarrow> gate_env \<Rightarrow> bool \<Rightarrow> request \<Rightarrow> world \<Rightarrow> request_user option result" where
  "jwt_guard env ge is_public req w =
     (if is_public then Inr None else map_sum id Some (authenticate env ge req w))"

section \<open>CSRF and content type\<close>

definition STATE_CHANGING_METHODS :: "string list" where
  "STATE_CHANGING_METHODS = [''POST'', ''PUT'', ''PATCH'', ''DELETE'']"

definition csrf_guard :: "bool \<Rightarrow> request \<Rightarrow> unit result" where
  "csrf_guard is_public req =
     (if is_public then Inr ()
      else if rq_method req \<in> set STATE_CHANGING_METHODS \<and>
              (blank (rq_cookies req ''csrf'') \<or> blank (rq_headers req ''x-csrf-token'') \<or>
               rq_cookies req ''csrf'' \<noteq> rq_headers req ''x-csrf-token'')
      then Inl (Forbidden ''Invalid CSRF token'')
      else Inr ())"

text \<open>The cookie a response sets when the request has none; the token is two random UUIDs.\<close>

definition csrf_cookie :: "string \<Rightarrow> string \<Rightarrow> request \<Rightarrow> string option" where
  "csrf_cookie id1 id2 req =
     (if blank (rq_cookies req ''csrf'') then Some (filter (\<lambda>c. c \<noteq> CHR ''-'') id1 @ filter (\<lambda>c. c \<noteq> CHR ''-'') id2)
      else None)"

definition content_type_exempt :: "request \<Rightarrow> bool" where
  "content_type_exempt req \<longleftrightarrow>
     (let ct = (case rq_headers req ''content-type'' of Some c \<Rightarrow> c | None \<Rightarrow> [])
      in is_prefix ''multipart/form-data'' ct \<or> is_prefix ''application/x-www-form-urlencoded'' ct \<or>
         blank (rq_headers req ''content-length'') \<and> blank (rq_headers req ''transfer-encoding''))"

definition content_type_passes :: "request \<Rightarrow> bool" where
  "content_type_passes req \<longleftrightarrow>
     rq_method req \<notin> {''POST'', ''PUT'', ''PATCH''} \<or> content_type_exempt req \<or>
     is_prefix ''application/json'' (to_lower (case rq_headers req ''content-type'' of Some c \<Rightarrow> c | None \<Rightarrow> []))"

section \<open>Tenants\<close>

text \<open>The hub of the request, and whether an administrator switched to it.\<close>

definition resolve_tenant :: "uuid option \<Rightarrow> request_user option \<Rightarrow> request \<Rightarrow> (json option \<times> bool) result" where
  "resolve_tenant defaultHubId user req =
     (let own = (case user of Some u \<Rightarrow> ru_hubId u | None \<Rightarrow> None);
          header = rq_headers req ''x-hub-id'';
          role = (case user of Some u \<Rightarrow> ru_role u | None \<Rightarrow> None)
      in if blank header \<or> map_option JStr header = own
         then Inr (if own = None \<or> own = Some JNull then map_option JStr defaultHubId else own, False)
         else if role = Some (JStr ''admin'') \<or> role = Some (JStr ''super_admin'')
         then Inr (map_option JStr header, True)
         else Inl (Forbidden ''You do not have permission to switch hubs.''))"

record hub =
  h_id :: uuid
  h_name :: string
  h_slug :: string

text \<open>
  \<open>DefaultHubService.ensureDefaultHub\<close>: the read, the insert under the unique indexes on name and
  slug, and the second read when the insert fails. \<open>raced\<close> is the table as another instance left
  it between the first read and the insert.
\<close>

definition find_default_hub :: "hub list \<Rightarrow> hub option" where
  "find_default_hub hubs = find_one (\<lambda>h. h_slug h = ''default'') hubs"

definition ensureDefaultHub :: "env \<Rightarrow> hub list \<Rightarrow> hub list \<Rightarrow> uuid result \<times> hub list" where
  "ensureDefaultHub env hubs raced =
     (case find_default_hub hubs of
        Some h \<Rightarrow> (Inr (h_id h), hubs)
      | None \<Rightarrow>
          if list_ex (\<lambda>h. h_slug h = ''default'' \<or> h_name h = ''Default Hub'') raced
          then (case find_default_hub raced of
                  Some h \<Rightarrow> (Inr (h_id h), raced)
                | None \<Rightarrow> (Inl (DbError ''duplicate key value violates unique constraint''), raced))
          else (Inr (uuid1 env), raced @ [\<lparr>h_id = uuid1 env, h_name = ''Default Hub'', h_slug = ''default''\<rparr>]))"

section \<open>The metrics endpoint\<close>

definition configuredScrapeToken :: "env \<Rightarrow> string" where
  "configuredScrapeToken env =
     (let canonical = trim (env_default env ''METRICS_SCRAPE_TOKEN'' [])
      in if canonical \<noteq> [] then canonical else trim (env_default env ''METRICS_TOKEN'' []))"

definition extractBearerToken :: "request \<Rightarrow> string" where
  "extractBearerToken req =
     (case rq_headers req ''authorization'' of
        None \<Rightarrow> []
      | Some header \<Rightarrow>
          (case split_on (CHR '' '') header of
             scheme # token # _ \<Rightarrow> if scheme = ''Bearer'' then token else []
           | _ \<Rightarrow> []))"

definition metrics_guard :: "env \<Rightarrow> gate_env \<Rightarrow> request \<Rightarrow> unit result" where
  "metrics_guard env ge req =
     (let presented = extractBearerToken req; scrapeToken = configuredScrapeToken env;
          refused = Inl (Unauthorized ''Invalid metrics scrape credentials'')
      in if scrapeToken \<noteq> [] \<and> presented \<noteq> [] \<and> presented = scrapeToken then Inr ()
         else if presented = [] then refused
         else (let secret = trim (env_default env ''JWT_SECRET'' [])
               in if secret = [] then refused
                  else (case verify_jwt ge secret (env_nonempty env ''JWT_ISSUER'' ''novalabs'')
                               (env_nonempty env ''JWT_AUDIENCE'' ''novalabs-api'') presented (now env) of
                          Inl e \<Rightarrow> refused
                        | Inr payload \<Rightarrow>
                            if js_get ''role'' (Some payload) = Some (Some (JStr ''admin'')) \<or>
                               js_get ''role'' (Some payload) = Some (Some (JStr ''super_admin''))
                            then Inr () else Inl (Forbidden ''Insufficient role to read metrics''))))"

section \<open>Cookies\<close>

text \<open>\<open>maxAge\<close> is in milliseconds for Express; the values are the code's.\<close>

record cookie =
  ck_name :: string
  ck_value :: string
  ck_path :: string
  ck_maxAge :: int

definition setAuthCookies :: "string \<Rightarrow> string option \<Rightarrow> cookie list" where
  "setAuthCookies access refresh =
     \<lparr>ck_name = ''authAccessToken'', ck_value = access, ck_path = ''/'', ck_maxAge = 60 * 60 * 24\<rparr> #
     (case refresh of
        Some t \<Rightarrow> if t = [] then []
          else [\<lparr>ck_name = ''authRefreshToken'', ck_value = t, ck_path = ''/api/auth/refresh-token'',
                 ck_maxAge = 60 * 60 * 24 * 7\<rparr>]
      | None \<Rightarrow> [])"

definition clearAuthCookies :: "cookie list" where
  "clearAuthCookies =
     [\<lparr>ck_name = ''authAccessToken'', ck_value = [], ck_path = ''/'', ck_maxAge = 0\<rparr>,
      \<lparr>ck_name = ''authRefreshToken'', ck_value = [], ck_path = ''/api/auth/refresh-token'', ck_maxAge = 0\<rparr>]"

section \<open>CORS\<close>

fun cors_entries :: "string list \<Rightarrow> string list \<Rightarrow> string list result" where
  "cors_entries [] acc = Inr acc"
| "cors_entries (raw # rest) acc =
     (let entry = trim raw
      in if entry = [] then cors_entries rest acc
         else if entry = ''*'' \<or> to_lower entry = ''null'' then Inl (JsError ''Wildcard origin is not permitted'')
         else cors_entries rest (if entry \<in> set acc then acc else acc @ [entry]))"

definition parseCorsOrigins :: "string option \<Rightarrow> string list result" where
  "parseCorsOrigins csv =
     (case csv of
        None \<Rightarrow> Inr []
      | Some s \<Rightarrow> if s = [] then Inr [] else cors_entries (split_on (CHR '','') s) [])"

definition DEV_FALLBACK_ORIGINS :: "string list" where
  "DEV_FALLBACK_ORIGINS =
     [''http://localhost:3000'', ''http://localhost:3001'', ''http://localhost:3002'', ''http://localhost:3003'']"

definition resolveCorsConfig :: "string option \<Rightarrow> string option \<Rightarrow> string list result" where
  "resolveCorsConfig nodeEnv csv =
     (case parseCorsOrigins csv of
        Inl e \<Rightarrow> Inl e
      | Inr parsed \<Rightarrow>
          if nodeEnv = Some ''production''
          then if parsed = [] then Inl (JsError ''CORS_ORIGINS is required'') else Inr parsed
          else if parsed \<noteq> [] then Inr parsed else Inr DEV_FALLBACK_ORIGINS)"

text \<open>The socket gateway's origins: a list, or the string \<open>*\<close>.\<close>

definition resolveWsCorsConfig :: "string option \<Rightarrow> string option \<Rightarrow> (string list + string) result" where
  "resolveWsCorsConfig nodeEnv csv =
     (case parseCorsOrigins csv of
        Inl e \<Rightarrow> Inl e
      | Inr parsed \<Rightarrow>
          if nodeEnv = Some ''production''
          then if parsed = [] then Inl (JsError ''CORS_ORIGINS is required for the WebSocket gateway'')
               else Inr (Inl parsed)
          else Inr (if parsed \<noteq> [] then Inl parsed else Inr ''*''))"

definition resolveWsCorsConfigSafe :: "string option \<Rightarrow> string option \<Rightarrow> (string list + string) result" where
  "resolveWsCorsConfigSafe nodeEnv csv =
     (case resolveWsCorsConfig nodeEnv csv of
        Inl e \<Rightarrow> if nodeEnv = Some ''production'' then Inl e else Inr (Inl [])
      | Inr c \<Rightarrow> Inr c)"

end
