(* ===== verification/Routes.thy ===== *)
theory Routes
  imports Access
begin

text \<open>
  The routes the controllers declare with their guards (\<open>@Public\<close>, \<open>@UseGuards(RolesGuard)\<close> with
  \<open>@Roles\<close>), the dispatch of a request and the guards it passes. The router takes the first
  route whose verb and path fit; the metrics endpoint, which has a guard of its own, is in
  \<open>Access\<close>.

  A handler is named by its controller and its method.
\<close>

record route =
  rt_verb :: string
  rt_path :: "segment list"
  rt_public :: bool
  rt_roles :: "user_role list option"
  rt_handler :: string

definition public_route :: "string \<Rightarrow> segment list \<Rightarrow> string \<Rightarrow> route" where
  "public_route v p h = \<lparr>rt_verb = v, rt_path = p, rt_public = True, rt_roles = None, rt_handler = h\<rparr>"

definition session_route :: "string \<Rightarrow> segment list \<Rightarrow> string \<Rightarrow> route" where
  "session_route v p h = \<lparr>rt_verb = v, rt_path = p, rt_public = False, rt_roles = None, rt_handler = h\<rparr>"

definition role_route :: "user_role list \<Rightarrow> string \<Rightarrow> segment list \<Rightarrow> string \<Rightarrow> route" where
  "role_route rs v p h = \<lparr>rt_verb = v, rt_path = p, rt_public = False, rt_roles = Some rs, rt_handler = h\<rparr>"

definition any_role :: "user_role list" where
  "any_role = [USER, STAFF, ADMIN, SUPER_ADMIN]"

section \<open>The controllers\<close>

definition app_routes :: "route list" where
  "app_routes = [public_route ''GET'' [] ''app.getHello'', public_route ''GET'' [Lit ''health''] ''app.getHealth'']"

definition auth_routes :: "route list" where
  "auth_routes =
     [public_route ''POST'' [Lit ''auth'', Lit ''register''] ''auth.create'',
      public_route ''POST'' [Lit ''auth'', Lit ''verify-otp''] ''auth.verifyOtp'',
      public_route ''POST'' [Lit ''auth'', Lit ''resend-verification-otp''] ''auth.resendVerificationOtp'',
      role_route [ADMIN] ''POST'' [Lit ''auth'', Lit ''register-admin''] ''auth.createAdmin'',
      public_route ''POST'' [Lit ''auth'', Lit ''login''] ''auth.login'',
      public_route ''POST'' [Lit ''auth'', Lit ''refresh-token''] ''auth.refreshToken'',
      session_route ''GET'' [Lit ''auth'', Lit ''current-user''] ''auth.retrieveCurrentUser'',
      public_route ''POST'' [Lit ''auth'', Lit ''forgot-password''] ''auth.forgotPassword'',
      public_route ''POST'' [Lit ''auth'', Lit ''send-reset-password-otp''] ''auth.requestResetPasswordOtp'',
      public_route ''POST'' [Lit ''auth'', Lit ''resend-reset-password-otp''] ''auth.resendResetPasswordVerificationOtp'',
      public_route ''POST'' [Lit ''auth'', Lit ''verify-reset-password-otp''] ''auth.verifyResetPasswordOtp'',
      public_route ''POST'' [Lit ''auth'', Lit ''reset-password''] ''auth.resetPassword'',
      session_route ''POST'' [Lit ''auth'', Lit ''2fa'', Lit ''setup''] ''auth.setup2fa'',
      session_route ''POST'' [Lit ''auth'', Lit ''2fa'', Lit ''confirm''] ''auth.confirm2fa'',
      public_route ''POST'' [Lit ''auth'', Lit ''2fa'', Lit ''verify''] ''auth.verifyTotpLogin'',
      public_route ''POST'' [Lit ''auth'', Lit ''2fa'', Lit ''backup-code''] ''auth.verifyBackupCode'',
      session_route ''POST'' [Lit ''auth'', Lit ''2fa'', Lit ''disable''] ''auth.disable2fa'',
      session_route ''GET'' [Lit ''auth'', Lit ''2fa'', Lit ''status''] ''auth.get2faStatus'']"

definition passkey_routes :: "route list" where
  "passkey_routes =
     [session_route ''POST'' [Lit ''auth'', Lit ''passkey'', Lit ''register'', Lit ''options''] ''passkey.createRegistrationOptions'',
      session_route ''POST'' [Lit ''auth'', Lit ''passkey'', Lit ''register'', Lit ''verify''] ''passkey.verifyRegistrationResponse'',
      public_route ''POST'' [Lit ''auth'', Lit ''passkey'', Lit ''assertion'', Lit ''options''] ''passkey.createAssertionOptions'',
      public_route ''POST'' [Lit ''auth'', Lit ''passkey'', Lit ''assertion'', Lit ''verify''] ''passkey.verifyAssertionResponse'']"

definition sso_routes :: "route list" where
  "sso_routes =
     [public_route ''GET'' [Lit ''auth'', Lit ''sso'', Lit ''status''] ''sso.status'',
      public_route ''GET'' [Lit ''auth'', Lit ''sso'', Lit ''login''] ''sso.login'',
      public_route ''POST'' [Lit ''auth'', Lit ''sso'', Lit ''acs''] ''sso.acs'',
      public_route ''GET'' [Lit ''auth'', Lit ''sso'', Lit ''metadata''] ''sso.metadata'',
      public_route ''POST'' [Lit ''auth'', Lit ''sso'', Lit ''logout''] ''sso.logout'']"

definition user_routes :: "route list" where
  "user_routes =
     [session_route ''POST'' [Lit ''users'', Param, Lit ''profile-picture''] ''users.uploadProfilePicture'',
      session_route ''POST'' [Lit ''users'', Lit ''reset-password''] ''users.resetPassword'',
      session_route ''GET'' [Lit ''users'', Param] ''users.findOne'',
      role_route [ADMIN, SUPER_ADMIN] ''GET'' [Lit ''users''] ''users.findAll'',
      session_route ''PATCH'' [Lit ''users'', Param] ''users.update'',
      role_route [ADMIN, SUPER_ADMIN] ''DELETE'' [Lit ''users'', Param] ''users.remove'',
      session_route ''GET'' [Lit ''users'', Lit ''me'', Lit ''export.json''] ''users.exportUserData'',
      session_route ''DELETE'' [Lit ''users'', Lit ''me''] ''users.anonymiseMe'']"

definition member_routes :: "route list" where
  "member_routes =
     [role_route [ADMIN, SUPER_ADMIN, STAFF] ''GET'' [Lit ''members'', Lit ''stats''] ''members.getStats'',
      session_route ''GET'' [Lit ''members'', Lit ''me''] ''members.getMyProfile'',
      role_route [ADMIN, SUPER_ADMIN, STAFF] ''GET'' [Lit ''members''] ''members.findAll'',
      role_route [ADMIN, SUPER_ADMIN, STAFF] ''GET'' [Lit ''members'', Param] ''members.findOne'',
      role_route [ADMIN, SUPER_ADMIN, STAFF] ''PATCH'' [Lit ''members'', Param, Lit ''status''] ''members.updateStatus'']"

definition newsletter_routes :: "route list" where
  "newsletter_routes =
     [public_route ''POST'' [Lit ''newsletter'', Lit ''subscribe''] ''newsletter.subscribe'',
      public_route ''POST'' [Lit ''newsletter'', Lit ''confirm''] ''newsletter.confirm'',
      public_route ''POST'' [Lit ''newsletter'', Lit ''unsubscribe''] ''newsletter.unsubscribe'',
      role_route [ADMIN] ''GET'' [Lit ''newsletter'', Lit ''subscribers''] ''newsletter.listSubscribers'']"

definition contact_routes :: "route list" where
  "contact_routes = [public_route ''POST'' [Lit ''contact''] ''contact.submit'']"

definition dashboard_routes :: "route list" where
  "dashboard_routes =
     [session_route ''GET'' [Lit ''dashboard'', Lit ''stats''] ''dashboard.getStats'',
      session_route ''GET'' [Lit ''dashboard'', Lit ''activity''] ''dashboard.getActivity'',
      role_route [ADMIN] ''GET'' [Lit ''dashboard'', Lit ''admin'', Lit ''stats''] ''dashboard.getAdminStats'',
      role_route [ADMIN] ''GET'' [Lit ''dashboard'', Lit ''admin'', Lit ''users''] ''dashboard.getAdminUsers'',
      role_route [ADMIN, STAFF] ''GET'' [Lit ''dashboard'', Lit ''admin'', Lit ''analytics''] ''dashboard.getAdminAnalytics'',
      session_route ''GET'' [Lit ''dashboard'', Lit ''member''] ''dashboard.getMemberDashboard'',
      session_route ''GET'' [Lit ''dashboard'', Lit ''member'', Lit ''bookings''] ''dashboard.getMemberBookings'',
      session_route ''GET'' [Lit ''dashboard'', Lit ''member'', Lit ''payments''] ''dashboard.getMemberPayments'',
      session_route ''GET'' [Lit ''dashboard'', Lit ''member'', Lit ''invoices''] ''dashboard.getMemberInvoices'',
      session_route ''GET'' [Lit ''dashboard'', Lit ''member'', Lit ''check-ins''] ''dashboard.getMemberCheckIns'']"

definition workspace_routes :: "route list" where
  "workspace_routes =
     [role_route [ADMIN, SUPER_ADMIN] ''POST'' [Lit ''workspaces''] ''workspaces.create'',
      public_route ''GET'' [Lit ''workspaces''] ''workspaces.findAll'',
      role_route [ADMIN, SUPER_ADMIN, STAFF] ''GET'' [Lit ''workspaces'', Lit ''admin'', Lit ''all''] ''workspaces.findAllAdmin'',
      public_route ''GET'' [Lit ''workspaces'', Param] ''workspaces.findOne'',
      public_route ''GET'' [Lit ''workspaces'', Param, Lit ''availability''] ''workspaces.checkAvailability'',
      role_route [ADMIN, SUPER_ADMIN, STAFF] ''PATCH'' [Lit ''workspaces'', Param] ''workspaces.update'',
      role_route [ADMIN, SUPER_ADMIN] ''DELETE'' [Lit ''workspaces'', Param] ''workspaces.remove'']"

definition booking_routes :: "route list" where
  "booking_routes =
     [public_route ''POST'' [Lit ''bookings'', Lit ''public'', Lit ''day-pass''] ''bookings.publicDayPass'',
      session_route ''POST'' [Lit ''bookings''] ''bookings.create'',
      session_route ''GET'' [Lit ''bookings''] ''bookings.findAll'',
      session_route ''GET'' [Lit ''bookings'', Lit ''price-estimate''] ''bookings.getPriceEstimate'',
      session_route ''GET'' [Lit ''bookings'', Param] ''bookings.findOne'',
      role_route [ADMIN, SUPER_ADMIN, STAFF] ''PATCH'' [Lit ''bookings'', Param, Lit ''confirm''] ''bookings.confirm'',
      session_route ''PATCH'' [Lit ''bookings'', Param, Lit ''cancel''] ''bookings.cancel'',
      role_route [ADMIN, SUPER_ADMIN, STAFF] ''PATCH'' [Lit ''bookings'', Param, Lit ''complete''] ''bookings.complete'']"

definition payment_routes :: "route list" where
  "payment_routes =
     [session_route ''POST'' [Lit ''payments'', Lit ''initialize''] ''payments.initialize'',
      public_route ''POST'' [Lit ''payments'', Lit ''webhook''] ''payments.webhook'',
      role_route any_role ''POST'' [Lit ''payments'', Param, Lit ''refund''] ''payments.refund'',
      role_route any_role ''GET'' [Lit ''payments''] ''payments.findAll'',
      role_route any_role ''GET'' [Lit ''payments'', Param] ''payments.findOne'']"

definition invoice_routes :: "route list" where
  "invoice_routes =
     [role_route any_role ''GET'' [Lit ''invoices''] ''invoices.findAll'',
      role_route any_role ''GET'' [Lit ''invoices'', Param] ''invoices.findOne'',
      role_route any_role ''GET'' [Lit ''invoices'', Param, Lit ''download''] ''invoices.download'']"

definition notification_routes :: "route list" where
  "notification_routes =
     [role_route any_role ''GET'' [Lit ''notifications''] ''notifications.findAll'',
      role_route any_role ''PATCH'' [Lit ''notifications'', Param, Lit ''read''] ''notifications.markRead'',
      role_route any_role ''PATCH'' [Lit ''notifications'', Lit ''read-all''] ''notifications.markAllRead'']"

definition tracking_routes :: "route list" where
  "tracking_routes =
     [role_route any_role ''POST'' [Lit ''workspace-tracking'', Lit ''check-in''] ''tracking.checkIn'',
      role_route any_role ''PATCH'' [Lit ''workspace-tracking'', Lit ''check-out'', Param] ''tracking.checkOut'',
      role_route any_role ''GET'' [Lit ''workspace-tracking'', Lit ''active''] ''tracking.getActiveCheckIn'',
      role_route [STAFF, ADMIN, SUPER_ADMIN] ''GET'' [Lit ''workspace-tracking'', Lit ''occupancy''] ''tracking.getCurrentOccupancy'',
      role_route [STAFF, ADMIN, SUPER_ADMIN] ''GET'' [Lit ''workspace-tracking'', Lit ''utilization''] ''tracking.getUtilizationStats'',
      role_route [STAFF, ADMIN, SUPER_ADMIN] ''GET'' [Lit ''workspace-tracking'', Lit ''logs''] ''tracking.getRecentLogs'',
      role_route [STAFF, ADMIN, SUPER_ADMIN] ''GET'' [Lit ''workspace-tracking'', Lit ''audit'', Lit ''storage-summary''] ''tracking.getStorageAuditSummary'']"

definition audit_routes :: "route list" where
  "audit_routes = [role_route [ADMIN, SUPER_ADMIN] ''GET'' [Lit ''admin'', Lit ''audit''] ''auditlog.findAll'']"

definition all_routes :: "route list" where
  "all_routes =
     auth_routes @ passkey_routes @ sso_routes @ user_routes @ member_routes @ newsletter_routes @
     contact_routes @ dashboard_routes @ workspace_routes @ booking_routes @ payment_routes @
     invoice_routes @ notification_routes @ tracking_routes @ audit_routes @ app_routes"

section \<open>Dispatch and guards\<close>

definition dispatch :: "request \<Rightarrow> route option" where
  "dispatch req = find_one (\<lambda>r. rt_verb r = rq_method req \<and> path_fits (rt_path r) (rq_path req)) all_routes"

datatype gate_outcome =
    Unsupported_media
  | No_route
  | Refused exn
  | Admitted string "request_user option" "json option"

text \<open>
  The middlewares, the global guards, the route's role guard and the tenant interceptor, in the
  order the framework runs them.
\<close>

definition guards :: "env \<Rightarrow> gate_env \<Rightarrow> route \<Rightarrow> request \<Rightarrow> world \<Rightarrow> request_user option result" where
  "guards env ge r req w =
     (case jwt_guard env ge (rt_public r) req w of
        Inl e \<Rightarrow> Inl e
      | Inr u \<Rightarrow>
          (case csrf_guard (rt_public r) req of
             Inl e \<Rightarrow> Inl e
           | Inr _ \<Rightarrow> (case roles_guard (rt_roles r) u of Inl e \<Rightarrow> Inl e | Inr _ \<Rightarrow> Inr u)))"

definition gate :: "env \<Rightarrow> gate_env \<Rightarrow> uuid option \<Rightarrow> request \<Rightarrow> world \<Rightarrow> gate_outcome" where
  "gate env ge defaultHubId req w =
     (if \<not> content_type_passes req then Unsupported_media
      else case dispatch req of
        None \<Rightarrow> No_route
      | Some r \<Rightarrow>
          (case guards env ge r req w of
             Inl e \<Rightarrow> Refused e
           | Inr u \<Rightarrow>
               (case resolve_tenant defaultHubId u req of
                  Inl e \<Rightarrow> Refused e
                | Inr (hub, switched) \<Rightarrow> Admitted (rt_handler r) u hub)))"

section \<open>What admission means\<close>

lemma roles_guard_Inr:
  "roles_guard required user = Inr () \<longleftrightarrow>
     (case required of None \<Rightarrow> True
      | Some roles \<Rightarrow> \<exists>u. user = Some u \<and> (\<exists>r\<in>set roles. ROLE_HIERARCHY r \<le> user_level (ru_role u)))"
  by (auto simp: roles_guard_def list_ex_iff split: option.splits)

lemma user_level_role: "user_level (Some (JStr (role_string r))) = ROLE_HIERARCHY r"
proof -
  have "role_of_string (role_string r) = Some r" by (cases r) (simp_all add: role_of_string_def)
  then show ?thesis by (simp add: user_level_def)
qed

text \<open>On the roles the tokens carry, the guard is the order of the hierarchy.\<close>

lemma roles_guard_order:
  assumes "ru_role u = Some (JStr (role_string r))"
  shows "roles_guard (Some roles) (Some u) = Inr () \<longleftrightarrow> (\<exists>q\<in>set roles. q \<le> r)"
  using assms by (simp add: roles_guard_Inr user_level_role less_eq_user_role_def)

lemma roles_guard_mono:
  assumes "ru_role u = Some (JStr (role_string r))" "ru_role v = Some (JStr (role_string s))" "r \<le> s"
    and "roles_guard required (Some u) = Inr ()"
  shows "roles_guard required (Some v) = Inr ()"
proof (cases required)
  case None
  then show ?thesis by (simp add: roles_guard_def)
next
  case (Some roles)
  then show ?thesis using assms roles_guard_order [OF assms(1)] roles_guard_order [OF assms(2)] by fastforce
qed

lemma guards_Inr:
  assumes "guards env ge r req w = Inr u"
  shows "jwt_guard env ge (rt_public r) req w = Inr u" "csrf_guard (rt_public r) req = Inr ()"
    "roles_guard (rt_roles r) u = Inr ()"
  using assms by (auto simp: guards_def split: sum.splits)

lemma gate_Admitted:
  assumes "gate env ge dh req w = Admitted h u hub"
  obtains r switched where "content_type_passes req" "dispatch req = Some r" "rt_handler r = h"
    "guards env ge r req w = Inr u" "resolve_tenant dh u req = Inr (hub, switched)"
  using assms by (auto simp: gate_def split: if_splits option.splits sum.splits prod.splits)

lemma csrf_guard_Inr:
  "csrf_guard False req = Inr () \<Longrightarrow> rq_method req \<in> set STATE_CHANGING_METHODS \<Longrightarrow>
   \<exists>t. t \<noteq> [] \<and> rq_cookies req ''csrf'' = Some t \<and> rq_headers req ''x-csrf-token'' = Some t"
  by (auto simp: csrf_guard_def blank_def split: if_splits)

lemma resolve_tenant_switch:
  assumes "resolve_tenant dh u req = Inr (hub, switched)"
  shows "switched \<and> (\<exists>v. u = Some v \<and> ru_role v \<in> {Some (JStr ''admin''), Some (JStr ''super_admin'')}) \<and>
           hub = map_option JStr (rq_headers req ''x-hub-id'') \<or>
         \<not> switched \<and> hub \<in> {map_option JStr dh, case u of Some v \<Rightarrow> ru_hubId v | None \<Rightarrow> None}"
  using assms by (auto simp: resolve_tenant_def Let_def split: if_splits option.splits)

text \<open>
  C8: Admission: a request reaches the handler of a route that is not public only
  with a valid bearer token of an existing account; with, for a state-changing method, the same
  non-empty CSRF token in cookie and header; with a role at or above one the route lists; and it
  works in a hub other than its token's or the default one only with an administrator's role.
\<close>

theorem admission_authorised:
  assumes "gate env ge dh req w = Admitted h u hub" and "dispatch req = Some r" and "\<not> rt_public r"
  shows "\<exists>v. u = Some v \<and> authenticate env ge req w = Inr v \<and> rt_handler r = h \<and>
    (\<exists>x\<in>set (users w). u_id x = ru_id v \<and> (soft_hidden env \<longrightarrow> u_deletedAt x = None)) \<and>
    (rq_method req \<in> set STATE_CHANGING_METHODS \<longrightarrow>
       (\<exists>t. t \<noteq> [] \<and> rq_cookies req ''csrf'' = Some t \<and> rq_headers req ''x-csrf-token'' = Some t)) \<and>
    (case rt_roles r of None \<Rightarrow> True
     | Some roles \<Rightarrow> \<exists>q\<in>set roles. ROLE_HIERARCHY q \<le> user_level (ru_role v)) \<and>
    (hub \<in> {map_option JStr dh, ru_hubId v} \<or>
     ru_role v \<in> {Some (JStr ''admin''), Some (JStr ''super_admin'')})"
proof -
  obtain switched where g: "guards env ge r req w = Inr u" "rt_handler r = h" "resolve_tenant dh u req = Inr (hub, switched)"
    by (rule gate_Admitted [OF assms(1)]) (use assms(2) in auto)
  obtain v where v: "u = Some v" "authenticate env ge req w = Inr v"
    using guards_Inr(1) [OF g(1)] assms(3) by (cases "authenticate env ge req w") (auto simp: jwt_guard_def)
  have account: "\<exists>x\<in>set (users w). u_id x = ru_id v \<and> (soft_hidden env \<longrightarrow> u_deletedAt x = None)"
    using v(2) by (auto simp: authenticate_def jwt_validate_def find_subject_def find_user_def
        split: option.splits if_splits sum.splits json.splits dest!: find_one_SomeD)
  have "rq_method req \<in> set STATE_CHANGING_METHODS \<longrightarrow>
      (\<exists>t. t \<noteq> [] \<and> rq_cookies req ''csrf'' = Some t \<and> rq_headers req ''x-csrf-token'' = Some t)"
    using csrf_guard_Inr [of req] guards_Inr(2) [OF g(1)] assms(3) by simp
  moreover have "case rt_roles r of None \<Rightarrow> True
      | Some roles \<Rightarrow> \<exists>q\<in>set roles. ROLE_HIERARCHY q \<le> user_level (ru_role v)"
    using guards_Inr(3) [OF g(1)] v(1) by (auto simp: roles_guard_Inr split: option.splits)
  moreover have "hub \<in> {map_option JStr dh, ru_hubId v} \<or> ru_role v \<in> {Some (JStr ''admin''), Some (JStr ''super_admin'')}"
    using resolve_tenant_switch [OF g(3)] v(1) by auto
  ultimately show ?thesis using v g(2) account by blast
qed


section \<open>The account behind a token\<close>

lemma find_user_found:
  "find_user env P w = Some u \<Longrightarrow> u \<in> set (users w) \<and> P u \<and> (soft_hidden env \<longrightarrow> u_deletedAt u = None)"
  unfolding find_user_def by (drule find_one_SomeD) simp

lemma uniq_keys_same: "uniq_keys key rows \<Longrightarrow> x \<in> set rows \<Longrightarrow> y \<in> set rows \<Longrightarrow> key x = key y \<Longrightarrow> x = y"
  by (auto simp: uniq_keys_def distinct_map inj_on_def)

text \<open>
  Saving an account under its id and deletion date changes neither who a token stands for nor the
  role and the hub the request runs with.
\<close>

lemma find_subject_saved:
  assumes "uniq_keys u_id (users w)" "u \<in> set (users w)" "u_id u' = u_id u" "u_deletedAt u' = u_deletedAt u"
    and "find_subject env sub w = Inr (Some v)" "users w' = save_row u_id u' (users w)"
  shows "\<exists>v'. find_subject env sub w' = Inr (Some v') \<and> u_id v' = u_id v"
proof -
  have d: "distinct (map u_id (users w))" using assms(1) by (simp add: uniq_keys_def)
  have "\<exists>v'. find_user env P w' = Some v' \<and> u_id v' = u_id v"
    if f: "find_user env P w = Some v" and P: "\<And>x y. u_id x = u_id y \<Longrightarrow> P x = P y" for P
  proof -
    let ?Q = "\<lambda>u. (soft_hidden env \<longrightarrow> u_deletedAt u = None) \<and> P u"
    have f': "find_one ?Q (users w) = Some v" using f by (simp add: find_user_def)
    show ?thesis
    proof (cases "u_id v = u_id u")
      case True
      then have "v = u" using uniq_keys_same [OF assms(1)] find_user_found [OF f] assms(2) by blast
      then have "find_one ?Q (save_row u_id u' (users w)) = Some u'"
        using assms(3,4) find_user_found [OF f] P [of u' u] by (intro find_one_save_found [OF d f']) simp_all
      then show ?thesis using True assms(3,6) by (simp add: find_user_def)
    next
      case False
      have in_set: "u_id u' \<in> set (map u_id (users w))" using assms(2,3) by (metis in_set_conv_nth length_map nth_map)
      have "find_one ?Q (map (\<lambda>x. if u_id x = u_id u' then u' else x) rows) = Some v"
        if "find_one ?Q rows = Some v" "set rows \<subseteq> set (users w)" for rows
        using that
      proof (induction rows)
        case (Cons x rows)
        have "x = u" if "u_id x = u_id u'"
          using that Cons.prems(2) assms(2,3) uniq_keys_same [OF assms(1), of x u] by simp
        then have "?Q (if u_id x = u_id u' then u' else x) = ?Q x"
          using assms(3,4) P [of u' x] by auto
        then show ?case using Cons False assms(3) \<open>u_id x = u_id u' \<Longrightarrow> x = u\<close> by (auto split: if_splits)
      qed simp
      then have "find_one ?Q (users w') = Some v"
        using f' in_set unfolding assms(6) save_row_def by simp
      then show ?thesis by (simp add: find_user_def)
    qed
  qed
  then show ?thesis using assms(5) unfolding find_subject_def by (auto split: option.splits json.splits)
qed

definition same_session :: "request_user \<Rightarrow> request_user \<Rightarrow> bool" where
  "same_session v v' \<longleftrightarrow> ru_id v' = ru_id v \<and> ru_role v' = ru_role v \<and> ru_hubId v' = ru_hubId v"

lemma authenticate_saved:
  assumes "uniq_keys u_id (users w)" "u \<in> set (users w)" "u_id u' = u_id u" "u_deletedAt u' = u_deletedAt u"
    and "authenticate env ge req w = Inr v" "users w' = save_row u_id u' (users w)"
  shows "\<exists>v'. authenticate env ge req w' = Inr v' \<and> same_session v v'"
proof -
  obtain secret t payload where p: "config env ''JWT_SECRET'' = Some secret" "secret \<noteq> []"
      "rq_headers req ''authorization'' \<noteq> None" "bearer ge (the (rq_headers req ''authorization'')) = Some t"
      "verify_jwt ge secret (env_nonempty env ''JWT_ISSUER'' ''novalabs'')
         (env_nonempty env ''JWT_AUDIENCE'' ''novalabs-api'') t (now env) = Inr payload"
      "jwt_validate env payload w = Inr v"
    using assms(5) by (auto simp: authenticate_def split: option.splits if_splits sum.splits)
  obtain sub x where x: "js_get ''sub'' (Some payload) = Some sub"
      "find_subject env (if sub = Some JNull then None else sub) w = Inr (Some x)" "ru_id v = u_id x"
    using p(6) by (auto simp: jwt_validate_def split: option.splits sum.splits)
  from find_subject_saved [OF assms(1-4) x(2) assms(6)] obtain x' where
    x': "find_subject env (if sub = Some JNull then None else sub) w' = Inr (Some x')" "u_id x' = u_id x" by blast
  have "\<exists>v'. jwt_validate env payload w' = Inr v' \<and> same_session v v'"
    using p(6) x x' by (auto simp: jwt_validate_def same_session_def)
  then show ?thesis using p by (auto simp: authenticate_def)
qed

lemma gate_saved:
  assumes "uniq_keys u_id (users w)" "u \<in> set (users w)" "u_id u' = u_id u" "u_deletedAt u' = u_deletedAt u"
    and "users w' = save_row u_id u' (users w)" and "gate env ge dh req w = Admitted h (Some v) hub"
  shows "\<exists>v'. gate env ge dh req w' = Admitted h (Some v') hub \<and> same_session v v'"
proof -
  obtain r switched where g: "content_type_passes req" "dispatch req = Some r" "rt_handler r = h"
      "guards env ge r req w = Inr (Some v)" "resolve_tenant dh (Some v) req = Inr (hub, switched)"
    by (rule gate_Admitted [OF assms(6)])
  have j: "\<not> rt_public r" "authenticate env ge req w = Inr v"
    using guards_Inr(1) [OF g(4)] by (auto simp: jwt_guard_def split: if_splits) (cases "authenticate env ge req w"; simp)+
  obtain v' where v': "authenticate env ge req w' = Inr v'" "same_session v v'"
    using authenticate_saved [OF assms(1-4) j(2) assms(5)] by blast
  have "guards env ge r req w' = Inr (Some v')"
    using guards_Inr(2,3) [OF g(4)] j(1) v' by (auto simp: guards_def jwt_guard_def roles_guard_def same_session_def split: option.splits if_splits)
  moreover have "resolve_tenant dh (Some v') req = Inr (hub, switched)"
    using g(5) v'(2) by (simp add: resolve_tenant_def same_session_def)
  ultimately show ?thesis using g(1-3) v'(2) by (auto simp: gate_def)
qed

text \<open>
  A token outlives the rights it was issued for: whatever an administrator changes
  on the account (a demotion, a deactivation, a suspension), a request of its holder that would
  have been admitted before is admitted after, with the role the token carries.
\<close>

theorem demoted_admin_keeps_access:
  assumes "uniq_keys u_id (users w)"
    and "updateUser env k d ac w = (Inr u', w') \<or> updateStatus env k status w = (Inr u', w')"
    and "gate env' ge dh req w = Admitted h (Some v) hub"
  shows "\<exists>v'. gate env' ge dh req w' = Admitted h (Some v') hub \<and> ru_id v' = ru_id v \<and> ru_role v' = ru_role v"
proof -
  obtain u where u: "u \<in> set (users w)" "u_id u' = u_id u" "u_deletedAt u' = u_deletedAt u" "users w' = save_row u_id u' (users w)"
  proof -
    have "\<exists>u. u \<in> set (users w) \<and> u_id u' = u_id u \<and> u_deletedAt u' = u_deletedAt u \<and> users w' = save_row u_id u' (users w)"
    using assms(2)
  proof
    assume "updateUser env k d ac w = (Inr u', w')"
    then show ?thesis
      by (rule updateUser_Inr) (use update_gates_Inr(1) find_user_found in fastforce)
  next
    assume "updateStatus env k status w = (Inr u', w')"
    then show ?thesis
      by (auto simp: updateStatus_def Let_def save_user_def then_do_def split: option.splits if_splits dest!: find_user_found)
  qed
    then show ?thesis using that by blast
  qed
  show ?thesis using gate_saved [OF assms(1) u assms(3)] by (auto simp: same_session_def)
qed


section \<open>A concrete gate\<close>

definition sample_gate :: gate_env where
  "sample_gate =
     \<lparr>bearer = (\<lambda>h. Some h),
      verify_jwt = (\<lambda>_ _ _ t _. Inr (JObj [(''sub'', JStr t), (''role'', JStr ''admin'')]))\<rparr>"

definition gate_config :: env where
  "gate_config = sample_env\<lparr>config := (\<lambda>k. if k = ''JWT_SECRET'' then Some ''s'' else None)\<rparr>"

definition sample_request :: "string \<Rightarrow> string list \<Rightarrow> string option \<Rightarrow> request" where
  "sample_request verb path token =
     \<lparr>rq_method = verb, rq_path = path, rq_url = [],
      rq_headers = (\<lambda>h. if h = ''authorization'' then token else if h = ''x-csrf-token'' then Some ''c'' else None),
      rq_cookies = (\<lambda>c. if c = ''csrf'' then Some ''c'' else None), rq_ip = None, rq_body = JNull\<rparr>"

definition suspend_request :: request where
  "suspend_request = sample_request ''PATCH'' [''members'', ''ada'', ''status''] (Some ''admin'')"

definition sample_admin :: request_user where
  "sample_admin =
     \<lparr>ru_id = ''admin'', ru_fullName = ''Ada Obi'', ru_email = ''admin@nova'', ru_role = Some (JStr ''admin''), ru_hubId = None\<rparr>"

lemma sample_admission:
  "gate gate_config sample_gate (Some ''hub'') suspend_request sample_world =
     Admitted ''members.updateStatus'' (Some sample_admin) (Some (JStr ''hub''))"
  by code_simp

lemma sample_dispatch:
  "dispatch suspend_request =
     Some (role_route [ADMIN, SUPER_ADMIN, STAFF] ''PATCH'' [Lit ''members'', Param, Lit ''status''] ''members.updateStatus'')"
  by code_simp

theorem admission_authorised_witness:
  "\<exists>v. Some sample_admin = Some v \<and> authenticate gate_config sample_gate suspend_request sample_world = Inr v"
proof -
  let ?r = "role_route [ADMIN, SUPER_ADMIN, STAFF] ''PATCH'' [Lit ''members'', Param, Lit ''status''] ''members.updateStatus''"
  have "\<not> rt_public ?r" by (simp add: role_route_def)
  from admission_authorised [OF sample_admission sample_dispatch this] show ?thesis by blast
qed

theorem demoted_admin_keeps_access_witness:
  "\<exists>v'. gate gate_config sample_gate (Some ''hub'') suspend_request
      (snd (updateStatus sample_env ''admin'' M_SUSPENDED sample_world)) =
      Admitted ''members.updateStatus'' (Some v') (Some (JStr ''hub'')) \<and> ru_id v' = ''admin'' \<and> ru_role v' = Some (JStr ''admin'')"
proof -
  have "uniq_keys u_id (users sample_world)" by code_simp
  moreover obtain u' where "updateStatus sample_env ''admin'' M_SUSPENDED sample_world =
      (Inr u', snd (updateStatus sample_env ''admin'' M_SUSPENDED sample_world))"
  proof -
    have "is_ok (fst (updateStatus sample_env ''admin'' M_SUSPENDED sample_world))" by code_simp
    then show ?thesis using that by (metis is_ok_iff prod.collapse)
  qed
  ultimately show ?thesis
    using demoted_admin_keeps_access [OF _ disjI2 sample_admission] by (auto simp: sample_admin_def)
qed

section \<open>What is open to everyone\<close>

lemma public_mutations:
  "map rt_handler (filter (\<lambda>r. rt_public r \<and> rt_verb r \<in> set STATE_CHANGING_METHODS) all_routes) =
     [''auth.create'', ''auth.verifyOtp'', ''auth.resendVerificationOtp'', ''auth.login'', ''auth.refreshToken'',
      ''auth.forgotPassword'', ''auth.requestResetPasswordOtp'', ''auth.resendResetPasswordVerificationOtp'',
      ''auth.verifyResetPasswordOtp'', ''auth.resetPassword'', ''auth.verifyTotpLogin'', ''auth.verifyBackupCode'',
      ''passkey.createAssertionOptions'', ''passkey.verifyAssertionResponse'', ''sso.acs'', ''sso.logout'',
      ''newsletter.subscribe'', ''newsletter.confirm'', ''newsletter.unsubscribe'', ''contact.submit'',
      ''bookings.publicDayPass'', ''payments.webhook'']"
  by code_simp

text \<open>
  Without the Authorization header a request reaches public routes only: the authentication
  cookies are never read.
\<close>

lemma no_header_no_session:
  assumes "rq_headers req ''authorization'' = None"
  shows "authenticate env ge req w \<noteq> Inr v"
  using assms by (simp add: authenticate_def split: option.splits)

lemma cookies_do_not_authenticate:
  assumes "rq_headers req ''authorization'' = None" "gate env ge dh req w = Admitted h u hub"
  shows "u = None \<and> (\<exists>r\<in>set all_routes. rt_public r \<and> rt_handler r = h)"
proof -
  obtain r switched where r: "dispatch req = Some r" "rt_handler r = h" "guards env ge r req w = Inr u"
    by (rule gate_Admitted [OF assms(2)]) blast
  then have "rt_public r \<and> u = None"
    using guards_Inr(1) [OF r(3)] no_header_no_session [OF assms(1)]
    by (cases "authenticate env ge req w") (auto simp: jwt_guard_def split: if_splits)
  moreover have "r \<in> set all_routes" using r(1) unfolding dispatch_def by (blast dest: find_one_SomeD)
  ultimately show ?thesis using r(2) by blast
qed

lemma mailed_reset_needs_session:
  assumes "rq_method req = ''POST''" "rq_path req = [''users'', ''reset-password'']"
    and "rq_headers req ''authorization'' = None"
  shows "gate env ge dh req w \<noteq> Admitted h u hub"
proof
  assume a: "gate env ge dh req w = Admitted h u hub"
  obtain r switched where r: "dispatch req = Some r" "guards env ge r req w = Inr u"
    by (rule gate_Admitted [OF a]) blast
  have "find_one (\<lambda>r. rt_verb r = ''POST'' \<and> path_fits (rt_path r) [''users'', ''reset-password'']) all_routes =
      Some (session_route ''POST'' [Lit ''users'', Lit ''reset-password''] ''users.resetPassword'')"
    by code_simp
  then have "\<not> rt_public r" using r(1) assms(1,2) by (auto simp: dispatch_def session_route_def)
  then show False
    using guards_Inr(1) [OF r(2)] no_header_no_session [OF assms(3)]
    by (cases "authenticate env ge req w") (auto simp: jwt_guard_def)
qed

section \<open>CORS\<close>

definition add_new :: "string \<Rightarrow> string list \<Rightarrow> string list" where
  "add_new e acc = (if e \<in> set acc then acc else acc @ [e])"

lemma set_fold_add_new: "set (fold add_new es acc) = set es \<union> set acc"
  by (induction es arbitrary: acc) (auto simp: add_new_def)

lemma fold_add_new: "fold add_new es [] = rev (remdups (rev es))"
proof (induction es rule: rev_induct)
  case (snoc e es)
  then show ?case using set_fold_add_new [of es "[]"] by (simp add: add_new_def)
qed simp

definition wildcard :: "string \<Rightarrow> bool" where
  "wildcard e \<longleftrightarrow> e = ''*'' \<or> to_lower e = ''null''"

definition origin_entries :: "string option \<Rightarrow> string list" where
  "origin_entries csv = (case csv of None \<Rightarrow> [] | Some s \<Rightarrow> filter (\<lambda>e. e \<noteq> []) (map trim (split_on (CHR '','') s)))"

lemma cors_entries_fold:
  "cors_entries raws acc =
     (let es = filter (\<lambda>e. e \<noteq> []) (map trim raws)
      in if list_ex wildcard es then Inl (JsError ''Wildcard origin is not permitted'') else Inr (fold add_new es acc))"
  by (induction raws arbitrary: acc) (simp_all add: Let_def wildcard_def add_new_def)

text \<open>
  CORS: the allow-list is the list of the trimmed, non-empty entries, each once, in the
  order of their first occurrence, or an error when an entry is a wildcard or null; in production
  an empty list is an error, so the origins given to the server are never empty and never open.
\<close>

theorem cors_allow_list:
  "parseCorsOrigins csv =
     (if list_ex wildcard (origin_entries csv) then Inl (JsError ''Wildcard origin is not permitted'')
      else Inr (rev (remdups (rev (origin_entries csv))))) \<and>
   resolveCorsConfig (Some ''production'') csv =
     (if list_ex wildcard (origin_entries csv) then Inl (JsError ''Wildcard origin is not permitted'')
      else if origin_entries csv = [] then Inl (JsError ''CORS_ORIGINS is required'')
      else Inr (rev (remdups (rev (origin_entries csv))))) \<and>
   ''*'' \<notin> set (case resolveCorsConfig nodeEnv csv of Inr origins \<Rightarrow> origins | Inl e \<Rightarrow> [])"
proof -
  have p: "parseCorsOrigins csv = (if list_ex wildcard (origin_entries csv) then Inl (JsError ''Wildcard origin is not permitted'')
      else Inr (rev (remdups (rev (origin_entries csv)))))"
  proof (cases csv)
    case (Some s)
    have "trim [] = []" by (simp add: trim_def)
    then show ?thesis using Some by (auto simp: parseCorsOrigins_def origin_entries_def cors_entries_fold fold_add_new Let_def)
  qed (simp add: parseCorsOrigins_def origin_entries_def)
  have "''*'' \<notin> set (origin_entries csv)" if "\<not> list_ex wildcard (origin_entries csv)"
    using that by (auto simp: list_ex_iff wildcard_def)
  moreover have "''*'' \<notin> set DEV_FALLBACK_ORIGINS" by code_simp
  ultimately show ?thesis using p by (auto simp: resolveCorsConfig_def split: if_splits)
qed

text \<open>The socket gateway is as strict in production and open to every origin elsewhere.\<close>

lemma socket_origins:
  "resolveWsCorsConfig (Some ''production'') csv = Inr c \<Longrightarrow> resolveCorsConfig (Some ''production'') csv = Inr os \<Longrightarrow> c = Inl os"
  "resolveWsCorsConfig None None = Inr (Inr ''*'')"
  by (auto simp: resolveWsCorsConfig_def resolveCorsConfig_def parseCorsOrigins_def split: sum.splits if_splits)

section \<open>Metrics and the default hub\<close>

lemma metrics_fails_closed:
  assumes "metrics_guard env ge req = Inr ()"
  shows "(configuredScrapeToken env \<noteq> [] \<and> extractBearerToken req = configuredScrapeToken env) \<or>
    (\<exists>payload. verify_jwt ge (trim (env_default env ''JWT_SECRET'' [])) (env_nonempty env ''JWT_ISSUER'' ''novalabs'')
       (env_nonempty env ''JWT_AUDIENCE'' ''novalabs-api'') (extractBearerToken req) (now env) = Inr payload \<and>
       js_get ''role'' (Some payload) \<in> {Some (Some (JStr ''admin'')), Some (Some (JStr ''super_admin''))})"
  using assms by (auto simp: metrics_guard_def Let_def split: if_splits sum.splits)

text \<open>Instances that start at once agree on the default hub, and there is one.\<close>

lemma default_hub_agreed:
  assumes "ensureDefaultHub env [] [] = (Inr k, hubs)"
  shows "ensureDefaultHub env' [] hubs = (Inr k, hubs)" "ensureDefaultHub env' hubs raced = (Inr k, hubs)"
  using assms by (auto simp: ensureDefaultHub_def find_default_hub_def)

end
