(* ===== verification/Notices.thy ===== *)
theory Notices
  imports Routes
begin

text \<open>
  \<open>backend/src/notifications\<close>: the notifications of a user, their read flags, and the socket gateway
  that pushes new ones.

  The state adds the table, the rooms the sockets joined and what was emitted to them to the
  database; socket.io's rooms are sets of client and room. Page and limit are integers.
\<close>

section \<open>State\<close>

record notification =
  no_id :: uuid
  no_userId :: uuid
  no_type :: notification_type
  no_title :: string
  no_message :: string
  no_isRead :: bool
  no_metadata :: "json option"
  no_createdAt :: instant

record create_notification_input =
  ni_userId :: uuid
  ni_type :: notification_type
  ni_title :: string
  ni_message :: string
  ni_metadata :: "json option"

record push =
  pu_id :: uuid
  pu_type :: notification_type
  pu_title :: string
  pu_message :: string
  pu_createdAt :: instant

record notice_state =
  nt_world :: world
  notices :: "notification list"
  rooms :: "(string \<times> string) list"
  delivered :: "(string \<times> push) list"

section \<open>The gateway\<close>

fun replace_first :: "string \<Rightarrow> string \<Rightarrow> string" where
  "replace_first pat [] = []"
| "replace_first pat (c # s) =
     (if is_prefix pat (c # s) then drop (length pat) (c # s) else c # replace_first pat s)"

text \<open>A value in a template literal.\<close>

fun js_string :: "json \<Rightarrow> string" where
  "js_string JNull = ''null''"
| "js_string (JBool b) = (if b then ''true'' else ''false'')"
| "js_string (JNum n) = n"
| "js_string (JStr s) = s"
| "js_string (JObj ps) = ''[object Object]''"
| "js_string (JArr []) = []"
| "js_string (JArr [v]) = (if v = JNull then [] else js_string v)"
| "js_string (JArr (v # vs)) = (if v = JNull then [] else js_string v) @ '','' @ js_string (JArr vs)"

definition user_room :: "string \<Rightarrow> string" where
  "user_room k = ''user:'' @ k"

definition subject_text :: "json \<Rightarrow> string option" where
  "subject_text payload =
     (case js_get ''sub'' (Some payload) of
        None \<Rightarrow> None
      | Some None \<Rightarrow> Some ''undefined''
      | Some (Some v) \<Rightarrow> Some (js_string v))"

definition disconnect :: "string \<Rightarrow> notice_state \<Rightarrow> notice_state" where
  "disconnect client s = s\<lparr>rooms := filter (\<lambda>(c, _). c \<noteq> client) (rooms s)\<rparr>"

definition join :: "string \<Rightarrow> string \<Rightarrow> notice_state \<Rightarrow> notice_state" where
  "join client room s = (if (client, room) \<in> set (rooms s) then s else s\<lparr>rooms := rooms s @ [(client, room)]\<rparr>)"

definition presented_token :: "string option \<Rightarrow> string option \<Rightarrow> string option" where
  "presented_token authToken header =
     (case authToken of Some t \<Rightarrow> Some t | None \<Rightarrow> map_option (replace_first ''Bearer '') header)"

definition handleConnection ::
  "env \<Rightarrow> auth_env \<Rightarrow> string \<Rightarrow> string option \<Rightarrow> string option \<Rightarrow> notice_state \<Rightarrow> notice_state" where
  "handleConnection env ae client authToken header s =
     (case presented_token authToken header of
        None \<Rightarrow> disconnect client s
      | Some token \<Rightarrow>
          if token = [] then disconnect client s
          else (case jwt_verify ae (config env ''JWT_SECRET'') token (now env) of
                  Inl e \<Rightarrow> disconnect client s
                | Inr payload \<Rightarrow>
                    (case subject_text payload of
                       None \<Rightarrow> disconnect client s
                     | Some k \<Rightarrow> join client (user_room k) s)))"

definition sendToUser :: "uuid \<Rightarrow> push \<Rightarrow> notice_state \<Rightarrow> notice_state" where
  "sendToUser userId p s =
     s\<lparr>delivered := delivered s @ map (\<lambda>(c, _). (c, p)) (filter (\<lambda>(_, r). r = user_room userId) (rooms s))\<rparr>"

section \<open>The table\<close>

definition new_notification :: "env \<Rightarrow> create_notification_input \<Rightarrow> notification" where
  "new_notification env i =
     \<lparr>no_id = uuid1 env, no_userId = ni_userId i, no_type = ni_type i, no_title = ni_title i,
      no_message = ni_message i, no_isRead = False, no_metadata = ni_metadata i, no_createdAt = now env\<rparr>"

definition push_of :: "notification \<Rightarrow> push" where
  "push_of n =
     \<lparr>pu_id = no_id n, pu_type = no_type n, pu_title = no_title n, pu_message = no_message n,
      pu_createdAt = no_createdAt n\<rparr>"

text \<open>
  The insert is refused for a title over 255 characters and for a user without a row, deleted or not.
\<close>

definition create_notification ::
  "env \<Rightarrow> create_notification_input \<Rightarrow> notice_state \<Rightarrow> notification result \<times> notice_state" where
  "create_notification env i s =
     (let n = new_notification env i
      in if 255 < length (no_title n) then (Inl (DbError ''value too long for type character varying(255)''), s)
         else if no_userId n \<notin> u_id ` set (users (nt_world s))
         then (Inl (DbError ''violates foreign key constraint''), s)
         else (Inr n, sendToUser (ni_userId i) (push_of n) (s\<lparr>notices := notices s @ [n]\<rparr>)))"

record notification_query =
  fq_page :: "int option"
  fq_limit :: "int option"
  fq_isRead :: "bool option"

record notification_page =
  np_data :: "notification list"
  np_total :: nat
  np_unreadCount :: nat
  np_page :: int
  np_limit :: int

definition find_notifications :: "uuid \<Rightarrow> notification_query \<Rightarrow> notice_state \<Rightarrow> notification_page result" where
  "find_notifications userId q s =
     (let page = (case fq_page q of Some p \<Rightarrow> p | None \<Rightarrow> 1);
          lmt = min (case fq_limit q of Some l \<Rightarrow> l | None \<Rightarrow> 20) 100;
          rows = filter (\<lambda>n. no_userId n = userId \<and> (case fq_isRead q of Some b \<Rightarrow> no_isRead n = b | None \<Rightarrow> True))
                   (notices s)
      in map_sum id
           (\<lambda>xs. \<lparr>np_data = xs, np_total = length rows,
                  np_unreadCount = count_where (\<lambda>n. no_userId n = userId \<and> \<not> no_isRead n) (notices s),
                  np_page = page, np_limit = lmt\<rparr>)
           (paginate page lmt (newest_first no_createdAt rows)))"

definition markRead :: "uuid \<Rightarrow> uuid \<Rightarrow> notice_state \<Rightarrow> notice_state" where
  "markRead notificationId userId s =
     s\<lparr>notices := update_where (\<lambda>n. no_id n = notificationId \<and> no_userId n = userId) (\<lambda>n. n\<lparr>no_isRead := True\<rparr>)
         (notices s)\<rparr>"

definition markAllRead :: "uuid \<Rightarrow> notice_state \<Rightarrow> notice_state" where
  "markAllRead userId s =
     s\<lparr>notices := update_where (\<lambda>n. no_userId n = userId \<and> \<not> no_isRead n) (\<lambda>n. n\<lparr>no_isRead := True\<rparr>) (notices s)\<rparr>"

section \<open>The inbox\<close>

text \<open>
  What a notification table owes its users: reading changes the read flags of the caller's inbox and
  nothing else.
\<close>

definition unread_of :: "(uuid \<times> bool) list \<Rightarrow> nat" where
  "unread_of xs = count_where (\<lambda>(_, r). \<not> r) xs"

locale inbox_store =
  fixes view :: "'s \<Rightarrow> uuid \<Rightarrow> (uuid \<times> bool) list"
    and read_one :: "uuid \<Rightarrow> uuid \<Rightarrow> 's \<Rightarrow> 's"
    and read_all :: "uuid \<Rightarrow> 's \<Rightarrow> 's"
  assumes view_read_one: "view (read_one k u s) = (view s)(u := map (\<lambda>(i, r). (i, r \<or> i = k)) (view s u))"
    and view_read_all: "view (read_all u s) = (view s)(u := map (\<lambda>(i, _). (i, True)) (view s u))"
begin

lemma none_unread: "unread_of (view (read_all u s) u) = 0"
  by (auto simp: view_read_all unread_of_def count_where_0_iff)

lemma unread_decreases: "unread_of (view (read_one k u s) v) \<le> unread_of (view s v)"
proof -
  have "count_where (\<lambda>(_, r). \<not> r) (map (\<lambda>(i, r). (i, r \<or> i = k)) xs) \<le> count_where (\<lambda>(_, r). \<not> r) xs"
    for xs :: "(uuid \<times> bool) list"
    by (induction xs) auto
  then show ?thesis by (simp add: view_read_one unread_of_def)
qed

lemma reads_commute: "view (read_one k u (read_one l v s)) = view (read_one l v (read_one k u s))"
  by (auto simp: view_read_one fun_upd_twist)

lemma read_all_absorbs: "view (read_all u (read_one k u s)) = view (read_all u s)"
  by (simp add: view_read_one view_read_all case_prod_unfold comp_def)

end

definition inbox :: "notice_state \<Rightarrow> uuid \<Rightarrow> (uuid \<times> bool) list" where
  "inbox s u = map (\<lambda>n. (no_id n, no_isRead n)) (filter (\<lambda>n. no_userId n = u) (notices s))"

lemma inbox_update_where:
  assumes "\<And>n. no_userId (f n) = no_userId n" "\<And>n. no_id (f n) = no_id n"
  shows "map (\<lambda>n. (no_id n, no_isRead n)) (filter (\<lambda>n. no_userId n = u) (update_where P f xs)) =
    map (\<lambda>n. (no_id n, if P n then no_isRead (f n) else no_isRead n)) (filter (\<lambda>n. no_userId n = u) xs)"
  using assms by (induction xs) auto

interpretation notice_inbox: inbox_store inbox markRead markAllRead
proof unfold_locales
  fix k u s
  show "inbox (markRead k u s) = (inbox s)(u := map (\<lambda>(i, r). (i, r \<or> i = k)) (inbox s u))"
  proof
    fix v
    show "inbox (markRead k u s) v = ((inbox s)(u := map (\<lambda>(i, r). (i, r \<or> i = k)) (inbox s u))) v"
      by (auto simp: inbox_def markRead_def inbox_update_where)
  qed
next
  fix u s
  show "inbox (markAllRead u s) = (inbox s)(u := map (\<lambda>(i, _). (i, True)) (inbox s u))"
  proof
    fix v
    show "inbox (markAllRead u s) v = ((inbox s)(u := map (\<lambda>(i, _). (i, True)) (inbox s u))) v"
      by (auto simp: inbox_def markAllRead_def inbox_update_where)
  qed
qed

lemma inbox_sendToUser [simp]: "inbox (sendToUser k p s) = inbox s"
  by (simp add: inbox_def sendToUser_def fun_eq_iff)

lemma create_notification_cases:
  assumes "create_notification env i s = (r, s')"
  obtains e where "r = Inl e" "s' = s"
  | n where "r = Inr n" "n = new_notification env i" "length (no_title n) \<le> 255"
      "no_userId n \<in> u_id ` set (users (nt_world s))" "notices s' = notices s @ [n]"
      "nt_world s' = nt_world s" "rooms s' = rooms s"
      "delivered s' = delivered s @ map (\<lambda>(c, _). (c, push_of n)) (filter (\<lambda>(_, r). r = user_room (ni_userId i)) (rooms s))"
  using assms by (auto simp: create_notification_def Let_def sendToUser_def split: if_splits)

lemma count_where_columns:
  "count_where (\<lambda>n. no_userId n = u \<and> Q (no_isRead n)) xs =
   count_where (\<lambda>(_, r). Q r) (map (\<lambda>n. (no_id n, no_isRead n)) (filter (\<lambda>n. no_userId n = u) xs))"
  by (induction xs) auto

lemma find_notifications_Inr:
  assumes "find_notifications u q s = Inr pg"
  obtains "np_unreadCount pg = count_where (\<lambda>n. no_userId n = u \<and> \<not> no_isRead n) (notices s)"
    "np_total pg = count_where (\<lambda>n. no_userId n = u \<and> (case fq_isRead q of Some b \<Rightarrow> no_isRead n = b | None \<Rightarrow> True)) (notices s)"
    "set (np_data pg) \<subseteq> {n \<in> set (notices s). no_userId n = u}"
proof -
  from assms obtain xs where xs: "paginate (np_page pg) (np_limit pg) (newest_first no_createdAt
        (filter (\<lambda>n. no_userId n = u \<and> (case fq_isRead q of Some b \<Rightarrow> no_isRead n = b | None \<Rightarrow> True)) (notices s))) = Inr xs"
      "np_data pg = xs"
    by (auto simp: find_notifications_def Let_def map_sum_def split: sum.splits)
  have "set xs \<subseteq> {n \<in> set (notices s). no_userId n = u}"
    using xs(1) by (auto simp: paginate_def newest_first_def split: if_splits dest!: in_set_takeD in_set_dropD)
  moreover from assms have "np_unreadCount pg = count_where (\<lambda>n. no_userId n = u \<and> \<not> no_isRead n) (notices s)"
      "np_total pg = count_where (\<lambda>n. no_userId n = u \<and> (case fq_isRead q of Some b \<Rightarrow> no_isRead n = b | None \<Rightarrow> True)) (notices s)"
    by (auto simp: find_notifications_def Let_def map_sum_def count_where_def split: sum.splits)
  ultimately show ?thesis using xs(2) that by blast
qed

text \<open>
  C14: Inboxes: the table refines one list of (id, read) pairs per user. A notification that
  is created is appended, unread, to its user's list; reading one or all changes the caller's list
  only; and the page a user gets counts that list and its unread entries.
\<close>

theorem inboxes_refined:
  "(\<forall>n s'. create_notification env i s = (Inr n, s') \<longrightarrow>
      inbox s' = (inbox s)(ni_userId i := inbox s (ni_userId i) @ [(uuid1 env, False)])) \<and>
   inbox (markRead k u s) = (inbox s)(u := map (\<lambda>(i, r). (i, r \<or> i = k)) (inbox s u)) \<and>
   inbox (markAllRead u s) = (inbox s)(u := map (\<lambda>(i, _). (i, True)) (inbox s u)) \<and>
   (\<forall>q pg. find_notifications u q s = Inr pg \<longrightarrow>
      np_unreadCount pg = unread_of (inbox s u) \<and>
      np_total pg = count_where (\<lambda>(_, r). case fq_isRead q of Some b \<Rightarrow> r = b | None \<Rightarrow> True) (inbox s u) \<and>
      (\<forall>n\<in>set (np_data pg). (no_id n, no_isRead n) \<in> set (inbox s u)))"
proof (intro conjI allI impI ballI)
  fix n s' assume "create_notification env i s = (Inr n, s')"
  then show "inbox s' = (inbox s)(ni_userId i := inbox s (ni_userId i) @ [(uuid1 env, False)])"
    by (rule create_notification_cases) (auto simp: inbox_def new_notification_def fun_eq_iff)
next
  fix q pg assume f: "find_notifications u q s = Inr pg"
  show "np_unreadCount pg = unread_of (inbox s u)"
    by (rule find_notifications_Inr [OF f]) (simp add: unread_of_def inbox_def count_where_columns)
  show "np_total pg = count_where (\<lambda>(_, r). case fq_isRead q of Some b \<Rightarrow> r = b | None \<Rightarrow> True) (inbox s u)"
    by (rule find_notifications_Inr [OF f])
      (use count_where_columns [of u "\<lambda>r. case fq_isRead q of Some b \<Rightarrow> r = b | None \<Rightarrow> True" "notices s"] in \<open>simp add: inbox_def\<close>)
next
  fix q pg n assume f: "find_notifications u q s = Inr pg" and n: "n \<in> set (np_data pg)"
  show "(no_id n, no_isRead n) \<in> set (inbox s u)"
    by (rule find_notifications_Inr [OF f]) (use n in \<open>auto simp: inbox_def\<close>)
qed (rule notice_inbox.view_read_one notice_inbox.view_read_all)+

section \<open>Runs\<close>

text \<open>
  Any order of creations, reads, connections and closed connections; elsewhere the rest of the
  program works on the database, where deleting a user deletes its notifications with it.
\<close>

inductive notice_step :: "auth_env \<Rightarrow> notice_state \<Rightarrow> notice_state \<Rightarrow> bool" for ae where
  creates: "uuid1 env \<notin> no_id ` set (notices s) \<Longrightarrow> create_notification env i s = (r, s') \<Longrightarrow> notice_step ae s s'"
| reads: "notice_step ae s (markRead k u s)"
| reads_all: "notice_step ae s (markAllRead u s)"
| connects: "notice_step ae s (handleConnection env ae client authToken header s)"
| closes: "notice_step ae s (disconnect client s)"
| elsewhere: "notice_step ae s (s\<lparr>nt_world := w,
      notices := delete_where (\<lambda>n. no_userId n \<notin> u_id ` set (users w)) (notices s)\<rparr>)"

inductive notice_reachable :: "auth_env \<Rightarrow> notice_state \<Rightarrow> bool" for ae where
  started: "notices s = [] \<Longrightarrow> rooms s = [] \<Longrightarrow> delivered s = [] \<Longrightarrow> notice_reachable ae s"
| goes_on: "notice_reachable ae s \<Longrightarrow> notice_step ae s s' \<Longrightarrow> notice_reachable ae s'"

definition notice_row_ok :: "notice_state \<Rightarrow> notification \<Rightarrow> bool" where
  "notice_row_ok s n \<longleftrightarrow> length (no_title n) \<le> 255 \<and> no_userId n \<in> u_id ` set (users (nt_world s))"

definition notices_ok :: "notice_state \<Rightarrow> bool" where
  "notices_ok s \<longleftrightarrow> uniq_keys no_id (notices s) \<and> list_all (notice_row_ok s) (notices s)"

lemma notices_ok_read:
  assumes "notices_ok s"
  shows "notices_ok (s\<lparr>notices := update_where P (\<lambda>n. n\<lparr>no_isRead := True\<rparr>) (notices s)\<rparr>)"
  using assms by (auto simp: notices_ok_def uniq_keys_def map_key_update_where list_all_iff notice_row_ok_def set_update_where)

lemma notices_ok_same:
  "notices s' = notices s \<Longrightarrow> nt_world s' = nt_world s \<Longrightarrow> notices_ok s' = notices_ok s"
  by (simp add: notices_ok_def notice_row_ok_def [abs_def])

lemma handleConnection_frame [simp]:
  "notices (handleConnection env ae c t h s) = notices s" "nt_world (handleConnection env ae c t h s) = nt_world s"
  "delivered (handleConnection env ae c t h s) = delivered s"
  by (auto simp: handleConnection_def disconnect_def join_def split: option.splits sum.splits)

lemma disconnect_frame [simp]:
  "notices (disconnect c s) = notices s" "nt_world (disconnect c s) = nt_world s" "delivered (disconnect c s) = delivered s"
  by (simp_all add: disconnect_def)

lemma notices_ok_step:
  assumes "notice_step ae s s'" "notices_ok s"
  shows "notices_ok s'"
  using assms
proof (cases rule: notice_step.cases)
  case (creates env i r)
  show ?thesis
  proof (rule create_notification_cases [OF creates(2)])
    fix n assume n: "n = new_notification env i" "length (no_title n) \<le> 255"
      "no_userId n \<in> u_id ` set (users (nt_world s))" "notices s' = notices s @ [n]" "nt_world s' = nt_world s"
    then show ?thesis
      using assms(2) creates(1)
      by (auto simp: notices_ok_def uniq_keys_def notice_row_ok_def list_all_iff new_notification_def)
  qed (use assms(2) in simp)
next
  case (elsewhere w)
  then show ?thesis
    using assms(2) by (auto simp: notices_ok_def uniq_keys_def distinct_delete_where list_all_iff notice_row_ok_def)
next
  case (reads k u)
  show ?thesis unfolding reads markRead_def by (rule notices_ok_read [OF assms(2)])
next
  case (reads_all u)
  show ?thesis unfolding reads_all markAllRead_def by (rule notices_ok_read [OF assms(2)])
next
  case (connects env c t h)
  then show ?thesis using assms(2) notices_ok_same [of s' s] by simp
next
  case (closes c)
  then show ?thesis using assms(2) notices_ok_same [of s' s] by simp
qed


section \<open>Who hears a notification\<close>

definition token_names :: "env \<Rightarrow> auth_env \<Rightarrow> string \<Rightarrow> string \<Rightarrow> bool" where
  "token_names env ae t k \<longleftrightarrow>
     (\<exists>q. jwt_verify ae (config env ''JWT_SECRET'') t (now env) = Inr q \<and> subject_text q = Some k)"

definition rooms_ok :: "auth_env \<Rightarrow> notice_state \<Rightarrow> bool" where
  "rooms_ok ae s \<longleftrightarrow> (\<forall>(c, r)\<in>set (rooms s). \<exists>env t k. token_names env ae t k \<and> r = user_room k)"

lemma user_room_inj [simp]: "user_room k = user_room l \<longleftrightarrow> k = l"
  by (simp add: user_room_def)

lemma set_rooms_disconnect: "set (rooms (disconnect c s)) \<subseteq> set (rooms s)"
  by (auto simp: disconnect_def)

lemma set_rooms_join: "set (rooms (join c r s)) = insert (c, r) (set (rooms s))"
  by (auto simp: join_def)

lemma handleConnection_rooms:
  "set (rooms (handleConnection env ae c t h s)) \<subseteq> set (rooms s) \<or>
   (\<exists>token k. presented_token t h = Some token \<and> token_names env ae token k \<and>
      set (rooms (handleConnection env ae c t h s)) = insert (c, user_room k) (set (rooms s)))"
  by (auto simp: handleConnection_def token_names_def set_rooms_join set_rooms_disconnect [THEN subsetD]
      split: option.splits sum.splits)

lemma rooms_ok_step:
  assumes "notice_step ae s s'" "rooms_ok ae s"
  shows "rooms_ok ae s'"
  using assms
proof (cases rule: notice_step.cases)
  case (creates env i r)
  show ?thesis by (rule create_notification_cases [OF creates(2)]) (use assms(2) in \<open>simp_all add: rooms_ok_def\<close>)
next
  case (connects env c t h)
  then show ?thesis
    using assms(2) handleConnection_rooms [of env ae c t h s] unfolding rooms_ok_def by fastforce
next
  case (closes c)
  then show ?thesis using assms(2) set_rooms_disconnect [of c s] unfolding rooms_ok_def by blast
qed (use assms(2) in \<open>auto simp: rooms_ok_def markRead_def markAllRead_def\<close>)

lemma reachable_rooms_ok: "notice_reachable ae s \<Longrightarrow> rooms_ok ae s"
  by (induction rule: notice_reachable.induct) (auto simp: rooms_ok_def dest: rooms_ok_step [unfolded rooms_ok_def])

text \<open>
  Delivery: whatever came before, a new notification is pushed only to sockets that
  presented a verified token of its user.
\<close>

theorem push_reaches_token_holders:
  assumes "notice_reachable ae s" and "create_notification env i s = (Inr n, s')"
  shows "\<exists>es. delivered s' = delivered s @ es \<and>
    (\<forall>(c, p)\<in>set es. p = push_of n \<and> (\<exists>env' t. token_names env' ae t (no_userId n)))"
proof (rule create_notification_cases [OF assms(2)])
  fix m assume m: "Inr n = Inr m" "m = new_notification env i"
    "delivered s' = delivered s @ map (\<lambda>(c, _). (c, push_of m)) (filter (\<lambda>(_, r). r = user_room (ni_userId i)) (rooms s))"
  have "\<exists>env' t. token_names env' ae t (ni_userId i)" if "(c, user_room (ni_userId i)) \<in> set (rooms s)" for c
    using reachable_rooms_ok [OF assms(1)] that unfolding rooms_ok_def by fastforce
  then show ?thesis using m by (auto simp: new_notification_def)
qed simp

text \<open>
  Pending logins: the temporary token of a login that still lacks its second factor joins
  the user's room, so every notification created for the user is pushed to the socket; it needs the
  password only.
\<close>

theorem pending_login_listens:
  assumes "login env ae mailbox pw w = (Inr (RequiresTwoFactor t), w')" and "t \<noteq> []"
    and law: "\<And>k. generateTempToken env ae k = Inr t \<Longrightarrow> token_names env' ae t k"
    and "find_user env (\<lambda>u. u_email u = mailbox) w = Some u" and "ni_userId i = u_id u"
    and "create_notification env'' i (handleConnection env' ae client (Some t) header s) = (Inr n, s')"
  shows "u_twoFactorEnabled u \<and> (client, push_of n) \<in> set (delivered s')"
proof -
  from assms(1,4) have u: "u_twoFactorEnabled u" "generateTempToken env ae (u_id u) = Inr t"
    by (auto simp: login_def check_that_def then_do_def map_sum_def split: sum.splits if_splits prod.splits)
  from law [OF u(2)] obtain q where q: "jwt_verify ae (config env' ''JWT_SECRET'') t (now env') = Inr q"
      "subject_text q = Some (u_id u)"
    by (auto simp: token_names_def)
  have room: "(client, user_room (u_id u)) \<in> set (rooms (handleConnection env' ae client (Some t) header s))"
    using q assms(2) by (simp add: handleConnection_def presented_token_def set_rooms_join)
  have "(client, push_of n) \<in> set (delivered s')"
    by (rule create_notification_cases [OF assms(6)]) (use assms(5) room in \<open>auto simp: image_iff\<close>)
  with u(1) show ?thesis by blast
qed

section \<open>Witnesses\<close>

definition sample_notices :: notice_state where
  "sample_notices = \<lparr>nt_world = sample_world, notices = [], rooms = [], delivered = []\<rparr>"

definition sample_input :: create_notification_input where
  "sample_input = \<lparr>ni_userId = ''ada'', ni_type = GENERAL, ni_title = ''Hello'', ni_message = ''Hi'', ni_metadata = None\<rparr>"

definition sample_noticed :: notice_state where
  "sample_noticed = snd (create_notification sample_env sample_input sample_notices)"

lemma sample_creation:
  "create_notification sample_env sample_input sample_notices = (Inr (new_notification sample_env sample_input), sample_noticed)"
  unfolding sample_noticed_def by (rule prod_eqI) (code_simp, simp)

lemma sample_notices_reachable: "notice_reachable sample_auth sample_notices"
  by (rule notice_reachable.started) (simp_all add: sample_notices_def)

lemma sample_noticed_reachable: "notice_reachable sample_auth sample_noticed"
  by (rule notice_reachable.goes_on [OF sample_notices_reachable notice_step.creates [OF _ sample_creation]])
    (simp add: sample_notices_def)

theorem inboxes_refined_witness:
  "inbox sample_noticed ''ada'' = [(''id1'', False)]"
proof -
  have "inbox sample_noticed = (inbox sample_notices)(''ada'' := inbox sample_notices ''ada'' @ [(''id1'', False)])"
    using inboxes_refined [of sample_env sample_input sample_notices] sample_creation
    by (auto simp: sample_input_def sample_env_def)
  then show ?thesis by (simp add: inbox_def sample_notices_def)
qed


theorem push_reaches_token_holders_witness:
  "\<exists>es. delivered sample_noticed = delivered sample_notices @ es"
  using push_reaches_token_holders [OF sample_notices_reachable sample_creation] by blast

lemma sample_temp_token:
  "generateTempToken (auth_time 7 ''t1'') sample_auth k = Inr ''bob:0'' \<Longrightarrow>
   token_names (auth_time 7 ''t1'') sample_auth ''bob:0'' k"
proof -
  assume "generateTempToken (auth_time 7 ''t1'') sample_auth k = Inr ''bob:0''"
  then have "k @ '':0'' = ''bob'' @ '':0''" by (simp add: generateTempToken_def sample_auth_def js_get_def auth_time_def)
  then have "k = ''bob''" by (simp only: append_same_eq)
  then show ?thesis by (simp add: token_names_def sample_auth_def subject_text_def js_get_def)
qed

definition bob_input :: create_notification_input where
  "bob_input = sample_input\<lparr>ni_userId := ''bob''\<rparr>"

definition bob_listening :: notice_state where
  "bob_listening = handleConnection (auth_time 7 ''t1'') sample_auth ''socket'' (Some ''bob:0'') None (sample_notices\<lparr>nt_world := sample_2fa\<rparr>)"

theorem pending_login_listens_witness:
  "\<exists>n. fst (create_notification sample_env bob_input bob_listening) = Inr n \<and>
     (''socket'', push_of n) \<in> set (delivered (snd (create_notification sample_env bob_input bob_listening)))"
proof -
  let ?l = "login (auth_time 7 ''t1'') sample_auth ''bob@nova'' ''Passw0rd'' sample_2fa"
  have "fst ?l = Inr (RequiresTwoFactor ''bob:0'')" by code_simp
  then have l: "?l = (Inr (RequiresTwoFactor ''bob:0''), snd ?l)" by (simp add: prod_eq_iff)
  have "map_option u_id (find_user (auth_time 7 ''t1'') (\<lambda>u. u_email u = ''bob@nova'') sample_2fa) = Some ''bob''" by code_simp
  then obtain u where u: "find_user (auth_time 7 ''t1'') (\<lambda>u. u_email u = ''bob@nova'') sample_2fa = Some u" "u_id u = ''bob''"
    by auto
  have k: "ni_userId bob_input = u_id u" using u(2) by (simp add: bob_input_def)
  let ?c = "create_notification sample_env bob_input bob_listening"
  have "is_ok (fst ?c)" by code_simp
  then obtain n where c: "?c = (Inr n, snd ?c)" by (auto simp: is_ok_iff prod_eq_iff)
  from pending_login_listens [OF l _ sample_temp_token u(1) k c [unfolded bob_listening_def]]
  have "(''socket'', push_of n) \<in> set (delivered (snd ?c))" by (simp add: bob_listening_def)
  with c show ?thesis by (metis fst_conv)
qed

end
