(* ===== verification/Progress.thy ===== *)
theory Progress
  imports Guarantees
begin

text \<open>
  Infinite runs of the booking and payment requests: while the expiry job keeps running, no booking
  stays pending.
\<close>

section \<open>Runs\<close>

definition runs :: "(nat \<Rightarrow> world) \<Rightarrow> bool" where
  "runs \<sigma> \<longleftrightarrow> reachable (\<sigma> 0) \<and> (\<forall>n. request (\<sigma> n) (\<sigma> (Suc n)))"

text \<open>
  After every point of the run and every instant the job runs once more; its settings, the numbers
  the environment variables hold, stay the same.
\<close>

definition cron_keeps_running :: "(string \<Rightarrow> rat option) \<Rightarrow> (nat \<Rightarrow> world) \<Rightarrow> bool" where
  "cron_keeps_running settings \<sigma> \<longleftrightarrow> (\<forall>n t. \<exists>m\<ge>n. \<exists>env.
     t \<le> now env \<and> config_num env = settings \<and> \<sigma> (Suc m) = sweepAbandonedBookings env (\<sigma> m))"

lemma runs_reachable: "runs \<sigma> \<Longrightarrow> reachable (\<sigma> n)"
  by (induction n) (auto simp: runs_def intro: continues)

definition left_pending :: "uuid \<Rightarrow> booking \<Rightarrow> world \<Rightarrow> bool" where
  "left_pending k b w \<longleftrightarrow> (\<exists>b'. find_booking k w = Some b' \<and> terms_of b' = terms_of b \<and> b_status b' \<noteq> B_PENDING)"

lemma booking_later:
  assumes "runs \<sigma>" "find_booking k (\<sigma> n) = Some b"
  shows "\<exists>b'. find_booking k (\<sigma> (n + d)) = Some b' \<and> terms_of b' = terms_of b \<and>
    (b_status b \<noteq> B_PENDING \<longrightarrow> b_status b' \<noteq> B_PENDING)"
proof (induction d)
  case 0
  with assms(2) show ?case by simp
next
  case (Suc d)
  then obtain b' where b': "find_booking k (\<sigma> (n + d)) = Some b'" "terms_of b' = terms_of b"
      "b_status b \<noteq> B_PENDING \<longrightarrow> b_status b' \<noteq> B_PENDING" by blast
  have "request (\<sigma> (n + d)) (\<sigma> (n + Suc d))" using assms(1) by (simp add: runs_def)
  from booking_moves [OF runs_reachable [OF assms(1)] this b'(1)] b'(2,3) show ?case by auto
qed

lemma swept_expires:
  assumes "reachable w" "find_booking k w = Some b" "effectiveDeadline env b \<le> now env"
  shows "left_pending k b (sweepAbandonedBookings env w)"
proof -
  have "bookings (sweepAbandonedBookings env w) =
      update_where (overdue env) (\<lambda>b. b\<lparr>b_status := B_EXPIRED\<rparr>) (bookings w)"
    using sweep_is_swept [OF reachable_uniq [OF assms(1)], of env] by (simp add: sweepAbandonedBookings_def swept_def)
  then show ?thesis
    using assms(2,3)
    by (auto simp: left_pending_def find_booking_def find_by_def find_one_update_where overdue_def terms_of_def)
qed

text \<open>
  C5: Progress: on a run on which the expiry job keeps running, every booking sooner or later
  leaves the status pending, and from then on stays out of it, with its terms unchanged.
\<close>

theorem no_booking_pends_forever:
  assumes "runs \<sigma>" and "cron_keeps_running settings \<sigma>" and "find_booking k (\<sigma> n) = Some b"
  shows "\<exists>m\<ge>n. \<forall>j\<ge>m. left_pending k b (\<sigma> j)"
proof -
  define due where "due = effectiveDeadline (sample_env\<lparr>config_num := settings\<rparr>) b"
  obtain m env where m: "n \<le> m" "due \<le> now env" "config_num env = settings"
      "\<sigma> (Suc m) = sweepAbandonedBookings env (\<sigma> m)"
    using assms(2) unfolding cron_keeps_running_def by blast
  obtain b' where b': "find_booking k (\<sigma> m) = Some b'" "terms_of b' = terms_of b"
    using booking_later [OF assms(1,3), of "m - n"] m(1) by auto
  have "effectiveDeadline env b' = due"
    using b'(2) m(3) by (auto simp: due_def effectiveDeadline_def deadlineFor_def ttlMinutesFor_def terms_of_def split: option.splits)
  with swept_expires [OF runs_reachable [OF assms(1)] b'(1)] m(2,4) have "left_pending k b' (\<sigma> (Suc m))" by simp
  then obtain b'' where b'': "find_booking k (\<sigma> (Suc m)) = Some b''" "terms_of b'' = terms_of b" "b_status b'' \<noteq> B_PENDING"
    using b'(2) by (auto simp: left_pending_def)
  have "left_pending k b (\<sigma> j)" if "Suc m \<le> j" for j
    using booking_later [OF assms(1) b''(1), of "j - Suc m"] that b''(2,3) by (auto simp: left_pending_def)
  then show ?thesis using m(1) by (intro exI [of _ "Suc m"]) simp
qed

primrec sweeping_run :: "nat \<Rightarrow> world" where
  "sweeping_run 0 = sample_opened"
| "sweeping_run (Suc n) = sweepAbandonedBookings (sample_env\<lparr>now := int n\<rparr>) (sweeping_run n)"

theorem no_booking_pends_forever_witness:
  "\<exists>b m. find_booking ''id1'' sample_opened = Some b \<and> b_status b = B_PENDING \<and> (\<exists>j\<ge>m. left_pending ''id1'' b (sweeping_run j))"
proof -
  have r: "runs sweeping_run"
    using sample_reached(2) by (auto simp: runs_def sweepAbandonedBookings_def intro: sweeps prod.collapse [symmetric])
  have c: "cron_keeps_running (config_num sample_env) sweeping_run"
    unfolding cron_keeps_running_def
  proof (intro allI)
    fix n and t :: instant
    show "\<exists>m\<ge>n. \<exists>env. t \<le> now env \<and> config_num env = config_num sample_env \<and>
        sweeping_run (Suc m) = sweepAbandonedBookings env (sweeping_run m)"
      by (rule exI [of _ "max n (nat t)"], intro conjI exI [of _ "sample_env\<lparr>now := int (max n (nat t))\<rparr>"]) auto
  qed
  have "map_option b_status (find_booking ''id1'' sample_opened) = Some B_PENDING" by code_simp
  then obtain b where b: "find_booking ''id1'' sample_opened = Some b" "b_status b = B_PENDING" by auto
  have "find_booking ''id1'' (sweeping_run 0) = Some b" using b by simp
  from no_booking_pends_forever [OF r c this] b show ?thesis by blast
qed

end
