(* ===== verification/Web_Client.thy ===== *)
theory Web_Client
  imports Notices
begin

text \<open>
  The browser's side of a session: the authentication store, the API client and the local storage
  (\<open>frontend/lib/store/authStore.ts\<close>, \<open>apiClient.ts\<close>, \<open>storage.ts\<close>), the role gate
  (\<open>components/RoleGate.tsx\<close>), the redirect hook and the pages that open a session or save a profile.

  A JavaScript value is a \<open>json option\<close> with \<open>None\<close> for \<open>undefined\<close>. What the server answers to a
  request is an argument; printing and parsing a value through the storage gives it back.
\<close>

section \<open>State\<close>

record auth_store =
  au_user :: "json option"
  au_accessToken :: "json option"
  au_isAuthenticated :: bool
  au_isLoading :: bool

text \<open>
  \<open>saved_user\<close> is the text under \<open>authUser\<close>: absent, a printed value, or the text undefined.
  \<open>persisted\<close> is the part of the store the middleware writes at every change.
\<close>

record client =
  store :: auth_store
  api_token :: "json option"
  saved_token :: "string option"
  saved_user :: "json option option"
  persisted :: "json option \<times> json option \<times> bool"

definition signed_out :: auth_store where
  "signed_out = \<lparr>au_user = Some JNull, au_accessToken = Some JNull, au_isAuthenticated = False, au_isLoading = False\<rparr>"

definition new_client :: client where
  "new_client = \<lparr>store = signed_out, api_token = Some JNull, saved_token = None, saved_user = None,
     persisted = (Some JNull, Some JNull, False)\<rparr>"

definition set_store :: "(auth_store \<Rightarrow> auth_store) \<Rightarrow> client \<Rightarrow> client" where
  "set_store f c =
     (let s = f (store c)
      in c\<lparr>store := s, persisted := (au_user s, au_accessToken s, au_isAuthenticated s)\<rparr>)"

definition api_setToken :: "json option \<Rightarrow> client \<Rightarrow> client" where
  "api_setToken t c = c\<lparr>api_token := t\<rparr>"

definition storage_setToken :: "json option \<Rightarrow> client \<Rightarrow> client" where
  "storage_setToken t c = c\<lparr>saved_token := Some (case t of None \<Rightarrow> ''undefined'' | Some v \<Rightarrow> js_string v)\<rparr>"

definition storage_setUser :: "json option \<Rightarrow> client \<Rightarrow> client" where
  "storage_setUser u c = c\<lparr>saved_user := Some u\<rparr>"

definition storage_clear :: "client \<Rightarrow> client" where
  "storage_clear c = c\<lparr>saved_token := None, saved_user := None\<rparr>"

section \<open>The API client\<close>

text \<open>
  The headers of a request: the token of the client, and for a state-changing method the CSRF token
  the page reads from its cookies.
\<close>

definition api_headers :: "string \<Rightarrow> string option \<Rightarrow> client \<Rightarrow> string \<Rightarrow> string option" where
  "api_headers verb csrf c h =
     (if h = ''content-type'' then Some ''application/json''
      else if h = ''authorization'' then
        (if js_truthy (api_token c) then Some (''Bearer '' @ js_string (the (api_token c))) else None)
      else if h = ''x-csrf-token'' then
        (if verb \<in> set STATE_CHANGING_METHODS \<and> \<not> blank csrf then csrf else None)
      else None)"

definition api_request ::
  "string \<Rightarrow> string list \<Rightarrow> json option \<Rightarrow> (string \<Rightarrow> string option) \<Rightarrow> client \<Rightarrow> request" where
  "api_request verb path body jar c =
     \<lparr>rq_method = verb, rq_path = path, rq_url = ''/api'' @ concat (map (\<lambda>p. ''/'' @ p) path),
      rq_headers = api_headers verb (jar ''csrf'') c, rq_cookies = jar, rq_ip = None,
      rq_body = (case body of None \<Rightarrow> JNull | Some v \<Rightarrow> if js_truthy body then v else JNull)\<rparr>"

text \<open>What \<open>fetch\<close> gives: no answer, an error status or a success, with the body if it is JSON.\<close>

datatype answer =
    No_answer string
  | Error_status "json option"
  | Ok_status "json option"

datatype client_error =
    Api_error string
  | Two_factor_required "json option" string
  | Unverified string "json option"

definition api_call :: "answer \<Rightarrow> client_error + json" where
  "api_call a =
     (case a of
        No_answer m \<Rightarrow> Inl (Api_error m)
      | Error_status b \<Rightarrow>
          (case js_get ''message'' (case b of None \<Rightarrow> Some (JObj []) | Some v \<Rightarrow> Some v) of
             None \<Rightarrow> Inl (Api_error ''Cannot read properties of null'')
           | Some m \<Rightarrow> Inl (Api_error (if js_truthy m then js_string (the m) else ''An API error occurred'')))
      | Ok_status None \<Rightarrow> Inl (Api_error ''Unexpected end of JSON input'')
      | Ok_status (Some v) \<Rightarrow> Inr v)"

text \<open>A property of an answer that is an object; a \<open>null\<close> answer fails before.\<close>

definition field :: "string \<Rightarrow> json \<Rightarrow> json option" where
  "field k v = (case js_get k (Some v) of None \<Rightarrow> None | Some x \<Rightarrow> x)"

section \<open>The store's actions\<close>

definition loading :: "bool \<Rightarrow> client \<Rightarrow> client" where
  "loading b c = set_store (\<lambda>s. s\<lparr>au_isLoading := b\<rparr>) c"

definition open_session :: "json option \<Rightarrow> json option \<Rightarrow> client \<Rightarrow> client" where
  "open_session user token c =
     storage_setUser user (storage_setToken token
       (set_store (\<lambda>_. \<lparr>au_user = user, au_accessToken = token, au_isAuthenticated = True, au_isLoading = False\<rparr>)
         (api_setToken token c)))"

definition store_login :: "answer \<Rightarrow> string \<Rightarrow> client \<Rightarrow> client_error option \<times> client" where
  "store_login a mailbox c0 =
     (let c = loading True c0
      in case api_call a of
           Inl e \<Rightarrow> (Some e, loading False c)
         | Inr JNull \<Rightarrow> (Some (Api_error ''Cannot destructure null''), loading False c)
         | Inr resp \<Rightarrow>
             if js_truthy (field ''requiresTwoFactor'' resp) \<and> js_truthy (field ''tempToken'' resp)
             then (Some (Two_factor_required (field ''tempToken'' resp) mailbox), loading False c)
             else if \<not> js_truthy (field ''accessToken'' resp) \<and> js_truthy (field ''message'' resp)
             then (Some (Unverified mailbox (field ''message'' resp)), loading False c)
             else (None, open_session (field ''user'' resp) (field ''accessToken'' resp) c))"

definition store_register :: "answer \<Rightarrow> client \<Rightarrow> client_error option \<times> client" where
  "store_register a c0 =
     (let c = loading True c0
      in case api_call a of
           Inl e \<Rightarrow> (Some e, loading False c)
         | Inr JNull \<Rightarrow> (Some (Api_error ''Cannot destructure null''), loading False c)
         | Inr resp \<Rightarrow> (None, open_session (field ''user'' resp) (field ''accessToken'' resp) c))"

definition logout :: "client \<Rightarrow> client" where
  "logout c = storage_clear (api_setToken (Some JNull) (set_store (\<lambda>_. signed_out) c))"

definition clearAuth :: "client \<Rightarrow> client" where
  "clearAuth c = storage_clear (api_setToken (Some JNull) (set_store (\<lambda>_. signed_out) c))"

definition refreshAccessToken :: "answer \<Rightarrow> client \<Rightarrow> client_error option \<times> client" where
  "refreshAccessToken a c =
     (if \<not> js_truthy (au_accessToken (store c)) then (Some (Api_error ''No token available''), logout c)
      else case api_call a of
        Inl e \<Rightarrow> (Some e, logout c)
      | Inr JNull \<Rightarrow> (Some (Api_error ''Cannot destructure null''), logout c)
      | Inr resp \<Rightarrow>
          let token = field ''accessToken'' resp; user = field ''user'' resp
          in (None, storage_setUser user (storage_setToken token
                (set_store (\<lambda>s. s\<lparr>au_user := user, au_accessToken := token, au_isAuthenticated := True\<rparr>)
                  (api_setToken token c)))))"

text \<open>The path of \<open>updateProfile\<close>'s request and the action; \<open>None\<close>: no user, no request.\<close>

definition profile_path :: "client \<Rightarrow> string list option" where
  "profile_path c =
     (if js_truthy (au_user (store c))
      then Some [''users'', case field ''id'' (the (au_user (store c))) of None \<Rightarrow> ''undefined'' | Some v \<Rightarrow> js_string v]
      else None)"

definition updateProfile :: "answer \<Rightarrow> client \<Rightarrow> client_error option \<times> client" where
  "updateProfile a c0 =
     (let c = loading True c0
      in case profile_path c of
           None \<Rightarrow> (Some (Api_error ''Not authenticated''), loading False c)
         | Some path \<Rightarrow>
             (case api_call a of
                Inl e \<Rightarrow> (Some e, loading False c)
              | Inr user \<Rightarrow>
                  (None, storage_setUser (Some user)
                     (set_store (\<lambda>s. s\<lparr>au_user := Some user, au_isLoading := False\<rparr>) c))))"

definition setUser :: "json option \<Rightarrow> client \<Rightarrow> client" where
  "setUser user c = set_store (\<lambda>s. s\<lparr>au_user := user, au_isAuthenticated := js_truthy user\<rparr>) c"

definition setToken :: "json option \<Rightarrow> client \<Rightarrow> client" where
  "setToken t c = api_setToken t (set_store (\<lambda>s. s\<lparr>au_accessToken := t\<rparr>) c)"

text \<open>The saved text undefined is no JSON: \<open>getUser\<close> throws.\<close>

definition initializeAuth :: "client \<Rightarrow> client_error option \<times> client" where
  "initializeAuth c =
     (case saved_user c of
        Some None \<Rightarrow> (Some (Api_error ''undefined is not valid JSON''), c)
      | u \<Rightarrow>
          let user = (case u of Some (Some v) \<Rightarrow> Some v | _ \<Rightarrow> Some JNull);
              token = (case saved_token c of Some t \<Rightarrow> Some (JStr t) | None \<Rightarrow> Some JNull)
          in (None,
              if js_truthy token \<and> js_truthy user
              then set_store (\<lambda>s. s\<lparr>au_user := user, au_accessToken := token, au_isAuthenticated := True\<rparr>)
                     (api_setToken token c)
              else c))"

text \<open>Loading the page anew: the middleware restores what it wrote, the API client is new.\<close>

definition reload :: "client \<Rightarrow> client" where
  "reload c =
     (let present = (\<lambda>v. if v = None then Some JNull else v)
      in case persisted c of
           (user, token, authenticated) \<Rightarrow>
             c\<lparr>store := \<lparr>au_user = present user, au_accessToken = present token, au_isAuthenticated = authenticated,
                         au_isLoading = False\<rparr>,
               api_token := Some JNull\<rparr>)"

section \<open>Pages\<close>

text \<open>The page of the second factor, after its request; the page of the mailed code does the same.\<close>

definition adopt_session :: "json option \<Rightarrow> json option \<Rightarrow> client \<Rightarrow> client" where
  "adopt_session user token c =
     storage_setUser user (storage_setToken token (setToken token (setUser user (api_setToken token c))))"

text \<open>Saving the profile: the message shown and the client after it.\<close>

definition save_profile :: "answer \<Rightarrow> client \<Rightarrow> string option \<times> client" where
  "save_profile a c =
     (if \<not> js_truthy (au_user (store c)) then (None, c)
      else case api_call a of
        Inl (Api_error m) \<Rightarrow> (Some m, c)
      | Inl e \<Rightarrow> (Some ''Update failed.'', c)
      | Inr v \<Rightarrow>
          (case initializeAuth c of
             (None, c') \<Rightarrow> (Some ''Profile updated.'', c')
           | (Some (Api_error m), c') \<Rightarrow> (Some m, c')
           | (Some e, c') \<Rightarrow> (Some ''Update failed.'', c')))"

text \<open>The upload of a picture goes past the API client.\<close>

definition upload_request :: "(string \<Rightarrow> string option) \<Rightarrow> string \<Rightarrow> client \<Rightarrow> request" where
  "upload_request jar userId c =
     \<lparr>rq_method = ''POST'', rq_path = [''users'', userId, ''profile-picture''],
      rq_url = ''/api/users/'' @ userId @ ''/profile-picture'',
      rq_headers = (\<lambda>h. if h = ''authorization'' then Some (''Bearer '' @ (case saved_token c of Some t \<Rightarrow> t | None \<Rightarrow> []))
                       else if h = ''content-type'' then Some ''multipart/form-data'' else None),
      rq_cookies = jar, rq_ip = None, rq_body = JNull\<rparr>"

section \<open>What a page shows\<close>

definition ROLE_RANK :: "string \<Rightarrow> nat option" where
  "ROLE_RANK r = (if r = ''user'' then Some 1 else if r = ''admin'' then Some 2 else None)"

definition RoleGate :: "string \<Rightarrow> bool \<Rightarrow> auth_store \<Rightarrow> bool" where
  "RoleGate role mounted s \<longleftrightarrow>
     mounted \<and> au_isAuthenticated s \<and> js_truthy (au_user s) \<and>
     (let current = (case field ''role'' (the (au_user s)) of
            None \<Rightarrow> ''user'' | Some JNull \<Rightarrow> ''user'' | Some v \<Rightarrow> js_string v);
          have_rank = (case ROLE_RANK current of Some n \<Rightarrow> n | None \<Rightarrow> 0)
      in case ROLE_RANK role of Some required \<Rightarrow> required \<le> have_rank | None \<Rightarrow> True)"

record redirect_options =
  ro_requireAuth :: bool
  ro_requiredRole :: "string option"
  ro_redirectTo :: string
  ro_redirectIfAuthenticated :: "string option"

definition user_role_is :: "string \<Rightarrow> auth_store \<Rightarrow> bool" where
  "user_role_is r s \<longleftrightarrow>
     (case au_user s of None \<Rightarrow> False | Some u \<Rightarrow> field ''role'' u = Some (JStr r))"

definition canAccess :: "redirect_options \<Rightarrow> auth_store \<Rightarrow> bool" where
  "canAccess opts s \<longleftrightarrow>
     (if \<not> ro_requireAuth opts then True
      else if \<not> au_isAuthenticated s then False
      else case ro_requiredRole opts of
             None \<Rightarrow> True
           | Some r \<Rightarrow> r = [] \<or> user_role_is r s)"

text \<open>Where the hook sends the browser; \<open>redirect\<close> is the parameter of the page's address.\<close>

definition redirect_target :: "redirect_options \<Rightarrow> string option \<Rightarrow> string \<Rightarrow> auth_store \<Rightarrow> string option" where
  "redirect_target opts redirect currentPath s =
     (if au_isLoading s then None
      else if au_isAuthenticated s \<and> \<not> blank (ro_redirectIfAuthenticated opts)
      then (if blank redirect then ro_redirectIfAuthenticated opts else redirect)
      else if ro_requireAuth opts \<and> \<not> au_isAuthenticated s
      then Some (ro_redirectTo opts @ ''?redirect='' @ encodeURIComponent currentPath)
      else if au_isAuthenticated s \<and> \<not> blank (ro_requiredRole opts) \<and> \<not> user_role_is (the (ro_requiredRole opts)) s
      then Some ''/dashboard''
      else None)"

section \<open>Ending a session\<close>

text \<open>
  Logout: whatever the client held, after a logout neither it nor a page loaded anew, with
  its stored session restored, is signed in, and no request of theirs carries a token.
\<close>

theorem logout_complete:
  fixes c :: client
  shows "store (logout c) = signed_out \<and> initializeAuth (reload (logout c)) = (None, reload (logout c)) \<and>
    store (reload (logout c)) = signed_out \<and>
    rq_headers (api_request verb path body jar (logout c)) ''authorization'' = None \<and>
    rq_headers (api_request verb path body jar (reload (logout c))) ''authorization'' = None \<and>
    \<not> RoleGate role mounted (store (logout c)) \<and> \<not> RoleGate role mounted (store (reload (logout c)))"
  by (simp add: logout_def reload_def initializeAuth_def set_store_def api_setToken_def storage_clear_def signed_out_def
      api_request_def api_headers_def js_truthy_def RoleGate_def Let_def)

section \<open>Opening one\<close>

text \<open>A session once opened survives loading the page anew.\<close>

definition in_session :: "json \<Rightarrow> string \<Rightarrow> client \<Rightarrow> bool" where
  "in_session user token c \<longleftrightarrow>
     au_user (store c) = Some user \<and> au_accessToken (store c) = Some (JStr token) \<and> au_isAuthenticated (store c) \<and>
     api_token c = Some (JStr token) \<and> saved_token c = Some token \<and> saved_user c = Some (Some user) \<and>
     persisted c = (Some user, Some (JStr token), True)"

lemma open_session_in_session: "in_session user token (open_session (Some user) (Some (JStr token)) c)"
  by (simp add: in_session_def open_session_def storage_setUser_def storage_setToken_def set_store_def api_setToken_def Let_def)

lemma adopt_session_in_session:
  "js_truthy (Some user) \<Longrightarrow> in_session user token (adopt_session (Some user) (Some (JStr token)) c)"
  by (simp add: in_session_def adopt_session_def storage_setUser_def storage_setToken_def set_store_def api_setToken_def
      setToken_def setUser_def Let_def)

lemma session_survives_reload:
  assumes "in_session user token c" "token \<noteq> []" "js_truthy (Some user)"
  shows "in_session user token (snd (initializeAuth (reload c))) \<and> fst (initializeAuth (reload c)) = None"
  using assms by (simp add: in_session_def reload_def initializeAuth_def set_store_def api_setToken_def js_truthy_def Let_def)

lemma session_header:
  "in_session user token c \<Longrightarrow> token \<noteq> [] \<Longrightarrow>
   rq_headers (api_request verb path body jar c) ''authorization'' = Some (''Bearer '' @ token)"
  by (simp add: api_request_def api_headers_def in_session_def js_truthy_def)

section \<open>The account's answers\<close>

text \<open>The bodies of \<open>POST /auth/login\<close> and \<open>/auth/register\<close>; printing the account is a parameter.\<close>

definition login_body :: "(user_response \<Rightarrow> json) \<Rightarrow> login_result \<Rightarrow> json" where
  "login_body print r =
     (case r of
        LoggedIn u tp \<Rightarrow> JObj [(''user'', print u), (''accessToken'', JStr (tp_accessToken tp)), (''refreshToken'', JStr (tp_refreshToken tp))]
      | EmailNotVerified u \<Rightarrow> JObj [(''message'', JStr ''Please verify your email before logging in''), (''user'', print u)]
      | RequiresTwoFactor t \<Rightarrow> JObj [(''requiresTwoFactor'', JBool True), (''tempToken'', JStr t)])"

definition register_body :: "(user_response \<Rightarrow> json) \<Rightarrow> user_response \<times> string \<Rightarrow> json" where
  "register_body print r = JObj [(''user'', print (fst r)), (''accessToken'', JStr (snd r))]"

lemma field_JObj: "field k (JObj ps) = map_of (rev ps) k"
  by (simp add: field_def js_get_def)

text \<open>The store's login tells the three answers of the backend apart.\<close>

lemma store_login_cases:
  "t \<noteq> [] \<Longrightarrow> fst (store_login (Ok_status (Some (login_body print (RequiresTwoFactor t)))) mailbox c) =
     Some (Two_factor_required (Some (JStr t)) mailbox)"
  "\<exists>m. fst (store_login (Ok_status (Some (login_body print (EmailNotVerified u)))) mailbox c) = Some (Unverified mailbox m)"
  "tp_accessToken tp \<noteq> [] \<Longrightarrow> fst (store_login (Ok_status (Some (login_body print (LoggedIn u tp)))) mailbox c) = None \<and>
     in_session (print u) (tp_accessToken tp) (snd (store_login (Ok_status (Some (login_body print (LoggedIn u tp)))) mailbox c))"
  by (simp_all add: store_login_def login_body_def api_call_def field_JObj js_truthy_def open_session_in_session)

section \<open>From the browser to the gate\<close>

text \<open>
  What the JWT library and passport's header parsing do with a token that was signed here and has not
  expired: they give back its subject and role.
\<close>

definition access_law :: "env \<Rightarrow> auth_env \<Rightarrow> env \<Rightarrow> gate_env \<Rightarrow> string \<Rightarrow> bool" where
  "access_law env ae env' ge t \<longleftrightarrow> bearer ge (''Bearer '' @ t) = Some t \<and>
     (\<forall>claims opts iat. jwt_sign ae (config env ''JWT_SECRET'') claims opts iat = Inr t \<longrightarrow>
        (\<exists>q. verify_jwt ge (the (config env' ''JWT_SECRET'')) (env_nonempty env' ''JWT_ISSUER'' ''novalabs'')
               (env_nonempty env' ''JWT_AUDIENCE'' ''novalabs-api'') t (now env') = Inr q \<and>
             js_get ''sub'' (Some q) = js_get ''sub'' (Some claims) \<and> js_get ''role'' (Some q) = js_get ''role'' (Some claims)))"

definition has_account :: "env \<Rightarrow> uuid \<Rightarrow> world \<Rightarrow> bool" where
  "has_account env k w \<longleftrightarrow> (\<exists>x\<in>set (users w). u_id x = k \<and> (soft_hidden env \<longrightarrow> u_deletedAt x = None))"

lemma access_claims_fields:
  "js_get ''sub'' (Some (access_claims ae u)) = Some (Some (JStr (u_id u)))"
  "js_get ''role'' (Some (access_claims ae u)) = Some (Some (JStr (role_string (u_role u))))"
  by (simp_all add: access_claims_def js_get_def split: option.splits)

lemma signed_token_authenticates:
  assumes "generateAccessToken env ae u = Inr t" "access_law env ae env' ge t"
    and "\<not> blank (config env' ''JWT_SECRET'')" "has_account env' (u_id u) w"
    and "rq_headers req ''authorization'' = Some (''Bearer '' @ t)"
  shows "\<exists>v. authenticate env' ge req w = Inr v \<and> ru_id v = u_id u \<and> ru_role v = Some (JStr (role_string (u_role u)))"
proof -
  from assms(1,2) obtain q where q: "verify_jwt ge (the (config env' ''JWT_SECRET'')) (env_nonempty env' ''JWT_ISSUER'' ''novalabs'')
      (env_nonempty env' ''JWT_AUDIENCE'' ''novalabs-api'') t (now env') = Inr q"
      "js_get ''sub'' (Some q) = Some (Some (JStr (u_id u)))" "js_get ''role'' (Some q) = Some (Some (JStr (role_string (u_role u))))"
    unfolding generateAccessToken_def access_law_def access_claims_fields [symmetric, of u ae] by blast
  have "find_user env' (\<lambda>x. where_eq env' (Some (u_id u)) (Some (u_id x))) w \<noteq> None"
    using assms(4) by (auto simp: find_user_def find_one_None_iff has_account_def where_eq_def)
  then obtain x where x: "find_user env' (\<lambda>x. where_eq env' (Some (u_id u)) (Some (u_id x))) w = Some x" by blast
  then have "u_id x = u_id u" using find_user_found [OF x] by (simp add: where_eq_def)
  moreover have "\<exists>v. jwt_validate env' q w = Inr v \<and> ru_id v = u_id x \<and> ru_role v = Some (JStr (role_string (u_role u)))"
    using q x by (simp add: jwt_validate_def find_subject_def)
  ultimately show ?thesis
    using assms(2,3,5) q(1) by (auto simp: authenticate_def access_law_def blank_def)
qed

text \<open>
  C11: Login: after the backend accepts a login and the store handles its answer, every request
  of the API client is authenticated as that account with its role, and still is after the page is
  loaded anew and the session restored.
\<close>

theorem login_reaches_gate:
  fixes c :: client
  assumes "login env ae mailbox pw w = (Inr (LoggedIn resp tp), w')" and "tp_accessToken tp \<noteq> []"
    and "access_law env ae env' ge (tp_accessToken tp)" and "\<not> blank (config env' ''JWT_SECRET'')"
    and "soft_hidden env' = soft_hidden env" and "js_truthy (Some (print resp))"
  defines "c1 \<equiv> snd (store_login (Ok_status (Some (login_body print (LoggedIn resp tp)))) mailbox c)"
  shows "\<forall>c2\<in>{c1, snd (initializeAuth (reload c1))}. au_isAuthenticated (store c2) \<and>
    (\<exists>v. authenticate env' ge (api_request verb path body jar c2) w' = Inr v \<and>
      ru_id v = ur_id resp \<and> ru_role v = Some (JStr (role_string (ur_role resp))))"
proof -
  obtain u where u: "find_user env (\<lambda>u. u_email u = mailbox) w = Some u" "session_for env ae u w = (Inr tp, w')"
      "resp = formatUserResponse u"
    by (rule login_cases [OF assms(1)])
  then have t: "generateAccessToken env ae u = Inr (tp_accessToken tp)"
    by (auto simp: session_for_def check_that_Inr generateTokens_def then_do_Inr split: sum.splits)
  have "users w' = users w"
    using u(2) by (auto simp: session_for_def check_that_Inr then_do_Inr saveRefreshToken_def createRefreshToken_def Let_def
        split: if_splits)
  then have account: "has_account env' (u_id u) w'"
    using find_user_found [OF u(1)] assms(5) unfolding has_account_def by auto
  have s: "in_session (print resp) (tp_accessToken tp) c1"
    unfolding c1_def using store_login_cases(3) [OF assms(2)] by blast
  have "au_isAuthenticated (store c2) \<and> (\<exists>v. authenticate env' ge (api_request verb path body jar c2) w' = Inr v \<and>
      ru_id v = ur_id resp \<and> ru_role v = Some (JStr (role_string (ur_role resp))))"
    if "in_session (print resp) (tp_accessToken tp) c2" for c2
    using signed_token_authenticates [OF t assms(3,4) account session_header [OF that assms(2)]] that
    by (simp add: u(3) formatUserResponse_def in_session_def)
  then show ?thesis using s session_survives_reload [OF s assms(2,6)] by blast
qed

text \<open>
  Registration: a new account is signed in before its address is verified: after the store
  handles the backend's answer, every request is authenticated as the unverified account.
\<close>

theorem registration_skips_verification:
  fixes c :: client and print :: "user_response \<Rightarrow> json"
  assumes "createUser env ae dto w = (Inr (resp, t), w')" and "t \<noteq> []"
    and "access_law env ae env' ge t" and "\<not> blank (config env' ''JWT_SECRET'')"
  defines "c1 \<equiv> snd (store_register (Ok_status (Some (register_body print (resp, t)))) c)"
  shows "(\<exists>u\<in>set (users w'). u_id u = ur_id resp \<and> \<not> u_isVerified u) \<and> au_isAuthenticated (store c1) \<and>
    (\<exists>v. authenticate env' ge (api_request verb path body jar c1) w' = Inr v \<and> ru_id v = ur_id resp)"
proof -
  from assms(1) obtain u w0 where u: "users w' = save_row u_id u w0" "generateAccessToken env ae u = Inr t"
      "resp = formatUserResponse u" "\<not> u_isVerified u" "u_deletedAt u = None"
    by (auto simp: createUser_def check_that_Inr then_do_Inr Let_def insert_user_def save_user_def send_critical_def
        registered_def blank_user_def map_sum_def split: if_splits sum.splits)
  have row: "u \<in> set (users w')" unfolding u(1) by (rule save_row_self)
  then have account: "has_account env' (u_id u) w'" using u(5) by (auto simp: has_account_def)
  have s: "in_session (print resp) t c1"
    unfolding c1_def by (simp add: store_register_def register_body_def api_call_def field_JObj open_session_in_session)
  have k: "ur_id resp = u_id u" by (simp add: u(3) formatUserResponse_def)
  have "au_isAuthenticated (store c1)" using s by (simp add: in_session_def)
  then show ?thesis
    unfolding k using signed_token_authenticates [OF u(2) assms(3,4) account session_header [OF s assms(2)]] row u(4) by blast
qed

section \<open>The profile\<close>

text \<open>\<open>PATCH /users/:id\<close> answers with an envelope around the account.\<close>

definition update_body :: "string \<Rightarrow> json \<Rightarrow> json" where
  "update_body k user =
     JObj [(''success'', JBool True), (''message'', JStr (''User '' @ k @ '' updated successfully'')), (''data'', user)]"

text \<open>
  Profile updates: the store's action takes the envelope of the answer for the account:
  afterwards the user has no id and no role, an administrator is shown what a member sees, the next
  update goes to the account undefined, and all this outlives the page; the profile page, which does
  not use the action, keeps showing the account as it was before.
\<close>

theorem profile_update_breaks_user:
  fixes c :: client and k :: string and user' :: json
  assumes "in_session user token c" and "js_truthy (Some user)" and "token \<noteq> []"
  defines "c1 \<equiv> snd (updateProfile (Ok_status (Some (update_body k user'))) c)"
  shows "(\<forall>c2\<in>{c1, snd (initializeAuth (reload c1))}.
      field ''id'' (the (au_user (store c2))) = None \<and> profile_path c2 = Some [''users'', ''undefined''] \<and>
      RoleGate ''user'' True (store c2) \<and> \<not> RoleGate ''admin'' True (store c2)) \<and>
    save_profile (Ok_status (Some (update_body k user'))) c = (Some ''Profile updated.'', c)"
proof -
  let ?b = "update_body k user'"
  have f: "field ''id'' ?b = None" "field ''role'' ?b = None" "js_truthy (Some ?b)"
    by (simp_all add: update_body_def field_JObj js_truthy_def)
  have path: "profile_path (loading True c) \<noteq> None"
    using assms(1,2) by (simp add: profile_path_def loading_def set_store_def in_session_def Let_def)
  have s: "in_session ?b token c1"
    using assms(1) path
    by (auto simp: c1_def updateProfile_def api_call_def in_session_def set_store_def storage_setUser_def loading_def Let_def
        split: option.splits)
  have shown: "field ''id'' (the (au_user (store c2))) = None \<and> profile_path c2 = Some [''users'', ''undefined''] \<and>
      RoleGate ''user'' True (store c2) \<and> \<not> RoleGate ''admin'' True (store c2)"
    if "in_session ?b token c2" for c2
    using that f by (simp add: in_session_def profile_path_def RoleGate_def ROLE_RANK_def)
  have same: "initializeAuth c = (None, c)"
    using assms(1-3)
    by (simp add: initializeAuth_def in_session_def set_store_def api_setToken_def js_truthy_def Let_def)
  have "save_profile (Ok_status (Some ?b)) c = (Some ''Profile updated.'', c)"
    using assms(1,2) by (simp add: save_profile_def in_session_def api_call_def same)
  moreover have s2: "in_session ?b token (snd (initializeAuth (reload c1)))"
    using session_survives_reload [OF s assms(3) f(3)] by blast
  ultimately show ?thesis using shown [OF s] shown [OF s2] by simp
qed

section \<open>Concrete sessions\<close>

definition web_env :: env where
  "web_env = sample_env\<lparr>now := 7, uuid1 := ''bob'', config := (\<lambda>k. if k = ''JWT_SECRET'' then Some ''s'' else None)\<rparr>"

definition bob_claims :: json where
  "bob_claims = JObj [(''sub'', JStr ''bob''), (''role'', JStr ''user'')]"

definition web_auth :: auth_env where
  "web_auth = sample_auth\<lparr>jwt_sign := (\<lambda>_ p _ _.
     if js_get ''sub'' (Some p) = js_get ''sub'' (Some bob_claims) \<and> js_get ''role'' (Some p) = js_get ''role'' (Some bob_claims)
     then Inr ''tok'' else Inr ''other'')\<rparr>"

lemma web_sign:
  "jwt_sign web_auth key p opts t =
     (if js_get ''sub'' (Some p) = Some (Some (JStr ''bob'')) \<and> js_get ''role'' (Some p) = Some (Some (JStr ''user''))
      then Inr ''tok'' else Inr ''other'')"
  by (simp add: web_auth_def bob_claims_def js_get_def)

definition web_gate :: gate_env where
  "web_gate = \<lparr>bearer = (\<lambda>h. Some (drop 7 h)), verify_jwt = (\<lambda>_ _ _ _ _. Inr bob_claims)\<rparr>"

definition print_account :: "user_response \<Rightarrow> json" where
  "print_account r = JObj [(''id'', JStr (ur_id r)), (''role'', JStr (role_string (ur_role r)))]"

definition web_jar :: "string \<Rightarrow> string option" where
  "web_jar = (\<lambda>_. None)"

lemma web_access_law: "access_law web_env web_auth web_env web_gate ''tok''"
  by (auto simp: access_law_def web_auth_def web_gate_def)

lemma web_secret: "\<not> blank (config web_env ''JWT_SECRET'')"
  by code_simp

lemma web_print: "js_truthy (Some (print_account r))"
  by (simp add: print_account_def js_truthy_def)

definition web_login :: "login_result result \<times> world" where
  "web_login = login web_env web_auth ''bob@nova'' ''Passw0rd''
     (sample_world\<lparr>users := users sample_world @ [sample_new_user\<lparr>u_isVerified := True\<rparr>]\<rparr>)"

theorem login_reaches_gate_witness:
  "\<exists>resp tp v. fst web_login = Inr (LoggedIn resp tp) \<and>
     authenticate web_env web_gate (api_request ''GET'' [''auth'', ''user''] None web_jar
       (snd (initializeAuth (reload (snd (store_login (Ok_status (Some (login_body print_account (LoggedIn resp tp))))
         ''bob@nova'' new_client)))))) (snd web_login) = Inr v \<and> ru_id v = ur_id resp"
proof -
  have "(case fst web_login of Inr (LoggedIn r tp) \<Rightarrow> tp_accessToken tp = ''tok'' | _ \<Rightarrow> False)" by code_simp
  then obtain resp tp where r: "fst web_login = Inr (LoggedIn resp tp)" "tp_accessToken tp = ''tok''"
    by (auto split: sum.splits login_result.splits)
  then have l: "login web_env web_auth ''bob@nova'' ''Passw0rd''
     (sample_world\<lparr>users := users sample_world @ [sample_new_user\<lparr>u_isVerified := True\<rparr>]\<rparr>) = (Inr (LoggedIn resp tp), snd web_login)"
    by (simp add: web_login_def prod_eq_iff)
  have "tp_accessToken tp \<noteq> []" "access_law web_env web_auth web_env web_gate (tp_accessToken tp)"
    using r(2) web_access_law by simp_all
  from login_reaches_gate [where verb = "''GET''" and path = "[''auth'', ''user'']" and body = None and jar = web_jar and c = new_client and print = print_account,
      OF l this web_secret refl web_print] r(1)
  show ?thesis by blast
qed

definition web_registration :: "(user_response \<times> string) result \<times> world" where
  "web_registration = createUser web_env web_auth
     \<lparr>cu_email = ''bob@nova'', cu_firstname = ''Bob'', cu_lastname = ''Eze'', cu_password = ''Passw0rd''\<rparr> sample_world"

theorem registration_skips_verification_witness:
  "\<exists>resp v. fst web_registration = Inr (resp, ''tok'') \<and>
     authenticate web_env web_gate (api_request ''GET'' [''auth'', ''user''] None web_jar
       (snd (store_register (Ok_status (Some (register_body print_account (resp, ''tok'')))) new_client)))
       (snd web_registration) = Inr v \<and> ru_id v = ur_id resp"
proof -
  have pw: "new_password web_env web_auth
     \<lparr>cu_email = ''bob@nova'', cu_firstname = ''Bob'', cu_lastname = ''Eze'', cu_password = ''Passw0rd''\<rparr> sample_world = Inr ''Passw0rd''"
    by code_simp
  have up: "mail_queue_up web_auth" "uuid1 web_env = ''bob''" "u_email ` set (users sample_world) = {''admin@nova'', ''ada@nova'', ''staff@nova''}"
    by (simp_all add: web_auth_def sample_auth_def web_env_def sample_world_def sample_user_def)
  have signed: "generateAccessToken web_env web_auth u = Inr ''tok''" if "u_id u = ''bob''" "u_role u = USER" for u
    by (simp add: generateAccessToken_def web_sign access_claims_fields that)
  have "\<exists>resp. fst web_registration = Inr (resp, ''tok'')"
    by (simp add: web_registration_def createUser_def pw check_that_def then_do_def insert_user_def save_user_def send_critical_def
        registered_def up signed blank_user_def Let_def)
  then obtain resp where r: "fst web_registration = Inr (resp, ''tok'')" by blast
  then have l: "createUser web_env web_auth
     \<lparr>cu_email = ''bob@nova'', cu_firstname = ''Bob'', cu_lastname = ''Eze'', cu_password = ''Passw0rd''\<rparr> sample_world =
     (Inr (resp, ''tok''), snd web_registration)"
    by (simp add: web_registration_def prod_eq_iff)
  from registration_skips_verification [where verb = "''GET''" and path = "[''auth'', ''user'']" and body = None and jar = web_jar and c = new_client and print = print_account,
      OF l _ web_access_law web_secret] r
  show ?thesis by auto
qed

definition ada_json :: json where
  "ada_json = JObj [(''id'', JStr ''ada''), (''role'', JStr ''admin'')]"

definition ada_client :: client where
  "ada_client = open_session (Some ada_json) (Some (JStr ''tok'')) new_client"

theorem profile_update_breaks_user_witness:
  "profile_path ada_client = Some [''users'', ''ada''] \<and> RoleGate ''admin'' True (store ada_client) \<and>
   profile_path (snd (updateProfile (Ok_status (Some (update_body ''ada'' ada_json))) ada_client)) = Some [''users'', ''undefined''] \<and>
   \<not> RoleGate ''admin'' True (store (snd (updateProfile (Ok_status (Some (update_body ''ada'' ada_json))) ada_client)))"
proof -
  have s: "in_session ada_json ''tok'' ada_client" unfolding ada_client_def by (rule open_session_in_session)
  have "js_truthy (Some ada_json)" by (simp add: ada_json_def js_truthy_def)
  from profile_update_breaks_user [OF s this, of "''ada''" ada_json]
  have *: "profile_path (snd (updateProfile (Ok_status (Some (update_body ''ada'' ada_json))) ada_client)) = Some [''users'', ''undefined'']"
    "\<not> RoleGate ''admin'' True (store (snd (updateProfile (Ok_status (Some (update_body ''ada'' ada_json))) ada_client)))"
    by simp_all
  have "profile_path ada_client = Some [''users'', ''ada'']" "RoleGate ''admin'' True (store ada_client)"
    by (code_simp, code_simp)
  with * show ?thesis by blast
qed

section \<open>Roles in the browser and at the gate\<close>

text \<open>
  A console for administrators: the gate of the page and the guard of the backend's
  administrator routes agree on members and administrators; a super administrator passes the guard
  of every route and the gate shows it nothing, a member's page included, nor does it to staff.
\<close>

lemma role_gate_and_guard:
  assumes "in_session user token c" "js_truthy (Some user)" "field ''role'' user = Some (JStr (role_string r))"
    and "ru_role v = Some (JStr (role_string r))"
  shows "RoleGate ''admin'' True (store c) \<longleftrightarrow> r = ADMIN" "RoleGate ''user'' True (store c) \<longleftrightarrow> r \<in> {USER, ADMIN}"
    and "roles_guard (Some [ADMIN]) (Some v) = Inr () \<longleftrightarrow> r \<in> {ADMIN, SUPER_ADMIN}"
    and "r = SUPER_ADMIN \<Longrightarrow> roles \<noteq> [] \<Longrightarrow> roles_guard (Some roles) (Some v) = Inr ()"
proof -
  show "RoleGate ''admin'' True (store c) \<longleftrightarrow> r = ADMIN" "RoleGate ''user'' True (store c) \<longleftrightarrow> r \<in> {USER, ADMIN}"
    using assms(1-3) by (cases r; simp add: RoleGate_def in_session_def ROLE_RANK_def)+
  note order = roles_guard_order [OF assms(4)]
  show "roles_guard (Some [ADMIN]) (Some v) = Inr () \<longleftrightarrow> r \<in> {ADMIN, SUPER_ADMIN}"
    unfolding order by (cases r) (simp_all add: less_eq_user_role_def ROLE_HIERARCHY_def)
  show "roles_guard (Some roles) (Some v) = Inr ()" if "r = SUPER_ADMIN" "roles \<noteq> []"
  proof -
    have "q \<le> r" for q using that(1) by (cases q) (simp_all add: less_eq_user_role_def ROLE_HIERARCHY_def)
    then show ?thesis unfolding order using that(2) by (metis last_in_set)
  qed
qed

text \<open>
  The redirect hook and \<open>canAccess\<close> agree: on a page that needs a session, and is not
  for visitors only, a browser stays exactly when it may, once the store has loaded.
\<close>

lemma redirect_iff_no_access:
  assumes "ro_requireAuth opts" "blank (ro_redirectIfAuthenticated opts)" "\<not> au_isLoading s"
  shows "redirect_target opts redirect path s = None \<longleftrightarrow> canAccess opts s"
  using assms by (auto simp: redirect_target_def canAccess_def blank_def split: option.splits)

text \<open>The picture's upload is refused whatever the session: it carries no CSRF header.\<close>

lemma upload_refused:
  "\<exists>e. gate env ge hub (upload_request jar k c) w = Refused e"
proof -
  let ?r = "session_route ''POST'' [Lit ''users'', Param, Lit ''profile-picture''] ''users.uploadProfilePicture''"
  have ct: "content_type_passes (upload_request jar k c)"
    by (simp add: content_type_passes_def content_type_exempt_def upload_request_def)
  have r: "dispatch (upload_request jar k c) = Some ?r"
    by (simp add: dispatch_def upload_request_def all_routes_def app_routes_def auth_routes_def passkey_routes_def sso_routes_def
        user_routes_def public_route_def session_route_def role_route_def)
  have "\<exists>e. guards env ge ?r (upload_request jar k c) w = Inl e"
    by (auto simp: guards_def session_route_def csrf_guard_def upload_request_def blank_def STATE_CHANGING_METHODS_def split: sum.splits)
  then show ?thesis using ct r by (auto simp: gate_def)
qed

end
