(* ===== verification/Dashboard.thy ===== *)
theory Dashboard
  imports Newsletter Tracking
begin

text \<open>
  \<open>backend/src/dashboard\<close>: the reports on accounts, revenue, bookings and occupancy. They read the
  database and change nothing; what can fail is a query: a bound that is no timestamp, or a literal
  that is no value of a column's enumeration.

  The server's time zone is UTC; sums stay below \<open>2 ^ 53\<close>, where \<open>Number\<close> of a \<open>bigint\<close> is exact.
\<close>

section \<open>Months\<close>

text \<open>Months are numbered from January of the year 0.\<close>

definition month_index :: "instant \<Rightarrow> int" where
  "month_index t =
     (let n = t div ms_per_day + 719528; y = year_of n
      in 12 * y + int (month_of (leap y) (n - days_before_year y)) - 1)"

definition month_start :: "int \<Rightarrow> instant" where
  "month_start i = day_number (i div 12) (nat (i mod 12) + 1) 1 * ms_per_day"

definition month_names :: "string list" where
  "month_names = [''Jan'', ''Feb'', ''Mar'', ''Apr'', ''May'', ''Jun'', ''Jul'', ''Aug'', ''Sep'', ''Oct'', ''Nov'', ''Dec'']"

definition month_label :: "int \<Rightarrow> string" where
  "month_label i = month_names ! nat (i mod 12)"

text \<open>\<open>NOW() - INTERVAL '6 months'\<close>: the same day and time, or the last day of a shorter month.\<close>

definition six_months_before :: "instant \<Rightarrow> instant" where
  "six_months_before t =
     (let i = month_index t - 6; d = (t - month_start (month_index t)) div ms_per_day
      in month_start i + min d (days_in_month (i div 12) (nat (i mod 12) + 1) - 1) * ms_per_day + t mod ms_per_day)"

section \<open>Accounts\<close>

definition count_users :: "env \<Rightarrow> (user \<Rightarrow> bool) \<Rightarrow> world \<Rightarrow> nat" where
  "count_users env P w = count_where (\<lambda>u. (soft_hidden env \<longrightarrow> u_deletedAt u = None) \<and> P u) (users w)"

definition active_workspaces :: "world \<Rightarrow> nat" where
  "active_workspaces w = count_where w_isActive (workspaces w)"

record user_stats =
  st_totalMembers :: nat
  st_verifiedMembers :: nat
  st_activeWorkspaces :: nat
  st_deskOccupancy :: nat

definition getUserStats :: "env \<Rightarrow> world \<Rightarrow> user_stats" where
  "getUserStats env w =
     (let totalMembers = count_users env (\<lambda>u. u_isActive u \<and> \<not> u_isDeleted u) w;
          verifiedMembers = count_users env (\<lambda>u. u_isActive u \<and> \<not> u_isDeleted u \<and> u_isVerified u) w
      in \<lparr>st_totalMembers = totalMembers, st_verifiedMembers = verifiedMembers,
          st_activeWorkspaces = active_workspaces w,
          st_deskOccupancy = min (utilizationPercent verifiedMembers (max totalMembers 1)) 100\<rparr>)"

record activity =
  ay_id :: uuid
  ay_type :: string
  ay_description :: string
  ay_timestamp :: instant

definition getActivity :: "env \<Rightarrow> world \<Rightarrow> activity list" where
  "getActivity env w =
     map (\<lambda>u. \<lparr>ay_id = u_id u,
                ay_type = (if u_isVerified u then ''member_verified'' else ''member_registered''),
                ay_description = u_firstname u @ '' '' @ u_lastname u @
                  (if u_isVerified u then '' verified their account'' else '' registered''),
                ay_timestamp = u_createdAt u\<rparr>)
       (take 10 (newest_first u_createdAt (filter (\<lambda>u. soft_hidden env \<longrightarrow> u_deletedAt u = None) (users w))))"

definition getMonthlyRegistrations :: "env \<Rightarrow> nat \<Rightarrow> world \<Rightarrow> (string \<times> nat) list" where
  "getMonthlyRegistrations env months w =
     map (\<lambda>i. let start = month_index (now env) - int i
               in (month_label start, count_users env (\<lambda>u. month_start start \<le> u_createdAt u \<and> \<not> u_isDeleted u) w))
       (rev [0..<months])"

record admin_stats =
  as_total :: nat
  as_active :: nat
  as_suspended :: nat
  as_newThisMonth :: nat
  as_subscribers :: nat
  as_verifiedSubscribers :: nat
  as_activeSubscribers :: nat
  as_newSubscribers :: nat
  as_confirmationRate :: nat
  as_registrationTrend :: "(string \<times> nat) list"

definition count_subscribers :: "env \<Rightarrow> (subscriber \<Rightarrow> bool) \<Rightarrow> news \<Rightarrow> nat" where
  "count_subscribers env P n = count_where (\<lambda>s. (soft_hidden env \<longrightarrow> s_deletedAt s = None) \<and> P s) (subscribers n)"

definition getAdminStats :: "env \<Rightarrow> world \<Rightarrow> news \<Rightarrow> admin_stats" where
  "getAdminStats env w n =
     (let thirtyDaysAgo = now env - 30 * 24 * 60 * 60 * 1000;
          totalSubscribers = count_subscribers env (\<lambda>_. True) n;
          verifiedSubscribers = count_subscribers env s_isVerified n
      in \<lparr>as_total = count_users env (\<lambda>u. \<not> u_isDeleted u) w,
          as_active = count_users env (\<lambda>u. u_isActive u \<and> \<not> u_isDeleted u) w,
          as_suspended = count_users env (\<lambda>u. u_isSuspended u \<and> \<not> u_isDeleted u) w,
          as_newThisMonth = count_users env (\<lambda>u. thirtyDaysAgo \<le> u_createdAt u \<and> \<not> u_isDeleted u) w,
          as_subscribers = totalSubscribers, as_verifiedSubscribers = verifiedSubscribers,
          as_activeSubscribers = count_subscribers env s_isActive n,
          as_newSubscribers = count_subscribers env (\<lambda>s. thirtyDaysAgo \<le> s_createdAt s) n,
          as_confirmationRate =
            (if 0 < totalSubscribers then utilizationPercent verifiedSubscribers totalSubscribers else 0),
          as_registrationTrend = getMonthlyRegistrations env 6 w\<rparr>)"

text \<open>The controller's parameters: \<open>Math.max(1, parseInt(page, 10) || 1)\<close> and its like for the limit.\<close>

definition or_number :: "int option \<Rightarrow> int \<Rightarrow> int" where
  "or_number parsed d = (case parsed of None \<Rightarrow> d | Some n \<Rightarrow> if n = 0 then d else n)"

definition page_param :: "int option \<Rightarrow> int" where
  "page_param parsed = max 1 (or_number parsed 1)"

definition limit_param :: "int option \<Rightarrow> int" where
  "limit_param parsed = min 50 (max 1 (or_number parsed 10))"

record 'r report_page =
  rp_data :: "'r list"
  rp_total :: nat
  rp_page :: int
  rp_limit :: int
  rp_totalPages :: nat

definition report :: "('r \<Rightarrow> instant) \<Rightarrow> int \<Rightarrow> int \<Rightarrow> 'r list \<Rightarrow> 'r report_page result" where
  "report created page lmt rows =
     map_sum id (\<lambda>xs. \<lparr>rp_data = xs, rp_total = length rows, rp_page = page, rp_limit = lmt,
                        rp_totalPages = total_pages (length rows) (nat lmt)\<rparr>)
       (paginate page lmt (newest_first created rows))"

definition getUsers :: "env \<Rightarrow> int \<Rightarrow> int \<Rightarrow> string option \<Rightarrow> world \<Rightarrow> user report_page result" where
  "getUsers env page lmt search w =
     report u_createdAt page lmt
       (filter (\<lambda>u. (soft_hidden env \<longrightarrow> u_deletedAt u = None) \<and> \<not> u_isDeleted u \<and>
          (case search of
             None \<Rightarrow> True
           | Some [] \<Rightarrow> True
           | Some s \<Rightarrow> (let pat = ''%'' @ to_lower s @ ''%''
                        in like pat (to_lower (u_firstname u)) \<or> like pat (to_lower (u_lastname u)) \<or>
                           like pat (to_lower (u_email u))))) (users w))"

section \<open>Analytics\<close>

text \<open>A bound of a report; an unset or empty one does not restrict.\<close>

definition bound_of :: "env \<Rightarrow> string option \<Rightarrow> instant option result" where
  "bound_of env s = (if given s then map_sum id Some (instant_of env (the s)) else Inr None)"

definition in_bounds :: "instant option \<Rightarrow> instant option \<Rightarrow> instant option \<Rightarrow> bool" where
  "in_bounds from to col \<longleftrightarrow>
     (case from of None \<Rightarrow> True | Some t \<Rightarrow> (case col of None \<Rightarrow> False | Some c \<Rightarrow> t \<le> c)) \<and>
     (case to of None \<Rightarrow> True | Some t \<Rightarrow> (case col of None \<Rightarrow> False | Some c \<Rightarrow> c \<le> t))"

text \<open>The labels of \<open>payments_status_enum\<close>; PostgreSQL refuses a query with any other literal.\<close>

definition payment_status_label :: "payment_status \<Rightarrow> string" where
  "payment_status_label s =
     (case s of P_PENDING \<Rightarrow> ''pending'' | P_SUCCESS \<Rightarrow> ''success'' | P_FAILED \<Rightarrow> ''failed'' | P_REFUNDED \<Rightarrow> ''refunded'')"

definition enum_literal :: "string \<Rightarrow> payment_status result" where
  "enum_literal l =
     (case find_one (\<lambda>s. payment_status_label s = l) [P_PENDING, P_SUCCESS, P_FAILED, P_REFUNDED] of
        Some s \<Rightarrow> Inr s
      | None \<Rightarrow> Inl (DbError ''invalid input value for enum payments_status_enum''))"

text \<open>\<open>GROUP BY\<close> month, in ascending order.\<close>

definition by_month :: "('r \<Rightarrow> instant) \<Rightarrow> ('r list \<Rightarrow> nat) \<Rightarrow> 'r list \<Rightarrow> (instant \<times> nat) list" where
  "by_month time agg rows =
     map (\<lambda>i. (month_start i, agg (filter (\<lambda>r. month_index (time r) = i) rows)))
       (sort (remdups (map (\<lambda>r. month_index (time r)) rows)))"

definition revenue_trend :: "env \<Rightarrow> world \<Rightarrow> (instant \<times> nat) list result" where
  "revenue_trend env w =
     map_sum id (\<lambda>status. by_month (\<lambda>p. the (p_paidAt p)) (\<lambda>ps. sum_list (map p_amount ps))
         (filter (\<lambda>p. p_status p = status \<and> in_bounds (Some (six_months_before (now env))) None (p_paidAt p)) (payments w)))
       (enum_literal ''SUCCESS'')"

record revenue_stats =
  rv_total :: nat
  rv_thisMonth :: nat
  rv_lastMonth :: nat
  rv_trend :: "(instant \<times> nat) list"

definition paid_between :: "instant option \<Rightarrow> instant option \<Rightarrow> world \<Rightarrow> nat" where
  "paid_between from to w =
     sum_where (\<lambda>p. p_status p = P_SUCCESS \<and> in_bounds from to (p_paidAt p)) p_amount (payments w)"

definition getRevenueStats :: "env \<Rightarrow> string option \<Rightarrow> string option \<Rightarrow> world \<Rightarrow> revenue_stats result" where
  "getRevenueStats env from to w =
     (let i = month_index (now env)
      in case (bound_of env from, bound_of env to) of
           (Inl e, _) \<Rightarrow> Inl e
         | (_, Inl e) \<Rightarrow> Inl e
         | (Inr f, Inr t) \<Rightarrow>
             map_sum id
               (\<lambda>trend. \<lparr>rv_total = paid_between f t w,
                  rv_thisMonth = paid_between (Some (month_start i)) None w,
                  rv_lastMonth = paid_between (Some (month_start (i - 1))) (Some (month_start i - 1000)) w,
                  rv_trend = trend\<rparr>)
               (revenue_trend env w))"

record booking_stats =
  bs_byStatus :: "(booking_status \<times> nat) list"
  bs_trend :: "(instant \<times> nat) list"

definition getBookingStats :: "env \<Rightarrow> string option \<Rightarrow> string option \<Rightarrow> world \<Rightarrow> booking_stats result" where
  "getBookingStats env from to w =
     (case (bound_of env from, bound_of env to) of
        (Inl e, _) \<Rightarrow> Inl e
      | (_, Inl e) \<Rightarrow> Inl e
      | (Inr f, Inr t) \<Rightarrow>
          let rows = filter (\<lambda>b. in_bounds f t (Some (b_createdAt b))) (bookings w)
          in Inr \<lparr>bs_byStatus = map (\<lambda>s. (s, count_where (\<lambda>b. b_status b = s) rows)) (remdups (map b_status rows)),
                   bs_trend = by_month b_createdAt length
                     (filter (\<lambda>b. six_months_before (now env) \<le> b_createdAt b) (bookings w))\<rparr>)"

record top_workspace =
  tw_id :: uuid
  tw_name :: string
  tw_bookings :: nat
  tw_revenueKobo :: nat

text \<open>A booking joins one row per payment of the status, or one row without a payment.\<close>

definition getTopWorkspaces :: "nat \<Rightarrow> world \<Rightarrow> top_workspace list result" where
  "getTopWorkspaces lmt w =
     map_sum id
       (\<lambda>status.
          let paid = (\<lambda>b. filter (\<lambda>p. p_bookingId p = b_id b \<and> p_status p = status) (payments w));
              rows = map (\<lambda>x. let bs = filter (\<lambda>b. b_workspaceId b = w_id x) (bookings w)
                              in \<lparr>tw_id = w_id x, tw_name = w_name x,
                                  tw_bookings = sum_list (map (\<lambda>b. max 1 (length (paid b))) bs),
                                  tw_revenueKobo = sum_list (map (\<lambda>b. sum_list (map p_amount (paid b))) bs)\<rparr>) (workspaces w)
          in take lmt (sort_key (\<lambda>r. - int (tw_bookings r)) rows))
       (enum_literal ''SUCCESS'')"

definition getTopMembers :: "nat \<Rightarrow> world \<Rightarrow> (uuid \<times> string \<times> nat) list result" where
  "getTopMembers lmt w =
     map_sum id
       (\<lambda>status. take lmt (sort_key (\<lambda>(_, _, total). - int total)
          (map (\<lambda>u. (u_id u, u_firstname u @ '' '' @ u_lastname u,
                      sum_where (\<lambda>p. p_userId p = Some (u_id u) \<and> p_status p = status) p_amount (payments w))) (users w))))
       (enum_literal ''SUCCESS'')"

record invoice_stats =
  iv_total :: nat
  iv_totalAmountKobo :: nat
  iv_paid :: nat
  iv_pending :: nat

definition getInvoiceStats :: "env \<Rightarrow> string option \<Rightarrow> string option \<Rightarrow> world \<Rightarrow> invoice_stats result" where
  "getInvoiceStats env from to w =
     (case (bound_of env from, bound_of env to) of
        (Inl e, _) \<Rightarrow> Inl e
      | (_, Inl e) \<Rightarrow> Inl e
      | (Inr f, Inr t) \<Rightarrow>
          let rows = filter (\<lambda>i. in_bounds f t (Some (i_createdAt i))) (invoices w)
          in Inr \<lparr>iv_total = length rows, iv_totalAmountKobo = sum_list (map i_amountKobo rows),
                   iv_paid = count_where (\<lambda>i. i_status i = I_PAID) rows,
                   iv_pending = count_where (\<lambda>i. i_status i = I_PENDING) rows\<rparr>)"

record occupancy_snapshot =
  oc_totalSeats :: nat
  oc_occupiedSeats :: nat
  oc_availableSeats :: nat
  oc_occupancyPercent :: nat
  oc_activeWorkspaces :: nat

definition getOccupancySnapshot :: "world \<Rightarrow> occupancy_snapshot" where
  "getOccupancySnapshot w =
     (let total = sum_where w_isActive w_totalSeats (workspaces w); active = count_where open_log (logs w)
      in \<lparr>oc_totalSeats = total, oc_occupiedSeats = active, oc_availableSeats = total - active,
          oc_occupancyPercent = utilizationPercent active total, oc_activeWorkspaces = active_workspaces w\<rparr>)"

record admin_dashboard =
  ad_revenue :: revenue_stats
  ad_bookings :: booking_stats
  ad_topWorkspaces :: "top_workspace list"
  ad_topMembers :: "(uuid \<times> string \<times> nat) list"
  ad_invoices :: invoice_stats
  ad_occupancy :: occupancy_snapshot

text \<open>\<open>Promise.all\<close> fails when one report fails; which of several failures it reports is left to the order of the list.\<close>

definition getFullAdminDashboard :: "env \<Rightarrow> string option \<Rightarrow> string option \<Rightarrow> world \<Rightarrow> admin_dashboard result" where
  "getFullAdminDashboard env from to w =
     (case getRevenueStats env from to w of Inl e \<Rightarrow> Inl e | Inr revenue \<Rightarrow>
      (case getBookingStats env from to w of Inl e \<Rightarrow> Inl e | Inr bookingStats \<Rightarrow>
       (case getTopWorkspaces 5 w of Inl e \<Rightarrow> Inl e | Inr topWorkspaces \<Rightarrow>
        (case getTopMembers 5 w of Inl e \<Rightarrow> Inl e | Inr topMembers \<Rightarrow>
         (case getInvoiceStats env from to w of Inl e \<Rightarrow> Inl e | Inr invoiceStats \<Rightarrow>
            Inr \<lparr>ad_revenue = revenue, ad_bookings = bookingStats, ad_topWorkspaces = topWorkspaces,
                 ad_topMembers = topMembers, ad_invoices = invoiceStats, ad_occupancy = getOccupancySnapshot w\<rparr>)))))"

section \<open>The member's dashboard\<close>

record member_stats =
  md_activeBookings :: nat
  md_totalSpentKobo :: nat
  md_invoiceCount :: nat
  md_lastCheckIn :: "instant option"

definition getMemberStats :: "uuid \<Rightarrow> world \<Rightarrow> member_stats" where
  "getMemberStats userId w =
     \<lparr>md_activeBookings =
        count_where (\<lambda>b. b_userId b = Some userId \<and> (b_status b = B_CONFIRMED \<or> b_status b = B_PENDING)) (bookings w),
      md_totalSpentKobo = sum_where (\<lambda>p. p_userId p = Some userId \<and> p_status p = P_SUCCESS) p_amount (payments w),
      md_invoiceCount = count_where (\<lambda>i. i_userId i = Some userId) (invoices w),
      md_lastCheckIn =
        (case newest_first l_checkedInAt (filter (\<lambda>l. l_userId l = userId) (logs w)) of
           [] \<Rightarrow> None | l # _ \<Rightarrow> Some (l_checkedInAt l))\<rparr>"

definition getMemberBookings :: "uuid \<Rightarrow> int \<Rightarrow> int \<Rightarrow> world \<Rightarrow> booking report_page result" where
  "getMemberBookings userId page lmt w = report b_createdAt page lmt (filter (\<lambda>b. b_userId b = Some userId) (bookings w))"

definition getMemberPayments :: "uuid \<Rightarrow> int \<Rightarrow> int \<Rightarrow> world \<Rightarrow> payment report_page result" where
  "getMemberPayments userId page lmt w = report p_createdAt page lmt (filter (\<lambda>p. p_userId p = Some userId) (payments w))"

definition getMemberInvoices :: "uuid \<Rightarrow> int \<Rightarrow> int \<Rightarrow> world \<Rightarrow> invoice report_page result" where
  "getMemberInvoices userId page lmt w = report i_createdAt page lmt (filter (\<lambda>i. i_userId i = Some userId) (invoices w))"

definition getMemberCheckIns :: "uuid \<Rightarrow> nat \<Rightarrow> world \<Rightarrow> workspace_log list" where
  "getMemberCheckIns userId lmt w = take lmt (newest_first l_checkedInAt (filter (\<lambda>l. l_userId l = userId) (logs w)))"

record member_dashboard =
  mb_stats :: member_stats
  mb_recentBookings :: "booking list"
  mb_recentPayments :: "payment list"

definition getMemberDashboard :: "uuid \<Rightarrow> world \<Rightarrow> member_dashboard result" where
  "getMemberDashboard userId w =
     (case getMemberBookings userId 1 5 w of Inl e \<Rightarrow> Inl e | Inr bs \<Rightarrow>
      (case getMemberPayments userId 1 5 w of Inl e \<Rightarrow> Inl e | Inr ps \<Rightarrow>
         Inr \<lparr>mb_stats = getMemberStats userId w, mb_recentBookings = rp_data bs, mb_recentPayments = rp_data ps\<rparr>))"

section \<open>The analytics report\<close>

lemma success_literal: "enum_literal ''SUCCESS'' = Inl (DbError ''invalid input value for enum payments_status_enum'')"
  by (simp add: enum_literal_def payment_status_label_def)

lemma lower_case_literal: "enum_literal (payment_status_label s) = Inr s"
  by (induction s) code_simp+

text \<open>
  Analytics: the administrators' report fails on every database, for its raw queries
  compare the status with a literal the column's enumeration does not have; the parts without that
  literal answer.
\<close>

theorem analytics_always_fails:
  "(\<exists>e. getFullAdminDashboard env from to w = Inl e) \<and> \<not> is_ok (getTopWorkspaces n w) \<and> \<not> is_ok (getTopMembers n w) \<and>
   is_ok (getBookingStats env None None w) \<and> is_ok (getInvoiceStats env None None w)"
proof -
  have "\<not> is_ok (getRevenueStats env from to w)"
    by (auto simp: getRevenueStats_def revenue_trend_def success_literal Let_def split: sum.splits)
  then have "\<exists>e. getFullAdminDashboard env from to w = Inl e"
    by (cases "getRevenueStats env from to w") (auto simp: getFullAdminDashboard_def)
  then show ?thesis
    by (simp add: getTopWorkspaces_def getTopMembers_def success_literal getBookingStats_def getInvoiceStats_def
        bound_of_def given_def Let_def)
qed

section \<open>The registration trend\<close>

lemma valid_first: "valid_ymd y (nat (i mod 12) + 1) 1" for i :: int
proof -
  have "1 \<le> nat (i mod 12) + 1" "nat (i mod 12) + 1 \<le> 12" by simp_all
  then show ?thesis
    by (cases rule: month_cases; cases "leap y") (simp_all add: valid_ymd_def days_in_month_def month_offsets_def)
qed

lemma month_start_less: "month_start i < month_start (i + 1)"
proof -
  have "i div 12 < (i + 1) div 12 \<or> i div 12 = (i + 1) div 12 \<and> i mod 12 < (i + 1) mod 12"
    by presburger
  then have "i div 12 < (i + 1) div 12 \<or> i div 12 = (i + 1) div 12 \<and> nat (i mod 12) + 1 < nat ((i + 1) mod 12) + 1"
    using nat_less_eq_zless [of "i mod 12" "(i + 1) mod 12"] by auto
  then show ?thesis
    unfolding month_start_def ms_per_day_def
    using day_number_less_iff [OF valid_first [of "i div 12" i] valid_first [of "(i + 1) div 12" "i + 1"]] by simp
qed

definition registered_in :: "env \<Rightarrow> int \<Rightarrow> world \<Rightarrow> nat" where
  "registered_in env i w =
     count_users env (\<lambda>u. month_start i \<le> u_createdAt u \<and> u_createdAt u < month_start (i + 1) \<and> \<not> u_isDeleted u) w"

lemma count_users_split:
  assumes "\<And>u. P u \<longleftrightarrow> Q u \<or> R u" "\<And>u. \<not> (Q u \<and> R u)"
  shows "count_users env P w = count_users env Q w + count_users env R w"
proof -
  have "count_where (\<lambda>u. V u \<and> P u) us = count_where (\<lambda>u. V u \<and> Q u) us + count_where (\<lambda>u. V u \<and> R u) us"
    for V :: "user \<Rightarrow> bool" and us
    using assms by (induction us) auto
  then show ?thesis by (simp add: count_users_def)
qed

text \<open>
  Registration trend: the count reported for a month is not that month's registrations but
  all since its start: two consecutive counts differ by the registrations of the earlier month, and
  the counts never increase from month to month.
\<close>

theorem registration_trend_cumulative:
  assumes "Suc i < months"
  shows "map snd (getMonthlyRegistrations env months w) ! i =
    registered_in env (month_index (now env) - int (months - 1 - i)) w + map snd (getMonthlyRegistrations env months w) ! Suc i"
proof -
  define counts where "counts = map snd (getMonthlyRegistrations env months w)"
  define m where "m = month_index (now env) - int (months - 1 - i)"
  have c: "counts ! j = count_users env (\<lambda>u. month_start (month_index (now env) - int (months - 1 - j)) \<le> u_createdAt u \<and> \<not> u_isDeleted u) w"
    if "j < months" for j
    using that by (simp add: counts_def getMonthlyRegistrations_def Let_def rev_nth)
  have s: "month_index (now env) - int (months - 1 - Suc i) = m + 1" using assms(1) by (simp add: m_def)
  have "counts ! i = count_users env (\<lambda>u. month_start m \<le> u_createdAt u \<and> \<not> u_isDeleted u) w"
    "counts ! Suc i = count_users env (\<lambda>u. month_start (m + 1) \<le> u_createdAt u \<and> \<not> u_isDeleted u) w"
    using c [of i] c [of "Suc i"] assms(1) unfolding s by (simp_all add: m_def)
  moreover have "count_users env (\<lambda>u. month_start m \<le> u_createdAt u \<and> \<not> u_isDeleted u) w =
      registered_in env m w + count_users env (\<lambda>u. month_start (m + 1) \<le> u_createdAt u \<and> \<not> u_isDeleted u) w"
    unfolding registered_in_def
    using month_start_less [of m] by (intro count_users_split) auto
  ultimately show ?thesis unfolding counts_def m_def by simp
qed

section \<open>The occupancy snapshot\<close>

lemma card_present:
  assumes "uniq_keys l_id (logs w)" "one_open w"
  shows "count_where open_log (logs w) = card (present w)"
proof -
  have d: "distinct (filter open_log (logs w))" using assms(1) by (simp add: uniq_keys_def distinct_map)
  have "inj_on (\<lambda>l. (l_userId l, l_workspaceId l)) (set (filter open_log (logs w)))"
    using assms(2) by (auto simp: inj_on_def one_open_def)
  then show ?thesis using distinct_card [OF d] by (simp add: present_def card_image count_where_def)
qed

text \<open>
  Snapshot: the dashboard's occupied seats are the number of people on the board of
  check-ins; a successful check-in adds one and a check-out removes one.
\<close>

theorem snapshot_counts_board:
  assumes "tracking t w" and "t \<le> now env" and "uuid1 env \<notin> l_id ` set (logs w)"
  shows "oc_occupiedSeats (getOccupancySnapshot w) = card (present w) \<and>
    (\<forall>l w'. checkIn env dto userId w = (Inr l, w') \<longrightarrow>
       oc_occupiedSeats (getOccupancySnapshot w') = oc_occupiedSeats (getOccupancySnapshot w) + 1) \<and>
    (\<forall>l w'. checkOut env logId userId w = (Inr l, w') \<longrightarrow>
       oc_occupiedSeats (getOccupancySnapshot w') + 1 = oc_occupiedSeats (getOccupancySnapshot w))"
proof (intro conjI allI impI)
  note ok = tracking_ok [OF assms(1)]
  have board: "oc_occupiedSeats (getOccupancySnapshot v) = card (present v)" if "tracking u v" for u v
    using card_present tracking_ok [OF that] by (simp add: getOccupancySnapshot_def Let_def)
  have fin: "finite (present w)" by (simp add: present_def)
  show "oc_occupiedSeats (getOccupancySnapshot w) = card (present w)" by (rule board [OF assms(1)])
  fix l w'
  {
    assume c: "checkIn env dto userId w = (Inr l, w')"
    then have "enter_board (userId, ci_workspaceId dto) (present w) = Some (present w')"
      by (cases rule: checkIn_cases) (use present_enter ok assms(3) in auto)
    then have "present w' = insert (userId, ci_workspaceId dto) (present w)" "(userId, ci_workspaceId dto) \<notin> present w"
      by (auto simp: enter_board_def split: if_splits)
    then show "oc_occupiedSeats (getOccupancySnapshot w') = oc_occupiedSeats (getOccupancySnapshot w) + 1"
      using board [OF assms(1)] board [OF tracking.enters [OF assms(1,2,3) c]] fin by simp
  next
    assume c: "checkOut env logId userId w = (Inr l, w')"
    then have "\<exists>p. leave_board p (present w) = Some (present w')"
    proof (cases rule: checkOut_cases)
      case (left x)
      then show ?thesis using present_leave [of w x env] ok by blast
    qed simp
    then obtain p where "present w' = present w - {p}" "p \<in> present w"
      by (auto simp: leave_board_def split: if_splits)
    then have "card (present w') + 1 = card (present w)" using card_Suc_Diff1 [OF fin] by simp
    then show "oc_occupiedSeats (getOccupancySnapshot w') + 1 = oc_occupiedSeats (getOccupancySnapshot w)"
      using board [OF assms(1)] board [OF tracking.leaves [OF assms(1,2) c]] by simp
  }
qed

section \<open>Members and revenue\<close>

lemma sum_where_owner:
  assumes "distinct ks" "\<And>r k. r \<in> set rows \<Longrightarrow> own r = Some k \<Longrightarrow> k \<in> set ks"
  shows "sum_where P f rows =
    sum_list (map (\<lambda>k. sum_where (\<lambda>r. own r = Some k \<and> P r) f rows) ks) + sum_where (\<lambda>r. own r = None \<and> P r) f rows"
  using assms(2)
proof (induction rows)
  case Nil
  then show ?case by (induction ks) simp_all
next
  case (Cons r rows)
  let ?x = "if P r then f r else 0"
  have head: "sum_list (map (\<lambda>k. (if own r = Some k \<and> P r then f r else 0) + g k) ks) =
      (if own r = None then 0 else ?x) + sum_list (map g ks)" for g
  proof (cases "own r")
    case None
    then show ?thesis by simp
  next
    case (Some k)
    then have k: "k \<in> set ks" using Cons.prems [of r k] by simp
    have "sum_list (map (\<lambda>j. (if k = j then y else 0) + g j) ks) = y + sum_list (map g ks)" for y :: nat
      using assms(1) k
    proof (induction ks)
      case (Cons j js)
      then show ?case by (cases "k = j") (auto intro!: arg_cong [where f = sum_list] map_cong)
    qed simp
    then show ?thesis using Some by simp
  qed
  have IH: "sum_where P f rows =
      sum_list (map (\<lambda>k. sum_where (\<lambda>r. own r = Some k \<and> P r) f rows) ks) + sum_where (\<lambda>r. own r = None \<and> P r) f rows"
    by (rule Cons.IH) (use Cons.prems in auto)
  show ?case using head by (cases "own r") (simp_all add: IH)
qed

text \<open>
  Revenue: the successful payments of the report are those of the members' own dashboards
  and of the guests, each counted once.
\<close>

theorem revenue_splits:
  assumes "distinct ks" and "\<forall>p\<in>set (payments w). \<forall>k. p_userId p = Some k \<longrightarrow> k \<in> set ks"
  shows "paid_between None None w =
    sum_list (map (\<lambda>k. md_totalSpentKobo (getMemberStats k w)) ks) +
    sum_where (\<lambda>p. p_userId p = None \<and> p_status p = P_SUCCESS) p_amount (payments w)"
  using sum_where_owner [OF assms(1), of "payments w" p_userId "\<lambda>p. p_status p = P_SUCCESS" p_amount] assms(2)
  by (simp add: paid_between_def in_bounds_def getMemberStats_def)

text \<open>A payment in the last second of a month is in neither month's figure of the next month's report.\<close>

lemma last_second_lost:
  assumes "p_paidAt p = Some t" "month_start (i - 1) \<le> t" "month_start i - 1000 < t" "t < month_start i"
  shows "\<not> in_bounds (Some (month_start i)) None (p_paidAt p) \<and>
    \<not> in_bounds (Some (month_start (i - 1))) (Some (month_start i - 1000)) (p_paidAt p)"
  using assms by (simp add: in_bounds_def)

lemma report_rows: "report created page lmt rows = Inr r \<Longrightarrow> set (rp_data r) \<subseteq> set rows \<and> rp_total r = length rows"
  by (auto simp: report_def map_sum_def paginate_def newest_first_def split: sum.splits if_splits
      dest!: in_set_takeD in_set_dropD)

lemma page_bounds: "1 \<le> page_param v \<and> 1 \<le> limit_param v \<and> limit_param v \<le> 50"
  by (simp add: page_param_def limit_param_def)

text \<open>With the parameters of the controller every page of a report is answered, and holds rows of the caller only.\<close>

lemma report_answers:
  "\<exists>r. report created (page_param p) (limit_param l) rows = Inr r \<and> set (rp_data r) \<subseteq> set rows \<and>
     rp_total r = length rows \<and> length (rp_data r) \<le> 50"
proof -
  have b: "1 \<le> page_param p" "1 \<le> limit_param l" "limit_param l \<le> 50" using page_bounds by blast+
  then have "\<not> (page_param p - 1) * limit_param l < 0" by (simp add: not_less)
  with b obtain r where "report created (page_param p) (limit_param l) rows = Inr r" "length (rp_data r) \<le> 50"
    by (auto simp: report_def paginate_def)
  then show ?thesis using report_rows by blast
qed

theorem member_reports_answer:
  "\<exists>bs ps is. getMemberBookings k (page_param p) (limit_param l) w = Inr bs \<and>
     getMemberPayments k (page_param p) (limit_param l) w = Inr ps \<and>
     getMemberInvoices k (page_param p) (limit_param l) w = Inr is \<and>
     (\<forall>b\<in>set (rp_data bs). b_userId b = Some k) \<and> (\<forall>x\<in>set (rp_data ps). p_userId x = Some k) \<and>
     (\<forall>i\<in>set (rp_data is). i_userId i = Some k) \<and> rp_total is = md_invoiceCount (getMemberStats k w)"
proof -
  note a = report_answers [of b_createdAt p l "filter (\<lambda>b. b_userId b = Some k) (bookings w)"]
    report_answers [of p_createdAt p l "filter (\<lambda>x. p_userId x = Some k) (payments w)"]
    report_answers [of i_createdAt p l "filter (\<lambda>i. i_userId i = Some k) (invoices w)"]
  then show ?thesis
    unfolding getMemberBookings_def getMemberPayments_def getMemberInvoices_def getMemberStats_def
    by (fastforce simp: count_where_def)
qed

section \<open>Witnesses\<close>

theorem registration_trend_cumulative_witness:
  "map snd (getMonthlyRegistrations sample_env 6 sample_world) ! 0 =
     registered_in sample_env (month_index (now sample_env) - 5) sample_world + map snd (getMonthlyRegistrations sample_env 6 sample_world) ! 1"
  using registration_trend_cumulative [of 0 6 sample_env sample_world] by simp

theorem revenue_splits_witness:
  "paid_between None None sample_world = sum_list (map (\<lambda>k. md_totalSpentKobo (getMemberStats k sample_world)) [''ada'']) +
     sum_where (\<lambda>p. p_userId p = None \<and> p_status p = P_SUCCESS) p_amount (payments sample_world)"
  by (rule revenue_splits) (simp_all add: sample_world_def)

theorem snapshot_counts_board_witness:
  "oc_occupiedSeats (getOccupancySnapshot sample_left) = card (present sample_left) \<and>
   oc_occupiedSeats (getOccupancySnapshot (snd (checkIn (sample_leave_env\<lparr>uuid1 := ''id8''\<rparr>) sample_check_in ''ada'' sample_left))) = 1"
proof -
  let ?env = "sample_leave_env\<lparr>uuid1 := ''id8''\<rparr>"
  let ?r = "checkIn ?env sample_check_in ''ada'' sample_left"
  have "map l_id (logs sample_left) = [''id1'']" by code_simp
  then have u: "uuid1 ?env \<notin> l_id ` set (logs sample_left)" by (auto simp flip: set_map)
  have t: "now sample_leave_env \<le> now ?env" by simp
  have "is_ok (fst ?r)" by code_simp
  then obtain l w where r: "?r = (Inr l, w)" "w = snd ?r" by (auto simp: is_ok_iff prod_eq_iff)
  have "count_where open_log (logs sample_left) = 0" by code_simp
  then have "oc_occupiedSeats (getOccupancySnapshot sample_left) = 0" by (simp add: getOccupancySnapshot_def Let_def)
  then show ?thesis
    using snapshot_counts_board [OF sample_tracking t u, of sample_check_in "''ada''"] unfolding r(1) by simp
qed

end
