(* ===== verification/Web_Pages.thy ===== *)
theory Web_Pages
  imports Web_Client Dashboard Requests
begin

text \<open>
  The pages a member works with, against the backend they talk to: the booking form
  (\<open>components/bookings/BookingForm.tsx\<close>), the list of bookings and the page of one booking
  (\<open>app/bookings/\<close>), the check-in page (\<open>app/check-in/page.tsx\<close>), the notification bell
  (\<open>components/notifications/NotificationBell.tsx\<close>) and, for administrators, bookings, members and
  the workspace form (\<open>app/admin/\<close>, \<open>components/admin/WorkspaceFormModal.tsx\<close>), with the hooks
  (\<open>lib/react-query/hooks/\<close>) that make their requests.

  A page is a record of its React state and functions for its handlers; what it shows is a function of
  that state and the answer a query holds. The backend's side is the request body's validation
  (\<open>ValidationPipe\<close> with \<open>forbidNonWhitelisted\<close>), the provider's model and the printed answer.
  Requests are taken to have passed the gate (\<open>Routes\<close>). The validator library's \<open>isUUID\<close> and
  \<open>isDateString\<close> are parameters.
\<close>

section \<open>Enumerations as the backend prints them\<close>

fun booking_status_string :: "booking_status \<Rightarrow> string" where
  "booking_status_string B_PENDING = ''pending''"
| "booking_status_string B_CONFIRMED = ''confirmed''"
| "booking_status_string B_CANCELLED = ''cancelled''"
| "booking_status_string B_COMPLETED = ''completed''"
| "booking_status_string B_EXPIRED = ''expired''"

fun workspace_type_string :: "workspace_type \<Rightarrow> string" where
  "workspace_type_string HOT_DESK = ''HotDesk''"
| "workspace_type_string DEDICATED_DESK = ''DedicatedDesk''"
| "workspace_type_string PRIVATE_OFFICE = ''PrivateOffice''"
| "workspace_type_string MEETING_ROOM = ''MeetingRoom''"
| "workspace_type_string VIRTUAL = ''Virtual''"
| "workspace_type_string HYBRID = ''Hybrid''"

fun invoice_status_string :: "invoice_status \<Rightarrow> string" where
  "invoice_status_string I_PENDING = ''pending''"
| "invoice_status_string I_PAID = ''paid''"
| "invoice_status_string I_VOID = ''void''"

fun notification_type_string :: "notification_type \<Rightarrow> string" where
  "notification_type_string BOOKING_CONFIRMED = ''booking_confirmed''"
| "notification_type_string BOOKING_CANCELLED = ''booking_cancelled''"
| "notification_type_string BOOKING_COMPLETED = ''booking_completed''"
| "notification_type_string PAYMENT_SUCCESS = ''payment_success''"
| "notification_type_string PAYMENT_FAILED = ''payment_failed''"
| "notification_type_string PAYMENT_REFUNDED = ''payment_refunded''"
| "notification_type_string INVOICE_GENERATED = ''invoice_generated''"
| "notification_type_string GENERAL = ''general''"

definition plan_of_string :: "string \<Rightarrow> plan_type option" where
  "plan_of_string s = find_one (\<lambda>p. plan_string p = s) all_plans"

definition workspace_type_of_string :: "string \<Rightarrow> workspace_type option" where
  "workspace_type_of_string s =
     find_one (\<lambda>t. workspace_type_string t = s) [HOT_DESK, DEDICATED_DESK, PRIVATE_OFFICE, MEETING_ROOM, VIRTUAL, HYBRID]"

definition booking_status_of_string :: "string \<Rightarrow> booking_status option" where
  "booking_status_of_string s =
     find_one (\<lambda>t. booking_status_string t = s) [B_PENDING, B_CONFIRMED, B_CANCELLED, B_COMPLETED, B_EXPIRED]"

section \<open>Bodies\<close>

record body_rules =
  is_uuid :: "string \<Rightarrow> bool"
  is_date_string :: "string \<Rightarrow> bool"

definition whitelisted :: "string list \<Rightarrow> json \<Rightarrow> bool" where
  "whitelisted names v = (case v of JObj ps \<Rightarrow> set (map fst ps) \<subseteq> set names | _ \<Rightarrow> False)"

definition string_field :: "string \<Rightarrow> json \<Rightarrow> string option" where
  "string_field k v = (case field k v of Some (JStr s) \<Rightarrow> Some s | _ \<Rightarrow> None)"

text \<open>\<open>@IsInt @Min(1)\<close>.\<close>

definition count_field :: "string \<Rightarrow> json \<Rightarrow> nat option" where
  "count_field k v =
     (case field k v of
        Some (JNum n) \<Rightarrow> if n \<noteq> [] \<and> list_all is_digit n \<and> 1 \<le> num_of n then Some (num_of n) else None
      | _ \<Rightarrow> None)"

text \<open>\<open>@IsOptional\<close>: absent or \<open>null\<close> passes.\<close>

definition optional_field :: "(json \<Rightarrow> 'a option) \<Rightarrow> string \<Rightarrow> json \<Rightarrow> 'a option option" where
  "optional_field read k v =
     (case field k v of
        None \<Rightarrow> Some None
      | Some JNull \<Rightarrow> Some None
      | Some x \<Rightarrow> (case read x of Some a \<Rightarrow> Some (Some a) | None \<Rightarrow> None))"

definition read_string :: "json \<Rightarrow> string option" where
  "read_string v = (case v of JStr s \<Rightarrow> Some s | _ \<Rightarrow> None)"

fun read_strings :: "json list \<Rightarrow> string list option" where
  "read_strings [] = Some []"
| "read_strings (v # vs) =
     (case (read_string v, read_strings vs) of (Some s, Some ss) \<Rightarrow> Some (s # ss) | _ \<Rightarrow> None)"

definition read_string_array :: "json \<Rightarrow> string list option" where
  "read_string_array v = (case v of JArr vs \<Rightarrow> read_strings vs | _ \<Rightarrow> None)"

definition create_booking_of_json :: "body_rules \<Rightarrow> json \<Rightarrow> create_booking_dto option" where
  "create_booking_of_json br v =
     (if \<not> whitelisted [''workspaceId'', ''planType'', ''startDate'', ''endDate'', ''seatCount'', ''notes''] v then None
      else case (string_field ''workspaceId'' v, string_field ''planType'' v, string_field ''startDate'' v,
                 string_field ''endDate'' v, count_field ''seatCount'' v, optional_field read_string ''notes'' v) of
        (Some k, Some plan, Some s, Some e, Some n, Some notes) \<Rightarrow>
          (case plan_of_string plan of
             Some p \<Rightarrow> if is_uuid br k \<and> is_date_string br s \<and> is_date_string br e
               then Some \<lparr>cb_workspaceId = k, cb_planType = p, cb_startDate = s, cb_endDate = e, cb_seatCount = n,
                          cb_notes = notes\<rparr>
               else None
           | None \<Rightarrow> None)
      | _ \<Rightarrow> None)"

definition create_workspace_of_json :: "json \<Rightarrow> create_workspace_dto option" where
  "create_workspace_of_json v =
     (if \<not> whitelisted [''name'', ''type'', ''totalSeats'', ''hourlyRate'', ''description'', ''amenities'', ''images''] v then None
      else case (string_field ''name'' v, string_field ''type'' v, count_field ''totalSeats'' v, count_field ''hourlyRate'' v,
                 optional_field read_string ''description'' v, optional_field read_string_array ''amenities'' v,
                 optional_field read_string_array ''images'' v) of
        (Some name, Some t, Some seats, Some rate, Some description, Some amenities, Some images) \<Rightarrow>
          (case workspace_type_of_string t of
             Some ty \<Rightarrow> if 2 \<le> length name
               then Some \<lparr>cw_name = name, cw_type = ty, cw_totalSeats = seats, cw_hourlyRate = rate,
                          cw_description = description, cw_amenities = amenities, cw_images = images\<rparr>
               else None
           | None \<Rightarrow> None)
      | _ \<Rightarrow> None)"

section \<open>Answers\<close>

fun exn_text :: "exn \<Rightarrow> string" where
  "exn_text (BadRequest m) = m"
| "exn_text (Unauthorized m) = m"
| "exn_text (Forbidden m) = m"
| "exn_text (NotFound m) = m"
| "exn_text (Conflict m) = m"
| "exn_text (BadGateway m) = m"
| "exn_text (ServiceUnavailable m) = m"
| "exn_text (InternalServerError m) = m"
| "exn_text (DbError _) = ''Internal server error''"
| "exn_text (JsError _) = ''Internal server error''"

definition error_answer :: "exn \<Rightarrow> answer" where
  "error_answer e = Error_status (Some (JObj [(''message'', JStr (exn_text e))]))"

definition data_answer :: "string \<Rightarrow> json \<Rightarrow> answer" where
  "data_answer m d = Ok_status (Some (JObj [(''message'', JStr m), (''data'', d)]))"

text \<open>\<open>{ message, ...result }\<close> of a paginated result.\<close>

definition page_answer :: "string \<Rightarrow> ('r \<Rightarrow> json) \<Rightarrow> 'r paginated \<Rightarrow> answer" where
  "page_answer m show p =
     Ok_status (Some (JObj [(''message'', JStr m), (''data'', JArr (map show (pg_data p))), (''total'', JNum (nat_str (pg_total p))),
       (''page'', JNum (nat_str (nat (pg_page p)))), (''limit'', JNum (nat_str (nat (pg_limit p)))),
       (''totalPages'', JNum (nat_str (pg_totalPages p)))]))"

definition or_null :: "('a \<Rightarrow> json) \<Rightarrow> 'a option \<Rightarrow> json" where
  "or_null f v = (case v of None \<Rightarrow> JNull | Some a \<Rightarrow> f a)"

text \<open>The columns the pages read; dates are text, a \<open>bigint\<close> column is text or a number.\<close>

definition show_booking :: "env \<Rightarrow> booking \<Rightarrow> json" where
  "show_booking env b =
     JObj [(''id'', JStr (b_id b)), (''userId'', or_null JStr (b_userId b)), (''workspaceId'', JStr (b_workspaceId b)),
       (''planType'', JStr (plan_string (b_planType b))), (''startDate'', JStr (iso_string (b_startDate b))),
       (''endDate'', JStr (iso_string (b_endDate b))),
       (''totalAmount'', (if bigint_strings env then JStr else JNum) (nat_str (b_totalAmount b))),
       (''status'', JStr (booking_status_string (b_status b))), (''seatCount'', JNum (nat_str (b_seatCount b))),
       (''notes'', or_null JStr (b_notes b)), (''sorobanEscrowId'', or_null JStr (b_sorobanEscrowId b))]"

definition post_bookings :: "env \<Rightarrow> body_rules \<Rightarrow> json \<Rightarrow> uuid \<Rightarrow> world \<Rightarrow> answer \<times> world" where
  "post_bookings env br body userId w =
     (case create_booking_of_json br body of
        None \<Rightarrow> (error_answer (BadRequest ''Bad Request''), w)
      | Some dto \<Rightarrow>
          (case create_booking env dto userId w of
             (Inl e, w') \<Rightarrow> (error_answer e, w')
           | (Inr b, w') \<Rightarrow> (data_answer ''Booking created successfully'' (show_booking env b), w')))"

definition get_bookings :: "env \<Rightarrow> booking_query \<Rightarrow> uuid \<Rightarrow> user_role \<Rightarrow> world \<Rightarrow> answer" where
  "get_bookings env q userId role w =
     (case bookings_findAll env q userId role w of
        Inl e \<Rightarrow> error_answer e
      | Inr p \<Rightarrow> page_answer ''Bookings retrieved successfully'' (show_booking env) p)"

definition post_workspaces :: "env \<Rightarrow> json \<Rightarrow> world \<Rightarrow> answer \<times> world" where
  "post_workspaces env body w =
     (case create_workspace_of_json body of
        None \<Rightarrow> (error_answer (BadRequest ''Bad Request''), w)
      | Some dto \<Rightarrow>
          (case create_workspace env dto w of
             (Inl e, w') \<Rightarrow> (error_answer e, w')
           | (Inr x, w') \<Rightarrow> (data_answer ''Workspace created successfully'' (JObj [(''id'', JStr (w_id x))]), w')))"

text \<open>The estimate's answer; a product with \<open>NaN\<close> is printed \<open>null\<close>.\<close>

definition price_estimate_answer :: "json \<Rightarrow> json \<Rightarrow> json option \<Rightarrow> json \<Rightarrow> answer" where
  "price_estimate_answer kobo naira dayCount discount =
     data_answer ''Price estimate calculated''
       (JObj ([(''amountKobo'', kobo), (''amountNaira'', naira)] @
              (case dayCount of None \<Rightarrow> [] | Some d \<Rightarrow> [(''days'', d)]) @ [(''discountPct'', discount)]))"

section \<open>Reading an answer\<close>

text \<open>\<open>v?.k\<close> and \<open>v ?? d\<close>.\<close>

definition opt_get :: "string \<Rightarrow> json option \<Rightarrow> json option" where
  "opt_get k v =
     (case v of None \<Rightarrow> None | Some JNull \<Rightarrow> None | Some x \<Rightarrow> (case js_get k (Some x) of None \<Rightarrow> None | Some y \<Rightarrow> y))"

definition nullish :: "json \<Rightarrow> json option \<Rightarrow> json" where
  "nullish d v = (case v of None \<Rightarrow> d | Some JNull \<Rightarrow> d | Some x \<Rightarrow> x)"

text \<open>The value a query holds once it has succeeded.\<close>

definition query_data :: "answer \<Rightarrow> json option" where
  "query_data a = (case api_call a of Inl _ \<Rightarrow> None | Inr v \<Rightarrow> Some v)"

definition rows_of :: "json option \<Rightarrow> json list" where
  "rows_of q = (case nullish (JArr []) (opt_get ''data'' q) of JArr vs \<Rightarrow> vs | _ \<Rightarrow> [])"

definition shows_pager :: "json option \<Rightarrow> bool" where
  "shows_pager q \<longleftrightarrow>
     (case opt_get ''totalPages'' (opt_get ''meta'' q) of Some (JNum n) \<Rightarrow> 1 < num_of n | _ \<Rightarrow> False)"

definition int_text :: "int \<Rightarrow> string" where
  "int_text n = (if n < 0 then CHR ''-'' # nat_str (nat (- n)) else nat_str (nat n))"

section \<open>The booking form\<close>

definition PLAN_TYPES :: "(string \<times> string \<times> string) list" where
  "PLAN_TYPES =
     [(''HOURLY'', ''Hourly'', ''Pay per hour''), (''DAILY'', ''Daily'', ''Full day access''),
      (''WEEKLY'', ''Weekly'', ''7-day access''), (''MONTHLY'', ''Monthly'', ''30-day access''),
      (''QUARTERLY'', ''Quarterly'', ''90-day access''), (''YEARLY'', ''Yearly'', ''365-day access'')]"

record booking_form =
  bf_step :: nat
  bf_workspaceId :: string
  bf_planType :: string
  bf_startDate :: string
  bf_endDate :: string
  bf_seatCount :: int
  bf_notes :: string
  bf_bookingId :: "json option"

definition new_booking_form :: "string \<Rightarrow> booking_form" where
  "new_booking_form preselectedId =
     \<lparr>bf_step = 0, bf_workspaceId = preselectedId, bf_planType = ''DAILY'', bf_startDate = [], bf_endDate = [],
      bf_seatCount = 1, bf_notes = [], bf_bookingId = Some JNull\<rparr>"

definition canProceedStep0 :: "booking_form \<Rightarrow> bool" where
  "canProceedStep0 f \<longleftrightarrow>
     bf_workspaceId f \<noteq> [] \<and> bf_planType f \<noteq> [] \<and> bf_startDate f \<noteq> [] \<and> bf_endDate f \<noteq> [] \<and> 0 < bf_seatCount f"

definition estimateParams :: "booking_form \<Rightarrow> (string \<times> string) list option" where
  "estimateParams f =
     (if bf_workspaceId f \<noteq> [] \<and> bf_planType f \<noteq> [] \<and> bf_startDate f \<noteq> [] \<and> bf_endDate f \<noteq> [] \<and> bf_seatCount f \<noteq> 0
      then Some [(''workspaceId'', bf_workspaceId f), (''planType'', bf_planType f), (''startDate'', bf_startDate f),
                 (''endDate'', bf_endDate f), (''seatCount'', int_text (bf_seatCount f))]
      else None)"

definition totalAmount :: "json option \<Rightarrow> json" where
  "totalAmount q = nullish (JNum ''0'') (opt_get ''totalAmount'' (opt_get ''data'' q))"

definition booking_body :: "booking_form \<Rightarrow> json" where
  "booking_body f =
     JObj ([(''workspaceId'', JStr (bf_workspaceId f)), (''planType'', JStr (bf_planType f)),
            (''startDate'', JStr (bf_startDate f)), (''endDate'', JStr (bf_endDate f)),
            (''seatCount'', JNum (int_text (bf_seatCount f)))] @
           (if bf_notes f = [] then [] else [(''notes'', JStr (bf_notes f))]))"

definition handleConfirmBooking :: "answer \<Rightarrow> booking_form \<Rightarrow> booking_form" where
  "handleConfirmBooking a f =
     (if \<not> canProceedStep0 f then f
      else case api_call a of
        Inl _ \<Rightarrow> f
      | Inr res \<Rightarrow>
          (case js_get ''data'' (Some res) of
             None \<Rightarrow> f
           | Some d \<Rightarrow>
               (case js_get ''id'' d of None \<Rightarrow> f | Some k \<Rightarrow> f\<lparr>bf_bookingId := k, bf_step := 2\<rparr>)))"

text \<open>The controls; those of another step are not on the page.\<close>

datatype form_event =
    Choose_workspace string
  | Choose_plan nat
  | Choose_start string
  | Choose_end string
  | Fewer_seats
  | More_seats "int option"
  | Write_notes string
  | Continue
  | Back
  | Confirm answer

fun details_event :: "form_event \<Rightarrow> booking_form \<Rightarrow> booking_form" where
  "details_event (Choose_workspace k) f = f\<lparr>bf_workspaceId := k\<rparr>"
| "details_event (Choose_plan i) f = (if i < length PLAN_TYPES then f\<lparr>bf_planType := fst (PLAN_TYPES ! i)\<rparr> else f)"
| "details_event (Choose_start d) f = f\<lparr>bf_startDate := d\<rparr>"
| "details_event (Choose_end d) f = f\<lparr>bf_endDate := d\<rparr>"
| "details_event Fewer_seats f = f\<lparr>bf_seatCount := max 1 (bf_seatCount f - 1)\<rparr>"
| "details_event (More_seats seats) f =
     f\<lparr>bf_seatCount := min (case seats of Some n \<Rightarrow> n | None \<Rightarrow> 99) (bf_seatCount f + 1)\<rparr>"
| "details_event (Write_notes t) f = f\<lparr>bf_notes := t\<rparr>"
| "details_event Continue f = (if canProceedStep0 f then f\<lparr>bf_step := 1\<rparr> else f)"
| "details_event _ f = f"

fun review_event :: "form_event \<Rightarrow> booking_form \<Rightarrow> booking_form" where
  "review_event Back f = f\<lparr>bf_step := 0\<rparr>"
| "review_event (Confirm a) f = handleConfirmBooking a f"
| "review_event _ f = f"

definition form_event :: "form_event \<Rightarrow> booking_form \<Rightarrow> booking_form" where
  "form_event e f = (if bf_step f = 0 then details_event e f else if bf_step f = 1 then review_event e f else f)"

text \<open>Paying: \<open>loaded\<close> says whether Paystack's script is there.\<close>

datatype pay_outcome =
    Nothing_to_pay
  | Payment_failed
  | Redirected "json option"
  | Popup json "json option"

definition pay_with :: "bool \<Rightarrow> answer \<Rightarrow> json \<Rightarrow> pay_outcome" where
  "pay_with loaded a amount =
     (case api_call a of
        Inl _ \<Rightarrow> Payment_failed
      | Inr res \<Rightarrow>
          (case js_get ''data'' (Some res) of
             Some (Some d) \<Rightarrow>
               (case (js_get ''authorizationUrl'' (Some d), js_get ''reference'' (Some d)) of
                  (Some url, Some ref) \<Rightarrow> if \<not> loaded then Redirected url else Popup amount ref
                | _ \<Rightarrow> Payment_failed)
           | _ \<Rightarrow> Payment_failed))"

definition handlePay :: "bool \<Rightarrow> answer \<Rightarrow> json option \<Rightarrow> booking_form \<Rightarrow> pay_outcome" where
  "handlePay loaded a estimate f =
     (if \<not> js_truthy (bf_bookingId f) then Nothing_to_pay else pay_with loaded a (totalAmount estimate))"

section \<open>The list of bookings\<close>

definition offers_cancel :: "json \<Rightarrow> bool" where
  "offers_cancel b \<longleftrightarrow> field ''status'' b = Some (JStr ''PENDING'') \<or> field ''status'' b = Some (JStr ''CONFIRMED'')"

definition offers_pay :: "json \<Rightarrow> bool" where
  "offers_pay b \<longleftrightarrow> offers_cancel b \<and> field ''status'' b = Some (JStr ''PENDING'')"

definition status_style :: "json \<Rightarrow> string option" where
  "status_style b =
     (case string_field ''status'' b of
        None \<Rightarrow> None
      | Some s \<Rightarrow> map_of [(''PENDING'', ''amber''), (''CONFIRMED'', ''green''), (''CANCELLED'', ''red''), (''COMPLETED'', ''gray'')] s)"

text \<open>The cancel button: the first click asks, the second sends; \<open>None\<close> is a click that sends nothing.\<close>

definition handleCancel :: "bool \<Rightarrow> answer \<Rightarrow> bool \<times> bool" where
  "handleCancel confirmCancel a =
     (if \<not> confirmCancel then (True, False)
      else case api_call a of Inl _ \<Rightarrow> (True, True) | Inr _ \<Rightarrow> (False, True))"

definition invoice_badge :: "json option \<Rightarrow> string" where
  "invoice_badge invoice =
     (if opt_get ''status'' invoice = Some (JStr ''PAID'') then ''green''
      else if opt_get ''status'' invoice = Some (JStr ''CANCELLED'') then ''red'' else ''amber'')"

section \<open>The check-in page\<close>

record check_in_page =
  kp_workspaceId :: string
  kp_bookingId :: string
  kp_notes :: string
  kp_confirmCheckout :: bool

definition new_check_in_page :: check_in_page where
  "new_check_in_page = \<lparr>kp_workspaceId = [], kp_bookingId = [], kp_notes = [], kp_confirmCheckout = False\<rparr>"

definition formatDuration :: "nat \<Rightarrow> string" where
  "formatDuration minutes =
     (let h = minutes div 60; m = minutes mod 60
      in if h = 0 then nat_str m @ ''m'' else if m = 0 then nat_str h @ ''h'' else nat_str h @ ''h '' @ nat_str m @ ''m'')"

definition eligibleBookings :: "json option \<Rightarrow> json list" where
  "eligibleBookings q = filter (\<lambda>b. field ''status'' b = Some (JStr ''CONFIRMED'')) (rows_of q)"

definition select_booking :: "json option \<Rightarrow> string \<Rightarrow> check_in_page \<Rightarrow> check_in_page" where
  "select_booking q k p =
     (let p = p\<lparr>kp_bookingId := k\<rparr>
      in if k = [] then p
         else case find_one (\<lambda>b. field ''id'' b = Some (JStr k)) (eligibleBookings q) of
                Some b \<Rightarrow> (case string_field ''workspaceId'' b of Some x \<Rightarrow> p\<lparr>kp_workspaceId := x\<rparr> | None \<Rightarrow> p)
              | None \<Rightarrow> p)"

definition check_in_body :: "check_in_page \<Rightarrow> json" where
  "check_in_body p =
     JObj ([(''workspaceId'', JStr (kp_workspaceId p))] @
           (if kp_bookingId p = [] then [] else [(''bookingId'', JStr (kp_bookingId p))]) @
           (if kp_notes p = [] then [] else [(''notes'', JStr (kp_notes p))]))"

definition handleCheckIn :: "answer \<Rightarrow> check_in_page \<Rightarrow> check_in_page" where
  "handleCheckIn a p =
     (if kp_workspaceId p = [] then p
      else case api_call a of Inl _ \<Rightarrow> p | Inr _ \<Rightarrow> p\<lparr>kp_workspaceId := [], kp_bookingId := [], kp_notes := []\<rparr>)"

definition activeLog :: "json option \<Rightarrow> json" where
  "activeLog q = nullish JNull (opt_get ''data'' q)"

definition handleCheckOut :: "json \<Rightarrow> answer \<Rightarrow> check_in_page \<Rightarrow> check_in_page" where
  "handleCheckOut active a p =
     (if \<not> js_truthy (Some active) then p
      else case api_call a of Inl _ \<Rightarrow> p | Inr _ \<Rightarrow> p\<lparr>kp_confirmCheckout := False\<rparr>)"

section \<open>The notification bell\<close>

definition icon_of :: "string \<Rightarrow> string" where
  "icon_of ty =
     (if ty = ''PAYMENT_SUCCESS'' then ''CreditCard emerald'' else if ty = ''PAYMENT_FAILED'' then ''AlertCircle red''
      else if ty = ''PAYMENT_REFUNDED'' then ''RefreshCw violet'' else if ty = ''BOOKING_CONFIRMED'' then ''BookOpen blue''
      else if ty = ''BOOKING_CANCELLED'' then ''BookOpen orange'' else if ty = ''BOOKING_COMPLETED'' then ''BookOpen emerald''
      else if ty = ''INVOICE_GENERATED'' then ''ReceiptText amber'' else ''Info gray'')"

definition timeAgo :: "instant \<Rightarrow> instant \<Rightarrow> string" where
  "timeAgo now_ms t =
     (let mins = (now_ms - t) div 60000; hours = mins div 60
      in if mins < 1 then ''just now''
         else if mins < 60 then nat_str (nat mins) @ ''m ago''
         else if hours < 24 then nat_str (nat hours) @ ''h ago''
         else nat_str (nat (hours div 24)) @ ''d ago'')"

definition unread_shown :: "json option \<Rightarrow> json" where
  "unread_shown q = nullish (JNum ''0'') (opt_get ''unreadCount'' (opt_get ''meta'' q))"

text \<open>The badge and the button that marks all read are shown for a positive count only.\<close>

definition bell_active :: "json option \<Rightarrow> bool" where
  "bell_active q \<longleftrightarrow> (case unread_shown q of JNum n \<Rightarrow> 0 < num_of n | _ \<Rightarrow> False)"

definition get_notifications :: "uuid \<Rightarrow> notification_query \<Rightarrow> (notification \<Rightarrow> json) \<Rightarrow> notice_state \<Rightarrow> answer" where
  "get_notifications userId q show s =
     (case find_notifications userId q s of
        Inl e \<Rightarrow> error_answer e
      | Inr p \<Rightarrow>
          Ok_status (Some (JObj [(''message'', JStr ''Notifications retrieved successfully''),
            (''data'', JArr (map show (np_data p))), (''total'', JNum (nat_str (np_total p))),
            (''unreadCount'', JNum (nat_str (np_unreadCount p))), (''page'', JNum (int_text (np_page p))),
            (''limit'', JNum (int_text (np_limit p)))])))"

section \<open>The form never books\<close>

text \<open>
  The form and the database together: the controls, the submission of the review step with the
  backend's answer, submissions that do not reach the handler, and requests of others.
\<close>

inductive form_session :: "body_rules \<Rightarrow> booking_form \<times> world \<Rightarrow> bool" for br where
  open_page: "form_session br (new_booking_form k, w)"
| control: "form_session br (f, w) \<Longrightarrow> (\<And>a. e \<noteq> Confirm a) \<Longrightarrow> form_session br (form_event e f, w)"
| submit: "form_session br (f, w) \<Longrightarrow> bf_step f = 1 \<Longrightarrow> post_bookings env br (booking_body f) userId w = (a, w') \<Longrightarrow>
    form_session br (form_event (Confirm a) f, w')"
| unreached: "form_session br (f, w) \<Longrightarrow> api_call a = Inl e \<Longrightarrow> form_session br (form_event (Confirm a) f, w)"
| others: "form_session br (f, w) \<Longrightarrow> form_session br (f, w')"

definition offered_plan :: "booking_form \<Rightarrow> bool" where
  "offered_plan f \<longleftrightarrow> bf_planType f \<in> fst ` set PLAN_TYPES"

lemma booking_body_fields:
  "field ''planType'' (booking_body f) = Some (JStr (bf_planType f))"
  "field ''workspaceId'' (booking_body f) = Some (JStr (bf_workspaceId f))"
  "field ''startDate'' (booking_body f) = Some (JStr (bf_startDate f))"
  "field ''endDate'' (booking_body f) = Some (JStr (bf_endDate f))"
  "field ''seatCount'' (booking_body f) = Some (JNum (int_text (bf_seatCount f)))"
  "field ''notes'' (booking_body f) = (if bf_notes f = [] then None else Some (JStr (bf_notes f)))"
  by (simp_all add: booking_body_def field_JObj)

lemma offered_plan_unknown: "offered_plan f \<Longrightarrow> plan_of_string (bf_planType f) = None"
  by (auto simp: offered_plan_def PLAN_TYPES_def plan_of_string_def all_plans_def)

lemma offered_body_refused:
  "offered_plan f \<Longrightarrow> post_bookings env br (booking_body f) userId w = (error_answer (BadRequest ''Bad Request''), w)"
  by (simp add: post_bookings_def create_booking_of_json_def string_field_def booking_body_fields offered_plan_unknown
      split: option.splits)

lemma api_call_error: "api_call (error_answer e) = Inl (Api_error (if exn_text e = [] then ''An API error occurred'' else exn_text e))"
  by (simp add: api_call_def error_answer_def js_get_def js_truthy_def)

lemma confirm_refused: "api_call a = Inl e \<Longrightarrow> form_event (Confirm a) f = f"
  by (simp add: form_event_def handleConfirmBooking_def)

definition unbooked :: "booking_form \<Rightarrow> bool" where
  "unbooked f \<longleftrightarrow> offered_plan f \<and> bf_step f < 2 \<and> bf_bookingId f = Some JNull"

lemma unbooked_control:
  assumes "unbooked f" "\<And>a. e \<noteq> Confirm a"
  shows "unbooked (form_event e f)"
proof (cases "bf_step f = 0")
  case True
  then show ?thesis using assms by (cases e) (auto simp: form_event_def unbooked_def offered_plan_def)
next
  case False
  then show ?thesis using assms by (cases e) (auto simp: form_event_def unbooked_def offered_plan_def)
qed

lemma session_unbooked: "form_session br s \<Longrightarrow> unbooked (fst s)"
proof (induction rule: form_session.induct)
  case (open_page k w)
  then show ?case by (simp add: unbooked_def new_booking_form_def offered_plan_def PLAN_TYPES_def)
next
  case (control f w e)
  then show ?case using unbooked_control [of f e] by simp
next
  case (submit f w env userId a w')
  then have "a = error_answer (BadRequest ''Bad Request'')"
    by (simp add: unbooked_def offered_body_refused)
  then show ?case using submit confirm_refused [OF api_call_error] by simp
qed (simp_all add: confirm_refused)

text \<open>
  C12: Booking form: whatever is chosen, submitted and answered, the form never gets past its
  review: each plan it offers is one the backend's validation refuses, so that no submission changes
  the database and there is never a booking to pay. With one of the backend's plans the same body
  is accepted, and means the booking the form shows.
\<close>

theorem booking_form_never_books:
  assumes "form_session br (f, w)"
  shows "bf_step f < 2 \<and> handlePay loaded a q f = Nothing_to_pay \<and>
    (\<forall>env userId w0. snd (post_bookings env br (booking_body f) userId w0) = w0) \<and>
    (canProceedStep0 f \<longrightarrow> is_uuid br (bf_workspaceId f) \<longrightarrow> is_date_string br (bf_startDate f) \<longrightarrow> is_date_string br (bf_endDate f) \<longrightarrow>
      create_booking_of_json br (booking_body (f\<lparr>bf_planType := plan_string p\<rparr>)) =
        Some \<lparr>cb_workspaceId = bf_workspaceId f, cb_planType = p, cb_startDate = bf_startDate f, cb_endDate = bf_endDate f,
              cb_seatCount = nat (bf_seatCount f), cb_notes = (if bf_notes f = [] then None else Some (bf_notes f))\<rparr>)"
proof -
  have u: "unbooked f" using session_unbooked [OF assms] by simp
  then have "handlePay loaded a q f = Nothing_to_pay" by (simp add: handlePay_def unbooked_def js_truthy_def)
  moreover have "snd (post_bookings env br (booking_body f) userId w0) = w0" for env userId w0
    using u offered_body_refused [of f env br userId w0] by (simp add: unbooked_def)
  moreover have "create_booking_of_json br (booking_body (f\<lparr>bf_planType := plan_string p\<rparr>)) =
        Some \<lparr>cb_workspaceId = bf_workspaceId f, cb_planType = p, cb_startDate = bf_startDate f, cb_endDate = bf_endDate f,
              cb_seatCount = nat (bf_seatCount f), cb_notes = (if bf_notes f = [] then None else Some (bf_notes f))\<rparr>"
    if "canProceedStep0 f" "is_uuid br (bf_workspaceId f)" "is_date_string br (bf_startDate f)" "is_date_string br (bf_endDate f)"
  proof -
    have n: "0 < bf_seatCount f" using that(1) by (simp add: canProceedStep0_def)
    have "plan_of_string (plan_string p) = Some p" by (cases p) (simp_all add: plan_of_string_def all_plans_def)
    moreover have "count_field ''seatCount'' (booking_body (f\<lparr>bf_planType := plan_string p\<rparr>)) = Some (nat (bf_seatCount f))"
      using n digits_nat_str [of "nat (bf_seatCount f)"]
      by (auto simp: count_field_def booking_body_fields int_text_def num_of_nat_str dest: arg_cong [where f = num_of])
    moreover have "whitelisted [''workspaceId'', ''planType'', ''startDate'', ''endDate'', ''seatCount'', ''notes'']
        (booking_body (f\<lparr>bf_planType := plan_string p\<rparr>))"
      by (simp add: whitelisted_def booking_body_def)
    ultimately show ?thesis
      using that by (simp add: create_booking_of_json_def string_field_def booking_body_fields optional_field_def read_string_def)
  qed
  ultimately show ?thesis using u unfolding unbooked_def by blast
qed

section \<open>What a member is offered\<close>

lemma api_call_Ok: "api_call (Ok_status (Some v)) = Inr v"
  by (simp add: api_call_def)

lemma query_error: "query_data (error_answer e) = None"
  by (simp add: query_data_def api_call_error)

lemma query_page:
  "rows_of (query_data (page_answer m show p)) = map show (pg_data p)"
  "opt_get ''meta'' (query_data (page_answer m show p)) = None"
  by (simp_all add: rows_of_def query_data_def page_answer_def api_call_Ok opt_get_def js_get_def nullish_def)

lemma query_None: "rows_of None = []" "opt_get k None = None"
  by (simp_all add: rows_of_def opt_get_def nullish_def)

lemma shown_booking_fields:
  "field ''id'' (show_booking env b) = Some (JStr (b_id b))"
  "field ''status'' (show_booking env b) = Some (JStr (booking_status_string (b_status b)))"
  "field ''workspaceId'' (show_booking env b) = Some (JStr (b_workspaceId b))"
  by (simp_all add: show_booking_def field_JObj)

lemma lower_status:
  "booking_status_string s \<noteq> ''PENDING''" "booking_status_string s \<noteq> ''CONFIRMED''"
  "booking_status_string s \<noteq> ''CANCELLED''" "booking_status_string s \<noteq> ''COMPLETED''"
  by (cases s; simp)+

lemma shown_booking_inert:
  "\<not> offers_cancel (show_booking env b)" "\<not> offers_pay (show_booking env b)" "status_style (show_booking env b) = None"
  by (simp_all add: offers_cancel_def offers_pay_def status_style_def string_field_def shown_booking_fields lower_status)

text \<open>
  Bookings page: the list shows the member's rows, but whatever their status it offers
  neither payment nor cancelling nor a second page, and the check-in page offers no booking: the
  pages compare with status texts the backend does not use and read a part of the answer it does
  not have.
\<close>

theorem member_pages_offer_nothing:
  assumes "bookings_findAll env query userId role w = Inr p"
  defines "q \<equiv> query_data (get_bookings env query userId role w)"
  shows "rows_of q = map (show_booking env) (pg_data p) \<and>
    list_all (\<lambda>b. \<not> offers_cancel b \<and> \<not> offers_pay b \<and> status_style b = None) (rows_of q) \<and>
    \<not> shows_pager q \<and> eligibleBookings q = []"
proof -
  have q: "q = query_data (page_answer ''Bookings retrieved successfully'' (show_booking env) p)"
    unfolding q_def get_bookings_def assms(1) by simp
  have rows: "rows_of q = map (show_booking env) (pg_data p)" unfolding q by (rule query_page)
  moreover have "\<not> shows_pager q" unfolding q by (simp add: shows_pager_def query_page query_None)
  moreover have "eligibleBookings q = []"
    unfolding eligibleBookings_def rows by (simp add: filter_empty_conv shown_booking_fields lower_status)
  ultimately show ?thesis by (simp add: list_all_iff shown_booking_inert)
qed

text \<open>The bell never shows its badge, however many notifications are unread.\<close>

lemma num_of_zero: "num_of ''0'' = 0"
  by (simp add: num_of_def digit_val_def)

lemma bell_never_active: "\<not> bell_active (query_data (get_notifications userId nq show s))"
proof (cases "find_notifications userId nq s")
  case (Inl e)
  then show ?thesis by (simp add: get_notifications_def query_error bell_active_def unread_shown_def query_None nullish_def num_of_zero)
next
  case (Inr p)
  then have "opt_get ''meta'' (query_data (get_notifications userId nq show s)) = None"
    by (simp add: get_notifications_def query_data_def api_call_Ok opt_get_def js_get_def)
  then show ?thesis by (simp add: bell_active_def unread_shown_def query_None nullish_def num_of_zero)
qed

text \<open>An estimate that was answered is shown as nothing to pay.\<close>

lemma estimate_shown_as_zero: "totalAmount (query_data (price_estimate_answer kobo naira d pct)) = JNum ''0''"
  by (cases d) (simp_all add: totalAmount_def query_data_def price_estimate_answer_def data_answer_def api_call_Ok opt_get_def
      js_get_def nullish_def)

section \<open>Checking in and out on the page\<close>

definition opt_uuid_ok :: "body_rules \<Rightarrow> string option \<Rightarrow> bool" where
  "opt_uuid_ok br v \<longleftrightarrow> (case v of None \<Rightarrow> True | Some s \<Rightarrow> is_uuid br s)"

definition opt_max :: "nat \<Rightarrow> string option \<Rightarrow> bool" where
  "opt_max n v \<longleftrightarrow> (case v of None \<Rightarrow> True | Some s \<Rightarrow> length s \<le> n)"

definition check_in_of_json :: "body_rules \<Rightarrow> json \<Rightarrow> check_in_dto option" where
  "check_in_of_json br v =
     (if \<not> whitelisted [''workspaceId'', ''bookingId'', ''notes'', ''biometricTemplateHash'', ''biometricStorageReference'',
            ''biometricProcessingLocation'', ''biometricVendor''] v then None
      else case (string_field ''workspaceId'' v, optional_field read_string ''bookingId'' v, optional_field read_string ''notes'' v,
                 optional_field read_string ''biometricTemplateHash'' v, optional_field read_string ''biometricStorageReference'' v,
                 optional_field read_string ''biometricProcessingLocation'' v, optional_field read_string ''biometricVendor'' v) of
        (Some k, Some b, Some notes, Some hash, Some ref, Some loc, Some vendor) \<Rightarrow>
          if is_uuid br k \<and> opt_uuid_ok br b \<and> opt_max 128 hash \<and> opt_max 255 ref \<and> opt_max 64 vendor \<and>
             loc \<in> {None, Some ''local'', Some ''vendor''}
          then Some \<lparr>ci_workspaceId = k, ci_bookingId = b, ci_notes = notes, ci_hash = hash, ci_storageReference = ref,
                     ci_location = loc, ci_vendor = vendor, ci_other = []\<rparr>
          else None
      | _ \<Rightarrow> None)"

definition show_log :: "workspace_log \<Rightarrow> json" where
  "show_log l =
     JObj [(''id'', JStr (l_id l)), (''userId'', JStr (l_userId l)), (''workspaceId'', JStr (l_workspaceId l)),
       (''bookingId'', or_null JStr (l_bookingId l)), (''notes'', or_null JStr (l_notes l))]"

definition post_check_in :: "env \<Rightarrow> body_rules \<Rightarrow> json \<Rightarrow> uuid \<Rightarrow> world \<Rightarrow> answer \<times> world" where
  "post_check_in env br body userId w =
     (case check_in_of_json br body of
        None \<Rightarrow> (error_answer (BadRequest ''Bad Request''), w)
      | Some dto \<Rightarrow>
          (case checkIn env dto userId w of
             (Inl e, w') \<Rightarrow> (error_answer e, w')
           | (Inr l, w') \<Rightarrow> (data_answer ''Checked in successfully'' (show_log l), w')))"

definition patch_check_out :: "env \<Rightarrow> uuid \<Rightarrow> uuid \<Rightarrow> world \<Rightarrow> answer \<times> world" where
  "patch_check_out env k userId w =
     (case checkOut env k userId w of
        (Inl e, w') \<Rightarrow> (error_answer e, w')
      | (Inr l, w') \<Rightarrow> (data_answer ''Checked out successfully'' (show_log l), w'))"

definition get_active :: "uuid \<Rightarrow> world \<Rightarrow> answer" where
  "get_active userId w = data_answer ''Active check-in retrieved'' (or_null show_log (getActiveCheckIn userId None w))"

lemma active_shown: "activeLog (query_data (get_active userId w)) = or_null show_log (getActiveCheckIn userId None w)"
  by (cases "getActiveCheckIn userId None w")
    (simp_all add: activeLog_def query_data_def get_active_def data_answer_def api_call_Ok opt_get_def js_get_def nullish_def
      or_null_def show_log_def)

lemma check_in_body_fields:
  "string_field ''workspaceId'' (check_in_body p) = Some (kp_workspaceId p)"
  "field ''bookingId'' (check_in_body p) = (if kp_bookingId p = [] then None else Some (JStr (kp_bookingId p)))"
  "field ''notes'' (check_in_body p) = (if kp_notes p = [] then None else Some (JStr (kp_notes p)))"
  "field ''biometricTemplateHash'' (check_in_body p) = None" "field ''biometricStorageReference'' (check_in_body p) = None"
  "field ''biometricProcessingLocation'' (check_in_body p) = None" "field ''biometricVendor'' (check_in_body p) = None"
  by (simp_all add: check_in_body_def string_field_def field_JObj)

definition opt_text :: "string \<Rightarrow> string option" where
  "opt_text s = (if s = [] then None else Some s)"

lemma check_in_body_read:
  "check_in_of_json br (check_in_body p) =
     (if is_uuid br (kp_workspaceId p) \<and> opt_uuid_ok br (opt_text (kp_bookingId p))
      then Some \<lparr>ci_workspaceId = kp_workspaceId p, ci_bookingId = opt_text (kp_bookingId p), ci_notes = opt_text (kp_notes p),
                 ci_hash = None, ci_storageReference = None, ci_location = None, ci_vendor = None, ci_other = []\<rparr>
      else None)"
proof -
  have "whitelisted [''workspaceId'', ''bookingId'', ''notes'', ''biometricTemplateHash'', ''biometricStorageReference'',
      ''biometricProcessingLocation'', ''biometricVendor''] (check_in_body p)"
    by (simp add: whitelisted_def check_in_body_def)
  then show ?thesis
    by (simp add: check_in_of_json_def check_in_body_fields optional_field_def read_string_def opt_max_def opt_text_def)
qed

text \<open>
  C21: Check-in page: for a member who is nowhere checked in, an accepted check-in leaves a
  cleared form and shows the session it opened, in the workspace that was entered; the confirmed
  check-out of what is shown is accepted, and afterwards the page shows no session.
\<close>

theorem check_in_page_session:
  assumes "getActiveCheckIn userId None w = None" and "uuid1 env \<notin> l_id ` set (logs w)"
    and "post_check_in env br (check_in_body p) userId w = (a, w1)" and "api_call a = Inr v" and "kp_workspaceId p \<noteq> []"
  defines "active \<equiv> activeLog (query_data (get_active userId w1))"
  shows "handleCheckIn a p = p\<lparr>kp_workspaceId := [], kp_bookingId := [], kp_notes := []\<rparr> \<and>
    field ''workspaceId'' active = Some (JStr (kp_workspaceId p)) \<and>
    (\<exists>k a2 w2. field ''id'' active = Some (JStr k) \<and> patch_check_out env2 k userId w1 = (a2, w2) \<and>
      (\<exists>v2. api_call a2 = Inr v2) \<and> \<not> kp_confirmCheckout (handleCheckOut active a2 p2) \<and>
      activeLog (query_data (get_active userId w2)) = JNull)"
proof -
  obtain dto l where l: "checkIn env dto userId w = (Inr l, w1)" "ci_workspaceId dto = kp_workspaceId p"
    using assms(3,4)
    by (auto simp: post_check_in_def check_in_body_read api_call_error split: if_splits sum.splits prod.splits)
  from l(1) have n: "l = new_log env dto userId" "w1 = w\<lparr>logs := logs w @ [l]\<rparr>"
    using assms(2) by (auto elim!: checkIn_cases simp: save_row_fresh)
  have none: "\<forall>x\<in>set (logs w). \<not> (l_userId x = userId \<and> open_log x)"
    using assms(1) by (simp add: getActiveCheckIn_def find_one_None_iff)
  have open_l: "l_userId l = userId" "open_log l" "l_id l = uuid1 env" "l_workspaceId l = kp_workspaceId p"
    using n(1) l(2) by (simp_all add: new_log_def open_log_def)
  have act: "getActiveCheckIn userId None w1 = Some l"
    using none open_l find_one_None_iff [of "\<lambda>l. l_userId l = userId \<and> open_log l" "logs w"]
    by (simp add: getActiveCheckIn_def n(2) find_one_append)
  then have active: "active = show_log l" by (simp add: active_def active_shown or_null_def)
  have out: "checkOut env2 (l_id l) userId w1 = (Inr (closed_log env2 l), w1\<lparr>logs := logs w @ [closed_log env2 l]\<rparr>)"
  proof -
    have "find_one (\<lambda>x. l_id x = l_id l \<and> l_userId x = userId \<and> open_log x) (logs w) = None"
      using none by (auto simp: find_one_None_iff)
    then have "find_one (\<lambda>x. l_id x = l_id l \<and> l_userId x = userId \<and> open_log x) (logs w1) = Some l"
      using open_l by (simp add: n(2) find_one_append)
    moreover have "save_row l_id (closed_log env2 l) (logs w1) = logs w @ [closed_log env2 l]"
    proof -
      have "map (\<lambda>x. if l_id x = l_id l then closed_log env2 l else x) (logs w) = logs w"
        using assms(2) open_l(3) by (intro map_idI) (auto simp: image_iff)
      then show ?thesis using open_l(3) by (simp add: save_row_def n(2))
    qed
    ultimately show ?thesis by (simp add: checkOut_def)
  qed
  have gone: "getActiveCheckIn userId None (w1\<lparr>logs := logs w @ [closed_log env2 l]\<rparr>) = None"
    using none by (auto simp: getActiveCheckIn_def find_one_None_iff closed_log_def open_log_def)
  show ?thesis
    using assms(4,5) open_l active out gone
    by (auto simp: handleCheckIn_def show_log_def field_JObj patch_check_out_def data_answer_def api_call_Ok handleCheckOut_def
        js_truthy_def active_shown or_null_def)
qed

section \<open>The pages at concrete inputs\<close>

definition any_body :: body_rules where
  "any_body = \<lparr>is_uuid = (\<lambda>s. s \<noteq> []), is_date_string = (\<lambda>s. s \<noteq> [])\<rparr>"

lemma booking_form_never_books_witness:
  "bf_step (new_booking_form ''ws1'') < 2 \<and>
   handlePay True (No_answer ''offline'') None (new_booking_form ''ws1'') = Nothing_to_pay"
  using booking_form_never_books [where br = any_body and loaded = True and a = "No_answer ''offline''" and q = None,
      OF form_session.open_page [where k = "''ws1''" and w = sample_world]]
  by blast

definition booked_world :: world where
  "booked_world = snd (create_booking sample_env sample_dto ''ada'' sample_world)"

definition sample_query :: booking_query where
  "sample_query = \<lparr>bq_page = None, bq_limit = Some 2, bq_status = None, bq_workspaceId = None, bq_userId = None,
     bq_startDate = None, bq_endDate = None\<rparr>"

lemma member_pages_offer_nothing_witness:
  "rows_of (query_data (get_bookings sample_env sample_query ''ada'' USER booked_world)) \<noteq> [] \<and>
   eligibleBookings (query_data (get_bookings sample_env sample_query ''ada'' USER booked_world)) = []"
proof -
  have "case bookings_findAll sample_env sample_query ''ada'' USER booked_world of Inl _ \<Rightarrow> False | Inr p \<Rightarrow> pg_data p \<noteq> []"
    by code_simp
  then obtain p where p: "bookings_findAll sample_env sample_query ''ada'' USER booked_world = Inr p" and ne: "pg_data p \<noteq> []"
    by (auto split: sum.splits)
  from ne member_pages_offer_nothing [OF p] show ?thesis by simp
qed

definition filled_check_in :: check_in_page where
  "filled_check_in = new_check_in_page\<lparr>kp_workspaceId := ''ws1'', kp_notes := ''hello''\<rparr>"

lemma check_in_page_session_witness:
  "handleCheckIn (fst (post_check_in sample_env any_body (check_in_body filled_check_in) ''ada'' sample_world)) filled_check_in =
     filled_check_in\<lparr>kp_workspaceId := [], kp_bookingId := [], kp_notes := []\<rparr>"
proof -
  let ?r = "post_check_in sample_env any_body (check_in_body filled_check_in) ''ada'' sample_world"
  have "getActiveCheckIn ''ada'' None sample_world = None" "uuid1 sample_env \<notin> l_id ` set (logs sample_world)"
    "kp_workspaceId filled_check_in \<noteq> []"
    by (code_simp, code_simp, code_simp)
  moreover obtain v where "api_call (fst ?r) = Inr v"
  proof -
    have "case api_call (fst ?r) of Inl _ \<Rightarrow> False | Inr _ \<Rightarrow> True" by code_simp
    then show ?thesis using that by (auto split: sum.splits)
  qed
  ultimately show ?thesis
    using check_in_page_session [where env = sample_env and br = any_body and p = filled_check_in and userId = "''ada''"
        and w = sample_world and a = "fst ?r" and ?w1.0 = "snd ?r" and v = v] by simp
qed

end
