(* ===== verification/Web_Admin.thy ===== *)
theory Web_Admin
  imports Web_Pages Users
begin

text \<open>
  The administrators' pages against the backend: the lists of bookings and of invoices with their
  filters (\<open>app/admin/bookings/page.tsx\<close>, \<open>app/admin/invoices/page.tsx\<close>), the members' actions
  (\<open>app/admin/members/page.tsx\<close>, \<open>useUpdateMemberStatus.ts\<close>), the workspace form
  (\<open>components/admin/WorkspaceFormModal.tsx\<close>), and the profile form of every member
  (\<open>app/profile/page.tsx\<close>), which sends the same kind of request as the members' actions.

  A query's parameters are a list of names and texts, as \<open>URLSearchParams\<close> prints them. A page
  or limit is read where it is a decimal number, which is what the pages send.
\<close>

section \<open>Query parameters\<close>

type_synonym params = "(string \<times> string) list"

definition query_count :: "string \<Rightarrow> params \<Rightarrow> nat option option" where
  "query_count k ps =
     (case map_of ps k of
        None \<Rightarrow> Some None
      | Some s \<Rightarrow> if s \<noteq> [] \<and> list_all is_digit s \<and> 1 \<le> num_of s then Some (Some (num_of s)) else None)"

definition query_value :: "(string \<Rightarrow> 'a option) \<Rightarrow> string \<Rightarrow> params \<Rightarrow> 'a option option" where
  "query_value read k ps =
     (case map_of ps k of
        None \<Rightarrow> Some None
      | Some s \<Rightarrow> (case read s of Some a \<Rightarrow> Some (Some a) | None \<Rightarrow> None))"

definition read_uuid :: "body_rules \<Rightarrow> string \<Rightarrow> string option" where
  "read_uuid br s = (if is_uuid br s then Some s else None)"

definition booking_query_of_params :: "body_rules \<Rightarrow> params \<Rightarrow> booking_query option" where
  "booking_query_of_params br ps =
     (if \<not> fst ` set ps \<subseteq> {''page'', ''limit'', ''status'', ''workspaceId'', ''userId'', ''startDate'', ''endDate''} then None
      else case (query_count ''page'' ps, query_count ''limit'' ps, query_value booking_status_of_string ''status'' ps,
                 query_value (read_uuid br) ''workspaceId'' ps, query_value (read_uuid br) ''userId'' ps) of
        (Some p, Some l, Some st, Some k, Some u) \<Rightarrow>
          Some \<lparr>bq_page = map_option int p, bq_limit = map_option int l, bq_status = st, bq_workspaceId = k, bq_userId = u,
                bq_startDate = map_of ps ''startDate'', bq_endDate = map_of ps ''endDate''\<rparr>
      | _ \<Rightarrow> None)"

definition invoice_status_of_string :: "string \<Rightarrow> invoice_status option" where
  "invoice_status_of_string s = find_one (\<lambda>t. invoice_status_string t = s) [I_PENDING, I_PAID, I_VOID]"

definition invoice_query_of_params :: "body_rules \<Rightarrow> params \<Rightarrow> invoice_query option" where
  "invoice_query_of_params br ps =
     (if \<not> fst ` set ps \<subseteq> {''page'', ''limit'', ''status'', ''bookingId''} then None
      else case (query_count ''page'' ps, query_count ''limit'' ps, query_value invoice_status_of_string ''status'' ps,
                 query_value (read_uuid br) ''bookingId'' ps) of
        (Some p, Some l, Some st, Some k) \<Rightarrow>
          if (case l of Some n \<Rightarrow> n \<le> 100 | None \<Rightarrow> True)
          then Some \<lparr>iq_page = map_option int p, iq_limit = map_option int l, iq_status = st, iq_bookingId = k\<rparr>
          else None
      | _ \<Rightarrow> None)"

definition http_bookings :: "env \<Rightarrow> body_rules \<Rightarrow> params \<Rightarrow> uuid \<Rightarrow> user_role \<Rightarrow> world \<Rightarrow> answer" where
  "http_bookings env br ps userId role w =
     (case booking_query_of_params br ps of
        None \<Rightarrow> error_answer (BadRequest ''Bad Request'')
      | Some q \<Rightarrow> get_bookings env q userId role w)"

definition show_invoice :: "env \<Rightarrow> invoice \<Rightarrow> json" where
  "show_invoice env i =
     JObj [(''id'', JStr (i_id i)), (''invoiceNumber'', JStr (i_invoiceNumber i)), (''bookingId'', JStr (i_bookingId i)),
       (''amountKobo'', (if bigint_strings env then JStr else JNum) (nat_str (i_amountKobo i))),
       (''status'', JStr (invoice_status_string (i_status i))), (''createdAt'', JStr (iso_string (i_createdAt i)))]"

definition http_invoices :: "env \<Rightarrow> body_rules \<Rightarrow> params \<Rightarrow> uuid \<Rightarrow> user_role \<Rightarrow> world \<Rightarrow> answer" where
  "http_invoices env br ps userId role w =
     (case invoice_query_of_params br ps of
        None \<Rightarrow> error_answer (BadRequest ''Bad Request'')
      | Some q \<Rightarrow>
          (case invoices_findAll q userId role w of
             Inl e \<Rightarrow> error_answer e
           | Inr (xs, n, page, lmt) \<Rightarrow>
               Ok_status (Some (JObj [(''message'', JStr ''Invoices retrieved successfully''),
                 (''data'', JArr (map (show_invoice env) xs)), (''total'', JNum (nat_str n)), (''page'', JNum (int_text page)),
                 (''limit'', JNum (int_text lmt))]))))"

section \<open>The list of all bookings\<close>

definition BOOKING_STATUSES :: "(string \<times> string) list" where
  "BOOKING_STATUSES =
     [([], ''All''), (''PENDING'', ''Pending''), (''CONFIRMED'', ''Confirmed''), (''COMPLETED'', ''Completed''),
      (''CANCELLED'', ''Cancelled'')]"

definition all_bookings_params :: "nat \<Rightarrow> string \<Rightarrow> params" where
  "all_bookings_params page status =
     [(''page'', nat_str page), (''limit'', ''15'')] @ (if status = [] then [] else [(''status'', status)])"

text \<open>The actions a row's menu offers, and the request of a confirmed one.\<close>

definition row_actions :: "json \<Rightarrow> string list" where
  "row_actions b =
     (let st = field ''status'' b
      in (if st = Some (JStr ''PENDING'') then [''confirm''] else []) @
         (if st = Some (JStr ''CONFIRMED'') then [''complete''] else []) @
         (if st = Some (JStr ''PENDING'') \<or> st = Some (JStr ''CONFIRMED'') then [''cancel''] else []))"

definition action_path :: "string \<Rightarrow> string \<Rightarrow> string" where
  "action_path k action = ''/bookings/'' @ k @ ''/'' @ action"

definition total_shown :: "json option \<Rightarrow> json" where
  "total_shown q = nullish (JNum ''0'') (opt_get ''total'' (opt_get ''meta'' q))"

section \<open>The list of all invoices\<close>

record invoices_page =
  ip_page :: nat
  ip_status :: string
  ip_search :: string
  ip_appliedSearch :: string
  ip_from :: string
  ip_to :: string
  ip_appliedFrom :: string
  ip_appliedTo :: string

definition STATUS_OPTIONS :: "(string \<times> string) list" where
  "STATUS_OPTIONS = [([], ''All''), (''PAID'', ''Paid''), (''PENDING'', ''Unpaid''), (''CANCELLED'', ''Overdue'')]"

definition applySearch :: "invoices_page \<Rightarrow> invoices_page" where
  "applySearch p =
     p\<lparr>ip_appliedSearch := ip_search p, ip_appliedFrom := ip_from p, ip_appliedTo := ip_to p, ip_page := 1\<rparr>"

definition pick_status :: "string \<Rightarrow> invoices_page \<Rightarrow> invoices_page" where
  "pick_status s p = p\<lparr>ip_status := s, ip_page := 1\<rparr>"

definition when_set :: "string \<Rightarrow> string \<Rightarrow> params" where
  "when_set k v = (if v = [] then [] else [(k, v)])"

definition invoices_params :: "invoices_page \<Rightarrow> params" where
  "invoices_params p =
     [(''page'', nat_str (ip_page p)), (''limit'', ''20'')] @ when_set ''status'' (ip_status p) @
     when_set ''search'' (ip_appliedSearch p) @ when_set ''from'' (ip_appliedFrom p) @ when_set ''to'' (ip_appliedTo p)"

text \<open>The cards: how many are paid and unpaid, and which amounts make the revenue.\<close>

definition with_status :: "string \<Rightarrow> json option \<Rightarrow> json list" where
  "with_status s q = filter (\<lambda>i. field ''status'' i = Some (JStr s)) (rows_of q)"

definition invoice_cards :: "json option \<Rightarrow> json \<times> nat \<times> nat \<times> json option list" where
  "invoice_cards q =
     (total_shown q, length (with_status ''PAID'' q), length (with_status ''PENDING'' q),
      map (field ''amountKobo'') (with_status ''PAID'' q))"

section \<open>Updating a user over HTTP\<close>

text \<open>The pattern of a password.\<close>

definition password_special :: "char \<Rightarrow> bool" where
  "password_special c \<longleftrightarrow> c \<in> set ''@$!%*?&-_.''"

definition password_matches :: "string \<Rightarrow> bool" where
  "password_matches s \<longleftrightarrow>
     list_ex is_lower s \<and> list_ex is_upper s \<and> list_ex is_digit s \<and> list_ex password_special s \<and>
     list_all (\<lambda>c. is_lower c \<or> is_upper c \<or> is_digit c \<or> password_special c) s"

text \<open>
  What is not the source's: the validator library's \<open>isEmail\<close>, and what the database driver stores
  for a value that \<open>@IsOptional\<close> alone lets through, where the column takes it.
\<close>

record update_rules =
  is_email :: "string \<Rightarrow> bool"
  as_text :: "json \<Rightarrow> string"
  as_instant :: "json \<Rightarrow> instant"
  as_bool :: "json \<Rightarrow> bool"

definition patch_string :: "(string \<Rightarrow> bool) \<Rightarrow> string \<Rightarrow> json \<Rightarrow> string patch option" where
  "patch_string ok k v =
     (case field k v of
        None \<Rightarrow> Some None
      | Some JNull \<Rightarrow> Some (Some None)
      | Some (JStr s) \<Rightarrow> if ok s then Some (Some (Some s)) else None
      | _ \<Rightarrow> None)"

definition patch_any :: "(json \<Rightarrow> 'a) \<Rightarrow> string \<Rightarrow> json \<Rightarrow> 'a patch" where
  "patch_any read k v =
     (case field k v of None \<Rightarrow> None | Some JNull \<Rightarrow> Some None | Some x \<Rightarrow> Some (Some (read x)))"

definition UPDATE_USER_FIELDS :: "string list" where
  "UPDATE_USER_FIELDS =
     [''firstname'', ''lastname'', ''username'', ''email'', ''password'', ''role'', ''verificationToken'',
      ''verificationTokenExpiry'', ''passwordResetToken'', ''passwordResetExpiresIn'', ''lastPasswordResetSentAt'',
      ''lastVerificationEmailSent'', ''isVerified'', ''isActive'']"

definition between :: "nat \<Rightarrow> nat \<Rightarrow> string \<Rightarrow> bool" where
  "between lo hi s \<longleftrightarrow> lo \<le> length s \<and> length s \<le> hi"

definition update_user_of_json :: "update_rules \<Rightarrow> json \<Rightarrow> update_user_dto option" where
  "update_user_of_json r v =
     (if \<not> whitelisted UPDATE_USER_FIELDS v then None
      else case (patch_string (between 1 30) ''firstname'' v, patch_string (between 1 30) ''lastname'' v,
                 patch_string (between 1 20) ''username'' v, patch_string (\<lambda>s. is_email r s \<and> length s \<le> 50) ''email'' v,
                 patch_string (\<lambda>s. between 8 80 s \<and> password_matches s) ''password'' v,
                 patch_string (\<lambda>_. True) ''verificationToken'' v, patch_string (\<lambda>_. True) ''passwordResetToken'' v) of
        (Some f, Some l, Some n, Some m, Some pw, Some vt, Some rt) \<Rightarrow>
          Some \<lparr>uu_firstname = f, uu_lastname = l, uu_username = n, uu_email = m, uu_password = pw,
            uu_role = patch_any (as_text r) ''role'' v, uu_verificationToken = vt,
            uu_verificationTokenExpiry = patch_any (as_instant r) ''verificationTokenExpiry'' v,
            uu_passwordResetToken = rt, uu_passwordResetExpiresIn = patch_any (as_instant r) ''passwordResetExpiresIn'' v,
            uu_lastPasswordResetSentAt = patch_any (as_instant r) ''lastPasswordResetSentAt'' v,
            uu_lastVerificationEmailSent = patch_any (as_instant r) ''lastVerificationEmailSent'' v,
            uu_isVerified = patch_any (as_bool r) ''isVerified'' v, uu_isActive = patch_any (as_bool r) ''isActive'' v\<rparr>
      | _ \<Rightarrow> None)"

definition show_user :: "user \<Rightarrow> json" where
  "show_user u =
     JObj [(''id'', JStr (u_id u)), (''firstname'', JStr (u_firstname u)), (''lastname'', JStr (u_lastname u)),
       (''email'', JStr (u_email u)), (''role'', JStr (role_string (u_role u))), (''isActive'', JBool (u_isActive u)),
       (''isSuspended'', JBool (u_isSuspended u))]"

definition patch_user :: "env \<Rightarrow> update_rules \<Rightarrow> uuid \<Rightarrow> json \<Rightarrow> actor \<Rightarrow> world \<Rightarrow> answer \<times> world" where
  "patch_user env r k body ac w =
     (case update_user_of_json r body of
        None \<Rightarrow> (error_answer (BadRequest ''Bad Request''), w)
      | Some d \<Rightarrow>
          (case updateUser env k d ac w of
             (Inl e, w') \<Rightarrow> (error_answer e, w')
           | (Inr u, w') \<Rightarrow>
               (Ok_status (Some (JObj [(''success'', JBool True), (''message'', JStr (''User '' @ k @ '' updated successfully'')),
                  (''data'', show_user u)])), w')))"

section \<open>The members' actions and the profile form\<close>

datatype member_action = Suspend | Activate | Make_admin | Make_user

fun member_body :: "member_action \<Rightarrow> json" where
  "member_body Suspend = JObj [(''isSuspended'', JBool True)]"
| "member_body Activate = JObj [(''isSuspended'', JBool False), (''isActive'', JBool True)]"
| "member_body Make_admin = JObj [(''role'', JStr ''admin'')]"
| "member_body Make_user = JObj [(''role'', JStr ''user'')]"

fun action_label :: "member_action \<Rightarrow> string" where
  "action_label Suspend = ''Member suspended''"
| "action_label Activate = ''Member activated''"
| "action_label Make_admin = ''Promoted to admin''"
| "action_label Make_user = ''Demoted to user''"

definition action_toast :: "member_action \<Rightarrow> answer \<Rightarrow> string" where
  "action_toast act a =
     (case api_call a of
        Inl (Api_error m) \<Rightarrow> if m = [] then ''Failed to update member'' else m
      | Inl _ \<Rightarrow> ''Failed to update member''
      | Inr _ \<Rightarrow> action_label act)"

definition member_badge :: "json \<Rightarrow> string" where
  "member_badge m =
     (if js_truthy (field ''isSuspended'' m) then ''Suspended''
      else if js_truthy (field ''isActive'' m) then ''Active'' else ''Inactive'')"

definition member_options :: "json \<Rightarrow> member_action list" where
  "member_options m =
     [if js_truthy (field ''isSuspended'' m) then Activate else Suspend,
      if field ''role'' m = Some (JStr ''admin'') then Make_user else Make_admin]"

text \<open>The profile's schema; the e-mail test is the schema library's.\<close>

record profile_form =
  pf_firstname :: string
  pf_lastname :: string
  pf_email :: string
  pf_phone :: "string option"

definition profile_valid :: "(string \<Rightarrow> bool) \<Rightarrow> profile_form \<Rightarrow> bool" where
  "profile_valid zod_email f \<longleftrightarrow> 1 \<le> length (pf_firstname f) \<and> 1 \<le> length (pf_lastname f) \<and> zod_email (pf_email f)"

definition profile_body :: "profile_form \<Rightarrow> json" where
  "profile_body f =
     JObj ([(''firstname'', JStr (pf_firstname f)), (''lastname'', JStr (pf_lastname f)), (''email'', JStr (pf_email f))] @
           (case pf_phone f of None \<Rightarrow> [] | Some p \<Rightarrow> [(''phone'', JStr p)]))"

definition profile_message :: "answer \<Rightarrow> bool \<times> string" where
  "profile_message a =
     (case api_call a of
        Inl (Api_error m) \<Rightarrow> (False, m)
      | Inl _ \<Rightarrow> (False, ''Update failed.'')
      | Inr _ \<Rightarrow> (True, ''Profile updated.''))"

section \<open>The workspace form\<close>

definition WORKSPACE_TYPES :: "string list" where
  "WORKSPACE_TYPES = [''COWORKING'', ''PRIVATE_OFFICE'', ''MEETING_ROOM'', ''HOT_DESK'', ''DEDICATED_DESK'']"

record workspace_form =
  wm_name :: string
  wm_type :: string
  wm_totalSeats :: string
  wm_hourlyRateNaira :: string
  wm_description :: string
  wm_amenitiesInput :: string

definition new_workspace_form :: workspace_form where
  "new_workspace_form =
     \<lparr>wm_name = [], wm_type = ''COWORKING'', wm_totalSeats = ''1'', wm_hourlyRateNaira = [], wm_description = [],
      wm_amenitiesInput = []\<rparr>"

text \<open>\<open>parseInt(s, 10)\<close>, \<open>None\<close> for \<open>NaN\<close>.\<close>

definition parse_int :: "string \<Rightarrow> int option" where
  "parse_int s =
     (let t = dropWhile is_space s;
          neg = (case t of c # _ \<Rightarrow> c = CHR ''-'' | [] \<Rightarrow> False);
          u = (case t of c # r \<Rightarrow> if c = CHR ''-'' \<or> c = CHR ''+'' then r else t | [] \<Rightarrow> []);
          ds = takeWhile is_digit u
      in if ds = [] then None else Some (if neg then - int (num_of ds) else int (num_of ds)))"

definition amenities_of :: "string \<Rightarrow> string list" where
  "amenities_of s = filter (\<lambda>a. a \<noteq> []) (map trim (split_on (CHR '','') s))"

text \<open>
  The handler before its request: an error shown, or the body. \<open>rate_kobo\<close> is
  \<open>Math.round(parseFloat(s) * 100)\<close>, \<open>None\<close> where \<open>parseFloat\<close> gives \<open>NaN\<close> or nothing positive.
\<close>

definition workspace_body :: "(string \<Rightarrow> nat option) \<Rightarrow> workspace_form \<Rightarrow> string + json" where
  "workspace_body rate_kobo m =
     (if trim (wm_name m) = [] then Inl ''Name is required''
      else case parse_int (wm_totalSeats m) of
        None \<Rightarrow> Inl ''Seats must be at least 1''
      | Some seats \<Rightarrow>
          if seats < 1 then Inl ''Seats must be at least 1''
          else case rate_kobo (wm_hourlyRateNaira m) of
            None \<Rightarrow> Inl ''Hourly rate must be greater than 0''
          | Some kobo \<Rightarrow>
              Inr (JObj ([(''name'', JStr (trim (wm_name m))), (''type'', JStr (wm_type m)), (''totalSeats'', JNum (int_text seats)),
                (''hourlyRate'', JNum (nat_str kobo))] @
                (if trim (wm_description m) = [] then [] else [(''description'', JStr (trim (wm_description m)))]) @
                (if amenities_of (wm_amenitiesInput m) = [] then []
                 else [(''amenities'', JArr (map JStr (amenities_of (wm_amenitiesInput m))))]))))"

section \<open>Filters\<close>

lemma query_count_nat_str [simp]: "1 \<le> n \<Longrightarrow> query_count k ((k, nat_str n) # ps) = Some (Some n)"
  using digits_nat_str [of n] num_of_nat_str [of n]
  by (auto simp: query_count_def dest: arg_cong [where f = num_of])

lemma refused_rows:
  "query_data (error_answer e) = None" "rows_of None = []"
  by (simp_all add: query_error query_None)

lemma unknown_booking_status: "s \<in> fst ` set BOOKING_STATUSES \<Longrightarrow> s \<noteq> [] \<Longrightarrow> booking_status_of_string s = None"
  by (auto simp: BOOKING_STATUSES_def booking_status_of_string_def)

lemma no_row_actions: "row_actions (show_booking env b) = []"
  by (simp add: row_actions_def shown_booking_fields lower_status)

text \<open>
  List of all bookings: without a filter the request means the page shown, and is answered
  with its bookings, none of which has an action in its menu, a page of 15 at a time with no way to
  the next; each of the other filters is refused, so that the list is empty.
\<close>

theorem admin_bookings_list:
  fixes env :: env and br :: body_rules and userId :: uuid and role :: user_role and w :: world
  assumes "1 \<le> page" and "status \<in> fst ` set BOOKING_STATUSES"
  defines "q \<equiv> query_data (http_bookings env br (all_bookings_params page status) userId role w)"
  shows "if status = []
    then http_bookings env br (all_bookings_params page status) userId role w =
           get_bookings env \<lparr>bq_page = Some (int page), bq_limit = Some 15, bq_status = None, bq_workspaceId = None,
             bq_userId = None, bq_startDate = None, bq_endDate = None\<rparr> userId role w \<and>
         list_all (\<lambda>b. row_actions b = []) (rows_of q) \<and> \<not> shows_pager q \<and> total_shown q = JNum ''0''
    else q = None \<and> rows_of q = []"
proof (cases "status = []")
  case True
  let ?q = "\<lparr>bq_page = Some (int page), bq_limit = Some 15, bq_status = None, bq_workspaceId = None,
             bq_userId = None, bq_startDate = None, bq_endDate = None\<rparr>"
  have "query_count ''limit'' (all_bookings_params page []) = Some (Some 15)"
    by (simp add: query_count_def all_bookings_params_def is_digit_def num_of_def digit_val_def)
  then have "booking_query_of_params br (all_bookings_params page []) = Some ?q"
    using assms(1) by (simp add: booking_query_of_params_def query_value_def all_bookings_params_def)
  then have a: "http_bookings env br (all_bookings_params page status) userId role w = get_bookings env ?q userId role w"
    using True by (simp add: http_bookings_def)
  have "list_all (\<lambda>b. row_actions b = []) (rows_of q) \<and> \<not> shows_pager q \<and> total_shown q = JNum ''0''"
  proof (cases "bookings_findAll env ?q userId role w")
    case (Inl e)
    then have "q = None" unfolding q_def a by (simp add: get_bookings_def query_error)
    then show ?thesis by (simp add: query_None shows_pager_def total_shown_def nullish_def)
  next
    case (Inr p)
    then have "q = query_data (page_answer ''Bookings retrieved successfully'' (show_booking env) p)"
      unfolding q_def a by (simp add: get_bookings_def)
    then show ?thesis
      by (simp add: query_page query_None shows_pager_def total_shown_def nullish_def list_all_iff no_row_actions)
  qed
  with a True show ?thesis by simp
next
  case False
  then have "query_value booking_status_of_string ''status'' (all_bookings_params page status) = None"
    using unknown_booking_status [OF assms(2)] by (simp add: query_value_def all_bookings_params_def)
  then have "http_bookings env br (all_bookings_params page status) userId role w = error_answer (BadRequest ''Bad Request'')"
    by (simp add: http_bookings_def booking_query_of_params_def split: option.splits)
  then show ?thesis using False unfolding q_def by (simp add: query_error query_None)
qed


section \<open>Invoices\<close>

lemma unknown_invoice_status: "s \<in> fst ` set STATUS_OPTIONS \<Longrightarrow> s \<noteq> [] \<Longrightarrow> invoice_status_of_string s = None"
  by (auto simp: STATUS_OPTIONS_def invoice_status_of_string_def)

lemma upper_invoice_status: "field ''status'' (show_invoice env i) \<noteq> Some (JStr ''PAID'')"
  "field ''status'' (show_invoice env i) \<noteq> Some (JStr ''PENDING'')"
  by (cases "i_status i"; simp add: show_invoice_def field_JObj)+

lemma cards_None: "invoice_cards None = (JNum ''0'', 0, 0, [])"
  by (simp add: invoice_cards_def total_shown_def with_status_def query_None nullish_def)

lemma cards_shown:
  assumes "api_call a = Inr (JObj ((''message'', m) # (''data'', JArr (map (show_invoice env) xs)) # ps))" "map_of (rev ps) ''meta'' = None" "map_of (rev ps) ''data'' = None"
  shows "invoice_cards (query_data a) = (JNum ''0'', 0, 0, [])"
proof -
  have rows: "rows_of (query_data a) = map (show_invoice env) xs"
    by (simp add: rows_of_def query_data_def assms opt_get_def js_get_def map_add_def nullish_def)
  have "opt_get ''meta'' (query_data a) = None"
    by (simp add: query_data_def assms opt_get_def js_get_def map_add_def)
  moreover have "with_status ''PAID'' (query_data a) = []" "with_status ''PENDING'' (query_data a) = []"
    by (simp_all add: with_status_def rows filter_empty_conv upper_invoice_status)
  ultimately show ?thesis
    by (simp add: invoice_cards_def total_shown_def query_None nullish_def)
qed

text \<open>
  List of all invoices: whatever the page, the filters and the database, its cards say that
  there is no invoice, none paid, none unpaid and no revenue; and as soon as a search, a date or a
  status is chosen the request is refused and the list is empty.
\<close>

theorem admin_invoices_list:
  fixes env :: env and br :: body_rules and userId :: uuid and role :: user_role and w :: world
  assumes "1 \<le> ip_page p" and "ip_status p \<in> fst ` set STATUS_OPTIONS"
  defines "q \<equiv> query_data (http_invoices env br (invoices_params p) userId role w)"
  shows "invoice_cards q = (JNum ''0'', 0, 0, []) \<and>
    (ip_status p = [] \<and> ip_appliedSearch p = [] \<and> ip_appliedFrom p = [] \<and> ip_appliedTo p = [] \<or> q = None \<and> rows_of q = [])"
proof -
  have "q = None" if "\<not> (ip_status p = [] \<and> ip_appliedSearch p = [] \<and> ip_appliedFrom p = [] \<and> ip_appliedTo p = [])"
  proof -
    have "invoice_query_of_params br (invoices_params p) = None"
    proof (cases "ip_status p = []")
      case True
      then have "\<not> fst ` set (invoices_params p) \<subseteq> {''page'', ''limit'', ''status'', ''bookingId''}"
        using that by (auto simp: invoices_params_def when_set_def)
      then show ?thesis by (simp add: invoice_query_of_params_def)
    next
      case False
      then have "query_value invoice_status_of_string ''status'' (invoices_params p) = None"
        using unknown_invoice_status [OF assms(2)] by (simp add: query_value_def invoices_params_def when_set_def)
      then show ?thesis by (simp add: invoice_query_of_params_def split: option.splits)
    qed
    then show ?thesis unfolding q_def by (simp add: http_invoices_def query_error)
  qed
  moreover have "invoice_cards q = (JNum ''0'', 0, 0, [])"
  proof (cases "invoice_query_of_params br (invoices_params p)")
    case None
    then show ?thesis unfolding q_def by (simp add: http_invoices_def query_error cards_None)
  next
    case (Some iq)
    show ?thesis
    proof (cases "invoices_findAll iq userId role w")
      case (Inl e)
      with Some show ?thesis unfolding q_def by (simp add: http_invoices_def query_error cards_None)
    next
      case (Inr r)
      obtain xs n page lmt where r: "r = (xs, n, page, lmt)" by (cases r)
      show ?thesis unfolding q_def
        by (rule cards_shown [where m = "JStr ''Invoices retrieved successfully''" and env = env and xs = xs
            and ps = "[(''total'', JNum (nat_str n)), (''page'', JNum (int_text page)), (''limit'', JNum (int_text lmt))]"])
          (simp_all add: http_invoices_def Some Inr r api_call_Ok)
    qed
  qed
  ultimately show ?thesis using query_None by blast
qed

section \<open>Members and profile\<close>

lemma suspend_refused: "a = Suspend \<or> a = Activate \<Longrightarrow> update_user_of_json r (member_body a) = None"
  by (auto simp: update_user_of_json_def whitelisted_def UPDATE_USER_FIELDS_def)

lemma role_body:
  "update_user_of_json r (JObj [(''role'', JStr s)]) = Some (no_update\<lparr>uu_role := Some (Some (as_text r (JStr s)))\<rparr>)"
  by (simp add: update_user_of_json_def whitelisted_def UPDATE_USER_FIELDS_def patch_string_def patch_any_def field_JObj no_update_def)

lemma profile_with_phone_refused:
  "pf_phone f \<noteq> None \<Longrightarrow> update_user_of_json r (profile_body f) = None"
  by (auto simp: update_user_of_json_def whitelisted_def UPDATE_USER_FIELDS_def profile_body_def)

lemma updateUser_Inl: "updateUser env k d ac w = (Inl e, w') \<Longrightarrow> w' = w"
  by (auto simp: updateUser_def ErrorCatch_def Let_def split: sum.splits if_splits)

lemma suspended_untouched:
  assumes "patch_user env r k body ac w = (a, w')" and "distinct (map u_id (users w))"
  shows "map (\<lambda>u. (u_id u, u_isSuspended u)) (users w') = map (\<lambda>u. (u_id u, u_isSuspended u)) (users w)"
proof (cases "users w' = users w")
  case False
  then obtain d u where "updateUser env k d ac w = (Inr u, w')"
    using assms(1) by (auto simp: patch_user_def dest: updateUser_Inl split: option.splits sum.splits prod.splits)
  then obtain u0 where u: "update_gates env k d ac w = Inr u0" "u = assign_user env d u0" "users w' = save_row u_id u (users w)"
    by (auto elim: updateUser_Inr)
  have "u0 \<in> set (users w)" using find_userD [OF update_gates_Inr(1) [OF u(1)]] by simp
  then have "map (\<lambda>x. (u_id x, u_isSuspended x)) (save_row u_id u (users w)) = map (\<lambda>x. (u_id x, u_isSuspended x)) (users w)"
    using assms(2) by (intro map_column_save_row [where key = u_id]) (auto simp: u(2))
  then show ?thesis using u(3) by simp
qed simp

lemma suspend_action_refused:
  "a = Suspend \<or> a = Activate \<Longrightarrow> patch_user env r k (member_body a) ac w = (error_answer (BadRequest ''Bad Request''), w)"
  by (simp add: patch_user_def suspend_refused)

lemma role_update:
  assumes "find_user env (\<lambda>u. u_id u = k) w = Some u" and "isAdminLike (ac_role ac)" and "ac_id ac = Some me"
    and "me \<noteq> []" and "me \<noteq> k" and "role_of_string s = Some role"
    and "role = ADMIN \<or> u_role u \<notin> {ADMIN, SUPER_ADMIN} \<or> remaining_admins env k w \<noteq> 0"
  shows "\<exists>w'. updateUser env k (no_update\<lparr>uu_role := Some (Some s)\<rparr>) ac w = (Inr (u\<lparr>u_role := role\<rparr>), w') \<and>
    users w' = save_row u_id (u\<lparr>u_role := role\<rparr>) (users w)"
proof -
  let ?d = "no_update\<lparr>uu_role := Some (Some s)\<rparr>"
  have s: "s = role_string role" using role_of_string_Some [OF assms(6)] by simp
  have "list_ex snd (given_fields ?d)" by (simp add: given_fields_def no_update_def)
  moreover have "canMutateUser (ac_role ac) (ac_id ac) k" using assms(2-5) by (simp add: canMutateUser_def)
  moreover have "isAdminLike (Some s) \<or> \<not> isAdminLike (Some (role_string (u_role u))) \<or> remaining_admins env k w \<noteq> 0"
    using assms(7) by (auto simp: s isAdminLike_role)
  ultimately have "update_gates env k ?d ac w = Inr u"
    using assms(1,2,3,5) by (auto simp: update_gates_def no_update_def)
  moreover have "\<not> rejected_update ?d u w" using assms(6) by (simp add: rejected_update_def no_update_def)
  moreover have "assign_user env ?d u = u\<lparr>u_role := role\<rparr>" using assms(6) by (simp add: assign_user_def no_update_def)
  ultimately show ?thesis by (simp add: updateUser_def Let_def add_audit_def)
qed

text \<open>
  C25: Members' actions: an administrator makes another account an administrator or a plain
  user, the last active administrator excepted; but suspending and activating, which the page
  offers for the same rows, are always refused, and no request of this kind ever changes who is
  suspended.
\<close>

theorem member_actions_effect:
  fixes r :: update_rules
  assumes "find_user env (\<lambda>u. u_id u = k) w = Some u" and "isAdminLike (ac_role ac)" and "ac_id ac = Some me"
    and "me \<noteq> []" and "me \<noteq> k" and "as_text r (JStr ''admin'') = ''admin''" and "as_text r (JStr ''user'') = ''user''"
    and "distinct (map u_id (users w))"
  shows "patch_user env r k (member_body Suspend) ac w = (error_answer (BadRequest ''Bad Request''), w) \<and>
    patch_user env r k (member_body Activate) ac w = (error_answer (BadRequest ''Bad Request''), w) \<and>
    (\<exists>a w'. patch_user env r k (member_body Make_admin) ac w = (a, w') \<and> action_toast Make_admin a = ''Promoted to admin'' \<and>
       users w' = save_row u_id (u\<lparr>u_role := ADMIN\<rparr>) (users w)) \<and>
    (u_role u \<notin> {ADMIN, SUPER_ADMIN} \<or> remaining_admins env k w \<noteq> 0 \<longrightarrow>
       (\<exists>a w'. patch_user env r k (member_body Make_user) ac w = (a, w') \<and> action_toast Make_user a = ''Demoted to user'' \<and>
          users w' = save_row u_id (u\<lparr>u_role := USER\<rparr>) (users w))) \<and>
    (\<forall>body a w'. patch_user env r k body ac w = (a, w') \<longrightarrow>
       map (\<lambda>u. (u_id u, u_isSuspended u)) (users w') = map (\<lambda>u. (u_id u, u_isSuspended u)) (users w))"
proof -
  have made: "\<exists>a w'. patch_user env r k (JObj [(''role'', JStr s)]) ac w = (a, w') \<and> (\<exists>v. api_call a = Inr v) \<and>
      users w' = save_row u_id (u\<lparr>u_role := role\<rparr>) (users w)"
    if "as_text r (JStr s) = s" "role_of_string s = Some role"
      "role = ADMIN \<or> u_role u \<notin> {ADMIN, SUPER_ADMIN} \<or> remaining_admins env k w \<noteq> 0" for s role
  proof -
    from role_update [OF assms(1-5) that(2,3)] obtain w' where
      "updateUser env k (no_update\<lparr>uu_role := Some (Some s)\<rparr>) ac w = (Inr (u\<lparr>u_role := role\<rparr>), w')"
      "users w' = save_row u_id (u\<lparr>u_role := role\<rparr>) (users w)" by blast
    then show ?thesis by (simp add: patch_user_def role_body that(1) api_call_Ok)
  qed
  have roles: "role_of_string ''admin'' = Some ADMIN" "role_of_string ''user'' = Some USER"
    by (simp_all add: role_of_string_def)
  have "\<exists>a w'. patch_user env r k (member_body Make_admin) ac w = (a, w') \<and> action_toast Make_admin a = ''Promoted to admin'' \<and>
       users w' = save_row u_id (u\<lparr>u_role := ADMIN\<rparr>) (users w)"
    using made [OF assms(6) roles(1)] by (fastforce simp: action_toast_def)
  moreover have "\<exists>a w'. patch_user env r k (member_body Make_user) ac w = (a, w') \<and> action_toast Make_user a = ''Demoted to user'' \<and>
       users w' = save_row u_id (u\<lparr>u_role := USER\<rparr>) (users w)"
    if "u_role u \<notin> {ADMIN, SUPER_ADMIN} \<or> remaining_admins env k w \<noteq> 0"
    using made [OF assms(7) roles(2) disjI2 [OF that]] by (fastforce simp: action_toast_def)
  moreover note suspend_action_refused [of Suspend, OF disjI1 [OF refl]] suspend_action_refused [of Activate, OF disjI2 [OF refl]]
  ultimately show ?thesis using suspended_untouched [OF _ assms(8)] by blast
qed

definition plain_rules :: update_rules where
  "plain_rules =
     \<lparr>is_email = (\<lambda>s. s \<noteq> []), as_text = (\<lambda>v. case v of JStr s \<Rightarrow> s | _ \<Rightarrow> []), as_instant = (\<lambda>_. 0),
      as_bool = (\<lambda>v. v = JBool True)\<rparr>"

lemma member_actions_effect_witness:
  "\<exists>a w. patch_user sample_env plain_rules ''ada'' (member_body Make_admin) (sample_actor ''admin'' ADMIN) sample_world = (a, w) \<and>
     action_toast Make_admin a = ''Promoted to admin'' \<and> fst (patch_user sample_env plain_rules ''ada'' (member_body Suspend)
       (sample_actor ''admin'' ADMIN) sample_world) = error_answer (BadRequest ''Bad Request'')"
proof -
  have "find_user sample_env (\<lambda>u. u_id u = ''ada'') sample_world = Some (sample_user ''ada'' ''ada@nova'' USER)" by code_simp
  moreover have "isAdminLike (ac_role (sample_actor ''admin'' ADMIN))" "ac_id (sample_actor ''admin'' ADMIN) = Some ''admin''"
    by (code_simp, code_simp)
  moreover have "as_text plain_rules (JStr ''admin'') = ''admin''" "as_text plain_rules (JStr ''user'') = ''user''"
    by (code_simp, code_simp)
  moreover have "distinct (map u_id (users sample_world))" by code_simp
  ultimately show ?thesis
    using member_actions_effect [where env = sample_env and k = "''ada''" and w = sample_world and r = plain_rules
        and ac = "sample_actor ''admin'' ADMIN" and me = "''admin''" and u = "sample_user ''ada'' ''ada@nova'' USER"] by fastforce
qed

lemma admin_bookings_list_witness:
  "rows_of (query_data (http_bookings sample_env any_body (all_bookings_params 1 ''PENDING'') ''admin'' ADMIN booked_world)) = []"
  using admin_bookings_list [where page = 1 and status = "''PENDING''" and env = sample_env and br = any_body
      and userId = "''admin''" and role = ADMIN and w = booked_world]
  by (simp add: BOOKING_STATUSES_def query_None)

lemma admin_invoices_list_witness:
  "invoice_cards (query_data (http_invoices sample_env any_body
     (invoices_params \<lparr>ip_page = 1, ip_status = [], ip_search = [], ip_appliedSearch = [], ip_from = [], ip_to = [],
        ip_appliedFrom = [], ip_appliedTo = []\<rparr>) ''admin'' ADMIN booked_world)) = (JNum ''0'', 0, 0, [])"
  using admin_invoices_list [where p = "\<lparr>ip_page = 1, ip_status = [], ip_search = [], ip_appliedSearch = [], ip_from = [],
        ip_to = [], ip_appliedFrom = [], ip_appliedTo = []\<rparr>" and env = sample_env and br = any_body
      and userId = "''admin''" and role = ADMIN and w = booked_world]
  by (simp add: STATUS_OPTIONS_def)

text \<open>A profile with a telephone number is refused as a whole; without one it is the update of the three columns.\<close>

lemma profile_update:
  assumes "profile_valid (is_email r) f" and "length (pf_firstname f) \<le> 30" and "length (pf_lastname f) \<le> 30"
    and "length (pf_email f) \<le> 50"
  shows "update_user_of_json r (profile_body f) =
    (if pf_phone f = None then Some (no_update\<lparr>uu_firstname := Some (Some (pf_firstname f)), uu_lastname := Some (Some (pf_lastname f)),
        uu_email := Some (Some (pf_email f))\<rparr>) else None)"
proof (cases "pf_phone f")
  case None
  then show ?thesis
    using assms by (simp add: update_user_of_json_def whitelisted_def UPDATE_USER_FIELDS_def patch_string_def patch_any_def
        field_JObj no_update_def profile_body_def profile_valid_def between_def)
next
  case (Some p)
  then show ?thesis using profile_with_phone_refused [of f r] by simp
qed

section \<open>Workspaces\<close>

lemma modal_types_unknown: "t \<in> set WORKSPACE_TYPES \<Longrightarrow> workspace_type_of_string t = None"
  by (auto simp: WORKSPACE_TYPES_def workspace_type_of_string_def)

text \<open>What the workspace form sends is refused for each of the types it offers.\<close>

lemma workspace_form_never_creates:
  assumes "workspace_body rate_kobo m = Inr body" and "wm_type m \<in> set WORKSPACE_TYPES"
  shows "post_workspaces env body w = (error_answer (BadRequest ''Bad Request''), w)"
proof -
  have "string_field ''type'' body = Some (wm_type m)"
    using assms(1) by (auto simp: workspace_body_def string_field_def field_JObj split: if_splits option.splits)
  then show ?thesis
    by (simp add: post_workspaces_def create_workspace_of_json_def modal_types_unknown [OF assms(2)] split: option.splits)
qed

end
