(* ===== verification/Sign_On.thy ===== *)
theory Sign_On
  imports Routes
begin

text \<open>
  The two sign-on flows beside the password: SAML (\<open>auth/sso/\<close>), which provisions a staff account
  and answers with the authentication cookies, and passkeys (\<open>auth/passkey/passkey.service.ts\<close>),
  with their challenges in memory.

  \<open>passport-saml\<close> and \<open>@simplewebauthn/server\<close> are parameters.
\<close>

section \<open>SAML configuration\<close>

record saml_config =
  sc_enabled :: bool
  sc_entryPoint :: "string option"
  sc_issuer :: "string option"
  sc_callbackUrl :: "string option"
  sc_idpCert :: "string option"
  sc_logoutUrl :: "string option"
  sc_nameIdFormat :: string
  sc_disableSignatureValidation :: bool

definition buildSamlConfig :: "env \<Rightarrow> saml_config" where
  "buildSamlConfig env =
     \<lparr>sc_enabled = (\<not> blank (config env ''SAML_ENTRY_POINT'') \<and> \<not> blank (config env ''SAML_ISSUER'') \<and>
                    \<not> blank (config env ''SAML_CALLBACK_URL'') \<and> \<not> blank (config env ''SAML_IDP_CERT'')),
      sc_entryPoint = config env ''SAML_ENTRY_POINT'', sc_issuer = config env ''SAML_ISSUER'',
      sc_callbackUrl = config env ''SAML_CALLBACK_URL'', sc_idpCert = config env ''SAML_IDP_CERT'',
      sc_logoutUrl = config env ''SAML_LOGOUT_URL'',
      sc_nameIdFormat = env_default env ''SAML_NAMEID_FORMAT'' ''urn:oasis:names:tc:SAML:1.1:nameid-format:emailAddress'',
      sc_disableSignatureValidation = (config env ''SAML_DISABLE_SIGNATURE_VALIDATION'' = Some ''true'')\<rparr>"

section \<open>Provisioning\<close>

record saml_profile =
  sp_nameID :: "string option"
  sp_email :: "string option"
  sp_firstName :: "string option"
  sp_lastName :: "string option"

definition unusablePasswordHash :: "string \<Rightarrow> string" where
  "unusablePasswordHash random = ''$2b$10$'' @ take 53 random"

definition or_else :: "string option \<Rightarrow> string \<Rightarrow> string" where
  "or_else v d = (let t = (case v of Some s \<Rightarrow> trim s | None \<Rightarrow> []) in if t = [] then d else t)"

definition saml_email :: "saml_profile \<Rightarrow> string" where
  "saml_email p =
     to_lower (trim (case sp_email p of Some e \<Rightarrow> e | None \<Rightarrow> (case sp_nameID p of Some n \<Rightarrow> n | None \<Rightarrow> [])))"

definition provision :: "env \<Rightarrow> string \<Rightarrow> saml_profile \<Rightarrow> world \<Rightarrow> (user \<times> bool) result \<times> world" where
  "provision env random p w =
     (let mailbox = saml_email p
      in if mailbox = [] then (Inl (JsError ''SAML assertion missing email/nameID''), w)
         else case find_user env (\<lambda>u. u_email u = mailbox) w of
           None \<Rightarrow>
             let u = (blank_user env mailbox (or_else (sp_firstName p) ''Staff'') (or_else (sp_lastName p) [])
                        (unusablePasswordHash random) STAFF)\<lparr>u_isVerified := True, u_isActive := True\<rparr>
             in then_do (insert_user u w) (\<lambda>_ w. (Inr (u, True), w))
         | Some u \<Rightarrow>
             if u_role u \<noteq> STAFF
             then then_do (save_user (u\<lparr>u_role := STAFF\<rparr>) w) (\<lambda>_ w. (Inr (u\<lparr>u_role := STAFF\<rparr>, False), w))
             else (Inr (u, False), w))"

section \<open>The SSO controller\<close>

text \<open>
  \<open>passport-saml\<close>'s validation of a posted response (\<open>None\<close>: no profile), the random bytes, and
  whether the express session can be written.
\<close>

record saml_env =
  saml_validate :: "saml_config \<Rightarrow> json \<Rightarrow> saml_profile option result"
  saml_random :: string
  session_up :: bool

datatype sso_answer =
    Sso_not_configured
  | Sso_failed
  | Session_failed
  | No_sso_user
  | Mint_failed
  | Sso_redirect string "cookie list"

text \<open>\<open>runStrategy\<close> with the verify callback of \<open>SamlStrategy\<close>.\<close>

definition run_saml :: "env \<Rightarrow> saml_env \<Rightarrow> json \<Rightarrow> world \<Rightarrow> (sso_answer + user) \<times> world" where
  "run_saml env se body w =
     (case saml_validate se (buildSamlConfig env) body of
        Inl e \<Rightarrow> (Inl Sso_failed, w)
      | Inr None \<Rightarrow> (Inl Sso_failed, w)
      | Inr (Some p) \<Rightarrow>
          (case provision env (saml_random se) p w of
             (Inl e, w') \<Rightarrow> (Inl Sso_failed, w')
           | (Inr (u, created), w') \<Rightarrow> if session_up se then (Inr u, w') else (Inl Session_failed, w')))"

definition acs :: "env \<Rightarrow> auth_env \<Rightarrow> saml_env \<Rightarrow> json \<Rightarrow> world \<Rightarrow> sso_answer \<times> world" where
  "acs env ae se body w =
     (if \<not> sc_enabled (buildSamlConfig env) then (Sso_not_configured, w)
      else case run_saml env se body w of
        (Inl a, w') \<Rightarrow> (a, w')
      | (Inr u, w') \<Rightarrow>
          if u_id u = [] then (No_sso_user, w')
          else (case mintAuthTokensForUser env ae u w' of
                  (Inl e, w'') \<Rightarrow> (Mint_failed, w'')
                | (Inr tp, w'') \<Rightarrow>
                    (Sso_redirect (env_default env ''FRONTEND_STAFF_URL'' ''/admin/dashboard'')
                       (setAuthCookies (tp_accessToken tp) (Some (tp_refreshToken tp))), w'')))"

definition escapeXml :: "string \<Rightarrow> string" where
  "escapeXml s =
     concat (map (\<lambda>c. if c = CHR ''&'' then ''&amp;'' else if c = CHR ''<'' then ''&lt;''
                      else if c = CHR ''>'' then ''&gt;'' else if c = CHR 0x22 then ''&quot;''
                      else if c = CHR 0x27 then ''&apos;'' else [c]) s)"

section \<open>Base64\<close>

definition b64_char :: "nat \<Rightarrow> char" where
  "b64_char n =
     (if n < 26 then char_of (65 + n) else if n < 52 then char_of (71 + n) else if n < 62 then char_of (n - 4)
      else if n = 62 then CHR ''+'' else CHR ''/'')"

fun base64 :: "nat list \<Rightarrow> string" where
  "base64 [] = []"
| "base64 [a] = [b64_char (a div 4), b64_char (a mod 4 * 16), CHR ''='', CHR ''='']"
| "base64 [a, b] = [b64_char (a div 4), b64_char (a mod 4 * 16 + b div 16), b64_char (b mod 16 * 4), CHR ''='']"
| "base64 (a # b # c # rest) =
     b64_char (a div 4) # b64_char (a mod 4 * 16 + b div 16) # b64_char (b mod 16 * 4 + c div 64) #
     b64_char (c mod 64) # base64 rest"

definition b64_val :: "char \<Rightarrow> nat" where
  "b64_val x =
     (let n = of_char x :: nat
      in if is_upper x then n - 65 else if is_lower x then n - 71 else if is_digit x then n + 4
         else if x = CHR ''+'' then 62 else 63)"

text \<open>\<open>Buffer.from(s, 'base64')\<close>, on padded input.\<close>

fun from_base64 :: "string \<Rightarrow> nat list" where
  "from_base64 (p # q # r # s # rest) =
     (let a = b64_val p * 4 + b64_val q div 16
      in if r = CHR ''='' then [a]
         else let b = b64_val q mod 16 * 16 + b64_val r div 4
              in if s = CHR ''='' then [a, b]
                 else a # b # (b64_val r mod 4 * 64 + b64_val s) # from_base64 rest)"
| "from_base64 _ = []"

text \<open>\<open>Buffer.from(s)\<close>: the UTF-8 bytes of a string.\<close>

definition utf8 :: "string \<Rightarrow> nat list" where
  "utf8 s =
     concat (map (\<lambda>c. let b = of_char c :: nat in if b < 128 then [b] else [192 + b div 64, 128 + b mod 64]) s)"

section \<open>Passkeys\<close>

text \<open>
  \<open>@simplewebauthn/server\<close>: a registration yields the credential's id (a base64url text), its
  public key and its counter, or is not verified (\<open>None\<close>); an assertion yields the new counter.
  Either may throw.
\<close>

record webauthn =
  wa_register :: "json \<Rightarrow> string \<Rightarrow> string \<Rightarrow> string \<Rightarrow> (string \<times> nat list \<times> int) option result"
  wa_assert :: "json \<Rightarrow> string \<Rightarrow> string \<Rightarrow> string \<Rightarrow> string \<Rightarrow> nat list \<Rightarrow> int \<Rightarrow> int option result"

text \<open>The service's state: the database and the map of pending challenges.\<close>

record passkey_state =
  ps_world :: world
  challengeStore :: "string \<Rightarrow> string option"

definition getOrigin :: "env \<Rightarrow> string" where
  "getOrigin env = env_default env ''WEBAUTHN_ORIGIN'' ''http://localhost:3000''"

definition getRpId :: "env \<Rightarrow> string" where
  "getRpId env = env_default env ''WEBAUTHN_RP_ID'' ''localhost''"

definition createRegistrationOptions :: "env \<Rightarrow> string \<Rightarrow> uuid \<Rightarrow> passkey_state \<Rightarrow> string result \<times> passkey_state" where
  "createRegistrationOptions env challenge userId s =
     (case find_user env (\<lambda>u. u_id u = userId) (ps_world s) of
        None \<Rightarrow> (Inl (NotFound ''User not found''), s)
      | Some u \<Rightarrow>
          (Inr challenge, s\<lparr>challengeStore := (challengeStore s)(''register:'' @ u_id u \<mapsto> challenge)\<rparr>))"

definition response_member :: "string \<Rightarrow> json \<Rightarrow> json option" where
  "response_member k resp =
     (case js_get ''response'' (Some resp) of
        Some r \<Rightarrow> (case js_get k r of Some v \<Rightarrow> v | None \<Rightarrow> None)
      | None \<Rightarrow> None)"

definition new_credential :: "string \<Rightarrow> nat list \<Rightarrow> int \<Rightarrow> json \<Rightarrow> passkey_credential" where
  "new_credential cid pk counter resp =
     \<lparr>pc_id = base64 (utf8 cid), pc_publicKey = base64 pk, pc_counter = counter,
      pc_transports = (case response_member ''transports'' resp of
          Some (JArr ts) \<Rightarrow> concat (map (\<lambda>t. case t of JStr x \<Rightarrow> if x = [] then [] else [x] | _ \<Rightarrow> []) ts)
        | _ \<Rightarrow> []),
      pc_fmt = (case response_member ''fmt'' resp of Some (JStr f) \<Rightarrow> f | _ \<Rightarrow> ''none'')\<rparr>"

definition passkeys :: "user \<Rightarrow> passkey_credential list" where
  "passkeys u = (case u_passkeyCredentials u of Some cs \<Rightarrow> cs | None \<Rightarrow> [])"

definition verifyRegistrationResponse ::
  "env \<Rightarrow> webauthn \<Rightarrow> uuid \<Rightarrow> json \<Rightarrow> passkey_state \<Rightarrow> user_response result \<times> passkey_state" where
  "verifyRegistrationResponse env wa userId resp s =
     (if blank (challengeStore s (''register:'' @ userId))
      then (Inl (BadRequest ''No passkey registration challenge found''), s)
      else case find_user env (\<lambda>u. u_id u = userId) (ps_world s) of
        None \<Rightarrow> (Inl (NotFound ''User not found''), s)
      | Some u \<Rightarrow>
          (case wa_register wa resp (the (challengeStore s (''register:'' @ userId))) (getOrigin env) (getRpId env) of
             Inl e \<Rightarrow> (Inl e, s)
           | Inr None \<Rightarrow> (Inl (Unauthorized ''Passkey registration failed''), s)
           | Inr (Some (cid, pk, counter)) \<Rightarrow>
               let u' = u\<lparr>u_passkeyCredentials := Some (passkeys u @ [new_credential cid pk counter resp])\<rparr>
               in (case save_user u' (ps_world s) of
                     (Inl e, w) \<Rightarrow> (Inl e, s\<lparr>ps_world := w\<rparr>)
                   | (Inr _, w) \<Rightarrow>
                       (Inr (formatUserResponse u'),
                        s\<lparr>ps_world := w, challengeStore := (challengeStore s)(''register:'' @ u_id u := None)\<rparr>))))"

definition createAssertionOptions :: "env \<Rightarrow> string \<Rightarrow> string \<Rightarrow> passkey_state \<Rightarrow> (string \<times> string list) result \<times> passkey_state" where
  "createAssertionOptions env challenge mailbox s =
     (case find_user env (\<lambda>u. u_email u = mailbox) (ps_world s) of
        None \<Rightarrow> (Inl (NotFound ''User not found''), s)
      | Some u \<Rightarrow>
          if passkeys u = [] then (Inl (BadRequest ''No passkey registered for this account''), s)
          else (Inr (challenge, map pc_id (passkeys u)),
                s\<lparr>challengeStore := (challengeStore s)(''assert:'' @ mailbox \<mapsto> challenge)\<rparr>))"

text \<open>The first credential of the given id gets the new counter.\<close>

fun set_counter :: "string \<Rightarrow> int \<Rightarrow> passkey_credential list \<Rightarrow> passkey_credential list" where
  "set_counter cid n [] = []"
| "set_counter cid n (c # cs) = (if pc_id c = cid then c\<lparr>pc_counter := n\<rparr> # cs else c # set_counter cid n cs)"

definition verifyAssertionResponse ::
  "env \<Rightarrow> auth_env \<Rightarrow> webauthn \<Rightarrow> string \<Rightarrow> json \<Rightarrow> passkey_state \<Rightarrow> (user_response \<times> token_pair) result \<times> passkey_state" where
  "verifyAssertionResponse env ae wa mailbox resp s =
     (if blank (challengeStore s (''assert:'' @ mailbox))
      then (Inl (BadRequest ''No passkey assertion challenge found''), s)
      else case find_user env (\<lambda>u. u_email u = mailbox) (ps_world s) of
        None \<Rightarrow> (Inl (NotFound ''User not found''), s)
      | Some u \<Rightarrow>
          if passkeys u \<noteq> [] \<and> js_get ''id'' (Some resp) = None then (Inl (JsError ''Cannot read properties of null''), s)
          else (case find_one (\<lambda>c. js_get ''id'' (Some resp) = Some (Some (JStr (pc_id c)))) (passkeys u) of
                  None \<Rightarrow> (Inl (Unauthorized ''This passkey is not registered for this account''), s)
                | Some c \<Rightarrow>
                    (case wa_assert wa resp (the (challengeStore s (''assert:'' @ mailbox))) (getOrigin env) (getRpId env)
                            (pc_id c) (from_base64 (pc_publicKey c)) (pc_counter c) of
                       Inl e \<Rightarrow> (Inl e, s)
                     | Inr None \<Rightarrow> (Inl (Unauthorized ''Passkey assertion failed''), s)
                     | Inr (Some n) \<Rightarrow>
                         let u' = u\<lparr>u_passkeyCredentials := Some (set_counter (pc_id c) n (passkeys u))\<rparr>
                         in (case save_user u' (ps_world s) of
                               (Inl e, w) \<Rightarrow> (Inl e, s\<lparr>ps_world := w\<rparr>)
                             | (Inr _, w) \<Rightarrow>
                                 (map_sum id (\<lambda>tp. (formatUserResponse u', tp)) (generateTokens env ae u'),
                                  s\<lparr>ps_world := w, challengeStore := (challengeStore s)(''assert:'' @ mailbox := None)\<rparr>)))))"

section \<open>What SAML does to an account\<close>

lemma provision_existing:
  assumes "find_user env (\<lambda>u. u_email u = saml_email p) w = Some u" "saml_email p \<noteq> []"
    and "provision env random p w = (Inr (v, created), w')"
  shows "v = u\<lparr>u_role := STAFF\<rparr>" "\<not> created"
    "users w' = (if u_role u = STAFF then users w else save_row u_id (u\<lparr>u_role := STAFF\<rparr>) (users w))"
proof -
  have "u\<lparr>u_role := STAFF\<rparr> = u" if "u_role u = STAFF" using that by (cases u) simp
  then show "v = u\<lparr>u_role := STAFF\<rparr>" "\<not> created"
    "users w' = (if u_role u = STAFF then users w else save_row u_id (u\<lparr>u_role := STAFF\<rparr>) (users w))"
    using assms by (auto simp: provision_def Let_def then_do_def save_user_def split: if_splits)
qed

lemma active_admin_staff: "u_role u = STAFF \<Longrightarrow> \<not> active_admin env u"
  by (simp add: active_admin_def)

text \<open>
  SAML: a successful assertion gives an existing account the role of staff, whatever role
  it had: an administrator is demoted without the checks the account update makes. When the
  account was the last active administrator, none is left.
\<close>

theorem saml_demotes_admin:
  assumes "find_user env (\<lambda>u. u_email u = saml_email p) w = Some u" and "saml_email p \<noteq> []"
    and "uniq_keys u_id (users w)" and "active_admin env u"
    and "provision env random p w = (Inr (v, created), w')"
  shows "\<not> created \<and> u_role v = STAFF \<and> v \<in> set (users w') \<and>
    (\<forall>x. u_id x \<noteq> u_id u \<longrightarrow> (x \<in> set (users w') \<longleftrightarrow> x \<in> set (users w))) \<and>
    (remaining_admins env (u_id u) w = 0 \<longrightarrow> count_where (active_admin env) (users w') = 0)"
proof -
  note r = provision_existing [OF assms(1,2,5)]
  have u: "u \<in> set (users w)" "u_role u \<noteq> STAFF"
    using find_user_found [OF assms(1)] assms(4) by (auto simp: active_admin_def)
  then have rows: "users w' = save_row u_id v (users w)" using r by simp
  have i: "u_id v = u_id u" "u_role v = STAFF" using r(1) by simp_all
  have "count_where (active_admin env) (save_row u_id v (users w)) = count_where (\<lambda>x. u_id x \<noteq> u_id v \<and> active_admin env x) (users w)"
    using u(1) i active_admin_staff [of v env] by (intro count_where_save_row) auto
  then have "remaining_admins env (u_id u) w = 0 \<longrightarrow> count_where (active_admin env) (users w') = 0"
    using rows i(1) by (simp add: remaining_admins_count)
  then show ?thesis using r(2) rows i by (auto simp: save_row_self set_save_row)
qed

definition admin_profile :: saml_profile where
  "admin_profile = \<lparr>sp_nameID = Some ''Admin@nova '', sp_email = None, sp_firstName = None, sp_lastName = None\<rparr>"

theorem saml_demotes_admin_witness:
  "\<exists>v w. provision sample_env ''r'' admin_profile sample_world = (Inr (v, False), w) \<and> u_role v = STAFF \<and>
     count_where (active_admin sample_env) (users w) = 0"
proof -
  let ?p = "provision sample_env ''r'' admin_profile sample_world"
  have "map_option u_id (find_user sample_env (\<lambda>u. u_email u = saml_email admin_profile) sample_world) = Some ''admin''"
    by code_simp
  then obtain u where u: "find_user sample_env (\<lambda>u. u_email u = saml_email admin_profile) sample_world = Some u" "u_id u = ''admin''"
    by auto
  have "map_option (active_admin sample_env) (find_user sample_env (\<lambda>u. u_email u = saml_email admin_profile) sample_world) = Some True"
    by code_simp
  with u have a: "active_admin sample_env u" by simp
  have "is_ok (fst ?p)" by code_simp
  then obtain v c where p: "?p = (Inr (v, c), snd ?p)" by (auto simp: is_ok_iff prod_eq_iff)
  have m: "saml_email admin_profile \<noteq> []" and k: "uniq_keys u_id (users sample_world)" by code_simp+
  have "remaining_admins sample_env ''admin'' sample_world = 0" by code_simp
  with saml_demotes_admin [OF u(1) m k a p] u(2) p show ?thesis by auto
qed

text \<open>A new account is verified, of the staff role, and the only change.\<close>

lemma provision_new:
  assumes "find_user env (\<lambda>u. u_email u = saml_email p) w = None"
    and "provision env random p w = (Inr (v, created), w')"
  shows "created \<and> u_role v = STAFF \<and> u_isVerified v \<and> u_email v = saml_email p \<and> users w' = save_row u_id v (users w)"
  using assms by (auto simp: provision_def Let_def then_do_def insert_user_def save_user_def blank_user_def split: if_splits)

lemma provision_tokens: "provision env random p w = (r, w') \<Longrightarrow> tokens w' = tokens w"
  by (auto simp: provision_def Let_def then_do_def insert_user_def save_user_def split: if_splits option.splits)

lemma acs_redirect:
  assumes "acs env ae se body w = (Sso_redirect url cookies, w')" "uuid1 env \<notin> t_id ` set (tokens w)"
  shows "\<exists>access refresh t. cookies = setAuthCookies access (Some refresh) \<and>
    findByToken env refresh w' = Some t \<and> live t"
proof -
  have "run_saml env se body w \<noteq> (Inl (Sso_redirect url cookies), w')"
    by (auto simp: run_saml_def split: sum.splits option.splits prod.splits)
  then obtain u w1 and tp :: token_pair where a: "run_saml env se body w = (Inr u, w1)"
      "session_for env ae u w1 = (Inr tp, w')" "cookies = setAuthCookies (tp_accessToken tp) (Some (tp_refreshToken tp))"
    using assms(1) by (auto simp: acs_def mintAuthTokensForUser_def split: if_splits sum.splits prod.splits)
  then have "tokens w1 = tokens w"
    by (auto simp: run_saml_def split: sum.splits option.splits prod.splits if_splits dest: provision_tokens)
  then show ?thesis using session_stored(2) [OF a(2)] assms(2) a(3) by auto
qed

text \<open>
  Cookie sessions: a successful SAML login stores a session and answers with its two
  tokens in cookies and a redirect; but the guards read the Authorization header only, so a request
  without that header, whatever its cookies, reaches public routes only.
\<close>

theorem sso_session_unusable:
  assumes "acs env ae se body w = (Sso_redirect url cookies, w')"
    and "uuid1 env \<notin> t_id ` set (tokens w)"
    and "rq_headers req ''authorization'' = None" and "gate env' ge dh req w' = Admitted h u hub"
  shows "(\<exists>access refresh t. cookies = setAuthCookies access (Some refresh) \<and>
      findByToken env refresh w' = Some t \<and> live t) \<and>
    u = None \<and> (\<exists>r\<in>set all_routes. rt_public r \<and> rt_handler r = h)"
  using acs_redirect [OF assms(1,2)] cookies_do_not_authenticate [OF assms(3,4)] by blast

definition saml_env_vars :: env where
  "saml_env_vars = (auth_time 7 ''t1'')\<lparr>config := (\<lambda>k. if take 5 k = ''SAML_'' then Some ''x'' else None)\<rparr>"

definition sample_saml :: saml_env where
  "sample_saml = \<lparr>saml_validate = (\<lambda>_ _. Inr (Some admin_profile)), saml_random = ''r'', session_up = True\<rparr>"

definition home_request :: request where
  "home_request = sample_request ''GET'' [''health''] None"

theorem sso_session_unusable_witness:
  "\<exists>url cookies w u. acs saml_env_vars sample_auth sample_saml JNull sample_world = (Sso_redirect url cookies, w) \<and>
     gate gate_config sample_gate None home_request w = Admitted ''app.getHealth'' u None \<and> u = None"
proof -
  let ?a = "acs saml_env_vars sample_auth sample_saml JNull sample_world"
  have "case fst ?a of Sso_redirect _ _ \<Rightarrow> True | _ \<Rightarrow> False" by code_simp
  then obtain url cookies where a: "?a = (Sso_redirect url cookies, snd ?a)"
    by (cases "fst ?a") (auto simp: prod_eq_iff)
  have "gate gate_config sample_gate None home_request w = Admitted ''app.getHealth'' None None" for w
  proof -
    have "dispatch home_request = Some (public_route ''GET'' [Lit ''health''] ''app.getHealth'')" by code_simp
    then show ?thesis
      by (simp add: gate_def guards_def public_route_def jwt_guard_def csrf_guard_def roles_guard_def resolve_tenant_def
          content_type_passes_def home_request_def sample_request_def blank_def)
  qed
  note g = this [of "snd ?a"]
  have "uuid1 saml_env_vars \<notin> t_id ` set (tokens sample_world)" by (simp add: sample_world_def)
  moreover have "rq_headers home_request ''authorization'' = None" by (simp add: home_request_def sample_request_def)
  ultimately have "(None :: request_user option) = None" using sso_session_unusable [OF a _ _ g] by blast
  then show ?thesis using a g by blast
qed

section \<open>XML and Base64\<close>

text \<open>An escaped text has no markup of its own and decides the original.\<close>

lemma escapeXml_safe: "set (escapeXml s) \<inter> set ''<>'' = {} \<and> CHR 0x22 \<notin> set (escapeXml s) \<and> CHR 0x27 \<notin> set (escapeXml s)"
  by (induction s) (auto simp: escapeXml_def)

lemma b64_val_char: "n < 64 \<Longrightarrow> b64_val (b64_char n) = n"
  by (auto simp: b64_char_def b64_val_def is_upper_def is_lower_def is_digit_def Let_def)

lemma b64_char_no_pad: "b64_char n \<noteq> CHR ''=''"
proof
  assume "b64_char n = CHR ''=''"
  then have "of_char (b64_char n) = (61 :: nat)" by simp
  then show False by (auto simp: b64_char_def split: if_splits)
qed

text \<open>Key texts: reading back what was written gives the bytes.\<close>

lemma base64_roundtrip: "list_all (\<lambda>b. b < 256) bs \<Longrightarrow> from_base64 (base64 bs) = bs"
proof (induction bs rule: base64.induct)
  case (2 a)
  then have "a div 4 < 64" "a mod 4 * 16 < 64" by auto
  moreover have "a div 4 * 4 + a mod 4 * 16 div 16 = a" by simp
  ultimately show ?case by (simp add: b64_val_char)
next
  case (3 a b)
  then have l: "a div 4 < 64" "a mod 4 * 16 + b div 16 < 64" "b mod 16 * 4 < 64" by auto
  have "a div 4 * 4 + (a mod 4 * 16 + b div 16) div 16 = a" "(a mod 4 * 16 + b div 16) mod 16 * 16 + b mod 16 * 4 div 4 = b"
    using 3 by auto
  then show ?case using l by (simp add: b64_val_char b64_char_no_pad)
next
  case (4 a b c rest)
  then have l: "a div 4 < 64" "a mod 4 * 16 + b div 16 < 64" "b mod 16 * 4 + c div 64 < 64" "c mod 64 < 64" by auto
  have "a div 4 * 4 + (a mod 4 * 16 + b div 16) div 16 = a"
      "(a mod 4 * 16 + b div 16) mod 16 * 16 + (b mod 16 * 4 + c div 64) div 4 = b"
      "(b mod 16 * 4 + c div 64) mod 4 * 64 + c mod 64 = c"
    using 4 by auto
  then show ?case using 4 l by (simp add: b64_val_char b64_char_no_pad)
qed simp

lemma length_base64: "bs \<noteq> [] \<Longrightarrow> length bs < length (base64 bs)"
  by (induction bs rule: base64.induct) (auto split: if_splits, metis base64.simps(1) less_Suc_eq list.size(3) not_less_eq)

lemma length_utf8: "length s \<le> length (utf8 s)"
  by (induction s) (auto simp: utf8_def Let_def)

lemma base64_utf8_differs: "s \<noteq> [] \<Longrightarrow> base64 (utf8 s) \<noteq> s"
proof
  assume "s \<noteq> []" "base64 (utf8 s) = s"
  moreover from \<open>s \<noteq> []\<close> have "utf8 s \<noteq> []" using length_utf8 [of s] by auto
  ultimately show False using length_base64 [of "utf8 s"] length_utf8 [of s] by simp
qed


section \<open>Passkeys\<close>

lemma save_user_world: "save_user u w = (Inr x, w') \<Longrightarrow> users w' = save_row u_id u (users w) \<and> tokens w' = tokens w"
  by (auto simp: save_user_def split: if_splits)

lemma registration_Inr:
  assumes "verifyRegistrationResponse env wa k resp s = (Inr x, s')"
  obtains u cid pk counter where "find_user env (\<lambda>u. u_id u = k) (ps_world s) = Some u"
    "wa_register wa resp (the (challengeStore s (''register:'' @ k))) (getOrigin env) (getRpId env) = Inr (Some (cid, pk, counter))"
    "users (ps_world s') = save_row u_id (u\<lparr>u_passkeyCredentials := Some (passkeys u @ [new_credential cid pk counter resp])\<rparr>) (users (ps_world s))"
    "challengeStore s' = (challengeStore s)(''register:'' @ k := None)" "\<not> blank (challengeStore s (''register:'' @ k))"
  using assms
  by (auto simp: verifyRegistrationResponse_def Let_def dest!: save_user_world dest: find_user_found
      split: if_splits option.splits sum.splits prod.splits)

lemma assertion_Inr:
  assumes "verifyAssertionResponse env ae wa mailbox resp s = (Inr x, s')"
  obtains u c where "find_user env (\<lambda>u. u_email u = mailbox) (ps_world s) = Some u" "c \<in> set (passkeys u)"
    "js_get ''id'' (Some resp) = Some (Some (JStr (pc_id c)))" "\<not> blank (challengeStore s (''assert:'' @ mailbox))"
    "challengeStore s' = (challengeStore s)(''assert:'' @ mailbox := None)" "tokens (ps_world s') = tokens (ps_world s)"
  using assms
  by (auto simp: verifyAssertionResponse_def Let_def dest!: find_one_SomeD dest: save_user_world
      split: if_splits option.splits sum.splits prod.splits)

text \<open>
  Passkeys: a registered passkey never signs in. The service stores the Base64 of the
  text of the credential's id, which already is base64url, and compares an assertion's id with
  that; the two differ for every id, so the assertion of a user's only passkey, made with the id the
  authenticator gave it, is refused as not registered.
\<close>

theorem passkey_never_matches:
  assumes "verifyRegistrationResponse env wa k resp s = (Inr x, s')"
    and "find_user env (\<lambda>u. u_id u = k) (ps_world s) = Some v" and "passkeys v = []"
    and "wa_register wa resp (the (challengeStore s (''register:'' @ k))) (getOrigin env) (getRpId env) = Inr (Some (cid, pk, n))"
    and "cid \<noteq> []" and "uniq_keys u_id (users (ps_world s))"
    and "find_user env' (\<lambda>u. u_email u = mailbox) (ps_world s') = Some u" and "u_id u = k"
    and "js_get ''id'' (Some assertion) = Some (Some (JStr cid))"
    and "challenge \<noteq> []"
  shows "verifyAssertionResponse env' ae wa' mailbox assertion
      (s'\<lparr>challengeStore := (challengeStore s')(''assert:'' @ mailbox \<mapsto> challenge)\<rparr>) =
    (Inl (Unauthorized ''This passkey is not registered for this account''),
     s'\<lparr>challengeStore := (challengeStore s')(''assert:'' @ mailbox \<mapsto> challenge)\<rparr>)"
proof -
  let ?v = "v\<lparr>u_passkeyCredentials := Some (passkeys v @ [new_credential cid pk n resp])\<rparr>"
  have rows: "users (ps_world s') = save_row u_id ?v (users (ps_world s))"
    by (rule registration_Inr [OF assms(1)]) (use assms(2,4) in auto)
  have k: "u_id v = k" using find_user_found [OF assms(2)] by simp
  have "u \<in> set (users (ps_world s'))" using find_user_found [OF assms(7)] by simp
  then have "u = ?v" using set_save_rowD [of u u_id ?v "users (ps_world s)"] assms(8) k rows by auto
  then have c: "passkeys u = [new_credential cid pk n resp]" using assms(3) by (simp add: passkeys_def)
  have "find_one (\<lambda>c. js_get ''id'' (Some assertion) = Some (Some (JStr (pc_id c)))) (passkeys u) = None"
    using base64_utf8_differs [OF assms(5)] by (auto simp: c assms(9) new_credential_def find_one_None_iff)
  then show ?thesis
    using assms(7,9,10) by (simp add: verifyAssertionResponse_def blank_def)
qed

definition sample_webauthn :: webauthn where
  "sample_webauthn = \<lparr>wa_register = (\<lambda>_ _ _ _. Inr (Some (''key'', [1, 2, 3], 0))), wa_assert = (\<lambda>_ _ _ _ _ _ n. Inr (Some (n + 1)))\<rparr>"

definition sample_passkeys :: passkey_state where
  "sample_passkeys =
     snd (createRegistrationOptions sample_env ''challenge'' ''ada'' \<lparr>ps_world = sample_world, challengeStore = (\<lambda>_. None)\<rparr>)"

definition sample_registered_key :: passkey_state where
  "sample_registered_key = snd (verifyRegistrationResponse sample_env sample_webauthn ''ada'' JNull sample_passkeys)"

definition key_assertion :: json where
  "key_assertion = JObj [(''id'', JStr ''key'')]"

lemma sample_registration:
  "verifyRegistrationResponse sample_env sample_webauthn ''ada'' JNull sample_passkeys =
     (Inr (formatUserResponse sample_ada), sample_registered_key)"
  unfolding sample_registered_key_def by (rule prod_eqI) (code_simp, simp)

theorem passkey_never_matches_witness:
  "fst (verifyAssertionResponse sample_env sample_auth sample_webauthn ''ada@nova'' key_assertion
     (sample_registered_key\<lparr>challengeStore := (challengeStore sample_registered_key)(''assert:'' @ ''ada@nova'' \<mapsto> ''c'')\<rparr>)) =
     Inl (Unauthorized ''This passkey is not registered for this account'')"
proof -
  have "map_option u_id (find_user sample_env (\<lambda>u. u_email u = ''ada@nova'') (ps_world sample_registered_key)) = Some ''ada''"
    by code_simp
  then obtain u where u: "find_user sample_env (\<lambda>u. u_email u = ''ada@nova'') (ps_world sample_registered_key) = Some u" "u_id u = ''ada''"
    by auto
  have v: "find_user sample_env (\<lambda>u. u_id u = ''ada'') (ps_world sample_passkeys) = Some sample_ada"
    by code_simp
  have n: "passkeys sample_ada = []" "''key'' \<noteq> []" "''c'' \<noteq> []" "js_get ''id'' (Some key_assertion) = Some (Some (JStr ''key''))"
    by (simp_all add: passkeys_def sample_ada_def sample_user_def key_assertion_def js_get_def)
  have q: "uniq_keys u_id (users (ps_world sample_passkeys))" by code_simp
  have r: "wa_register sample_webauthn JNull (the (challengeStore sample_passkeys (''register:'' @ ''ada''))) (getOrigin sample_env)
      (getRpId sample_env) = Inr (Some (''key'', [1, 2, 3], 0))"
    by (simp add: sample_webauthn_def)
  show ?thesis
    using passkey_never_matches [OF sample_registration v n(1) r n(2) q u n(4,3)] by simp
qed

text \<open>
  Challenges: an accepted assertion uses its challenge up, so repeating it is refused
  until new options are asked for; and the session it opens has no stored refresh token, so it
  cannot be refreshed.
\<close>

theorem passkey_challenge_spent:
  assumes "verifyAssertionResponse env ae wa mailbox resp s = (Inr (r, tp), s')"
    and "findByToken env (tp_refreshToken tp) (ps_world s) = None"
  shows "verifyAssertionResponse env' ae' wa' mailbox resp' s' = (Inl (BadRequest ''No passkey assertion challenge found''), s') \<and>
    (\<exists>e. refreshToken env ae (tp_refreshToken tp) (ps_world s') = (Inl e, ps_world s'))"
proof
  obtain u c where a: "challengeStore s' = (challengeStore s)(''assert:'' @ mailbox := None)"
      "tokens (ps_world s') = tokens (ps_world s)"
    by (rule assertion_Inr [OF assms(1)]) blast
  show "verifyAssertionResponse env' ae' wa' mailbox resp' s' = (Inl (BadRequest ''No passkey assertion challenge found''), s')"
    by (simp add: verifyAssertionResponse_def a(1) blank_def)
  have "findByToken env (tp_refreshToken tp) (ps_world s') = None" using assms(2) a(2) by (simp add: findByToken_def)
  then show "\<exists>e. refreshToken env ae (tp_refreshToken tp) (ps_world s') = (Inl e, ps_world s')"
    by (rule refreshToken_unknown)
qed

text \<open>Asking for assertion options is open to everyone and replaces the challenge of a login under way.\<close>

lemma assertion_challenge_replaced:
  assumes "createAssertionOptions env challenge mailbox s = (Inr x, s')"
  shows "challengeStore s' (''assert:'' @ mailbox) = Some challenge \<and> ps_world s' = ps_world s"
  using assms by (auto simp: createAssertionOptions_def split: option.splits if_splits)

end
