(* ===== verification/Mail_Queue.thy ===== *)
theory Mail_Queue
  imports Sign_On "HOL-Library.Multiset"
begin

text \<open>
  Mails (\<open>email/email.service.ts\<close>, \<open>email.processor.ts\<close>): templates compiled at start-up, one
  function per mail that renders it and puts a job on the durable queue, and the queue's worker with
  its retries and dead letters. Also the contact form (\<open>contact/\<close>), which sends two of them.

  Handlebars, Redis and the SMTP server are parameters; the worker's rule (a failed job is counted and
  runs again until its attempts are used up) is Bull's documented one. The dash in some subjects is
  written as a hyphen, for it is no code unit below 256.
\<close>

section \<open>Jobs\<close>

record email_attachment =
  ea_filename :: string
  ea_contentBase64 :: string
  ea_contentType :: string

record email_job_payload =
  ep_to :: "string option"
  ep_subject :: string
  ep_html :: string
  ep_attachments :: "email_attachment list option"

definition EMAIL_RETRY_ATTEMPTS :: nat where
  "EMAIL_RETRY_ATTEMPTS = 5"

definition EMAIL_RETRY_BACKOFF_DELAY_MS :: nat where
  "EMAIL_RETRY_BACKOFF_DELAY_MS = 15000"

record email_job =
  j_id :: nat
  j_name :: string
  j_data :: email_job_payload
  j_attempts :: "nat option"
  j_backoff :: nat
  j_attemptsMade :: nat

record dead_letter =
  dl_name :: string
  dl_payload :: email_job_payload
  dl_error :: exn
  dl_failedAt :: instant
  dl_originalJobId :: nat

datatype mail_metric =
    EmailEnqueued string
  | EmailEnqueueFailure string
  | EmailDeadLettered string

text \<open>
  The queue: jobs waiting or delayed, jobs done, jobs failed for good, the dead letters and the
  counters. \<open>removeOnComplete\<close> drops old completed jobs from Redis, not from \<open>mq_done\<close>.
\<close>

record mail_state =
  mq_jobs :: "email_job list"
  mq_done :: "email_job list"
  mq_failed :: "email_job list"
  mq_dead :: "dead_letter list"
  mq_next :: nat
  mq_metrics :: "mail_metric list"

section \<open>Templates\<close>

type_synonym templates = "string \<rightharpoonup> (json \<Rightarrow> string)"

definition REQUIRED_TEMPLATES :: "string list" where
  "REQUIRED_TEMPLATES =
     [''verification-otp'', ''verification-link'', ''password-reset-otp'', ''password-reset-link'',
      ''password-reset-success'', ''booking-created'', ''booking-cancelled'', ''payment-success'',
      ''payment-failed'', ''invoice-ready'', ''contact-confirmation'', ''contact-notification'',
      ''newsletter-confirmation'', ''newsletter-confirmed'', ''newsletter-unsubscribed'',
      ''refresh-family-revoked'']"

text \<open>The template of a file of the directory, if it is one.\<close>

definition template_name :: "string \<Rightarrow> string option" where
  "template_name file =
     (if is_prefix (rev ''.hbs'') (rev file) then Some (take (length file - 4) file) else None)"

definition compile_all :: "(string \<Rightarrow> json \<Rightarrow> string) \<Rightarrow> (string \<times> string) list \<Rightarrow> templates" where
  "compile_all compile files =
     fold (\<lambda>(file, source) m. case template_name file of None \<Rightarrow> m | Some name \<Rightarrow> m(name \<mapsto> compile source)) files Map.empty"

definition onModuleInit :: "(string \<Rightarrow> json \<Rightarrow> string) \<Rightarrow> (string \<times> string) list \<Rightarrow> templates result" where
  "onModuleInit compile files =
     (let ts = compile_all compile files; missing = filter (\<lambda>name. ts name = None) REQUIRED_TEMPLATES
      in if missing \<noteq> [] then Inl (JsError ''Missing required email templates'') else Inr ts)"

definition render :: "templates \<Rightarrow> string \<Rightarrow> json \<Rightarrow> string result" where
  "render ts name ctx = (case ts name of None \<Rightarrow> Inl (JsError ''Unknown email template'') | Some t \<Rightarrow> Inr (t ctx))"

section \<open>Putting a mail on the queue\<close>

text \<open>The mailer's surroundings: the settings, its templates and whether Redis takes a job.\<close>

record mail_env =
  me_env :: env
  me_templates :: templates
  me_redis :: bool

definition count_metric :: "mail_metric \<Rightarrow> mail_state \<Rightarrow> mail_state" where
  "count_metric m s = s\<lparr>mq_metrics := mq_metrics s @ [m]\<rparr>"

definition enqueueCritical :: "mail_env \<Rightarrow> string \<Rightarrow> email_job_payload \<Rightarrow> mail_state \<Rightarrow> bool result \<times> mail_state" where
  "enqueueCritical me kind payload s =
     (if me_redis me
      then (Inr True,
            count_metric (EmailEnqueued kind)
              (s\<lparr>mq_jobs := mq_jobs s @
                   [\<lparr>j_id = mq_next s, j_name = kind, j_data = payload, j_attempts = Some EMAIL_RETRY_ATTEMPTS,
                     j_backoff = EMAIL_RETRY_BACKOFF_DELAY_MS, j_attemptsMade = 0\<rparr>],
                 mq_next := mq_next s + 1\<rparr>))
      else (Inl (ServiceUnavailable ''Email delivery is temporarily unavailable''),
            count_metric (EmailEnqueueFailure kind) s))"

definition enqueueBestEffort :: "mail_env \<Rightarrow> string \<Rightarrow> email_job_payload \<Rightarrow> mail_state \<Rightarrow> bool result \<times> mail_state" where
  "enqueueBestEffort me kind payload s =
     (case enqueueCritical me kind payload s of (Inl _, s') \<Rightarrow> (Inr False, s') | (Inr b, s') \<Rightarrow> (Inr b, s'))"

definition mail_attachment :: "string \<Rightarrow> nat list \<Rightarrow> string \<Rightarrow> email_attachment" where
  "mail_attachment filename content contentType =
     \<lparr>ea_filename = filename, ea_contentBase64 = base64 content, ea_contentType = contentType\<rparr>"

definition mail_to :: "string option \<Rightarrow> string \<Rightarrow> string \<Rightarrow> email_job_payload" where
  "mail_to recipient subject html = \<lparr>ep_to = recipient, ep_subject = subject, ep_html = html, ep_attachments = None\<rparr>"

definition with_html ::
  "mail_env \<Rightarrow> string \<Rightarrow> (string \<times> json) list \<Rightarrow> (string \<Rightarrow> mail_state \<Rightarrow> bool result \<times> mail_state) \<Rightarrow>
   mail_state \<Rightarrow> bool result \<times> mail_state" where
  "with_html me name ctx k s =
     (case render (me_templates me) name (JObj ctx) of Inl e \<Rightarrow> (Inl e, s) | Inr html \<Rightarrow> k html s)"

section \<open>The mails\<close>

text \<open>Critical ones: the caller fails when the job cannot be queued.\<close>

definition sendVerificationEmail :: "mail_env \<Rightarrow> string \<Rightarrow> string \<Rightarrow> string \<Rightarrow> mail_state \<Rightarrow> bool result \<times> mail_state" where
  "sendVerificationEmail me mailbox otp name =
     with_html me ''verification-otp'' [(''otp'', JStr otp), (''fullName'', JStr name)] (\<lambda>html.
       enqueueCritical me ''verification-otp'' (mail_to (Some mailbox) ''Verify Your Email'' html))"

definition sendPasswordResetEmail :: "mail_env \<Rightarrow> string \<Rightarrow> string \<Rightarrow> string \<Rightarrow> mail_state \<Rightarrow> bool result \<times> mail_state" where
  "sendPasswordResetEmail me mailbox otp name =
     with_html me ''password-reset-otp'' [(''otp'', JStr otp), (''fullName'', JStr name)] (\<lambda>html.
       enqueueCritical me ''password-reset-otp'' (mail_to (Some mailbox) ''Password Reset Code'' html))"

definition sendVerificationLinkEmail :: "mail_env \<Rightarrow> string \<Rightarrow> string \<Rightarrow> string \<Rightarrow> mail_state \<Rightarrow> bool result \<times> mail_state" where
  "sendVerificationLinkEmail me mailbox token name =
     (let verifyUrl = env_default (me_env me) ''FRONTEND_URL'' [] @ ''/verify-email?token='' @ encodeURIComponent token
      in with_html me ''verification-link'' [(''fullName'', JStr name), (''verifyUrl'', JStr verifyUrl)] (\<lambda>html.
           enqueueCritical me ''verification-link'' (mail_to (Some mailbox) ''Verify Your Email'' html)))"

definition sendPasswordResetLinkEmail :: "mail_env \<Rightarrow> string \<Rightarrow> string \<Rightarrow> string \<Rightarrow> mail_state \<Rightarrow> bool result \<times> mail_state" where
  "sendPasswordResetLinkEmail me mailbox name resetLink =
     with_html me ''password-reset-link'' [(''fullName'', JStr name), (''resetLink'', JStr resetLink)] (\<lambda>html.
       enqueueCritical me ''password-reset-link'' (mail_to (Some mailbox) ''Reset Your Password'' html))"

text \<open>The others answer whether they were queued.\<close>

definition sendPasswordResetSuccessEmail :: "mail_env \<Rightarrow> string \<Rightarrow> string \<Rightarrow> mail_state \<Rightarrow> bool result \<times> mail_state" where
  "sendPasswordResetSuccessEmail me mailbox name =
     with_html me ''password-reset-success'' [(''fullName'', JStr name)] (\<lambda>html.
       enqueueBestEffort me ''password-reset-success'' (mail_to (Some mailbox) ''Password Reset Successful'' html))"

definition sendTemplateEmail ::
  "mail_env \<Rightarrow> string \<Rightarrow> string \<Rightarrow> string \<Rightarrow> (string \<times> json) list \<Rightarrow> mail_state \<Rightarrow> bool result \<times> mail_state" where
  "sendTemplateEmail me mailbox subject templateName placeholders =
     with_html me templateName placeholders (\<lambda>html.
       enqueueBestEffort me templateName (mail_to (Some mailbox) subject html))"

definition sendContactConfirmation :: "mail_env \<Rightarrow> string \<Rightarrow> string \<Rightarrow> string \<Rightarrow> mail_state \<Rightarrow> bool result \<times> mail_state" where
  "sendContactConfirmation me mailbox name subject =
     with_html me ''contact-confirmation'' [(''fullName'', JStr name), (''subject'', JStr subject)] (\<lambda>html.
       enqueueBestEffort me ''contact-confirmation'' (mail_to (Some mailbox) ''We received your message'' html))"

definition sendContactNotification ::
  "mail_env \<Rightarrow> string \<Rightarrow> string \<Rightarrow> string \<Rightarrow> string \<Rightarrow> mail_state \<Rightarrow> bool result \<times> mail_state" where
  "sendContactNotification me name mailbox subject message =
     (let admin = config (me_env me) ''ADMIN_EMAIL'';
          recipient = (if blank admin then config (me_env me) ''EMAIL_FROM'' else admin)
      in with_html me ''contact-notification''
           [(''fullName'', JStr name), (''email'', JStr mailbox), (''subject'', JStr subject), (''message'', JStr message)]
           (\<lambda>html. enqueueBestEffort me ''contact-notification'' (mail_to recipient (''New Contact: '' @ subject) html)))"

definition sendBookingCreatedEmail ::
  "mail_env \<Rightarrow> string \<Rightarrow> string \<Rightarrow> (string \<times> json) list \<Rightarrow> mail_state \<Rightarrow> bool result \<times> mail_state" where
  "sendBookingCreatedEmail me mailbox name details =
     with_html me ''booking-created'' ((''fullName'', JStr name) # details) (\<lambda>html.
       enqueueBestEffort me ''booking-created'' (mail_to (Some mailbox) ''Booking Created - NovaLabs'' html))"

definition sendPaymentSuccessEmail ::
  "mail_env \<Rightarrow> string \<Rightarrow> string \<Rightarrow> (string \<times> json) list \<Rightarrow> mail_state \<Rightarrow> bool result \<times> mail_state" where
  "sendPaymentSuccessEmail me mailbox name details =
     with_html me ''payment-success'' ((''fullName'', JStr name) # details) (\<lambda>html.
       enqueueBestEffort me ''payment-success'' (mail_to (Some mailbox) ''Payment Successful - NovaLabs'' html))"

definition sendPaymentFailedEmail ::
  "mail_env \<Rightarrow> string \<Rightarrow> string \<Rightarrow> (string \<times> json) list \<Rightarrow> mail_state \<Rightarrow> bool result \<times> mail_state" where
  "sendPaymentFailedEmail me mailbox name details =
     with_html me ''payment-failed'' ((''fullName'', JStr name) # details) (\<lambda>html.
       enqueueBestEffort me ''payment-failed'' (mail_to (Some mailbox) ''Payment Failed - NovaLabs'' html))"

definition sendBookingCancelledEmail ::
  "mail_env \<Rightarrow> string \<Rightarrow> string \<Rightarrow> (string \<times> json) list \<Rightarrow> mail_state \<Rightarrow> bool result \<times> mail_state" where
  "sendBookingCancelledEmail me mailbox name details =
     with_html me ''booking-cancelled'' ((''fullName'', JStr name) # details) (\<lambda>html.
       enqueueBestEffort me ''booking-cancelled'' (mail_to (Some mailbox) ''Booking Cancelled - NovaLabs'' html))"

definition sendInvoiceReadyEmail ::
  "mail_env \<Rightarrow> string \<Rightarrow> string \<Rightarrow> string \<Rightarrow> string \<Rightarrow> string \<Rightarrow> nat list \<Rightarrow> mail_state \<Rightarrow> bool result \<times> mail_state" where
  "sendInvoiceReadyEmail me mailbox name invoiceNumber amountNaira paidAt pdf =
     with_html me ''invoice-ready''
       [(''fullName'', JStr name), (''invoiceNumber'', JStr invoiceNumber), (''amountNaira'', JStr amountNaira), (''paidAt'', JStr paidAt)]
       (\<lambda>html. enqueueBestEffort me ''invoice-ready''
          \<lparr>ep_to = Some mailbox, ep_subject = ''Invoice '' @ invoiceNumber @ '' - NovaLabs'', ep_html = html,
           ep_attachments = Some [mail_attachment (invoiceNumber @ ''.pdf'') pdf ''application/pdf'']\<rparr>)"

definition sendRefreshTokenFamilyRevokedEmail :: "mail_env \<Rightarrow> string \<Rightarrow> string \<Rightarrow> mail_state \<Rightarrow> bool result \<times> mail_state" where
  "sendRefreshTokenFamilyRevokedEmail me mailbox name =
     with_html me ''refresh-family-revoked''
       [(''fullName'', JStr name), (''year'', JNum (nat_str (nat (year_of (now (me_env me) div ms_per_day + 719528)))))]
       (\<lambda>html. enqueueBestEffort me ''refresh-family-revoked'' (mail_to (Some mailbox) ''Your Session Was Revoked - NovaLabs'' html))"

section \<open>The worker\<close>

record smtp_message =
  sm_from :: "string option"
  sm_to :: "string option"
  sm_subject :: string
  sm_html :: string
  sm_attachments :: "(string \<times> nat list \<times> string) list option"

definition deliver :: "mail_env \<Rightarrow> (smtp_message \<Rightarrow> unit result) \<Rightarrow> email_job_payload \<Rightarrow> unit result" where
  "deliver me smtp payload =
     smtp \<lparr>sm_from = config (me_env me) ''EMAIL_FROM'', sm_to = ep_to payload, sm_subject = ep_subject payload,
           sm_html = ep_html payload,
           sm_attachments = map_option
             (map (\<lambda>a. (ea_filename a, from_base64 (ea_contentBase64 a), ea_contentType a))) (ep_attachments payload)\<rparr>"

definition attempts_of :: "email_job \<Rightarrow> nat" where
  "attempts_of job = (case j_attempts job of Some n \<Rightarrow> n | None \<Rightarrow> 1)"

text \<open>The handler of a failed attempt; \<open>dlq\<close>: Redis takes the dead letter.\<close>

definition handleFailure :: "mail_env \<Rightarrow> bool \<Rightarrow> email_job \<Rightarrow> exn \<Rightarrow> mail_state \<Rightarrow> unit result \<times> mail_state" where
  "handleFailure me dlq job err s =
     (if \<not> attempts_of job \<le> j_attemptsMade job then (Inr (), s)
      else if \<not> dlq then (Inl (JsError ''Connection is closed.''), s)
      else (Inr (),
            count_metric (EmailDeadLettered (j_name job))
              (s\<lparr>mq_dead := mq_dead s @
                   [\<lparr>dl_name = j_name job, dl_payload = j_data job, dl_error = err, dl_failedAt = now (me_env me),
                     dl_originalJobId = j_id job\<rparr>]\<rparr>)))"

text \<open>One run of a waiting job.\<close>

definition run_job :: "mail_env \<Rightarrow> (smtp_message \<Rightarrow> unit result) \<Rightarrow> bool \<Rightarrow> email_job \<Rightarrow> mail_state \<Rightarrow> mail_state" where
  "run_job me smtp dlq job s =
     (let s = s\<lparr>mq_jobs := remove1 job (mq_jobs s)\<rparr>
      in case deliver me smtp (j_data job) of
           Inr _ \<Rightarrow> s\<lparr>mq_done := mq_done s @ [job]\<rparr>
         | Inl err \<Rightarrow>
             (let job = job\<lparr>j_attemptsMade := j_attemptsMade job + 1\<rparr>;
                  s = (if j_attemptsMade job < attempts_of job then s\<lparr>mq_jobs := mq_jobs s @ [job]\<rparr>
                       else s\<lparr>mq_failed := mq_failed s @ [job]\<rparr>)
              in snd (handleFailure me dlq job err s)))"

section \<open>The contact form\<close>

text \<open>
  \<open>@SanitizeString\<close>: trim, drop control characters, drop script tags (one pass of the regular
  expression), collapse white space. \<open>script_tag\<close> gives what follows a tag that starts after a \<open><\<close>.
\<close>

definition script_tag :: "string \<Rightarrow> string option" where
  "script_tag s =
     (let s1 = dropWhile is_space s;
          s2 = (case s1 of c # r \<Rightarrow> if c = CHR ''/'' then r else s1 | [] \<Rightarrow> s1);
          s3 = dropWhile is_space s2
      in if to_lower (take 6 s3) = ''script''
         then (case dropWhile (\<lambda>c. c \<noteq> CHR ''>'') (drop 6 s3) of [] \<Rightarrow> None | _ # rest \<Rightarrow> Some rest)
         else None)"

lemma script_tag_shorter: "script_tag s = Some rest \<Longrightarrow> length rest < length s"
proof -
  assume a: "script_tag s = Some rest"
  define s1 where "s1 = dropWhile is_space s"
  define s2 where "s2 = (case s1 of c # r \<Rightarrow> if c = CHR ''/'' then r else s1 | [] \<Rightarrow> s1)"
  define s3 where "s3 = dropWhile is_space s2"
  have "length s3 \<le> length s2" "length s2 \<le> length s1" "length s1 \<le> length s"
    by (auto simp: s1_def s2_def s3_def length_dropWhile_le split: list.splits)
  moreover have "script_tag s =
      (if to_lower (take 6 s3) = ''script''
       then (case dropWhile (\<lambda>c. c \<noteq> CHR ''>'') (drop 6 s3) of [] \<Rightarrow> None | _ # rest \<Rightarrow> Some rest) else None)"
    unfolding script_tag_def Let_def s1_def s2_def s3_def by (rule refl)
  with a have "Suc (length rest) \<le> length (dropWhile (\<lambda>c. c \<noteq> CHR ''>'') (drop 6 s3))"
    by (auto split: if_splits list.splits)
  moreover have "length (dropWhile (\<lambda>c. c \<noteq> CHR ''>'') (drop 6 s3)) \<le> length s3"
    using length_dropWhile_le [of "\<lambda>c. c \<noteq> CHR ''>''" "drop 6 s3"] by simp
  ultimately show ?thesis by linarith
qed

function strip_scripts :: "string \<Rightarrow> string" where
  "strip_scripts [] = []"
| "strip_scripts (c # s) =
     (if c = CHR ''<'' then (case script_tag s of Some rest \<Rightarrow> strip_scripts rest | None \<Rightarrow> c # strip_scripts s)
      else c # strip_scripts s)"
  by pat_completeness auto
termination
  by (relation "measure length") (auto dest: script_tag_shorter)

function collapse_spaces :: "string \<Rightarrow> string" where
  "collapse_spaces [] = []"
| "collapse_spaces (c # s) =
     (if is_space c \<and> s \<noteq> [] \<and> is_space (hd s) then CHR '' '' # collapse_spaces (dropWhile is_space s)
      else c # collapse_spaces s)"
  by pat_completeness auto
termination
  by (relation "measure length") (auto simp: length_dropWhile_le le_imp_less_Suc)

definition is_control :: "char \<Rightarrow> bool" where
  "is_control c \<longleftrightarrow> (of_char c :: nat) < 32 \<or> (of_char c :: nat) = 127"

definition SanitizeString :: "string \<Rightarrow> string" where
  "SanitizeString s = collapse_spaces (strip_scripts (filter (\<lambda>c. \<not> is_control c) (trim s)))"

record submit_contact_dto =
  sc_fullName :: string
  sc_email :: string
  sc_phone :: "string option"
  sc_company :: "string option"
  sc_subject :: string
  sc_message :: string

definition sanitize_contact :: "submit_contact_dto \<Rightarrow> submit_contact_dto" where
  "sanitize_contact dto =
     \<lparr>sc_fullName = SanitizeString (sc_fullName dto), sc_email = SanitizeString (sc_email dto),
      sc_phone = map_option SanitizeString (sc_phone dto), sc_company = map_option SanitizeString (sc_company dto),
      sc_subject = SanitizeString (sc_subject dto), sc_message = SanitizeString (sc_message dto)\<rparr>"

text \<open>\<open>isEmail\<close> is the validator library's.\<close>

definition contact_valid :: "(string \<Rightarrow> bool) \<Rightarrow> submit_contact_dto \<Rightarrow> bool" where
  "contact_valid isEmail dto \<longleftrightarrow>
     sc_fullName dto \<noteq> [] \<and> length (sc_fullName dto) \<le> 100 \<and>
     sc_email dto \<noteq> [] \<and> length (sc_email dto) \<le> 254 \<and> isEmail (sc_email dto) \<and>
     (\<forall>p\<in>set_option (sc_phone dto). length p \<le> 20) \<and> (\<forall>p\<in>set_option (sc_company dto). length p \<le> 150) \<and>
     sc_subject dto \<noteq> [] \<and> length (sc_subject dto) \<le> 200 \<and>
     10 \<le> length (sc_message dto) \<and> length (sc_message dto) \<le> 5000"

record contact_message =
  cm_id :: uuid
  cm_fullName :: string
  cm_email :: string
  cm_phone :: "string option"
  cm_company :: "string option"
  cm_subject :: string
  cm_message :: string
  cm_ipAddress :: "string option"
  cm_isRead :: bool
  cm_createdAt :: instant

definition getClientIp :: "request \<Rightarrow> string option" where
  "getClientIp req =
     (case rq_headers req ''x-forwarded-for'' of
        Some xff \<Rightarrow> if xff \<noteq> [] then Some (trim (hd (split_on (CHR '','') xff))) else rq_ip req
      | None \<Rightarrow> rq_ip req)"

definition new_contact_message :: "env \<Rightarrow> submit_contact_dto \<Rightarrow> string option \<Rightarrow> contact_message" where
  "new_contact_message env dto ip =
     \<lparr>cm_id = uuid1 env, cm_fullName = sc_fullName dto, cm_email = sc_email dto, cm_phone = sc_phone dto,
      cm_company = sc_company dto, cm_subject = sc_subject dto, cm_message = sc_message dto,
      cm_ipAddress = (if blank ip then None else ip), cm_isRead = False, cm_createdAt = now env\<rparr>"

text \<open>The columns' lengths, which the database enforces.\<close>

definition fits_columns :: "contact_message \<Rightarrow> bool" where
  "fits_columns m \<longleftrightarrow>
     length (cm_fullName m) \<le> 100 \<and> length (cm_email m) \<le> 254 \<and> (\<forall>p\<in>set_option (cm_phone m). length p \<le> 20) \<and>
     (\<forall>p\<in>set_option (cm_company m). length p \<le> 150) \<and> length (cm_subject m) \<le> 200 \<and>
     (\<forall>p\<in>set_option (cm_ipAddress m). length p \<le> 64)"

definition contact_submit ::
  "mail_env \<Rightarrow> submit_contact_dto \<Rightarrow> string option \<Rightarrow> contact_message list \<times> mail_state \<Rightarrow>
   string result \<times> contact_message list \<times> mail_state" where
  "contact_submit me dto ip = (\<lambda>(rows, s).
     let m = new_contact_message (me_env me) dto ip
     in if \<not> fits_columns m then (Inl (DbError ''value too long for type character varying''), rows, s)
        else let rows = save_row cm_id m rows
             in case sendContactConfirmation me (sc_email dto) (sc_fullName dto) (sc_subject dto) s of
                  (Inl e, s) \<Rightarrow> (Inl e, rows, s)
                | (Inr _, s) \<Rightarrow>
                    (case sendContactNotification me (sc_fullName dto) (sc_email dto) (sc_subject dto) (sc_message dto) s of
                       (Inl e, s) \<Rightarrow> (Inl e, rows, s)
                     | (Inr _, s) \<Rightarrow> (Inr ''Your message has been sent successfully.'', rows, s)))"

text \<open>The route: the transformer, the validator, the handler.\<close>

definition post_contact ::
  "mail_env \<Rightarrow> (string \<Rightarrow> bool) \<Rightarrow> submit_contact_dto \<Rightarrow> request \<Rightarrow> contact_message list \<times> mail_state \<Rightarrow>
   string result \<times> contact_message list \<times> mail_state" where
  "post_contact me isEmail dto req st =
     (let dto = sanitize_contact dto
      in if \<not> contact_valid isEmail dto then (Inl (BadRequest ''Bad Request''), st)
         else contact_submit me dto (getClientIp req) st)"

section \<open>Rate limits\<close>

text \<open>
  The named buckets. A bucket with \<open>skipIf\<close> applies to the public day pass only; its requests are
  counted by the library per tracker, the client's address unless the bucket says otherwise.
\<close>

record throttler =
  th_name :: string
  th_ttl :: nat
  th_limit :: nat
  th_day_pass_only :: bool

definition NAMED_THROTTLERS :: "throttler list" where
  "NAMED_THROTTLERS =
     [\<lparr>th_name = ''short'', th_ttl = 1000, th_limit = 3, th_day_pass_only = False\<rparr>,
      \<lparr>th_name = ''medium'', th_ttl = 10000, th_limit = 20, th_day_pass_only = False\<rparr>,
      \<lparr>th_name = ''long'', th_ttl = 60000, th_limit = 100, th_day_pass_only = False\<rparr>,
      \<lparr>th_name = ''newsletter'', th_ttl = 60000, th_limit = 10, th_day_pass_only = False\<rparr>,
      \<lparr>th_name = ''contact'', th_ttl = 60000, th_limit = 5, th_day_pass_only = False\<rparr>,
      \<lparr>th_name = ''feedback'', th_ttl = 60000, th_limit = 10, th_day_pass_only = False\<rparr>,
      \<lparr>th_name = ''daypass-ip'', th_ttl = 60000, th_limit = 10, th_day_pass_only = True\<rparr>,
      \<lparr>th_name = ''daypass-email'', th_ttl = 60000, th_limit = 5, th_day_pass_only = True\<rparr>]"

definition isPublicDayPassHandler :: "string \<Rightarrow> bool" where
  "isPublicDayPassHandler handler \<longleftrightarrow> handler = ''bookings.publicDayPass''"

definition throttlers_of :: "string \<Rightarrow> throttler list" where
  "throttlers_of handler = filter (\<lambda>t. th_day_pass_only t \<longrightarrow> isPublicDayPassHandler handler) NAMED_THROTTLERS"

definition address_or_unknown :: "request \<Rightarrow> string" where
  "address_or_unknown req = (case rq_ip req of Some ip \<Rightarrow> ip | None \<Rightarrow> ''unknown'')"

definition day_pass_tracker :: "request \<Rightarrow> string" where
  "day_pass_tracker req =
     (case js_get ''guestEmail'' (Some (rq_body req)) of
        Some (Some (JStr raw)) \<Rightarrow>
          (let mailbox = to_lower (trim raw)
           in if mailbox \<noteq> [] then ''email:'' @ mailbox else ''noemail:'' @ address_or_unknown req)
      | _ \<Rightarrow> ''noemail:'' @ address_or_unknown req)"

text \<open>The composite guard's tracker.\<close>

definition composite_tracker :: "request_user option \<Rightarrow> request \<Rightarrow> string" where
  "composite_tracker user req =
     (let userId = (case user of Some u \<Rightarrow> ru_id u | None \<Rightarrow> ''anonymous'');
          forwarded = (case rq_headers req ''x-forwarded-for'' of
             Some xff \<Rightarrow> trim (case split_on (CHR '','') xff of x # _ \<Rightarrow> x | [] \<Rightarrow> []) | None \<Rightarrow> []);
          ip = (if forwarded \<noteq> [] then forwarded else if blank (rq_ip req) then ''unknown'' else the (rq_ip req))
      in ''rate-limit:'' @ userId @ '':'' @ ip)"

section \<open>No mail is lost\<close>

definition no_mails :: mail_state where
  "no_mails = \<lparr>mq_jobs = [], mq_done = [], mq_failed = [], mq_dead = [], mq_next = 0, mq_metrics = []\<rparr>"

inductive mail_step :: "mail_state \<Rightarrow> mail_state \<Rightarrow> bool" where
  enqueue: "mail_step s (snd (enqueueCritical me kind payload s))"
| run: "j \<in> set (mq_jobs s) \<Longrightarrow> mail_step s (run_job me smtp dlq j s)"

inductive mail_reachable :: "mail_state \<Rightarrow> bool" where
  start: "mail_reachable no_mails"
| step: "mail_reachable s \<Longrightarrow> mail_step s s' \<Longrightarrow> mail_reachable s'"

lemma enqueueBestEffort_state: "snd (enqueueBestEffort me kind payload s) = snd (enqueueCritical me kind payload s)"
  by (auto simp: enqueueBestEffort_def split: prod.splits sum.splits)

text \<open>The three ways a run ends.\<close>

definition counted :: "email_job \<Rightarrow> email_job" where
  "counted j = j\<lparr>j_attemptsMade := j_attemptsMade j + 1\<rparr>"

lemma counted_simps [simp]:
  "j_id (counted j) = j_id j" "j_attempts (counted j) = j_attempts j" "j_data (counted j) = j_data j"
  "j_name (counted j) = j_name j" "j_attemptsMade (counted j) = Suc (j_attemptsMade j)"
  "attempts_of (counted j) = attempts_of j"
  by (simp_all add: counted_def attempts_of_def)

lemma run_job_cases:
  obtains (sent) "mq_jobs (run_job me smtp dlq j s) = remove1 j (mq_jobs s)" "mq_done (run_job me smtp dlq j s) = mq_done s @ [j]"
      "mq_failed (run_job me smtp dlq j s) = mq_failed s" "mq_dead (run_job me smtp dlq j s) = mq_dead s"
      "mq_next (run_job me smtp dlq j s) = mq_next s"
  | (retried) "Suc (j_attemptsMade j) < attempts_of j" "mq_jobs (run_job me smtp dlq j s) = remove1 j (mq_jobs s) @ [counted j]"
      "mq_done (run_job me smtp dlq j s) = mq_done s" "mq_failed (run_job me smtp dlq j s) = mq_failed s"
      "mq_dead (run_job me smtp dlq j s) = mq_dead s" "mq_next (run_job me smtp dlq j s) = mq_next s"
  | (given_up) ds where "attempts_of j \<le> Suc (j_attemptsMade j)" "mq_jobs (run_job me smtp dlq j s) = remove1 j (mq_jobs s)"
      "mq_done (run_job me smtp dlq j s) = mq_done s" "mq_failed (run_job me smtp dlq j s) = mq_failed s @ [counted j]"
      "mq_dead (run_job me smtp dlq j s) = mq_dead s @ ds" "mq_next (run_job me smtp dlq j s) = mq_next s"
      "ds = [] \<or> (\<exists>e t. ds = [\<lparr>dl_name = j_name j, dl_payload = j_data j, dl_error = e, dl_failedAt = t, dl_originalJobId = j_id j\<rparr>])"
      "dlq \<longrightarrow> ds \<noteq> []"
proof (cases "deliver me smtp (j_data j)")
  case (Inr u)
  then show ?thesis by (intro sent) (simp_all add: run_job_def)
next
  case (Inl e)
  let ?s = "s\<lparr>mq_jobs := remove1 j (mq_jobs s)\<rparr>"
  have "run_job me smtp dlq j s =
      snd (handleFailure me dlq (counted j) e
        (if j_attemptsMade (counted j) < attempts_of (counted j) then ?s\<lparr>mq_jobs := mq_jobs ?s @ [counted j]\<rparr>
         else ?s\<lparr>mq_failed := mq_failed ?s @ [counted j]\<rparr>))"
    unfolding run_job_def Inl counted_def Let_def by simp
  note r = this handleFailure_def count_metric_def
  show ?thesis
  proof (cases "Suc (j_attemptsMade j) < attempts_of j")
    case True
    then show ?thesis using Inl by (intro retried) (simp_all add: r)
  next
    case False
    then show ?thesis
      using Inl
      by (intro given_up [of "if dlq then [\<lparr>dl_name = j_name j, dl_payload = j_data j, dl_error = e, dl_failedAt = now (me_env me),
              dl_originalJobId = j_id j\<rparr>] else []"]) (simp_all add: r)
  qed
qed

definition mail_ok :: "mail_state \<Rightarrow> bool" where
  "mail_ok s \<longleftrightarrow>
     mset (map j_id (mq_jobs s @ mq_done s @ mq_failed s)) = mset [0..<mq_next s] \<and>
     (\<forall>j\<in>set (mq_jobs s). j_attempts j = Some 5 \<and> j_attemptsMade j < 5) \<and>
     (\<forall>j\<in>set (mq_failed s). j_attemptsMade j = 5) \<and>
     (\<forall>d\<in>set (mq_dead s). \<exists>j\<in>set (mq_failed s). j_id j = dl_originalJobId d \<and> j_name j = dl_name d \<and> j_data j = dl_payload d) \<and>
     mset (map dl_originalJobId (mq_dead s)) \<subseteq># mset (map j_id (mq_failed s))"

lemma attempts_five: "j_attempts j = Some 5 \<Longrightarrow> attempts_of j = 5"
  by (simp add: attempts_of_def)

lemma mset_remove1_map: "j \<in> set js \<Longrightarrow> mset (map f js) = add_mset (f j) (mset (map f (remove1 j js)))"
  by (metis add_mset_add_single image_mset_add_mset mset_map mset_remove1 insert_DiffM set_mset_mset)

lemma dead_counted: "A \<subseteq># B \<Longrightarrow> A \<subseteq># add_mset x B"
  by (metis add_mset_add_single mset_subset_eq_add_left subset_mset.order_trans)

lemma mail_ok_step:
  assumes "mail_ok s" "mail_step s s'"
  shows "mail_ok s'"
  using assms(2)
proof cases
  case (enqueue me kind payload)
  then show ?thesis
    using assms(1) by (auto simp: enqueueCritical_def count_metric_def mail_ok_def EMAIL_RETRY_ATTEMPTS_def simp del: mset_upt)
next
  case (run j me smtp dlq)
  note ok = assms(1) [unfolded mail_ok_def]
  have j: "j_attempts j = Some 5" "j_attemptsMade j < 5" "attempts_of j = 5" using ok run(2) attempts_five by auto
  have rest: "set (remove1 j (mq_jobs s)) \<subseteq> set (mq_jobs s)" by (rule set_remove1_subset)
  have ids: "mset (map j_id (mq_jobs s)) = add_mset (j_id j) (mset (map j_id (remove1 j (mq_jobs s))))"
    by (rule mset_remove1_map [OF run(2)])
  show ?thesis
  proof (cases rule: run_job_cases [of me smtp dlq j s])
    case sent
    then show ?thesis using ok ids rest unfolding mail_ok_def run(1) by auto
  next
    case retried
    then show ?thesis using ok ids rest j unfolding mail_ok_def run(1) by auto
  next
    case (given_up ds)
    have "mset (map dl_originalJobId (mq_dead s @ ds)) \<subseteq># mset (map j_id (mq_failed s @ [counted j]))"
      using ok given_up(7) by (auto intro: dead_counted)
    moreover have "\<forall>d\<in>set (mq_dead s @ ds). \<exists>i\<in>set (mq_failed s @ [counted j]).
        j_id i = dl_originalJobId d \<and> j_name i = dl_name d \<and> j_data i = dl_payload d"
      using ok given_up(7) by auto
    moreover have "j_attemptsMade (counted j) = 5" using given_up(1) j by simp
    ultimately show ?thesis
      using ok ids rest unfolding mail_ok_def run(1) given_up(2-6) by auto
  qed
qed

lemma reachable_mail_ok: "mail_reachable s \<Longrightarrow> mail_ok s"
proof (induction rule: mail_reachable.induct)
  case start
  then show ?case by (simp add: mail_ok_def no_mails_def)
next
  case (step s s')
  then show ?case by (blast intro: mail_ok_step)
qed


section \<open>The queue drains\<close>

definition attempts_left :: "mail_state \<Rightarrow> nat" where
  "attempts_left s = sum_list (map (\<lambda>j. attempts_of j - j_attemptsMade j) (mq_jobs s))"

inductive mail_run :: "mail_state \<Rightarrow> mail_state \<Rightarrow> bool" where
  "j \<in> set (mq_jobs s) \<Longrightarrow> mail_run s (run_job me smtp dlq j s)"

lemma sum_list_remove1: "j \<in> set js \<Longrightarrow> sum_list (map f js) = f j + sum_list (map f (remove1 j js))" for f :: "'a \<Rightarrow> nat"
  by (induction js) auto

lemma mail_run_less:
  assumes "mail_reachable s" "mail_run s s'"
  shows "attempts_left s' < attempts_left s \<and> mail_reachable s'"
  using assms(2)
proof cases
  case (1 j me smtp dlq)
  have left: "0 < attempts_of j - j_attemptsMade j"
    using reachable_mail_ok [OF assms(1)] 1(2) by (auto simp: mail_ok_def attempts_five)
  note sum = sum_list_remove1 [OF 1(2), of "\<lambda>j. attempts_of j - j_attemptsMade j"]
  have "attempts_left s' < attempts_left s"
  proof (cases rule: run_job_cases [of me smtp dlq j s])
    case sent
    then show ?thesis using left sum by (simp add: attempts_left_def 1(1))
  next
    case retried
    then show ?thesis using left sum by (simp add: attempts_left_def 1(1))
  next
    case given_up
    then show ?thesis using left sum by (simp add: attempts_left_def 1(1))
  qed
  then show ?thesis using assms(1) 1 by (blast intro: mail_reachable.step mail_step.run)
qed

lemma mail_runs_less: "mail_reachable s \<Longrightarrow> (mail_run ^^ n) s s' \<Longrightarrow> attempts_left s' + n \<le> attempts_left s \<and> mail_reachable s'"
proof (induction n arbitrary: s')
  case (Suc n)
  then obtain t where t: "(mail_run ^^ n) s t" "mail_run t s'" by auto
  then show ?case using Suc.IH [OF Suc.prems(1) t(1)] mail_run_less [of t s'] by force
qed simp

lemma sum_list_bounded: "\<forall>x\<in>set xs. f x \<le> c \<Longrightarrow> sum_list (map f xs) \<le> c * length xs" for c :: nat
  by (induction xs) auto

lemma attempts_left_bound: "mail_reachable s \<Longrightarrow> attempts_left s \<le> 5 * length (mq_jobs s)"
proof -
  assume "mail_reachable s"
  then have "\<forall>j\<in>set (mq_jobs s). attempts_of j - j_attemptsMade j \<le> 5"
    by (auto simp: attempts_five dest!: reachable_mail_ok simp: mail_ok_def)
  then show ?thesis unfolding attempts_left_def by (rule sum_list_bounded)
qed


section \<open>Templates and attachments\<close>

lemma required_render:
  assumes "onModuleInit compile files = Inr ts" and "name \<in> set REQUIRED_TEMPLATES"
  obtains html where "render ts name ctx = Inr html"
proof -
  have "ts name \<noteq> None"
    using assms by (auto simp: onModuleInit_def Let_def filter_empty_conv split: if_splits)
  then show ?thesis using that by (auto simp: render_def)
qed

lemma required_names:
  "''verification-otp'' \<in> set REQUIRED_TEMPLATES" "''contact-confirmation'' \<in> set REQUIRED_TEMPLATES"
  "''contact-notification'' \<in> set REQUIRED_TEMPLATES" "''invoice-ready'' \<in> set REQUIRED_TEMPLATES"
  by (simp_all add: REQUIRED_TEMPLATES_def)

text \<open>
  Attachments: once the service has started, the invoice's mail is queued whenever Redis is
  up, and its delivery hands the SMTP server the very bytes of the PDF under the invoice's number.
\<close>

theorem invoice_attachment_roundtrip:
  assumes "onModuleInit compile files = Inr (me_templates me)" and "me_redis me" and "list_all (\<lambda>b. b < 256) pdf"
  shows "\<exists>job s'. sendInvoiceReadyEmail me mailbox name number amount paid pdf s = (Inr True, s') \<and>
     mq_jobs s' = mq_jobs s @ [job] \<and>
     (\<forall>smtp. \<exists>msg. deliver me smtp (j_data job) = smtp msg \<and> sm_to msg = Some mailbox \<and>
        sm_attachments msg = Some [(number @ ''.pdf'', pdf, ''application/pdf'')])"
proof -
  obtain html where "render (me_templates me) ''invoice-ready''
      (JObj [(''fullName'', JStr name), (''invoiceNumber'', JStr number), (''amountNaira'', JStr amount), (''paidAt'', JStr paid)]) = Inr html"
    by (rule required_render [OF assms(1) required_names(4)])
  then show ?thesis
    using assms(2,3)
    by (auto simp: sendInvoiceReadyEmail_def with_html_def enqueueBestEffort_def enqueueCritical_def count_metric_def deliver_def
        mail_attachment_def base64_roundtrip)
qed

section \<open>Contact messages\<close>

lemma best_effort_queued:
  assumes "onModuleInit compile files = Inr (me_templates me)" and "name \<in> set REQUIRED_TEMPLATES"
  shows "\<exists>s'. with_html me name ctx (\<lambda>html. enqueueBestEffort me kind (payload html)) s = (Inr (me_redis me), s') \<and>
     map j_name (mq_jobs s') = map j_name (mq_jobs s) @ (if me_redis me then [kind] else [])"
proof -
  obtain html where "render (me_templates me) name (JObj ctx) = Inr html" by (rule required_render [OF assms])
  then show ?thesis
    by (simp add: with_html_def enqueueBestEffort_def enqueueCritical_def count_metric_def)
qed

lemma contact_columns:
  "contact_valid isEmail dto \<Longrightarrow>
   fits_columns (new_contact_message env dto ip) \<longleftrightarrow> (\<forall>p\<in>set_option ip. length p \<le> 64)"
  by (auto simp: contact_valid_def fits_columns_def new_contact_message_def blank_def)

text \<open>
  C27: Contact form: a message whose sanitized fields are valid is stored and answered with success
  whether or not the mail queue is up, and queues its two mails when it is; an invalid one changes
  nothing. One case fails for its sender's address alone: a forwarded address over 64 characters.
\<close>

theorem post_contact_outcome:
  fixes me :: mail_env and req :: request and dto :: submit_contact_dto
  assumes "onModuleInit compile files = Inr (me_templates me)"
  defines "clean \<equiv> sanitize_contact dto" and "ip \<equiv> getClientIp req"
  shows "\<exists>r rows' s'. post_contact me isEmail dto req (rows, s) = (r, rows', s') \<and>
    (if \<not> contact_valid isEmail clean then r = Inl (BadRequest ''Bad Request'') \<and> rows' = rows \<and> s' = s
     else if \<exists>p. ip = Some p \<and> 64 < length p then (\<exists>e. r = Inl (DbError e)) \<and> rows' = rows \<and> s' = s
     else r = Inr ''Your message has been sent successfully.'' \<and>
       rows' = save_row cm_id (new_contact_message (me_env me) clean ip) rows \<and>
       map j_name (mq_jobs s') = map j_name (mq_jobs s) @
         (if me_redis me then [''contact-confirmation'', ''contact-notification''] else []))"
proof -
  consider "\<not> contact_valid isEmail clean" | p where "contact_valid isEmail clean" "ip = Some p" "64 < length p"
    | "contact_valid isEmail clean" "\<not> (\<exists>p. ip = Some p \<and> 64 < length p)"
    by blast
  then show ?thesis
  proof cases
    case 1
    then show ?thesis by (simp add: post_contact_def clean_def Let_def)
  next
    case 2
    then have "\<not> fits_columns (new_contact_message (me_env me) clean ip)" by (simp add: contact_columns [OF 2(1)])
    then show ?thesis using 2 by (simp add: post_contact_def contact_submit_def clean_def ip_def Let_def)
  next
    case 3
    then have fits: "fits_columns (new_contact_message (me_env me) clean ip)"
      by (auto simp: contact_columns [OF 3(1)] not_less)
    obtain s1 where s1: "sendContactConfirmation me (sc_email clean) (sc_fullName clean) (sc_subject clean) s = (Inr (me_redis me), s1)"
        "map j_name (mq_jobs s1) = map j_name (mq_jobs s) @ (if me_redis me then [''contact-confirmation''] else [])"
      using best_effort_queued [OF assms(1) required_names(2)] unfolding sendContactConfirmation_def by blast
    obtain s2 where s2: "sendContactNotification me (sc_fullName clean) (sc_email clean) (sc_subject clean) (sc_message clean) s1 =
          (Inr (me_redis me), s2)"
        "map j_name (mq_jobs s2) = map j_name (mq_jobs s1) @ (if me_redis me then [''contact-notification''] else [])"
      using best_effort_queued [OF assms(1) required_names(3)] unfolding sendContactNotification_def Let_def by blast
    show ?thesis
      using 3 fits s1 s2
      by (simp add: post_contact_def contact_submit_def flip: clean_def ip_def)
  qed
qed

text \<open>What the transformer guarantees, and what it does not: one pass leaves a nested tag.\<close>

lemma script_tag_drop:
  assumes "script_tag s = Some rest"
  shows "\<exists>n. rest = drop n s"
proof -
  define s1 where "s1 = dropWhile is_space s"
  define s2 where "s2 = (case s1 of c # r \<Rightarrow> if c = CHR ''/'' then r else s1 | [] \<Rightarrow> s1)"
  define s3 where "s3 = dropWhile is_space s2"
  obtain n1 where n1: "s1 = drop n1 s" unfolding s1_def dropWhile_eq_drop by blast
  have "s2 = drop 0 s1 \<or> s2 = drop 1 s1" by (auto simp: s2_def split: list.splits)
  then obtain n2 where n2: "s2 = drop n2 s1" by blast
  obtain n3 where n3: "s3 = drop n3 s2" unfolding s3_def dropWhile_eq_drop by blast
  obtain n4 where n4: "dropWhile (\<lambda>c. c \<noteq> CHR ''>'') (drop 6 s3) = drop n4 (drop 6 s3)" unfolding dropWhile_eq_drop by blast
  have "script_tag s =
      (if to_lower (take 6 s3) = ''script''
       then (case dropWhile (\<lambda>c. c \<noteq> CHR ''>'') (drop 6 s3) of [] \<Rightarrow> None | _ # rest \<Rightarrow> Some rest) else None)"
    unfolding script_tag_def Let_def s1_def s2_def s3_def by (rule refl)
  with assms obtain c where "drop n4 (drop 6 s3) = c # rest"
    unfolding n4 by (auto split: if_splits list.splits)
  then have "rest = drop 1 (drop n4 (drop 6 s3))" by simp
  then show ?thesis unfolding n1 n2 n3 drop_drop by blast
qed

lemma set_strip_scripts: "set (strip_scripts s) \<subseteq> set s"
proof (induction s rule: strip_scripts.induct)
  case (2 c s)
  have "set rest \<subseteq> set s" if "script_tag s = Some rest" for rest
    using script_tag_drop [OF that] set_drop_subset by metis
  show ?case
  proof (cases "c = CHR ''<'' \<and> script_tag s \<noteq> None")
    case True
    then obtain rest where r: "script_tag s = Some rest" "c = CHR ''<''" by blast
    then have "set (strip_scripts rest) \<subseteq> set rest" using 2 by blast
    then show ?thesis using r \<open>\<And>rest. script_tag s = Some rest \<Longrightarrow> set rest \<subseteq> set s\<close> [OF r(1)] by auto
  next
    case False
    then have "strip_scripts (c # s) = c # strip_scripts s" by (auto split: option.splits)
    moreover have "set (strip_scripts s) \<subseteq> set s" using 2 False by blast
    ultimately show ?thesis by auto
  qed
qed simp

lemma set_collapse_spaces: "set (collapse_spaces s) \<subseteq> insert (CHR '' '') (set s)"
  by (induction s rule: collapse_spaces.induct) (auto dest: set_dropWhileD)

lemma sanitized_no_control: "c \<in> set (SanitizeString s) \<Longrightarrow> \<not> is_control c"
  using set_collapse_spaces set_strip_scripts by (fastforce simp: SanitizeString_def is_control_def)

lemma sanitize_leaves_script: "SanitizeString ''<scr<script>ipt>alert</script>'' = ''<script>alert''"
  by code_simp

section \<open>Buckets\<close>

lemma contact_buckets:
  "map th_name (throttlers_of ''contact.submit'') = [''short'', ''medium'', ''long'', ''newsletter'', ''contact'', ''feedback'']"
  by (simp add: throttlers_of_def NAMED_THROTTLERS_def isPublicDayPassHandler_def)

lemma day_pass_bucket:
  assumes "js_get ''guestEmail'' (Some (rq_body r)) = Some (Some (JStr a))" "trim a \<noteq> []"
    and "js_get ''guestEmail'' (Some (rq_body q)) = Some (Some (JStr b))" "trim b \<noteq> []"
  shows "day_pass_tracker r = day_pass_tracker q \<longleftrightarrow> to_lower (trim a) = to_lower (trim b)"
  using assms by (simp add: day_pass_tracker_def Let_def to_lower_def)

text \<open>The composite guard trusts the forwarded address: a client names its own bucket.\<close>

lemma composite_bucket_chosen:
  assumes "rq_headers req ''x-forwarded-for'' = Some a" "a \<noteq> []" "CHR '','' \<notin> set a" "trim a = a"
  shows "composite_tracker None req = ''rate-limit:anonymous:'' @ a"
proof -
  have "split_on (CHR '','') a = [a]"
    using assms(3) by (induction a) auto
  then show ?thesis using assms by (simp add: composite_tracker_def)
qed

section \<open>A concrete mailer\<close>

definition sample_files :: "(string \<times> string) list" where
  "sample_files = map (\<lambda>n. (n @ ''.hbs'', [])) REQUIRED_TEMPLATES"

definition sample_templates :: templates where
  "sample_templates = compile_all (\<lambda>_ _. ''<p>'') sample_files"

definition sample_mailer :: "bool \<Rightarrow> mail_env" where
  "sample_mailer up = \<lparr>me_env = sample_env, me_templates = sample_templates, me_redis = up\<rparr>"

lemma sample_boot: "onModuleInit (\<lambda>_ _. ''<p>'') sample_files = Inr (me_templates (sample_mailer up))"
proof -
  have "list_all (\<lambda>n. sample_templates n \<noteq> None) REQUIRED_TEMPLATES" by code_simp
  then show ?thesis
    by (simp add: onModuleInit_def Let_def sample_mailer_def sample_templates_def list_all_iff filter_empty_conv)
qed

definition sample_queue :: mail_state where
  "sample_queue = snd (sendVerificationEmail (sample_mailer True) ''ada@nova'' ''1234'' ''Ada'' no_mails)"

lemma sample_queue_reachable: "mail_reachable sample_queue"
proof -
  obtain html where "render (me_templates (sample_mailer True)) ''verification-otp''
      (JObj [(''otp'', JStr ''1234''), (''fullName'', JStr ''Ada'')]) = Inr html"
    by (rule required_render [OF sample_boot required_names(1)])
  then show ?thesis
    by (auto simp: sample_queue_def sendVerificationEmail_def with_html_def
        intro: mail_reachable.step [OF mail_reachable.start mail_step.enqueue])
qed



theorem invoice_attachment_roundtrip_witness:
  "\<exists>job s'. sendInvoiceReadyEmail (sample_mailer True) ''ada@nova'' ''Ada'' ''INV-1'' ''5'' ''today'' [37, 80, 68, 70] no_mails = (Inr True, s') \<and>
     mq_jobs s' = [job]"
proof -
  have up: "me_redis (sample_mailer True)" by (simp add: sample_mailer_def)
  have "list_all (\<lambda>b. b < (256::nat)) [37, 80, 68, 70]" by simp
  from invoice_attachment_roundtrip [OF sample_boot up this, of "''ada@nova''" "''Ada''" "''INV-1''" "''5''" "''today''" no_mails]
  show ?thesis by (fastforce simp: no_mails_def)
qed

definition sample_message :: submit_contact_dto where
  "sample_message =
     \<lparr>sc_fullName = '' Ada'', sc_email = ''ada@nova'', sc_phone = None, sc_company = None, sc_subject = ''Desks'',
      sc_message = ''Any  desk left?''\<rparr>"

theorem post_contact_outcome_witness:
  "\<exists>rows s. post_contact (sample_mailer False) (\<lambda>_. True) sample_message (sample_request ''POST'' [''contact''] None) ([], no_mails) =
     (Inr ''Your message has been sent successfully.'', rows, s) \<and> length rows = 1 \<and> mq_jobs s = []"
proof -
  let ?req = "sample_request ''POST'' [''contact''] None"
  have "sanitize_contact sample_message = sample_message\<lparr>sc_fullName := ''Ada'', sc_message := ''Any desk left?''\<rparr>" by code_simp
  then have v: "contact_valid (\<lambda>_. True) (sanitize_contact sample_message)"
    by (simp add: contact_valid_def sample_message_def)
  have ip: "getClientIp ?req = None" by (simp add: getClientIp_def sample_request_def)
  from post_contact_outcome [OF sample_boot [of False], where dto = sample_message and req = ?req and isEmail = "\<lambda>_. True" and rows = "[]" and s = no_mails] v ip
  show ?thesis by (auto simp: sample_mailer_def save_row_def no_mails_def)
qed

end
