(* ===== verification/Web_Auth.thy ===== *)
theory Web_Auth
  imports Web_Admin Two_Factor Mail_Queue
begin

text \<open>
  The pages around the account, against the backend's handlers: the recovery of a password by a
  mailed code (\<open>components/auth/forgot-password-form.tsx\<close>), the reset page of a mailed link
  (\<open>app/(auth)/reset-password/page.tsx\<close>), the address verification (\<open>app/(auth)/verify-otp/page.tsx\<close>), the
  login page (\<open>components/auth/LoginForm.tsx\<close>, \<open>hooks/use-login.ts\<close>) with the second factor's
  page, the registration (\<open>components/auth/RegisterPage.tsx\<close>), the settings with the two-factor dialog
  (\<open>app/settings/page.tsx\<close>, \<open>components/settings/TwoFactorModal.tsx\<close>) and the contact form
  (\<open>app/contact/page.tsx\<close>).

  The e-mail tests of zod and of class-validator are parameters. A click that a disabled button does
  not take leaves the page as it is.
\<close>

section \<open>Schemas\<close>

definition is_alnum :: "char \<Rightarrow> bool" where
  "is_alnum c \<longleftrightarrow> is_upper c \<or> is_lower c \<or> is_digit c"

text \<open>The wizard's schema, and the one of the reset page, which also wants a special character.\<close>

definition reset_schema :: "string \<Rightarrow> string \<Rightarrow> bool" where
  "reset_schema password confirmPassword \<longleftrightarrow>
     8 \<le> length password \<and> list_ex is_upper password \<and> list_ex is_lower password \<and> list_ex is_digit password \<and>
     password = confirmPassword"

definition reset_page_schema :: "string \<Rightarrow> string \<Rightarrow> bool" where
  "reset_page_schema password confirmPassword \<longleftrightarrow>
     8 \<le> length password \<and> list_ex is_upper password \<and> list_ex is_lower password \<and> list_ex is_digit password \<and>
     list_ex (\<lambda>c. \<not> is_alnum c) password \<and> password = confirmPassword"

definition forgotPasswordSchema :: "(string \<Rightarrow> bool) \<Rightarrow> string \<Rightarrow> bool" where
  "forgotPasswordSchema zod_email mailbox \<longleftrightarrow> mailbox \<noteq> [] \<and> zod_email mailbox \<and> length mailbox \<le> 255"

definition calculatePasswordStrength :: "string \<Rightarrow> nat \<times> string" where
  "calculatePasswordStrength password =
     (if password = [] then (0, [])
      else let strength = (if 8 \<le> length password then 25 else 0) + (if 12 \<le> length password then 10 else 0) +
                 (if list_ex is_lower password then 15 else 0) + (if list_ex is_upper password then 15 else 0) +
                 (if list_ex is_digit password then 15 else 0) + (if list_ex (\<lambda>c. \<not> is_alnum c) password then 20 else 0)
           in if strength \<le> 35 then (strength, ''Weak'')
              else if strength \<le> 60 then (strength, ''Fair'')
              else if strength \<le> 85 then (strength, ''Good'')
              else (100, ''Strong''))"

text \<open>The telephone pattern: an optional plus, a digit but zero, up to fifteen digits.\<close>

definition phone_pattern :: "string \<Rightarrow> bool" where
  "phone_pattern s \<longleftrightarrow>
     (let t = (case s of c # r \<Rightarrow> if c = CHR ''+'' then r else s | [] \<Rightarrow> [])
      in case t of [] \<Rightarrow> False | c # r \<Rightarrow> is_digit c \<and> c \<noteq> CHR ''0'' \<and> length r \<le> 15 \<and> list_all is_digit r)"

record personal_info =
  pi_fullName :: string
  pi_email :: string
  pi_phoneNumber :: string
  pi_location :: string

definition personalInfoSchema :: "(string \<Rightarrow> bool) \<Rightarrow> personal_info \<Rightarrow> bool" where
  "personalInfoSchema zod_email p \<longleftrightarrow>
     2 \<le> length (pi_fullName p) \<and> length (pi_fullName p) \<le> 100 \<and>
     pi_email p \<noteq> [] \<and> zod_email (pi_email p) \<and> length (pi_email p) \<le> 255 \<and>
     phone_pattern (pi_phoneNumber p) \<and> length (pi_location p) \<le> 100"

record account_setup =
  as_userType :: string
  as_organizationName :: string
  as_password :: string
  as_confirmPassword :: string
  as_agreeToTerms :: bool

definition accountSetupSchema :: "account_setup \<Rightarrow> bool" where
  "accountSetupSchema a \<longleftrightarrow>
     as_userType a \<in> {''member'', ''staff'', ''visitor''} \<and>
     2 \<le> length (as_organizationName a) \<and> length (as_organizationName a) \<le> 100 \<and>
     reset_page_schema (as_password a) (as_confirmPassword a) \<and> as_confirmPassword a \<noteq> [] \<and> as_agreeToTerms a"

definition login_schema :: "(string \<Rightarrow> bool) \<Rightarrow> string \<Rightarrow> string \<Rightarrow> bool" where
  "login_schema zod_email mailbox password \<longleftrightarrow> zod_email mailbox \<and> 6 \<le> length password"

definition password_schema :: "string \<Rightarrow> string \<Rightarrow> string \<Rightarrow> bool" where
  "password_schema current new again \<longleftrightarrow> current \<noteq> [] \<and> 8 \<le> length new \<and> new = again"

section \<open>The four boxes of a code\<close>

record otp_boxes =
  ob_otp :: "string list"
  ob_focus :: nat

definition empty_boxes :: otp_boxes where
  "empty_boxes = \<lparr>ob_otp = [[], [], [], []], ob_focus = 0\<rparr>"

definition handleOtpChange :: "nat \<Rightarrow> string \<Rightarrow> otp_boxes \<Rightarrow> otp_boxes" where
  "handleOtpChange index value b =
     (if \<not> list_all is_digit value then b
      else b\<lparr>ob_otp := (ob_otp b)[index := drop (length value - 1) value],
             ob_focus := (if value \<noteq> [] \<and> index < 3 then index + 1 else ob_focus b)\<rparr>)"

text \<open>Backspace in an empty box.\<close>

definition handleOtpKeyDown :: "nat \<Rightarrow> bool \<Rightarrow> otp_boxes \<Rightarrow> otp_boxes" where
  "handleOtpKeyDown index backspace b =
     (if backspace \<and> ob_otp b ! index = [] \<and> 0 < index then b\<lparr>ob_focus := index - 1\<rparr> else b)"

definition handleOtpPaste :: "string \<Rightarrow> otp_boxes \<Rightarrow> otp_boxes" where
  "handleOtpPaste text b =
     (let pasted = take 4 (filter is_digit text)
      in b\<lparr>ob_otp := fold (\<lambda>i otp. otp[i := [pasted ! i]]) [0..<length pasted] (ob_otp b),
           ob_focus := min (length pasted) 3\<rparr>)"

definition otp_code :: "otp_boxes \<Rightarrow> string" where
  "otp_code b = concat (ob_otp b)"

section \<open>Recovering a password\<close>

datatype recovery_step = Email_step | Otp_step | New_password_step | Success_step

record recovery =
  rc_step :: recovery_step
  rc_submittedEmail :: string
  rc_verifiedOtp :: string
  rc_cooldown :: nat
  rc_boxes :: otp_boxes

definition new_recovery :: recovery where
  "new_recovery = \<lparr>rc_step = Email_step, rc_submittedEmail = [], rc_verifiedOtp = [], rc_cooldown = 0, rc_boxes = empty_boxes\<rparr>"

definition cooldown_tick :: "recovery \<Rightarrow> recovery" where
  "cooldown_tick p = (if rc_cooldown p = 0 then p else p\<lparr>rc_cooldown := (if rc_cooldown p \<le> 1 then 0 else rc_cooldown p - 1)\<rparr>)"

definition forgot_body :: "string \<Rightarrow> json" where
  "forgot_body mailbox = JObj [(''email'', JStr mailbox)]"

definition onSubmitEmail :: "string \<Rightarrow> answer \<Rightarrow> recovery \<Rightarrow> recovery" where
  "onSubmitEmail mailbox a p =
     (case api_call a of
        Inl _ \<Rightarrow> p
      | Inr _ \<Rightarrow> p\<lparr>rc_submittedEmail := mailbox, rc_cooldown := 60, rc_step := Otp_step, rc_boxes := (rc_boxes p)\<lparr>ob_focus := 0\<rparr>\<rparr>)"

text \<open>Whether a resend is sent at all, and what its answer does.\<close>

definition resend_sent :: "recovery \<Rightarrow> bool" where
  "resend_sent p \<longleftrightarrow> \<not> (0 < rc_cooldown p \<or> rc_submittedEmail p = [])"

definition onResendOtp :: "answer \<Rightarrow> recovery \<Rightarrow> recovery" where
  "onResendOtp a p =
     (if \<not> resend_sent p then p
      else case api_call a of Inl _ \<Rightarrow> p | Inr _ \<Rightarrow> p\<lparr>rc_cooldown := 60, rc_boxes := empty_boxes\<rparr>)"

definition verify_reset_body :: "recovery \<Rightarrow> json" where
  "verify_reset_body p = JObj [(''email'', JStr (rc_submittedEmail p)), (''otp'', JStr (otp_code (rc_boxes p)))]"

definition onVerifyOtp :: "answer \<Rightarrow> recovery \<Rightarrow> recovery" where
  "onVerifyOtp a p =
     (if length (otp_code (rc_boxes p)) \<noteq> 4 then p
      else case api_call a of
        Inl _ \<Rightarrow> p
      | Inr _ \<Rightarrow> p\<lparr>rc_verifiedOtp := otp_code (rc_boxes p), rc_step := New_password_step\<rparr>)"

definition reset_body :: "string \<Rightarrow> string \<Rightarrow> recovery \<Rightarrow> json" where
  "reset_body password confirmPassword p =
     JObj [(''otp'', JStr (rc_verifiedOtp p)), (''newPassword'', JStr password), (''confirmNewPassword'', JStr confirmPassword)]"

definition onResetPassword :: "string \<Rightarrow> string \<Rightarrow> answer \<Rightarrow> recovery \<Rightarrow> recovery" where
  "onResetPassword password confirmPassword a p =
     (if \<not> reset_schema password confirmPassword then p
      else case api_call a of Inl _ \<Rightarrow> p | Inr _ \<Rightarrow> p\<lparr>rc_step := Success_step\<rparr>)"

section \<open>The handlers they call\<close>

definition message_reply :: "string \<Rightarrow> unit result \<times> world \<Rightarrow> answer \<times> world" where
  "message_reply m r =
     (case r of (Inl e, w) \<Rightarrow> (error_answer e, w) | (Inr _, w) \<Rightarrow> (Ok_status (Some (JObj [(''message'', JStr m)])), w))"

definition email_field :: "(string \<Rightarrow> bool) \<Rightarrow> json \<Rightarrow> string option" where
  "email_field isEmail v =
     (case string_field ''email'' v of Some m \<Rightarrow> if m \<noteq> [] \<and> isEmail m then Some m else None | None \<Rightarrow> None)"

definition filled_field :: "string \<Rightarrow> json \<Rightarrow> string option" where
  "filled_field k v = (case string_field k v of Some s \<Rightarrow> if s \<noteq> [] then Some s else None | None \<Rightarrow> None)"

definition post_forgot_password :: "env \<Rightarrow> auth_env \<Rightarrow> (string \<Rightarrow> bool) \<Rightarrow> json \<Rightarrow> world \<Rightarrow> answer \<times> world" where
  "post_forgot_password env ae isEmail body w =
     (case if whitelisted [''email''] body then email_field isEmail body else None of
        None \<Rightarrow> (error_answer (BadRequest ''Bad Request''), w)
      | Some m \<Rightarrow> message_reply ''An Otp Code has been sent to your Email'' (requestResetPasswordOtp env ae m w))"

definition post_verify_reset_otp :: "env \<Rightarrow> (string \<Rightarrow> bool) \<Rightarrow> json \<Rightarrow> world \<Rightarrow> answer \<times> world" where
  "post_verify_reset_otp env isEmail body w =
     (case (whitelisted [''email'', ''otp''] body, email_field isEmail body, filled_field ''otp'' body) of
        (True, Some m, Some c) \<Rightarrow> message_reply ''OTP verified successfully'' (verifyResetPasswordOtp env m c w)
      | _ \<Rightarrow> (error_answer (BadRequest ''Bad Request''), w))"

definition reset_password_of_json :: "json \<Rightarrow> reset_password_dto option" where
  "reset_password_of_json v =
     (case (whitelisted [''otp'', ''newPassword'', ''confirmNewPassword''] v, filled_field ''otp'' v, filled_field ''newPassword'' v,
            filled_field ''confirmNewPassword'' v) of
        (True, Some c, Some p, Some q) \<Rightarrow>
          if 8 \<le> length p then Some \<lparr>rp_otp = c, rp_newPassword = p, rp_confirmNewPassword = q\<rparr> else None
      | _ \<Rightarrow> None)"

definition post_reset_password :: "env \<Rightarrow> auth_env \<Rightarrow> json \<Rightarrow> world \<Rightarrow> answer \<times> world" where
  "post_reset_password env ae body w =
     (case reset_password_of_json body of
        None \<Rightarrow> (error_answer (BadRequest ''Bad Request''), w)
      | Some dto \<Rightarrow> message_reply ''Password reset successfully'' (resetPassword env ae dto w))"

definition post_login ::
  "env \<Rightarrow> auth_env \<Rightarrow> (string \<Rightarrow> bool) \<Rightarrow> (user_response \<Rightarrow> json) \<Rightarrow> json \<Rightarrow> world \<Rightarrow> answer \<times> world" where
  "post_login env ae isEmail print body w =
     (case (whitelisted [''email'', ''password'', ''rememberMe''] body, email_field isEmail body, filled_field ''password'' body,
            optional_field (\<lambda>v. case v of JBool b \<Rightarrow> Some b | _ \<Rightarrow> None) ''rememberMe'' body) of
        (True, Some m, Some pw, Some _) \<Rightarrow>
          if 8 \<le> length pw
          then (case login env ae m pw w of
                  (Inl e, w') \<Rightarrow> (error_answer e, w')
                | (Inr r, w') \<Rightarrow> (Ok_status (Some (login_body print r)), w'))
          else (error_answer (BadRequest ''Bad Request''), w)
      | _ \<Rightarrow> (error_answer (BadRequest ''Bad Request''), w))"

definition create_user_of_json :: "(string \<Rightarrow> bool) \<Rightarrow> json \<Rightarrow> create_user_dto option" where
  "create_user_of_json isEmail v =
     (case (whitelisted [''email'', ''firstname'', ''lastname'', ''password''] v, email_field isEmail v, filled_field ''firstname'' v,
            filled_field ''lastname'' v, filled_field ''password'' v) of
        (True, Some m, Some f, Some l, Some pw) \<Rightarrow>
          if length f \<le> 30 \<and> length l \<le> 30 \<and> 6 \<le> length pw
          then Some \<lparr>cu_email = m, cu_firstname = f, cu_lastname = l, cu_password = pw\<rparr> else None
      | _ \<Rightarrow> None)"

definition post_register ::
  "env \<Rightarrow> auth_env \<Rightarrow> (string \<Rightarrow> bool) \<Rightarrow> (user_response \<Rightarrow> json) \<Rightarrow> json \<Rightarrow> world \<Rightarrow> answer \<times> world" where
  "post_register env ae isEmail print body w =
     (case create_user_of_json isEmail body of
        None \<Rightarrow> (error_answer (BadRequest ''Bad Request''), w)
      | Some dto \<Rightarrow>
          (case createUser env ae dto w of
             (Inl e, w') \<Rightarrow> (error_answer e, w')
           | (Inr r, w') \<Rightarrow> (Ok_status (Some (register_body print r)), w')))"

text \<open>The two-factor handlers answer with their results themselves, without an envelope.\<close>

definition post_2fa_setup :: "env \<Rightarrow> auth_env \<Rightarrow> uuid \<Rightarrow> world \<Rightarrow> answer \<times> world" where
  "post_2fa_setup env ae userId w =
     (case initiate2faSetup env ae userId w of
        (Inl e, w') \<Rightarrow> (error_answer e, w')
      | (Inr (secret, qr), w') \<Rightarrow>
          (Ok_status (Some (JObj [(''secret'', JStr secret), (''qrCodeDataUrl'', JStr qr)])), w'))"

definition post_2fa_confirm :: "env \<Rightarrow> auth_env \<Rightarrow> uuid \<Rightarrow> json \<Rightarrow> world \<Rightarrow> answer \<times> world" where
  "post_2fa_confirm env ae userId body w =
     (case (whitelisted [''token''] body, string_field ''token'' body) of
        (True, Some t) \<Rightarrow>
          if length t = 6
          then (case confirm2faSetup env ae userId t w of
                  (Inl e, w') \<Rightarrow> (error_answer e, w')
                | (Inr codes, w') \<Rightarrow> (Ok_status (Some (JObj [(''backupCodes'', JArr (map JStr codes))])), w'))
          else (error_answer (BadRequest ''Bad Request''), w)
      | _ \<Rightarrow> (error_answer (BadRequest ''Bad Request''), w))"

definition get_2fa_status :: "env \<Rightarrow> uuid \<Rightarrow> world \<Rightarrow> answer" where
  "get_2fa_status env userId w =
     (case get2faStatus env userId w of
        Inl e \<Rightarrow> error_answer e
      | Inr (enabled, n) \<Rightarrow>
          Ok_status (Some (JObj [(''enabled'', JBool enabled), (''backupCodesRemaining'', JNum (nat_str n))])))"

definition delete_user :: "uuid \<Rightarrow> actor \<Rightarrow> world \<Rightarrow> answer \<times> world" where
  "delete_user k ac w =
     (case deleteUser k ac w of (Inl e, w') \<Rightarrow> (error_answer e, w') | (Inr _, w') \<Rightarrow> (Ok_status None, w'))"

section \<open>Signing in and up\<close>

datatype login_outcome = Goes_to string | Shows string

definition login_form_body :: "string \<Rightarrow> string \<Rightarrow> bool \<Rightarrow> json" where
  "login_form_body mailbox password rememberMe =
     JObj [(''email'', JStr mailbox), (''password'', JStr password), (''rememberMe'', JBool rememberMe)]"

definition after_login :: "string option \<Rightarrow> string" where
  "after_login redirect = (if blank redirect then ''/dashboard'' else the redirect)"

text \<open>\<open>useLogin\<close>, which the form uses: an error that is no \<open>Error\<close> has no message of its own.\<close>

definition useLogin :: "answer \<Rightarrow> string \<Rightarrow> string option \<Rightarrow> client \<Rightarrow> login_outcome \<times> client" where
  "useLogin a mailbox redirect c =
     (case store_login a mailbox c of
        (None, c') \<Rightarrow> (Goes_to (after_login redirect), c')
      | (Some (Api_error m), c') \<Rightarrow> (Shows m, c')
      | (Some _, c') \<Rightarrow> (Shows ''Something went wrong. Please try again.'', c'))"

text \<open>\<open>useLoginUser\<close>, which the page hands to the form.\<close>

definition query_text :: "json option \<Rightarrow> string" where
  "query_text v = encodeURIComponent (case v of None \<Rightarrow> ''undefined'' | Some x \<Rightarrow> js_string x)"

definition useLoginUser :: "answer \<Rightarrow> string \<Rightarrow> string option \<Rightarrow> client \<Rightarrow> login_outcome \<times> client" where
  "useLoginUser a mailbox redirect c =
     (case store_login a mailbox c of
        (None, c') \<Rightarrow> (Goes_to (after_login redirect), c')
      | (Some (Two_factor_required t m), c') \<Rightarrow>
          (Goes_to (''/verify-2fa?tempToken='' @ query_text t @ ''&email='' @ encodeURIComponent m), c')
      | (Some (Unverified m _), c') \<Rightarrow> (Goes_to (''/verify-otp?email='' @ encodeURIComponent m), c')
      | (Some (Api_error _), c') \<Rightarrow> (Shows ''Login failed. Please check your credentials.'', c'))"

text \<open>The form's submission calls its own hook; the page's handler is a property it never uses.\<close>

definition login_page_submit ::
  "(string \<Rightarrow> bool) \<Rightarrow> string \<Rightarrow> string \<Rightarrow> answer \<Rightarrow> string option \<Rightarrow> client \<Rightarrow> login_outcome option \<times> client" where
  "login_page_submit zod_email mailbox password a redirect c =
     (if \<not> login_schema zod_email mailbox password then (None, c)
      else case useLogin a mailbox redirect c of (r, c') \<Rightarrow> (Some r, c'))"

text \<open>The page of the second factor: its body, when its button works, and its answer.\<close>

definition second_factor_body :: "bool \<Rightarrow> string \<Rightarrow> string \<Rightarrow> json" where
  "second_factor_body totp code tempToken =
     JObj [(if totp then ''token'' else ''backupCode'', JStr (trim code)), (''tempToken'', JStr tempToken)]"

definition second_factor_ready :: "bool \<Rightarrow> string \<Rightarrow> bool" where
  "second_factor_ready totp code \<longleftrightarrow> trim code \<noteq> [] \<and> (if totp then length code = 6 else 6 \<le> length (trim code))"

text \<open>Registration: the name is split at its spaces.\<close>

definition join_spaces :: "string list \<Rightarrow> string" where
  "join_spaces ws = (case ws of [] \<Rightarrow> [] | w # rest \<Rightarrow> w @ concat (map (\<lambda>x. CHR '' '' # x) rest))"

definition register_payload :: "personal_info \<Rightarrow> account_setup \<Rightarrow> json" where
  "register_payload p a =
     (let names = split_on (CHR '' '') (trim (pi_fullName p))
      in JObj [(''firstname'', JStr (hd names)), (''lastname'', JStr (join_spaces (tl names))), (''email'', JStr (pi_email p)),
               (''password'', JStr (as_password a))])"

definition useRegisterUser :: "answer \<Rightarrow> string \<Rightarrow> client \<Rightarrow> login_outcome \<times> client" where
  "useRegisterUser a mailbox c =
     (case store_register a c of
        (None, c') \<Rightarrow> (Goes_to (''/verify-otp?email='' @ encodeURIComponent mailbox), c')
      | (Some _, c') \<Rightarrow> (Shows ''Error creating user'', c'))"

section \<open>Settings\<close>

definition twoFaEnabled :: "json option \<Rightarrow> bool" where
  "twoFaEnabled q = js_truthy (Some (nullish (JBool False) (opt_get ''enabled'' (opt_get ''data'' q))))"

datatype two_fa_step = Qr | Verify | Backup

record two_fa_modal =
  tm_setup :: bool
  tm_step :: two_fa_step
  tm_qrData :: "json option"
  tm_totpToken :: string
  tm_backupCodes :: "json option"

text \<open>The dialog the switch opens.\<close>

definition open_modal :: "json option \<Rightarrow> two_fa_modal" where
  "open_modal q = \<lparr>tm_setup = \<not> twoFaEnabled q, tm_step = Qr, tm_qrData = Some JNull, tm_totpToken = [], tm_backupCodes = Some (JArr [])\<rparr>"

definition handleStartSetup :: "answer \<Rightarrow> two_fa_modal \<Rightarrow> two_fa_modal" where
  "handleStartSetup a m =
     (case api_call a of
        Inl _ \<Rightarrow> m
      | Inr res \<Rightarrow> (case js_get ''data'' (Some res) of None \<Rightarrow> m | Some d \<Rightarrow> m\<lparr>tm_qrData := d, tm_step := Qr\<rparr>))"

definition handleConfirm :: "answer \<Rightarrow> two_fa_modal \<Rightarrow> two_fa_modal" where
  "handleConfirm a m =
     (case api_call a of
        Inl _ \<Rightarrow> m
      | Inr res \<Rightarrow>
          (case js_get ''data'' (Some res) of
             Some (Some d) \<Rightarrow>
               (case js_get ''backupCodes'' (Some d) of None \<Rightarrow> m | Some codes \<Rightarrow> m\<lparr>tm_backupCodes := codes, tm_step := Backup\<rparr>)
           | _ \<Rightarrow> m))"

text \<open>What the dialog shows, in the order of its conditions.\<close>

datatype modal_view = Disable_view | Start_view | Qr_view | Verify_view | Backup_view

definition modal_views :: "two_fa_modal \<Rightarrow> modal_view list" where
  "modal_views m =
     (if \<not> tm_setup m then [Disable_view]
      else (if \<not> js_truthy (tm_qrData m) then [Start_view] else []) @
           (if js_truthy (tm_qrData m) \<and> tm_step m = Qr then [Qr_view] else []) @
           (if tm_step m = Verify then [Verify_view] else []) @
           (if tm_step m = Backup then [Backup_view] else []))"

text \<open>The password form's request; the current password is not part of it.\<close>

definition password_change_body :: "string \<Rightarrow> string \<Rightarrow> json" where
  "password_change_body current new = JObj [(''password'', JStr new)]"

text \<open>Deleting the account: whether the page signs out and leaves.\<close>

definition handleDeleteAccount :: "answer \<Rightarrow> client \<Rightarrow> bool \<times> client" where
  "handleDeleteAccount a c = (case a of Ok_status _ \<Rightarrow> (True, logout c) | _ \<Rightarrow> (False, c))"

section \<open>The contact form\<close>

record contact_form =
  cf_fullName :: string
  cf_email :: string
  cf_phone :: string
  cf_company :: string
  cf_subject :: string
  cf_message :: string

text \<open>\<open>/\S+@\S+\.\S+/\<close>: somewhere a non-blank, an at sign, non-blanks, a dot, a non-blank, no blank within.\<close>

fun dot_follows :: "string \<Rightarrow> bool" where
  "dot_follows [] = False"
| "dot_follows [c] = False"
| "dot_follows (c # d # s) =
     (\<not> is_space c \<and> (d = CHR ''.'' \<and> s \<noteq> [] \<and> \<not> is_space (hd s) \<or> dot_follows (d # s)))"

fun email_shape :: "string \<Rightarrow> bool" where
  "email_shape [] = False"
| "email_shape [c] = False"
| "email_shape (c # d # s) = (\<not> is_space c \<and> d = CHR ''@'' \<and> dot_follows s \<or> email_shape (d # s))"

definition validateForm :: "contact_form \<Rightarrow> (string \<times> string) list" where
  "validateForm f =
     (if trim (cf_fullName f) = [] then [(''fullName'', ''Full name is required'')] else []) @
     (if trim (cf_email f) = [] then [(''email'', ''Email is required'')]
      else if \<not> email_shape (cf_email f) then [(''email'', ''Invalid email format'')] else []) @
     (if trim (cf_subject f) = [] then [(''subject'', ''Subject is required'')] else []) @
     (if trim (cf_message f) = [] then [(''message'', ''Message is required'')]
      else if length (trim (cf_message f)) < 10 then [(''message'', ''Message must be at least 10 characters'')] else [])"

definition contact_form_dto :: "contact_form \<Rightarrow> submit_contact_dto" where
  "contact_form_dto f =
     \<lparr>sc_fullName = cf_fullName f, sc_email = cf_email f, sc_phone = (if cf_phone f = [] then None else Some (cf_phone f)),
      sc_company = (if cf_company f = [] then None else Some (cf_company f)), sc_subject = cf_subject f, sc_message = cf_message f\<rparr>"

section \<open>The boxes\<close>

lemma fill_prefix:
  "n \<le> length xs \<Longrightarrow> n \<le> length ys \<Longrightarrow>
   fold (\<lambda>i otp. otp[i := f (ys ! i)]) [0..<n] xs = map f (take n ys) @ drop n xs"
proof (induction n)
  case (Suc n)
  then have "fold (\<lambda>i otp. otp[i := f (ys ! i)]) [0..<Suc n] xs = (map f (take n ys) @ drop n xs)[n := f (ys ! n)]" by simp
  also have "\<dots> = map f (take n ys) @ (drop n xs)[0 := f (ys ! n)]" using Suc.prems by (simp add: list_update_append)
  also have "(drop n xs)[0 := f (ys ! n)] = f (ys ! n) # drop (Suc n) xs"
    using Suc.prems by (simp add: Cons_nth_drop_Suc [symmetric])
  finally show ?case using Suc.prems by (simp add: take_Suc_conv_app_nth)
qed simp

lemma pasted_code:
  assumes "length (ob_otp b) = 4" "take 4 (filter is_digit clip) = code" "length code = 4"
  shows "ob_otp (handleOtpPaste clip b) = map (\<lambda>c. [c]) code" "otp_code (handleOtpPaste clip b) = code"
proof -
  have c: "concat (map (\<lambda>c. [c]) code) = code" by (induction code) simp_all
  have "fold (\<lambda>i otp. otp[i := [code ! i]]) [0..<4] (ob_otp b) = map (\<lambda>c. [c]) code"
    using fill_prefix [of 4 "ob_otp b" code "\<lambda>c. [c]"] assms by simp
  then show "ob_otp (handleOtpPaste clip b) = map (\<lambda>c. [c]) code"
    using assms(2,3) by (simp add: handleOtpPaste_def Let_def)
  then show "otp_code (handleOtpPaste clip b) = code" by (simp add: otp_code_def c)
qed

lemma boxes_four:
  assumes "length (ob_otp b) = 4"
  shows "length (ob_otp (handleOtpChange i v b)) = 4" "length (ob_otp (handleOtpKeyDown i d b)) = 4"
    "length (ob_otp (handleOtpPaste t b)) = 4"
proof -
  have "length (fold (\<lambda>i otp. otp[i := f i]) is xs) = length xs" for f :: "nat \<Rightarrow> string" and "is" xs
    by (induction "is" arbitrary: xs) simp_all
  then show "length (ob_otp (handleOtpPaste t b)) = 4" using assms by (simp add: handleOtpPaste_def Let_def)
qed (simp_all add: assms handleOtpChange_def handleOtpKeyDown_def)

section \<open>A password recovered\<close>

lemma message_reply_ok: "message_reply m (Inr (), w) = (Ok_status (Some (JObj [(''message'', JStr m)])), w)"
  by (simp add: message_reply_def)

lemma find_user_unique:
  assumes "u \<in> set (users w)" "soft_hidden env \<longrightarrow> u_deletedAt u = None" "P u"
    "\<And>v. v \<in> set (users w) \<Longrightarrow> P v \<Longrightarrow> v = u"
  shows "find_user env P w = Some u"
proof (cases "find_user env P w")
  case None
  then show ?thesis using assms(1-3) by (auto simp: find_user_def find_one_None_iff)
next
  case (Some v)
  then show ?thesis using find_userD [OF Some] assms(4) by blast
qed

definition with_reset_code :: "env \<Rightarrow> auth_env \<Rightarrow> user \<Rightarrow> user" where
  "with_reset_code env ae u =
     u\<lparr>u_passwordResetCode := Some (generateVerificationCode ae 4), u_passwordResetCodeExpiresAt := Some (ten_minutes env)\<rparr>"

lemma forgot_mails_code:
  assumes "find_user env (\<lambda>u. u_email u = mailbox) w = Some u" "u_password u \<noteq> None" "isEmail mailbox" "mailbox \<noteq> []" "mail_queue_up ae"
  shows "post_forgot_password env ae isEmail (forgot_body mailbox) w =
    (Ok_status (Some (JObj [(''message'', JStr ''An Otp Code has been sent to your Email'')])),
     emit (Mail PasswordResetMail mailbox) (w\<lparr>users := save_row u_id (with_reset_code env ae u) (users w)\<rparr>))"
proof -
  have "requestResetPasswordOtp env ae mailbox w =
      (Inr (), emit (Mail PasswordResetMail mailbox) (w\<lparr>users := save_row u_id (with_reset_code env ae u) (users w)\<rparr>))"
    using assms find_userD [OF assms(1)]
    by (simp add: requestResetPasswordOtp_def with_reset_code_def save_user_def then_do_def send_critical_def)
  then show ?thesis
    using assms(3,4) by (simp add: post_forgot_password_def forgot_body_def whitelisted_def email_field_def string_field_def field_JObj
      message_reply_ok)
qed

lemma verify_accepts:
  assumes "find_user env (\<lambda>u. u_email u = mailbox) w = Some u" "u_passwordResetCode u = Some code"
    "u_passwordResetCodeExpiresAt u = Some t" "now env \<le> t" "u_password u \<noteq> None" "isEmail mailbox" "mailbox \<noteq> []" "code \<noteq> []"
    "rc_submittedEmail p = mailbox" "otp_code (rc_boxes p) = code"
  shows "post_verify_reset_otp env isEmail (verify_reset_body p) w =
    (Ok_status (Some (JObj [(''message'', JStr ''OTP verified successfully'')])), w\<lparr>users := save_row u_id u (users w)\<rparr>)"
proof -
  have "verifyResetPasswordOtp env mailbox code w = (Inr (), w\<lparr>users := save_row u_id u (users w)\<rparr>)"
    using assms(1-8) by (simp add: verifyResetPasswordOtp_def code_expired_def save_user_def)
  then show ?thesis
    using assms(6-10) by (simp add: post_verify_reset_otp_def verify_reset_body_def whitelisted_def email_field_def filled_field_def
      string_field_def field_JObj message_reply_ok)
qed

lemma reset_accepts:
  assumes "find_user env (\<lambda>u. u_passwordResetCode u = Some code) w = Some u" "u_passwordResetCodeExpiresAt u = Some t" "now env \<le> t"
    "reset_schema pw pw" "checkPassword ae pw = Inr ()" "rc_verifiedOtp p = code" "code \<noteq> []"
  shows "post_reset_password env ae (reset_body pw pw p) w =
    (Ok_status (Some (JObj [(''message'', JStr ''Password reset successfully'')])),
     w\<lparr>users := save_row u_id (reset_user env pw u) (users w)\<rparr>)"
proof -
  have "reset_password_of_json (reset_body pw pw p) = Some \<lparr>rp_otp = code, rp_newPassword = pw, rp_confirmNewPassword = pw\<rparr>"
    using assms(4,6,7) by (auto simp: reset_password_of_json_def reset_body_def whitelisted_def filled_field_def string_field_def
      field_JObj reset_schema_def)
  moreover have "resetPassword env ae \<lparr>rp_otp = code, rp_newPassword = pw, rp_confirmNewPassword = pw\<rparr> w =
      (Inr (), w\<lparr>users := save_row u_id (reset_user env pw u) (users w)\<rparr>)"
    using assms(1-5) by (simp add: resetPassword_def code_expired_def isValidPassword_def reset_schema_def check_that_def save_user_def
      reset_user_def)
  ultimately show ?thesis by (simp add: post_reset_password_def message_reply_ok)
qed



lemma save_row_same:
  assumes "distinct (map key rows)" "r \<in> set rows"
  shows "save_row key r rows = rows"
proof -
  have "(if key x = key r then r else x) = x" if "x \<in> set rows" for x
    using find_one_key [OF assms] find_one_key [OF assms(1) that] by auto
  then show ?thesis using assms(2) by (simp add: save_row_def map_idI)
qed

text \<open>
  the wizard proves who it is to with mailbox and code, the reset asks for the code alone: where
  another account stands first with the same code, that account gets the password.
\<close>

theorem reset_changes_first_holder:
  fixes env ae isEmail w p mailbox code pw u x
  defines "r2 \<equiv> post_verify_reset_otp env isEmail (verify_reset_body p) w"
  defines "p3 \<equiv> onVerifyOtp (fst r2) p"
  defines "r3 \<equiv> post_reset_password env ae (reset_body pw pw p3) (snd r2)"
  assumes "uniq_keys u_id (users w)" "find_user env (\<lambda>u. u_email u = mailbox) w = Some u" "u_passwordResetCode u = Some code"
    "u_passwordResetCodeExpiresAt u = Some t" "now env \<le> t" "u_password u \<noteq> None"
    and "rc_submittedEmail p = mailbox" "otp_code (rc_boxes p) = code" "length code = 4" "isEmail mailbox" "mailbox \<noteq> []"
    and "find_user env (\<lambda>u. u_passwordResetCode u = Some code) w = Some x" "u_passwordResetCodeExpiresAt x = Some t'" "now env \<le> t'"
    "u_id x \<noteq> u_id u" and "reset_schema pw pw" "checkPassword ae pw = Inr ()"
  shows "rc_step (onResetPassword pw pw (fst r3) p3) = Success_step \<and> u \<in> set (users (snd r3)) \<and>
    reset_user env pw x \<in> set (users (snd r3))"
proof -
  have "r2 = (Ok_status (Some (JObj [(''message'', JStr ''OTP verified successfully'')])), w\<lparr>users := save_row u_id u (users w)\<rparr>)"
    unfolding r2_def by (rule verify_accepts [OF assms(5-9)]) (use assms(10-14) in auto)
  then have r2: "r2 = (Ok_status (Some (JObj [(''message'', JStr ''OTP verified successfully'')])), w)"
    using assms(4) find_userD [OF assms(5)] by (simp add: uniq_keys_def save_row_same)
  then have p3: "rc_verifiedOtp p3 = code"
    using assms(11,12) by (simp add: p3_def onVerifyOtp_def api_call_def)
  have r3: "r3 = (Ok_status (Some (JObj [(''message'', JStr ''Password reset successfully'')])),
      w\<lparr>users := save_row u_id (reset_user env pw x) (users w)\<rparr>)"
    unfolding r3_def r2 snd_conv by (rule reset_accepts [OF assms(15-17) assms(19,20) p3]) (use assms(12) in auto)
  have "u \<in> set (users w)" using find_userD [OF assms(5)] by blast
  then show ?thesis using r3 assms(18,19) by (simp add: onResetPassword_def api_call_def set_save_row reset_user_def)
qed

lemma sample_code: "generateVerificationCode sample_auth 4 = ''5500''"
proof -
  have "fl_of_nat 9000 = (9000, 0)" by (rule fl_of_nat_exact) simp
  moreover have "nbits 9000 - 53 = 0" using nbits_le [of 9000 53] by simp
  ultimately have "generateVerificationCode sample_auth 4 = nat_str 5500"
    by (simp add: generateVerificationCode_def Let_def sample_auth_def fl_mult_def fl_round_def fl_floor_def round_half_even_def)
  moreover have "digit_char 5 = CHR ''5''" "digit_char 0 = CHR ''0''" by (code_simp, code_simp)
  ultimately show ?thesis by (simp add: nat_str.simps)
qed


theorem reset_changes_first_holder_witness:
  "let p = new_recovery\<lparr>rc_step := Otp_step, rc_submittedEmail := ''bob@nova'', rc_boxes := handleOtpPaste ''7700'' empty_boxes\<rparr>;
       w = sample_registered\<lparr>users := (sample_ada\<lparr>u_passwordResetCode := Some ''7700'', u_passwordResetCodeExpiresAt := Some 99\<rparr>) # [sample_new_user]\<rparr>;
       r2 = post_verify_reset_otp (auth_time 8 ''t2'') (\<lambda>_. True) (verify_reset_body p) w;
       p3 = onVerifyOtp (fst r2) p;
       r3 = post_reset_password (auth_time 8 ''t2'') sample_auth (reset_body ''Secret12'' ''Secret12'' p3) (snd r2)
   in sample_new_user \<in> set (users (snd r3))"
proof -
  let ?x = "sample_ada\<lparr>u_passwordResetCode := Some ''7700'', u_passwordResetCodeExpiresAt := Some 99\<rparr>"
  let ?w = "sample_registered\<lparr>users := ?x # [sample_new_user]\<rparr>"
  let ?p = "new_recovery\<lparr>rc_step := Otp_step, rc_submittedEmail := ''bob@nova'', rc_boxes := handleOtpPaste ''7700'' empty_boxes\<rparr>"
  let ?e = "auth_time 8 ''t2''"
  have u: "uniq_keys u_id (users ?w)" "find_user ?e (\<lambda>u. u_email u = ''bob@nova'') ?w = Some sample_new_user"
      "u_passwordResetCode sample_new_user = Some ''7700''" "u_passwordResetCodeExpiresAt sample_new_user = Some 600000"
      "now ?e \<le> 600000" "u_password sample_new_user \<noteq> None"
    by (simp_all add: uniq_keys_def sample_ada_def sample_user_def sample_new_user_def find_user_def auth_time_def)
  have p: "rc_submittedEmail ?p = ''bob@nova''" "otp_code (rc_boxes ?p) = ''7700''" "length ''7700'' = 4"
    by (simp, code_simp, simp)
  have x: "find_user ?e (\<lambda>u. u_passwordResetCode u = Some ''7700'') ?w = Some ?x" "u_passwordResetCodeExpiresAt ?x = Some 99" "now ?e \<le> 99"
      "u_id ?x \<noteq> u_id sample_new_user"
    by (simp_all add: sample_ada_def sample_user_def sample_new_user_def find_user_def auth_time_def sample_env_def)
  have s: "reset_schema ''Secret12'' ''Secret12''" "checkPassword sample_auth ''Secret12'' = Inr ()" by (code_simp, code_simp)
  show ?thesis unfolding Let_def
    by (rule reset_changes_first_holder [OF u p _ _ x s, THEN conjunct2, THEN conjunct1]) simp_all
qed

text \<open>
  on the login page the second factor cannot be reached.
\<close>

theorem login_page_stops_at_second_factor:
  fixes env ae isEmail zod_email print mailbox pw remember w redirect c r
  defines "a \<equiv> fst (post_login env ae isEmail print (login_form_body mailbox pw remember) w)"
  assumes "login env ae mailbox pw w = (Inr r, w')"
    "(\<exists>t. r = RequiresTwoFactor t \<and> t \<noteq> [] \<and> url = ''/verify-2fa?tempToken='' @ encodeURIComponent t @ ''&email='' @ encodeURIComponent mailbox) \<or>
     (\<exists>x. r = EmailNotVerified x \<and> url = ''/verify-otp?email='' @ encodeURIComponent mailbox)"
    and "isEmail mailbox" "zod_email mailbox" "mailbox \<noteq> []" "8 \<le> length pw"
  shows "login_page_submit zod_email mailbox pw a redirect c =
      (Some (Shows ''Something went wrong. Please try again.''), loading False (loading True c)) \<and>
    useLoginUser a mailbox redirect c = (Goes_to url, loading False (loading True c))"
proof -
  have a: "a = Ok_status (Some (login_body print r))"
    using assms(2,4,6,7) by (auto simp: a_def post_login_def login_form_body_def whitelisted_def email_field_def filled_field_def
      string_field_def optional_field_def field_JObj)
  from assms(3) show ?thesis
  proof (elim disjE exE conjE)
    fix t assume t: "r = RequiresTwoFactor t" "t \<noteq> []" "url = ''/verify-2fa?tempToken='' @ encodeURIComponent t @ ''&email='' @ encodeURIComponent mailbox"
    have "store_login a mailbox c = (Some (Two_factor_required (Some (JStr t)) mailbox), loading False (loading True c))"
      using t(2) by (simp add: a t(1) store_login_def login_body_def api_call_def field_JObj js_truthy_def)
    then show ?thesis using assms(5,7) t(3)
      by (simp add: login_page_submit_def login_schema_def useLogin_def useLoginUser_def query_text_def)
  next
    fix x assume x: "r = EmailNotVerified x" "url = ''/verify-otp?email='' @ encodeURIComponent mailbox"
    have "\<exists>m. store_login a mailbox c = (Some (Unverified mailbox m), loading False (loading True c))"
      by (simp add: a x(1) store_login_def login_body_def api_call_def field_JObj js_truthy_def)
    then show ?thesis using assms(5,7) x(2)
      by (auto simp: login_page_submit_def login_schema_def useLogin_def useLoginUser_def)
  qed
qed

theorem login_page_stops_at_second_factor_witness:
  "login_page_submit (\<lambda>_. True) ''bob@nova'' ''Passw0rd''
     (fst (post_login (auth_time 7 ''t1'') sample_auth (\<lambda>_. True) (\<lambda>_. JNull) (login_form_body ''bob@nova'' ''Passw0rd'' False) sample_2fa))
     None new_client = (Some (Shows ''Something went wrong. Please try again.''), loading False (loading True new_client))"
proof -
  let ?r = "login (auth_time 7 ''t1'') sample_auth ''bob@nova'' ''Passw0rd'' sample_2fa"
  have "(case fst ?r of Inr (RequiresTwoFactor t) \<Rightarrow> t \<noteq> [] | _ \<Rightarrow> False)" by code_simp
  then obtain t where r: "?r = (Inr (RequiresTwoFactor t), snd ?r)" "t \<noteq> []"
    by (auto simp: prod_eq_iff split: sum.splits login_result.splits)
  show ?thesis by (rule login_page_stops_at_second_factor [OF r(1), THEN conjunct1]) (use r(2) in auto)
qed

text \<open>
  C28: the two-factor dialog
\<close>

theorem two_factor_dialog_locks_out:
  fixes env ae k w u qr q0
  defines "q \<equiv> (case api_call (get_2fa_status env k w) of Inl _ \<Rightarrow> None | Inr s \<Rightarrow> Some s)"
  defines "r \<equiv> post_2fa_setup env ae k w"
  defines "m \<equiv> handleStartSetup (fst r) (open_modal q)"
  assumes "find_user env (\<lambda>u. u_id u = k) w = Some u" "u_password u \<noteq> None" "uniq_keys u_id (users w)"
    "otpauth_qr ae ''NovaLabs'' (u_email u) (totp_secret ae) = Inr qr"
  shows "\<not> twoFaEnabled q \<and> modal_views m = [Start_view] \<and>
    find_user env (\<lambda>u. u_id u = k) (snd r) = Some (u\<lparr>u_totpSecret := Some (totp_secret ae)\<rparr>) \<and>
    (\<forall>token tempToken. pending_user env ae tempToken (snd r) = Inr (find_user env (\<lambda>u. u_id u = k) (snd r)) \<and>
       \<not> totp_verify ae token (totp_secret ae) \<longrightarrow> (\<exists>e. verifyTotpLogin env ae token tempToken (snd r) = Inl (Unauthorized e)))"
proof -
  let ?w = "w\<lparr>users := save_row u_id (u\<lparr>u_totpSecret := Some (totp_secret ae)\<rparr>) (users w)\<rparr>"
  have q: "\<not> twoFaEnabled q"
    using assms(4) by (simp add: q_def get_2fa_status_def get2faStatus_def api_call_def twoFaEnabled_def opt_get_def js_get_def
      nullish_def js_truthy_def)
  have i: "initiate2faSetup env ae k w = (Inr (totp_secret ae, qr), ?w)"
    using assms(4,5,7) by (auto simp: initiate2faSetup_def then_do_def save_user_def)
  then have r: "r = (Ok_status (Some (JObj [(''secret'', JStr (totp_secret ae)), (''qrCodeDataUrl'', JStr qr)])), ?w)"
    by (simp add: r_def post_2fa_setup_def)
  have "modal_views m = [Start_view]"
    using q by (simp add: m_def r handleStartSetup_def api_call_def js_get_def open_modal_def modal_views_def js_truthy_def)
  moreover have "find_user env (\<lambda>u. u_id u = k) ?w = Some (u\<lparr>u_totpSecret := Some (totp_secret ae)\<rparr>)"
    using find_user_saved [OF assms(6,4), of "u\<lparr>u_totpSecret := Some (totp_secret ae)\<rparr>" ?w env] find_userD [OF assms(4)] by simp
  moreover have "\<exists>e. verifyTotpLogin env ae token tempToken ?w = Inl (Unauthorized e)"
    if "pending_user env ae tempToken ?w = Inr (find_user env (\<lambda>u. u_id u = k) ?w)" "\<not> totp_verify ae token (totp_secret ae)"
    for token tempToken
    using setup_replaces_secret [OF i assms(6,4,5) that] by blast
  ultimately show ?thesis using q r by simp
qed

theorem two_factor_dialog_locks_out_witness:
  "modal_views (handleStartSetup (fst (post_2fa_setup (auth_time 7 ''t1'') sample_auth ''bob'' sample_2fa))
     (open_modal (case api_call (get_2fa_status (auth_time 7 ''t1'') ''bob'' sample_2fa) of Inl _ \<Rightarrow> None | Inr s \<Rightarrow> Some s))) = [Start_view]"
proof -
  let ?u = "sample_new_user\<lparr>u_isVerified := True, u_twoFactorEnabled := True, u_totpSecret := Some ''secret'',
        u_totpBackupCodes := Some [''code1'', ''code2'']\<rparr>"
  have "find_user (auth_time 7 ''t1'') (\<lambda>u. u_id u = ''bob'') sample_2fa = Some ?u" "u_password ?u \<noteq> None"
      "otpauth_qr sample_auth ''NovaLabs'' (u_email ?u) (totp_secret sample_auth) = Inr (totp_secret sample_auth)"
    by (simp_all add: find_user_def sample_2fa_def sample_world_def sample_user_def sample_new_user_def auth_time_def sample_auth_def)
  moreover have "uniq_keys u_id (users sample_2fa)" by code_simp
  ultimately show ?thesis using two_factor_dialog_locks_out by blast
qed

section \<open>Boxes, passwords, names\<close>

text \<open>Typing the four digits of a code, or pasting them, gives the same boxes and the same focus.\<close>

lemma typed_is_pasted:
  assumes "length (ob_otp b) = 4" "list_all is_digit [c1, c2, c3, c4]"
  shows "handleOtpChange 3 [c4] (handleOtpChange 2 [c3] (handleOtpChange 1 [c2] (handleOtpChange 0 [c1] b))) =
    handleOtpPaste [c1, c2, c3, c4] b"
proof -
  from assms(1) obtain x1 x2 x3 x4 where "ob_otp b = [x1, x2, x3, x4]" by (auto simp: length_Suc_conv numeral_eq_Suc)
  with assms(2) show ?thesis
    by (simp add: handleOtpChange_def handleOtpPaste_def upt_rec numeral_eq_Suc)
qed

text \<open>A letter leaves the boxes as they are.\<close>

lemma letters_ignored: "\<not> list_all is_digit v \<Longrightarrow> handleOtpChange i v b = b"
  by (simp add: handleOtpChange_def)

text \<open>The resend waits for the cooldown, which a minute's ticks end.\<close>

lemma cooldown_ends: "rc_cooldown ((cooldown_tick ^^ n) p) = rc_cooldown p - n"
  by (induction n) (auto simp: cooldown_tick_def)

lemma resend_after_minute:
  assumes "rc_cooldown p = 60" "rc_submittedEmail p \<noteq> []"
  shows "resend_sent ((cooldown_tick ^^ n) p) \<longleftrightarrow> 60 \<le> n"
proof -
  have "rc_submittedEmail ((cooldown_tick ^^ n) p) = rc_submittedEmail p"
    by (induction n) (simp_all add: cooldown_tick_def)
  then show ?thesis using assms cooldown_ends [of n p] by (auto simp: resend_sent_def)
qed

lemma strength_bounds:
  "fst (calculatePasswordStrength s) \<le> 100"
  "reset_schema s s \<Longrightarrow> 70 \<le> fst (calculatePasswordStrength s)"
  "reset_page_schema s s \<Longrightarrow> calculatePasswordStrength s = (100, ''Strong'')"
  by (auto simp: calculatePasswordStrength_def Let_def reset_schema_def reset_page_schema_def)

text \<open>What the reset page accepts the wizard and the backend accept too.\<close>

lemma schemas_nested:
  "reset_page_schema s t \<Longrightarrow> reset_schema s t"
  "reset_schema s t \<longleftrightarrow> isValidPassword s \<and> s = t"
  by (auto simp: reset_page_schema_def reset_schema_def isValidPassword_def)

text \<open>A full name of one word, which the page takes, is refused: the last name is empty.\<close>

lemma one_word_name_refused:
  assumes "CHR '' '' \<notin> set (trim (pi_fullName p))"
  shows "post_register env ae isEmail print (register_payload p a) w = (error_answer (BadRequest ''Bad Request''), w)"
    "fst (useRegisterUser (fst (post_register env ae isEmail print (register_payload p a) w)) mailbox c) = Shows ''Error creating user''"
proof -
  have "split_on (CHR '' '') s = [s]" if "CHR '' '' \<notin> set s" for s
    using that by (induction s) auto
  then have "filled_field ''lastname'' (register_payload p a) = None"
    using assms by (simp add: register_payload_def filled_field_def string_field_def field_JObj join_spaces_def)
  then have "create_user_of_json isEmail (register_payload p a) = None"
    by (simp add: create_user_of_json_def split: bool.splits option.splits)
  then show r: "post_register env ae isEmail print (register_payload p a) w = (error_answer (BadRequest ''Bad Request''), w)"
    by (simp add: post_register_def)
  show "fst (useRegisterUser (fst (post_register env ae isEmail print (register_payload p a) w)) mailbox c) = Shows ''Error creating user''"
    by (simp add: r useRegisterUser_def store_register_def api_call_error Let_def)
qed

text \<open>Deleting the own account fails for everyone but an administrator, and the page stays signed in.\<close>

lemma member_cannot_delete_account:
  "\<not> isAdminLike (ac_role ac) \<Longrightarrow> delete_user k ac w = (error_answer (Forbidden ''Only administrators can delete user accounts''), w)"
  "\<not> isAdminLike (ac_role ac) \<Longrightarrow> handleDeleteAccount (fst (delete_user k ac w)) c = (False, c)"
  by (simp_all add: delete_user_def deleteUser_def handleDeleteAccount_def error_answer_def)

text \<open>The contact page counts the blanks within a message, the backend does not.\<close>

lemma contact_page_counts_blanks:
  "validateForm \<lparr>cf_fullName = ''Ada'', cf_email = ''ada@nova.ng'', cf_phone = [], cf_company = [], cf_subject = ''Desk'',
     cf_message = ''Any     ?!''\<rparr> = [] \<and>
   \<not> contact_valid isEmail (sanitize_contact (contact_form_dto
       \<lparr>cf_fullName = ''Ada'', cf_email = ''ada@nova.ng'', cf_phone = [], cf_company = [], cf_subject = ''Desk'', cf_message = ''Any     ?!''\<rparr>))"
proof -
  have "SanitizeString ''Any     ?!'' = ''Any ?!''" by code_simp
  then show ?thesis by (intro conjI, code_simp) (simp add: contact_valid_def sanitize_contact_def contact_form_dto_def)
qed

section \<open>Verifying the address, the second factor, the mailed link\<close>

record verify_page =
  vp_email :: string
  vp_boxes :: otp_boxes
  vp_countdown :: nat

text \<open>\<open>error.message || fallback\<close>.\<close>

definition error_text :: "string \<Rightarrow> client_error \<Rightarrow> string" where
  "error_text fallback e = (case e of Api_error m \<Rightarrow> if m = [] then fallback else m | _ \<Rightarrow> fallback)"

definition verify_body :: "verify_page \<Rightarrow> json" where
  "verify_body p = JObj [(''email'', JStr (vp_email p)), (''otp'', JStr (otp_code (vp_boxes p)))]"

definition handleVerify :: "answer \<Rightarrow> verify_page \<Rightarrow> client \<Rightarrow> login_outcome \<times> client" where
  "handleVerify a p c =
     (if length (otp_code (vp_boxes p)) \<noteq> 4 then (Shows ''Please enter the full 4-digit code'', c)
      else case api_call a of
        Inl e \<Rightarrow> (Shows (error_text ''Invalid or expired OTP'' e), c)
      | Inr r \<Rightarrow>
          (case (case js_get ''tokens'' (Some r) of Some tk \<Rightarrow> js_get ''accessToken'' tk | None \<Rightarrow> None) of
             None \<Rightarrow> (Shows ''Cannot read properties of undefined'', c)
           | Some t \<Rightarrow>
               (Goes_to (if js_get ''hasCompletedOnboarding'' (field ''user'' r) = Some (Some (JBool False)) then ''/onboarding'' else ''/dashboard''),
                adopt_session (field ''user'' r) t c)))"

definition handleResend :: "answer \<Rightarrow> verify_page \<Rightarrow> verify_page" where
  "handleResend a p =
     (if 0 < vp_countdown p then p
      else case api_call a of Inl _ \<Rightarrow> p | Inr _ \<Rightarrow> p\<lparr>vp_countdown := 60, vp_boxes := empty_boxes\<rparr>)"

definition post_verify_otp ::
  "env \<Rightarrow> auth_env \<Rightarrow> (string \<Rightarrow> bool) \<Rightarrow> (user_response \<Rightarrow> json) \<Rightarrow> json \<Rightarrow> world \<Rightarrow> answer \<times> world" where
  "post_verify_otp env ae isEmail print body w =
     (case (whitelisted [''email'', ''otp''] body, email_field isEmail body, filled_field ''otp'' body) of
        (True, Some m, Some code) \<Rightarrow>
          (case verifyOtp env ae m code w of
             (Inl e, w') \<Rightarrow> (error_answer e, w')
           | (Inr (u, tp), w') \<Rightarrow>
               (Ok_status (Some (JObj [(''message'', JStr ''Email verified successfully''), (''user'', print u),
                  (''tokens'', JObj [(''accessToken'', JStr (tp_accessToken tp)), (''refreshToken'', JStr (tp_refreshToken tp))])])), w'))
      | _ \<Rightarrow> (error_answer (BadRequest ''Bad Request''), w))"

definition post_resend_otp :: "env \<Rightarrow> auth_env \<Rightarrow> (string \<Rightarrow> bool) \<Rightarrow> json \<Rightarrow> world \<Rightarrow> answer \<times> world" where
  "post_resend_otp env ae isEmail body w =
     (case if whitelisted [''email''] body then email_field isEmail body else None of
        None \<Rightarrow> (error_answer (BadRequest ''Bad Request''), w)
      | Some m \<Rightarrow> message_reply ''An Otp Code has been sent to your Email'' (resendVerificationOtp env ae m w))"

definition second_factor_submit :: "string \<Rightarrow> answer \<Rightarrow> client \<Rightarrow> login_outcome option \<times> client" where
  "second_factor_submit code a c =
     (if trim code = [] then (None, c)
      else case api_call a of
        Inl e \<Rightarrow> (Some (Shows (error_text ''Invalid code. Please try again.'' e)), c)
      | Inr r \<Rightarrow>
          (case js_get ''accessToken'' (Some r) of
             None \<Rightarrow> (Some (Shows ''Cannot read properties of null''), c)
           | Some t \<Rightarrow> (Some (Goes_to ''/dashboard''), adopt_session (field ''user'' r) t c)))"

definition session_json :: "user \<Rightarrow> token_pair \<Rightarrow> (string \<times> json) list" where
  "session_json u tp =
     [(''user'', JObj [(''id'', JStr (u_id u)), (''email'', JStr (u_email u)), (''role'', JStr (role_string (u_role u)))]),
      (''accessToken'', JStr (tp_accessToken tp)), (''refreshToken'', JStr (tp_refreshToken tp))]"

definition post_2fa_verify :: "env \<Rightarrow> auth_env \<Rightarrow> json \<Rightarrow> world \<Rightarrow> answer" where
  "post_2fa_verify env ae body w =
     (case (whitelisted [''token'', ''tempToken''] body, string_field ''token'' body, string_field ''tempToken'' body) of
        (True, Some t, Some temp) \<Rightarrow>
          (case verifyTotpLogin env ae t temp w of Inl e \<Rightarrow> error_answer e | Inr (u, tp) \<Rightarrow> Ok_status (Some (JObj (session_json u tp))))
      | _ \<Rightarrow> error_answer (BadRequest ''Bad Request''))"

definition post_2fa_backup :: "env \<Rightarrow> auth_env \<Rightarrow> json \<Rightarrow> world \<Rightarrow> answer \<times> world" where
  "post_2fa_backup env ae body w =
     (case (whitelisted [''backupCode'', ''tempToken''] body, string_field ''backupCode'' body, string_field ''tempToken'' body) of
        (True, Some code, Some temp) \<Rightarrow>
          (case verifyBackupCode env ae code temp w of
             (Inl e, w') \<Rightarrow> (error_answer e, w')
           | (Inr (u, tp, n), w') \<Rightarrow>
               (Ok_status (Some (JObj (session_json u tp @ [(''backupCodesRemaining'', JNum (nat_str n))]))), w'))
      | _ \<Rightarrow> (error_answer (BadRequest ''Bad Request''), w))"

text \<open>The mailed link's page: whether it shows its success, and the message it shows otherwise.\<close>

definition reset_page_submit :: "string option \<Rightarrow> string \<Rightarrow> string \<Rightarrow> answer \<Rightarrow> bool \<times> string option" where
  "reset_page_submit token password confirmPassword a =
     (if \<not> reset_page_schema password confirmPassword then (False, None)
      else if blank token then (False, Some ''Missing reset token. Please use the link from your email.'')
      else case api_call a of
        Inl (Api_error m) \<Rightarrow> (False, Some m)
      | Inl _ \<Rightarrow> (False, Some ''Failed to reset password'')
      | Inr _ \<Rightarrow> (True, None))"

text \<open>Switching the second factor off: whether the dialog closes.\<close>

definition handleDisable :: "answer \<Rightarrow> bool" where
  "handleDisable a = (case api_call a of Inl _ \<Rightarrow> False | Inr _ \<Rightarrow> True)"

definition post_2fa_disable :: "env \<Rightarrow> uuid \<Rightarrow> json \<Rightarrow> world \<Rightarrow> answer \<times> world" where
  "post_2fa_disable env userId body w =
     (case (whitelisted [''password''] body, string_field ''password'' body) of
        (True, Some pw) \<Rightarrow> message_reply ''2FA has been disabled'' (disable2fa env userId pw w)
      | _ \<Rightarrow> (error_answer (BadRequest ''Bad Request''), w))"

text \<open>A code accepted opens a session in the browser, on both pages.\<close>

lemma verification_signs_in:
  assumes "verifyOtp env ae (vp_email p) (otp_code (vp_boxes p)) w = (Inr (u, tp), w')" "length (otp_code (vp_boxes p)) = 4"
    "isEmail (vp_email p)" "vp_email p \<noteq> []" "js_truthy (Some (print u))"
  shows "\<exists>url. fst (handleVerify (fst (post_verify_otp env ae isEmail print (verify_body p) w)) p c) = Goes_to url"
    "in_session (print u) (tp_accessToken tp) (snd (handleVerify (fst (post_verify_otp env ae isEmail print (verify_body p) w)) p c))"
proof -
  have "otp_code (vp_boxes p) \<noteq> []" using assms(2) by auto
  then have a: "fst (post_verify_otp env ae isEmail print (verify_body p) w) =
      Ok_status (Some (JObj [(''message'', JStr ''Email verified successfully''), (''user'', print u),
        (''tokens'', JObj [(''accessToken'', JStr (tp_accessToken tp)), (''refreshToken'', JStr (tp_refreshToken tp))])]))"
    using assms(1,3,4) by (simp add: post_verify_otp_def verify_body_def whitelisted_def email_field_def filled_field_def
      string_field_def field_JObj)
  show "\<exists>url. fst (handleVerify (fst (post_verify_otp env ae isEmail print (verify_body p) w)) p c) = Goes_to url"
    "in_session (print u) (tp_accessToken tp) (snd (handleVerify (fst (post_verify_otp env ae isEmail print (verify_body p) w)) p c))"
    using adopt_session_in_session [OF assms(5), of "tp_accessToken tp" c]
    by (simp_all add: a handleVerify_def assms(2) api_call_def js_get_def field_JObj)
qed

lemma second_factor_signs_in:
  fixes env ae code temp w c
  assumes "verifyTotpLogin env ae (trim code) temp w = Inr (u, tp)" "trim code \<noteq> []"
  defines "r \<equiv> second_factor_submit code (post_2fa_verify env ae (second_factor_body True code temp) w) c"
  shows "fst r = Some (Goes_to ''/dashboard'')" "\<exists>user. in_session user (tp_accessToken tp) (snd r)"
proof -
  have a: "post_2fa_verify env ae (second_factor_body True code temp) w = Ok_status (Some (JObj (session_json u tp)))"
    using assms(1) by (simp add: post_2fa_verify_def second_factor_body_def whitelisted_def string_field_def field_JObj)
  show "fst r = Some (Goes_to ''/dashboard'')"
    by (simp add: r_def a second_factor_submit_def assms(2) api_call_def js_get_def session_json_def)
  have "js_truthy (Some (JObj [(''id'', JStr (u_id u)), (''email'', JStr (u_email u)), (''role'', JStr (role_string (u_role u)))]))"
    by (simp add: js_truthy_def)
  from adopt_session_in_session [OF this, of "tp_accessToken tp" c]
  show "\<exists>user. in_session user (tp_accessToken tp) (snd r)"
    by (auto simp: r_def a second_factor_submit_def assms(2) api_call_def js_get_def session_json_def field_JObj)
qed

text \<open>The button wants six characters, of which the blanks at the ends are not sent.\<close>

lemma padded_code_sent_short: "second_factor_ready True '' 12345'' \<and> length (trim '' 12345'') = 5"
  by code_simp

end
