(* ===== verification/Services.thy ===== *)
theory Services
  imports Web_Auth Soroban
begin

text \<open>
  The services behind the application: where secrets come from (\<open>config/secrets\<close>: the environment,
  Doppler, Vault and AWS Secrets Manager, with their caches and fallbacks), the counters of the metrics
  service (\<open>metrics/metrics.service.ts\<close>) and the in-memory Soroban network
  (\<open>payments/providers/fake-soroban-rpc.client.ts\<close>).

  The HTTP client and the AWS SDK are parameters: functions from a request to an answer or an error.
  \<open>process.env\<close> is what \<open>ConfigService\<close> reads. A fetch reads the clock twice, at its start and when
  the answer has arrived.
\<close>

section \<open>Numbers read from text\<close>

text \<open>
  \<open>Number(s)\<close> for a text that starts with a digit: a decimal with an optional fraction and exponent.
  Only such texts occur here, as the clock's digits come first.
\<close>

definition ten_to :: "int \<Rightarrow> rat" where
  "ten_to k = (if 0 \<le> k then 10 ^ nat k else 1 / 10 ^ nat (- k))"

definition exponent_of :: "string \<Rightarrow> int option" where
  "exponent_of r =
     (case r of
        [] \<Rightarrow> Some 0
      | c # x \<Rightarrow>
          if c = CHR ''e'' \<or> c = CHR ''E''
          then (let sign = (if x \<noteq> [] \<and> hd x = CHR ''-'' then - 1 else 1);
                    ds = (if x \<noteq> [] \<and> (hd x = CHR ''-'' \<or> hd x = CHR ''+'') then tl x else x)
                in if ds \<noteq> [] \<and> list_all is_digit ds then Some (sign * int (num_of ds)) else None)
          else None)"

definition decimal_text :: "string \<Rightarrow> rat option" where
  "decimal_text s =
     (let u = trim s; ip = takeWhile is_digit u; r1 = dropWhile is_digit u;
          fp = (case r1 of c # r \<Rightarrow> if c = CHR ''.'' then takeWhile is_digit r else [] | [] \<Rightarrow> []);
          r2 = (case r1 of c # r \<Rightarrow> if c = CHR ''.'' then dropWhile is_digit r else r1 | [] \<Rightarrow> [])
      in if ip = [] then None
         else map_option (\<lambda>e. of_nat (num_of (ip @ fp)) * ten_to (e - int (length fp))) (exponent_of r2))"

section \<open>The cache\<close>

text \<open>A bundle of secrets; the value is any JSON value, as a download may hold any.\<close>

type_synonym secrets = "string \<Rightarrow> json option"

record secret_cache =
  ca_secrets :: "secrets option"
  ca_expiresAt :: "rat option"

definition empty_cache :: secret_cache where
  "empty_cache = \<lparr>ca_secrets = None, ca_expiresAt = Some 0\<rparr>"

text \<open>\<open>configService.get<number>(k) ?? 300_000\<close>: a variable that is set is a text all the same.\<close>

definition cache_expiry_ms :: "env \<Rightarrow> string \<Rightarrow> string + int" where
  "cache_expiry_ms env k = (case config env k of None \<Rightarrow> Inr 300000 | Some s \<Rightarrow> Inl s)"

text \<open>\<open>Date.now() + this.cacheExpiryMs\<close>: a sum, or a concatenation that is compared as a number later.\<close>

definition plus_ttl :: "instant \<Rightarrow> string + int \<Rightarrow> rat option" where
  "plus_ttl t ttl = (case ttl of Inr n \<Rightarrow> Some (of_int (t + n)) | Inl s \<Rightarrow> decimal_text (nat_str (nat t) @ s))"

definition cache_live :: "instant \<Rightarrow> secret_cache \<Rightarrow> bool" where
  "cache_live t s \<longleftrightarrow> ca_secrets s \<noteq> None \<and> (case ca_expiresAt s of Some x \<Rightarrow> of_int t < x | None \<Rightarrow> False)"

definition through_cache ::
  "instant \<Rightarrow> instant \<Rightarrow> string + int \<Rightarrow> secrets result \<Rightarrow> secret_cache \<Rightarrow> secrets result \<times> secret_cache" where
  "through_cache t t' ttl download s =
     (case (if cache_live t s then ca_secrets s else None) of
        Some m \<Rightarrow> (Inr m, s)
      | None \<Rightarrow>
          (case download of
             Inl e \<Rightarrow> (Inl e, s)
           | Inr m \<Rightarrow> (Inr m, \<lparr>ca_secrets = Some m, ca_expiresAt = plus_ttl t' ttl\<rparr>)))"

text \<open>\<open>get(a) || get(b) || d\<close>.\<close>

fun first_config :: "env \<Rightarrow> string list \<Rightarrow> string \<Rightarrow> string" where
  "first_config env [] d = d"
| "first_config env (k # ks) d =
     (case config env k of None \<Rightarrow> first_config env ks d | Some v \<Rightarrow> if v = [] then first_config env ks d else v)"

text \<open>\<open>Object.entries\<close>; \<open>None\<close> when it throws.\<close>

definition json_entries :: "json \<Rightarrow> (string \<times> json) list option" where
  "json_entries v =
     (case v of
        JNull \<Rightarrow> None
      | JObj ps \<Rightarrow> Some ps
      | JArr vs \<Rightarrow> Some (zip (map nat_str [0..<length vs]) vs)
      | JStr s \<Rightarrow> Some (zip (map nat_str [0..<length s]) (map (\<lambda>c. JStr [c]) s))
      | _ \<Rightarrow> Some [])"

text \<open>\<open>for (const [k, v] of entries) parsed[k] = String(v)\<close>.\<close>

definition stringified :: "(string \<times> json) list \<Rightarrow> secrets" where
  "stringified ps = map_of (rev (map (\<lambda>(k, v). (k, JStr (js_string v))) ps))"

section \<open>AWS\<close>

text \<open>The SDK answers with a text or with bytes, here already decoded.\<close>

definition aws_region :: "env \<Rightarrow> string" where
  "aws_region env = first_config env [''AWS_REGION'', ''AWS_DEFAULT_REGION''] ''us-east-1''"

definition aws_arn :: "env \<Rightarrow> string" where
  "aws_arn env = first_config env [''AWS_SECRETS_MANAGER_ARN'', ''AWS_SECRETS_MANAGER_SECRET_ID''] []"

definition aws_bundle :: "env \<Rightarrow> string \<Rightarrow> secrets" where
  "aws_bundle env text =
     (case Option.bind (json_parse env text) json_entries of
        Some ps \<Rightarrow> stringified ps
      | None \<Rightarrow>
          let key = last (split_on (CHR ''/'') (aws_arn env))
          in [(if key = [] then ''secret'' else key) \<mapsto> JStr text])"

definition aws_download :: "env \<Rightarrow> (string \<Rightarrow> string \<Rightarrow> (string option \<times> string option) result) \<Rightarrow> secrets result" where
  "aws_download env send =
     (if aws_arn env = [] then Inl (JsError ''AwsSecretsProvider requires AWS_SECRETS_MANAGER_ARN (or AWS_SECRETS_MANAGER_SECRET_ID) to be set.'')
      else case send (aws_region env) (aws_arn env) of
        Inl e \<Rightarrow> Inl e
      | Inr (SecretString, SecretBinary) \<Rightarrow>
          (let text = (if blank SecretString then SecretBinary else SecretString)
           in if blank text
              then Inl (JsError (''Secret '' @ aws_arn env @ '' returned no value (SecretString/SecretBinary is empty).''))
              else Inr (aws_bundle env (the text))))"

section \<open>Vault and Doppler\<close>

type_synonym http_get = "string \<Rightarrow> (string \<times> string) list \<Rightarrow> json result"

definition vault_url :: "env \<Rightarrow> string" where
  "vault_url env =
     (let kvPath = first_config env [''VAULT_KV_PATH'', ''VAULT_SECRET_PATH''] []
      in first_config env [''VAULT_ADDR'', ''VAULT_ADDRESS''] [] @
         (if kvPath \<noteq> [] \<and> hd kvPath = CHR ''/'' then kvPath else ''/v1/'' @ kvPath))"

definition vault_headers :: "env \<Rightarrow> (string \<times> string) list" where
  "vault_headers env =
     [(''Authorization'', ''Bearer '' @ first_config env [''VAULT_TOKEN''] []), (''Content-Type'', ''application/json'')] @
     (case config env ''VAULT_NAMESPACE'' of Some n \<Rightarrow> if n = [] then [] else [(''X-Vault-Namespace'', n)] | None \<Rightarrow> [])"

definition vault_download :: "env \<Rightarrow> http_get \<Rightarrow> secrets result" where
  "vault_download env http =
     (let kvPath = first_config env [''VAULT_KV_PATH'', ''VAULT_SECRET_PATH''] []
      in if first_config env [''VAULT_ADDR'', ''VAULT_ADDRESS''] [] = []
         then Inl (JsError ''VaultSecretsProvider requires VAULT_ADDR to be set in the environment.'')
         else if first_config env [''VAULT_TOKEN''] [] = []
         then Inl (JsError ''VaultSecretsProvider requires VAULT_TOKEN to be set in the environment.'')
         else if kvPath = [] then Inl (JsError ''VaultSecretsProvider requires VAULT_KV_PATH to be set in the environment.'')
         else case http (vault_url env) (vault_headers env) of
           Inl e \<Rightarrow> Inl e
         | Inr body \<Rightarrow>
             (case js_get ''data'' (Some body) of
                None \<Rightarrow> Inl (JsError ''Cannot read properties of null'')
              | Some d \<Rightarrow>
                  (case opt_get ''data'' d of
                     Some raw \<Rightarrow>
                       if js_truthy (Some raw)
                       then (case json_entries raw of Some ps \<Rightarrow> Inr (stringified ps) | None \<Rightarrow> Inl (JsError ''Cannot convert null to object''))
                       else Inl (JsError (''Vault response missing data.data at path '' @ kvPath))
                   | None \<Rightarrow> Inl (JsError (''Vault response missing data.data at path '' @ kvPath)))))"

text \<open>The values' \<open>raw\<close> properties; \<open>None\<close> when a value is null.\<close>

fun raw_values :: "(string \<times> json) list \<Rightarrow> (string \<times> json option) list option" where
  "raw_values [] = Some []"
| "raw_values ((k, v) # ps) =
     (case (js_get ''raw'' (Some v), raw_values ps) of (Some r, Some rs) \<Rightarrow> Some ((k, r) # rs) | _ \<Rightarrow> None)"

definition doppler_token :: "env \<Rightarrow> string" where
  "doppler_token env = first_config env [''DOPPLER_TOKEN'', ''DOPPLER_SERVICE_TOKEN''] []"

definition doppler_download :: "env \<Rightarrow> http_get \<Rightarrow> secrets result" where
  "doppler_download env http =
     (if doppler_token env = []
      then Inl (JsError ''DopplerSecretsProvider requires DOPPLER_TOKEN (or DOPPLER_SERVICE_TOKEN) to be set in the environment.'')
      else case http (first_config env [''DOPPLER_API_BASE''] ''https://api.doppler.com/v3'' @ ''/secrets/download'')
                     [(''Authorization'', ''Bearer '' @ doppler_token env)] of
        Inl e \<Rightarrow> Inl e
      | Inr body \<Rightarrow>
          (case js_get ''secrets'' (Some body) of
             None \<Rightarrow> Inl (JsError ''Cannot read properties of null'')
           | Some x \<Rightarrow>
               (case Option.bind (json_entries (if js_truthy x then the x else JObj [])) raw_values of
                  None \<Rightarrow> Inl (JsError ''Cannot read properties of null'')
                | Some rs \<Rightarrow> Inr (\<lambda>k. case map_of (rev rs) k of Some r \<Rightarrow> r | None \<Rightarrow> None))))"

section \<open>The providers\<close>

text \<open>
  Three readers per provider. \<open>net\<close> is the environment's HTTP client or SDK, \<open>t\<close> and \<open>t'\<close> the two
  readings of the clock.
\<close>

definition env_get :: "env \<Rightarrow> string \<Rightarrow> secret_cache \<Rightarrow> json option \<times> secret_cache" where
  "env_get env k s = (map_option JStr (config env k), s)"

text \<open>\<open>get\<close> of a remote provider: what was fetched, or the environment's variable when the fetch throws.\<close>

definition or_environment :: "env \<Rightarrow> string \<Rightarrow> secrets result \<times> secret_cache \<Rightarrow> json option \<times> secret_cache" where
  "or_environment env k r =
     (case r of (Inr m, s) \<Rightarrow> (m k, s) | (Inl _, s) \<Rightarrow> (map_option JStr (config env k), s))"

definition or_throw :: "string \<Rightarrow> string \<Rightarrow> json option \<times> secret_cache \<Rightarrow> json result \<times> secret_cache" where
  "or_throw k hint r =
     (case r of
        (None, s) \<Rightarrow> (Inl (JsError (''Missing required secret: '' @ k @ ''. '' @ hint)), s)
      | (Some v, s) \<Rightarrow> (Inr v, s))"

definition only_keys :: "string list \<Rightarrow> secrets result \<times> secret_cache \<Rightarrow> secrets result \<times> secret_cache" where
  "only_keys ks r = (case r of (Inr m, s) \<Rightarrow> (Inr (m |` set ks), s) | (Inl e, s) \<Rightarrow> (Inl e, s))"

definition env_getOrThrow :: "env \<Rightarrow> string \<Rightarrow> secret_cache \<Rightarrow> json result \<times> secret_cache" where
  "env_getOrThrow env k s = or_throw k ''Ensure the variable is set in your environment or secrets backend.'' (env_get env k s)"

definition env_getMany :: "env \<Rightarrow> string list \<Rightarrow> secret_cache \<Rightarrow> secrets result \<times> secret_cache" where
  "env_getMany env ks s = (Inr ((\<lambda>k. fst (env_get env k s)) |` set ks), s)"

type_synonym aws_sdk = "string \<Rightarrow> string \<Rightarrow> (string option \<times> string option) result"

definition aws_fetchSecrets :: "env \<Rightarrow> aws_sdk \<Rightarrow> instant \<Rightarrow> instant \<Rightarrow> secret_cache \<Rightarrow> secrets result \<times> secret_cache" where
  "aws_fetchSecrets env sdk t t' s = through_cache t t' (cache_expiry_ms env ''AWS_SECRETS_CACHE_TTL_MS'') (aws_download env sdk) s"

definition aws_get :: "env \<Rightarrow> aws_sdk \<Rightarrow> instant \<Rightarrow> instant \<Rightarrow> string \<Rightarrow> secret_cache \<Rightarrow> json option \<times> secret_cache" where
  "aws_get env sdk t t' k s = or_environment env k (aws_fetchSecrets env sdk t t' s)"

definition aws_getOrThrow :: "env \<Rightarrow> aws_sdk \<Rightarrow> instant \<Rightarrow> instant \<Rightarrow> string \<Rightarrow> secret_cache \<Rightarrow> json result \<times> secret_cache" where
  "aws_getOrThrow env sdk t t' k s =
     or_throw k ''Verified neither AWS Secrets Manager nor environment variable is set.'' (aws_get env sdk t t' k s)"

definition aws_getMany :: "env \<Rightarrow> aws_sdk \<Rightarrow> instant \<Rightarrow> instant \<Rightarrow> string list \<Rightarrow> secret_cache \<Rightarrow> secrets result \<times> secret_cache" where
  "aws_getMany env sdk t t' ks s = only_keys ks (aws_fetchSecrets env sdk t t' s)"

definition vault_fetchSecrets :: "env \<Rightarrow> http_get \<Rightarrow> instant \<Rightarrow> instant \<Rightarrow> secret_cache \<Rightarrow> secrets result \<times> secret_cache" where
  "vault_fetchSecrets env http t t' s = through_cache t t' (cache_expiry_ms env ''VAULT_CACHE_TTL_MS'') (vault_download env http) s"

definition vault_get :: "env \<Rightarrow> http_get \<Rightarrow> instant \<Rightarrow> instant \<Rightarrow> string \<Rightarrow> secret_cache \<Rightarrow> json option \<times> secret_cache" where
  "vault_get env http t t' k s = or_environment env k (vault_fetchSecrets env http t t' s)"

definition vault_getOrThrow :: "env \<Rightarrow> http_get \<Rightarrow> instant \<Rightarrow> instant \<Rightarrow> string \<Rightarrow> secret_cache \<Rightarrow> json result \<times> secret_cache" where
  "vault_getOrThrow env http t t' k s =
     or_throw k ''Verified neither Vault nor environment variable is set.'' (vault_get env http t t' k s)"

definition vault_getMany :: "env \<Rightarrow> http_get \<Rightarrow> instant \<Rightarrow> instant \<Rightarrow> string list \<Rightarrow> secret_cache \<Rightarrow> secrets result \<times> secret_cache" where
  "vault_getMany env http t t' ks s = only_keys ks (vault_fetchSecrets env http t t' s)"

definition doppler_fetchSecrets :: "env \<Rightarrow> http_get \<Rightarrow> instant \<Rightarrow> instant \<Rightarrow> secret_cache \<Rightarrow> secrets result \<times> secret_cache" where
  "doppler_fetchSecrets env http t t' s = through_cache t t' (cache_expiry_ms env ''DOPPLER_CACHE_TTL_MS'') (doppler_download env http) s"

definition doppler_get :: "env \<Rightarrow> http_get \<Rightarrow> instant \<Rightarrow> instant \<Rightarrow> string \<Rightarrow> secret_cache \<Rightarrow> json option \<times> secret_cache" where
  "doppler_get env http t t' k s = or_environment env k (doppler_fetchSecrets env http t t' s)"

definition doppler_getOrThrow :: "env \<Rightarrow> http_get \<Rightarrow> instant \<Rightarrow> instant \<Rightarrow> string \<Rightarrow> secret_cache \<Rightarrow> json result \<times> secret_cache" where
  "doppler_getOrThrow env http t t' k s =
     or_throw k ''Verified neither Doppler nor environment variable is set.'' (doppler_get env http t t' k s)"

definition doppler_getMany :: "env \<Rightarrow> http_get \<Rightarrow> instant \<Rightarrow> instant \<Rightarrow> string list \<Rightarrow> secret_cache \<Rightarrow> secrets result \<times> secret_cache" where
  "doppler_getMany env http t t' ks s = only_keys ks (doppler_fetchSecrets env http t t' s)"

text \<open>The module chooses one of them.\<close>

datatype provider_type = Env_secrets | Doppler_secrets | Vault_secrets | Aws_secrets

definition resolveProviderType :: "env \<Rightarrow> provider_type" where
  "resolveProviderType env =
     (let raw = to_lower (first_config env [''SECRETS_PROVIDER''] ''env'')
      in if raw = ''doppler'' then Doppler_secrets else if raw = ''vault'' then Vault_secrets
         else if raw = ''aws'' then Aws_secrets else Env_secrets)"

record network =
  nw_http :: http_get
  nw_aws :: aws_sdk

definition secret_get :: "env \<Rightarrow> network \<Rightarrow> instant \<Rightarrow> instant \<Rightarrow> string \<Rightarrow> secret_cache \<Rightarrow> json option \<times> secret_cache" where
  "secret_get env net t t' k s =
     (case resolveProviderType env of
        Env_secrets \<Rightarrow> env_get env k s
      | Doppler_secrets \<Rightarrow> doppler_get env (nw_http net) t t' k s
      | Vault_secrets \<Rightarrow> vault_get env (nw_http net) t t' k s
      | Aws_secrets \<Rightarrow> aws_get env (nw_aws net) t t' k s)"

definition secret_getOrThrow :: "env \<Rightarrow> network \<Rightarrow> instant \<Rightarrow> instant \<Rightarrow> string \<Rightarrow> secret_cache \<Rightarrow> json result \<times> secret_cache" where
  "secret_getOrThrow env net t t' k s =
     (case resolveProviderType env of
        Env_secrets \<Rightarrow> env_getOrThrow env k s
      | Doppler_secrets \<Rightarrow> doppler_getOrThrow env (nw_http net) t t' k s
      | Vault_secrets \<Rightarrow> vault_getOrThrow env (nw_http net) t t' k s
      | Aws_secrets \<Rightarrow> aws_getOrThrow env (nw_aws net) t t' k s)"

definition secret_getMany :: "env \<Rightarrow> network \<Rightarrow> instant \<Rightarrow> instant \<Rightarrow> string list \<Rightarrow> secret_cache \<Rightarrow> secrets result \<times> secret_cache" where
  "secret_getMany env net t t' ks s =
     (case resolveProviderType env of
        Env_secrets \<Rightarrow> env_getMany env ks s
      | Doppler_secrets \<Rightarrow> doppler_getMany env (nw_http net) t t' ks s
      | Vault_secrets \<Rightarrow> vault_getMany env (nw_http net) t t' ks s
      | Aws_secrets \<Rightarrow> aws_getMany env (nw_aws net) t t' ks s)"

section \<open>What a provider promises\<close>

text \<open>The abstract class \<open>SecretsProvider\<close>.\<close>

locale secrets_provider =
  fixes get_secret :: "string \<Rightarrow> 's \<Rightarrow> json option \<times> 's"
    and get_or_throw :: "string \<Rightarrow> 's \<Rightarrow> json result \<times> 's"
    and get_many :: "string list \<Rightarrow> 's \<Rightarrow> secrets result \<times> 's"
  assumes throw_found: "get_secret k s = (Some v, s') \<Longrightarrow> get_or_throw k s = (Inr v, s')"
    and throw_missing: "get_secret k s = (None, s') \<Longrightarrow> \<exists>m. get_or_throw k s = (Inl (JsError m), s')"
    and many_get: "get_many ks s = (Inr m, s') \<Longrightarrow> k \<in> set ks \<Longrightarrow> get_secret k s = (m k, s')"
    and many_only: "get_many ks s = (Inr m, s') \<Longrightarrow> k \<notin> set ks \<Longrightarrow> m k = None"
begin

lemma get_or_throw_iff: "get_or_throw k s = (Inr v, s') \<longleftrightarrow> get_secret k s = (Some v, s')"
proof (cases "get_secret k s")
  case (Pair x s1)
  then show ?thesis using throw_found [of k s] throw_missing [of k s] by (cases x) auto
qed

lemma many_complete:
  assumes "get_many ks s = (Inr m, s')"
  shows "dom m = set ks \<longleftrightarrow> (\<forall>k\<in>set ks. \<exists>v. get_or_throw k s = (Inr v, s'))"
proof -
  have "dom m \<subseteq> set ks" using many_only [OF assms] by (metis domIff subsetI)
  moreover have "(\<exists>v. get_or_throw k s = (Inr v, s')) \<longleftrightarrow> k \<in> dom m" if "k \<in> set ks" for k
    using many_get [OF assms that] by (auto simp: get_or_throw_iff)
  ultimately show ?thesis by auto
qed

end

text \<open>A provider over a download, with a fallback for single keys.\<close>

locale remote_secrets =
  fixes fetch :: "'s \<Rightarrow> secrets result \<times> 's"
    and fallback :: "string \<Rightarrow> json option"
    and get_secret :: "string \<Rightarrow> 's \<Rightarrow> json option \<times> 's"
    and get_or_throw :: "string \<Rightarrow> 's \<Rightarrow> json result \<times> 's"
    and get_many :: "string list \<Rightarrow> 's \<Rightarrow> secrets result \<times> 's"
  assumes get_fetched: "fetch s = (Inr m, s') \<Longrightarrow> get_secret k s = (m k, s')"
    and get_failed: "fetch s = (Inl e, s') \<Longrightarrow> get_secret k s = (fallback k, s')"
    and many_fetched: "fetch s = (Inr m, s') \<Longrightarrow> get_many ks s = (Inr (m |` set ks), s')"
    and many_failed: "fetch s = (Inl e, s') \<Longrightarrow> get_many ks s = (Inl e, s')"
    and thrown: "get_secret k s = (Some v, s') \<Longrightarrow> get_or_throw k s = (Inr v, s')"
    and thrown_missing: "get_secret k s = (None, s') \<Longrightarrow> \<exists>m. get_or_throw k s = (Inl (JsError m), s')"
begin

lemma many_cases:
  assumes "get_many ks s = (Inr m, s')"
  shows "\<exists>m0. fetch s = (Inr m0, s') \<and> m = m0 |` set ks"
proof -
  obtain r s1 where "fetch s = (r, s1)" by fastforce
  with assms many_fetched [of s] many_failed [of s] show ?thesis by (cases r) auto
qed

text \<open>When the backend is down a single key may still come from the environment, several together never do.\<close>

lemma outage:
  assumes "fetch s = (Inl e, s')"
  shows "get_many ks s = (Inl e, s')" "fallback k = Some v \<Longrightarrow> get_or_throw k s = (Inr v, s')"
  using many_failed [OF assms] thrown get_failed [OF assms] by auto

end

sublocale remote_secrets \<subseteq> secrets_provider get_secret get_or_throw get_many
proof unfold_locales
  show "get_secret k s = (m k, s')" if "get_many ks s = (Inr m, s')" "k \<in> set ks" for k s s' m ks
    using many_cases [OF that(1)] that(2) get_fetched by fastforce
  show "m k = None" if "get_many ks s = (Inr m, s')" "k \<notin> set ks" for k s s' m ks
    using many_cases [OF that(1)] that(2) by auto
qed (use thrown thrown_missing in auto)

lemmas provider_defs = or_environment_def or_throw_def only_keys_def

interpretation env_secrets: secrets_provider "env_get env" "env_getOrThrow env" "env_getMany env" for env
  by unfold_locales (auto simp: env_get_def env_getOrThrow_def env_getMany_def or_throw_def)

interpretation aws: remote_secrets "aws_fetchSecrets env sdk t t'" "\<lambda>k. map_option JStr (config env k)" "aws_get env sdk t t'"
    "aws_getOrThrow env sdk t t'" "aws_getMany env sdk t t'" for env sdk t t'
  by unfold_locales (auto simp: aws_get_def aws_getOrThrow_def aws_getMany_def provider_defs)

interpretation vault: remote_secrets "vault_fetchSecrets env http t t'" "\<lambda>k. map_option JStr (config env k)" "vault_get env http t t'"
    "vault_getOrThrow env http t t'" "vault_getMany env http t t'" for env http t t'
  by unfold_locales (auto simp: vault_get_def vault_getOrThrow_def vault_getMany_def provider_defs)

interpretation doppler: remote_secrets "doppler_fetchSecrets env http t t'" "\<lambda>k. map_option JStr (config env k)" "doppler_get env http t t'"
    "doppler_getOrThrow env http t t'" "doppler_getMany env http t t'" for env http t t'
  by unfold_locales (auto simp: doppler_get_def doppler_getOrThrow_def doppler_getMany_def provider_defs)

text \<open>The chosen provider keeps the contract too.\<close>

interpretation chosen: secrets_provider "secret_get env net t t'" "secret_getOrThrow env net t t'" "secret_getMany env net t t'"
  for env net t t'
proof (cases "resolveProviderType env")
  case Env_secrets
  then show "secrets_provider (secret_get env net t t') (secret_getOrThrow env net t t') (secret_getMany env net t t')"
    using env_secrets.secrets_provider_axioms [of env]
    by (simp add: secret_get_def [abs_def] secret_getOrThrow_def [abs_def] secret_getMany_def [abs_def])
qed (use doppler.secrets_provider_axioms vault.secrets_provider_axioms aws.secrets_provider_axioms in
  \<open>simp_all add: secret_get_def [abs_def] secret_getOrThrow_def [abs_def] secret_getMany_def [abs_def]\<close>)

section \<open>Batches and single keys\<close>


text \<open>When the backend is down, single keys come from the environment and batches fail.\<close>

lemma aws_outage:
  assumes "\<not> cache_live t s" "aws_download env sdk = Inl e" "config env k = Some v"
  shows "aws_getOrThrow env sdk t t' k s = (Inr (JStr v), s)" "aws_getMany env sdk t t' [k] s = (Inl e, s)"
proof -
  have "aws_fetchSecrets env sdk t t' s = (Inl e, s)"
    using assms(1,2) by (simp add: aws_fetchSecrets_def through_cache_def)
  then show "aws_getOrThrow env sdk t t' k s = (Inr (JStr v), s)" "aws_getMany env sdk t t' [k] s = (Inl e, s)"
    using aws.outage assms(3) by (simp_all add: aws.outage(1))
qed

text \<open>A plain secret that happens to be a JSON number or boolean is lost.\<close>

lemma numeric_secret_lost:
  "json_parse env text = Some (JNum n) \<or> json_parse env text = Some (JBool b) \<Longrightarrow> aws_bundle env text = Map.empty"
  by (auto simp: aws_bundle_def json_entries_def stringified_def)

section \<open>How long a bundle is kept\<close>

lemma digits_only:
  assumes "list_all is_digit s"
  shows "takeWhile is_digit s = s" "dropWhile is_digit s = []"
  using assms by (auto simp: takeWhile_eq_all_conv dropWhile_eq_Nil_conv list_all_iff)

lemma decimal_digits:
  assumes "s \<noteq> []" "list_all is_digit s"
  shows "decimal_text s = Some (of_nat (num_of s))"
proof -
  have "trim s = s"
    using assms by (intro trim_id) (auto simp: list_all_iff dest: digit_no_space)
  then show ?thesis using assms(1) by (simp add: digits_only [OF assms(2)] decimal_text_def Let_def exponent_of_def ten_to_def)
qed

lemma nat_str_nonempty: "nat_str n \<noteq> []"
  by (subst nat_str.simps) simp

lemma text_ttl_expiry:
  assumes "d \<noteq> []" "list_all is_digit d"
  shows "plus_ttl t (Inl d) = Some (of_nat (nat t * 10 ^ length d + num_of d))"
proof -
  have "list_all is_digit (nat_str (nat t) @ d)" using assms(2) digits_nat_str by simp
  then have "decimal_text (nat_str (nat t) @ d) = Some (of_nat (num_of (nat_str (nat t) @ d)))"
    using assms(1) by (intro decimal_digits) auto
  then show ?thesis by (simp add: plus_ttl_def num_of_append num_of_nat_str)
qed

lemma fetched_cache:
  assumes "\<not> cache_live t s" "through_cache t t' ttl download s = (Inr m, s')"
  shows "download = Inr m" "s' = \<lparr>ca_secrets = Some m, ca_expiresAt = plus_ttl t' ttl\<rparr>"
  using assms by (auto simp: through_cache_def split: option.splits sum.splits if_splits)

lemma through_cache_live:
  "cache_live u s \<Longrightarrow> through_cache u u' ttl download s = (Inr (the (ca_secrets s)), s)"
  by (auto simp: through_cache_def cache_live_def)

text \<open>
  C40: a downloaded bundle is kept for five minutes by default. With the documented variable set to a
  number of milliseconds it is kept for at least ten times the age of the epoch: the sum is a
  concatenation of texts.
\<close>

theorem vault_cache_lifetime:
  assumes "vault_fetchSecrets env http t t' s = (Inr m, s')" "\<not> cache_live t s" "0 < t'"
  shows "(config env ''VAULT_CACHE_TTL_MS'' = None \<longrightarrow> (\<forall>u. cache_live u s' \<longleftrightarrow> u < t' + 300000)) \<and>
    (\<forall>d. config env ''VAULT_CACHE_TTL_MS'' = Some d \<and> d \<noteq> [] \<and> list_all is_digit d \<longrightarrow>
       (\<forall>u u' http'. u < 10 * t' \<longrightarrow> vault_fetchSecrets env http' u u' s' = (Inr m, s')))"
proof -
  let ?ttl = "cache_expiry_ms env ''VAULT_CACHE_TTL_MS''"
  have s': "s' = \<lparr>ca_secrets = Some m, ca_expiresAt = plus_ttl t' ?ttl\<rparr>"
    using fetched_cache(2) [OF assms(2)] assms(1) unfolding vault_fetchSecrets_def by blast
  have "cache_live u s' \<longleftrightarrow> u < t' + 300000" if "config env ''VAULT_CACHE_TTL_MS'' = None" for u
    using that by (simp add: s' cache_live_def cache_expiry_ms_def plus_ttl_def del: of_int_add)
  moreover have "vault_fetchSecrets env http' u u' s' = (Inr m, s')"
    if d: "config env ''VAULT_CACHE_TTL_MS'' = Some d" "d \<noteq> []" "list_all is_digit d" and u: "u < 10 * t'" for d u u' http'
  proof -
    have "(10::nat) ^ 1 \<le> 10 ^ length d" using d(2) by (intro power_increasing) (auto simp: Suc_le_eq)
    then have "nat t' * 10 \<le> nat t' * 10 ^ length d + num_of d" by (simp add: trans_le_add1)
    then have "(of_nat (nat t' * 10) :: rat) \<le> of_nat (nat t' * 10 ^ length d + num_of d)" by (rule of_nat_mono)
    moreover have "(of_int u :: rat) < of_int (10 * t')" using u by (simp only: of_int_less_iff)
    moreover have "(of_int (10 * t') :: rat) = of_nat (nat t' * 10)" using assms(3) by simp
    ultimately have "(of_int u :: rat) < of_nat (nat t' * 10 ^ length d + num_of d)" by linarith
    then have "cache_live u s'"
      using d(1) text_ttl_expiry [OF d(2,3)] by (simp add: s' cache_live_def cache_expiry_ms_def del: of_nat_add of_nat_mult)
    then show ?thesis by (simp add: vault_fetchSecrets_def through_cache_live) (simp add: s')
  qed
  ultimately show ?thesis by blast
qed

section \<open>Counters\<close>

text \<open>The counters with their labels; counting itself is prom-client's, which refuses undeclared labels.\<close>

definition COUNTERS :: "(string \<times> string list) list" where
  "COUNTERS =
     [(''novalabs_rate_limited_total'', [''endpoint'', ''method'']),
      (''novalabs_http_requests_total'', [''method'', ''route'', ''status_code'']),
      (''novalabs_email_enqueued_total'', [''kind'']),
      (''novalabs_email_enqueue_failures_total'', [''kind'']),
      (''novalabs_email_dead_lettered_total'', [''kind'']),
      (''novalabs_soroban_escrow_failures_total'', [''operation'']),
      (''novalabs_webhook_race_wins_total'', [''event_type'']),
      (''novalabs_webhook_stale_ignored_total'', [''event_type'']),
      (''novalabs_webhook_success_after_terminal_total'', []),
      (''novalabs_webhook_failure_after_success_total'', [])]"

type_synonym increment = "string \<times> (string \<times> string) list"

definition recordRateLimit :: "string \<Rightarrow> string option \<Rightarrow> increment" where
  "recordRateLimit endpoint verb =
     (''novalabs_rate_limited_total'', [(''endpoint'', endpoint), (''method'', case verb of None \<Rightarrow> ''UNKNOWN'' | Some m \<Rightarrow> m)])"

definition recordHttpRequest :: "string \<Rightarrow> string \<Rightarrow> string \<Rightarrow> increment" where
  "recordHttpRequest verb route statusCode =
     (''novalabs_http_requests_total'', [(''method'', verb), (''route'', route), (''status_code'', statusCode)])"

text \<open>The increments of the effects the other components record.\<close>

definition record_metric :: "metric \<Rightarrow> increment" where
  "record_metric m =
     (case m of
        WebhookRaceWin e \<Rightarrow> (''novalabs_webhook_race_wins_total'', [(''event_type'', e)])
      | WebhookStaleIgnored e \<Rightarrow> (''novalabs_webhook_stale_ignored_total'', [(''event_type'', e)])
      | WebhookSuccessAfterTerminal \<Rightarrow> (''novalabs_webhook_success_after_terminal_total'', [])
      | WebhookFailureAfterSuccess \<Rightarrow> (''novalabs_webhook_failure_after_success_total'', [])
      | SorobanEscrowFailure op \<Rightarrow> (''novalabs_soroban_escrow_failures_total'', [(''operation'', op)]))"

text \<open>Every increment names a declared counter and exactly its labels.\<close>

lemma increments_declared:
  "map_of COUNTERS (fst (recordRateLimit e v)) = Some (map fst (snd (recordRateLimit e v)))"
  "map_of COUNTERS (fst (recordHttpRequest verb r c)) = Some (map fst (snd (recordHttpRequest verb r c)))"
  "map_of COUNTERS (fst (record_metric m)) = Some (map fst (snd (record_metric m)))"
  by (simp_all add: COUNTERS_def recordRateLimit_def recordHttpRequest_def record_metric_def split: metric.splits)

lemma counters_distinct: "distinct (map fst COUNTERS)"
  by (simp add: COUNTERS_def)

section \<open>The in-memory network\<close>

record fake_options =
  fo_transactionHash :: "string option"
  fo_getTransactionStatus :: "tx_status option"
  fo_simulateResult :: "scval option"
  fo_simulateFails :: "bool option"
  fo_getAccountFails :: "bool option"

definition option_or :: "'a \<Rightarrow> 'a option \<Rightarrow> 'a" where
  "option_or d v = (case v of None \<Rightarrow> d | Some x \<Rightarrow> x)"

text \<open>The SDK's key functions stay those of \<open>r\<close>; \<open>public_key\<close> is the random key of an account.\<close>

definition fake_rpc :: "fake_options \<Rightarrow> string \<Rightarrow> rpc \<Rightarrow> rpc" where
  "fake_rpc opts public_key r =
     r\<lparr>rpc_getAccount := (\<lambda>_. if option_or False (fo_getAccountFails opts) then Inl (JsError ''Account not found'') else Inr public_key),
       rpc_prepare := Inr,
       rpc_send := (\<lambda>_. Inr (option_or (replicate 64 (CHR ''a'')) (fo_transactionHash opts))),
       rpc_getTransaction := (\<lambda>_ _. Inr (option_or TX_SUCCESS (fo_getTransactionStatus opts))),
       rpc_simulate := (\<lambda>_. Inr (if option_or False (fo_simulateFails opts) then SimError else SimSuccess (fo_simulateResult opts)))\<rparr>"

lemma fake_wait:
  "\<exists>k. wait_loop (fake_rpc opts key r) hash e n (option_or TX_SUCCESS (fo_getTransactionStatus opts)) =
     (Inr (option_or TX_SUCCESS (fo_getTransactionStatus opts)), k)"
proof (induction "30 * 1000 - e" arbitrary: e n rule: less_induct)
  case less
  show ?case
  proof (cases "option_or TX_SUCCESS (fo_getTransactionStatus opts) = TX_NOT_FOUND \<and> e < 30 * 1000")
    case True
    have "30 * 1000 - (e + 1000 + poll_delay r n) < 30 * 1000 - e" using True by linarith
    from less [OF this] True show ?thesis
      by (subst wait_loop.simps) (simp add: fake_rpc_def)
  next
    case False
    then show ?thesis by (subst wait_loop.simps) auto
  qed
qed

text \<open>
  on the in-memory network every escrow call settles with the configured hash, or fails as a bad
  gateway when the account is missing or the transaction does not succeed.
\<close>

theorem fake_network_settles:
  "submit env (fake_rpc opts key r) c call label =
    (if option_or False (fo_getAccountFails opts) then (Inl (BadGateway (''Failed to execute Soroban transaction ('' @ label @ '').'')), [])
     else (if option_or TX_SUCCESS (fo_getTransactionStatus opts) = TX_SUCCESS
           then Inr (option_or (replicate 64 (CHR ''a'')) (fo_transactionHash opts))
           else Inl (BadGateway (''Failed to execute Soroban transaction ('' @ label @ '').'')), [SorobanSend (inv_function call)]))"
proof -
  let ?f = "fake_rpc opts key r" and ?st = "option_or TX_SUCCESS (fo_getTransactionStatus opts)"
    and ?h = "option_or (replicate 64 (CHR ''a'')) (fo_transactionHash opts)"
  have "fst (waitForSettlement ?f ?h) = Inr ?st"
    using fake_wait [of opts key r ?h 0 1] by (auto simp: waitForSettlement_def) (simp add: fake_rpc_def)
  moreover have "rpc_send ?f tx = Inr ?h" "rpc_prepare ?f tx = Inr tx" for tx by (simp_all add: fake_rpc_def)
  moreover have "rpc_getAccount ?f a = (if option_or False (fo_getAccountFails opts) then Inl (JsError ''Account not found'') else Inr key)" for a
    by (simp add: fake_rpc_def)
  ultimately show ?thesis by (simp add: submit_def)
qed

section \<open>A concrete vault\<close>

definition vault_env :: env where
  "vault_env = sample_env\<lparr>config := map_of
     [(''SECRETS_PROVIDER'', ''Vault''), (''VAULT_ADDR'', ''https://v''), (''VAULT_TOKEN'', ''t''), (''VAULT_KV_PATH'', ''secret/data/nova''),
      (''VAULT_CACHE_TTL_MS'', ''60000'')]\<rparr>"

definition vault_http :: http_get where
  "vault_http url hs =
     (if url = ''https://v/v1/secret/data/nova'' then Inr (JObj [(''data'', JObj [(''data'', JObj [(''JWT_SECRET'', JStr ''s3'')])])])
      else Inl (JsError ''404''))"

definition vault_net :: network where
  "vault_net = \<lparr>nw_http = vault_http, nw_aws = (\<lambda>_ _. Inl (JsError ''offline''))\<rparr>"

lemma vault_answers:
  "resolveProviderType vault_env = Vault_secrets" "vault_download vault_env vault_http = Inr [''JWT_SECRET'' \<mapsto> JStr ''s3'']"
proof -
  show "resolveProviderType vault_env = Vault_secrets" by code_simp
  show "vault_download vault_env vault_http = Inr [''JWT_SECRET'' \<mapsto> JStr ''s3'']"
    by (simp add: vault_download_def vault_url_def vault_env_def Let_def vault_http_def js_get_def opt_get_def js_truthy_def json_entries_def stringified_def)
qed


theorem vault_cache_lifetime_witness:
  "\<exists>m s'. vault_fetchSecrets vault_env vault_http 7 8 empty_cache = (Inr m, s') \<and>
     vault_fetchSecrets vault_env (\<lambda>_ _. Inl (JsError ''down'')) 79 79 s' = (Inr m, s')"
proof -
  have l: "\<not> cache_live 7 empty_cache" by (simp add: cache_live_def empty_cache_def)
  then obtain m s' where m: "vault_fetchSecrets vault_env vault_http 7 8 empty_cache = (Inr m, s')"
    by (auto simp: vault_fetchSecrets_def through_cache_def vault_answers)
  have "config vault_env ''VAULT_CACHE_TTL_MS'' = Some ''60000''" by (simp add: vault_env_def)
  moreover have "list_all is_digit ''60000''" by code_simp
  ultimately show ?thesis using vault_cache_lifetime [OF m l] m by auto
qed

end
