(* ===== verification/Audit_Trail.thy ===== *)
theory Audit_Trail
  imports Routes
begin

text \<open>
  The audit trail: masking of client addresses (\<open>common/utils/ip.util.ts\<close>), the global interceptor
  that logs every state-changing request (\<open>audit-log/interceptors/\<close>), the log and its short-lived
  table of raw addresses (\<open>audit-log/providers/\<close>).

  The trail is a state of its own. Besides the two tables it holds the promise rejections nobody
  handles: the interceptor's callbacks are \<open>async\<close> functions given to \<open>tap\<close>, which ignores what
  they return.
\<close>

section \<open>Addresses\<close>

definition octet_text :: "string \<Rightarrow> bool" where
  "octet_text s \<longleftrightarrow> s \<noteq> [] \<and> length s \<le> 3 \<and> list_all is_digit s"

definition dotted :: "string \<Rightarrow> string \<Rightarrow> string \<Rightarrow> string \<Rightarrow> string" where
  "dotted a b c d = a @ ''.'' @ b @ ''.'' @ c @ ''.'' @ d"

definition maskIpv4 :: "string option \<Rightarrow> string option" where
  "maskIpv4 raw =
     (case raw of
        None \<Rightarrow> None
      | Some s \<Rightarrow>
          (case split_on (CHR ''.'') (trim s) of
             [a, b, c, d] \<Rightarrow>
               if octet_text a \<and> octet_text b \<and> octet_text c \<and> octet_text d \<and>
                  \<not> list_ex (\<lambda>p. 255 < num_of p) [a, b, c]
               then Some (dotted a b c ''0'') else None
           | _ \<Rightarrow> None))"

definition isIpv4 :: "string option \<Rightarrow> bool" where
  "isIpv4 raw \<longleftrightarrow> maskIpv4 raw \<noteq> None"

definition isIpv6 :: "string option \<Rightarrow> bool" where
  "isIpv6 raw \<longleftrightarrow> (case raw of None \<Rightarrow> False | Some s \<Rightarrow> CHR '':'' \<in> set s)"

definition maskIp :: "string option \<Rightarrow> string option" where
  "maskIp raw =
     (if blank raw then None
      else if isIpv4 raw then maskIpv4 raw
      else if isIpv6 raw then map_option trim raw
      else None)"

definition requiresSecurityRetention :: "string option \<Rightarrow> bool" where
  "requiresSecurityRetention raw \<longleftrightarrow> isIpv6 raw"

section \<open>What the log keeps of a body\<close>

definition sensitiveKeys :: "string list" where
  "sensitiveKeys =
     [''password'', ''passwordResetToken'', ''verificationToken'', ''verificationCode'', ''passwordResetCode'',
      ''totpSecret'', ''accessToken'', ''refreshToken'', ''secret'', ''token'', ''rawBody'']"

definition redacted :: json where
  "redacted = JStr ''[REDACTED]''"

text \<open>
  \<open>Object.entries\<close> gives an array's elements under their indices; assigning to \<open>__proto__\<close> makes no
  property. An object or array becomes an object.
\<close>

fun sanitize_value :: "json \<Rightarrow> json" where
  "sanitize_value (JObj ps) =
     JObj (map (\<lambda>(k, v). if k \<in> set sensitiveKeys then (k, redacted) else (k, sanitize_value v))
             (filter (\<lambda>(k, v). k \<noteq> ''__proto__'') ps))"
| "sanitize_value (JArr vs) = JObj (zip (map nat_str [0..<length vs]) (map sanitize_value vs))"
| "sanitize_value v = v"

definition sanitizeBody :: "json \<Rightarrow> (string \<times> json) list" where
  "sanitizeBody body = (case sanitize_value body of JObj ps \<Rightarrow> ps | _ \<Rightarrow> [])"

section \<open>The log\<close>

record audit_entry = audit_log +
  e_id :: uuid
  e_ipAddress :: "string option"
  e_userAgent :: "string option"
  e_metadata :: "(string \<times> json) list option"
  e_createdAt :: instant

record security_ip_log =
  si_auditLogId :: uuid
  si_rawIp :: string
  si_action :: string
  si_expiresAt :: instant

record trail =
  entries :: "audit_entry list"
  raw_ips :: "security_ip_log list"
  unhandled :: "exn list"

text \<open>What PostgreSQL accepts as a \<open>uuid\<close> and as an \<open>inet\<close> value, and \<open>parseInt\<close> of a setting.\<close>

record audit_env =
  pg_uuid :: "string \<Rightarrow> bool"
  pg_inet :: "string \<Rightarrow> bool"
  parse_int :: "string \<Rightarrow> int option"

definition longer :: "nat \<Rightarrow> string option \<Rightarrow> bool" where
  "longer n s \<longleftrightarrow> (case s of None \<Rightarrow> False | Some t \<Rightarrow> n < length t)"

text \<open>\<open>jsonb\<close> refuses the character zero, in a string or in a name.\<close>

fun has_nul :: "json \<Rightarrow> bool" where
  "has_nul (JStr s) = (CHR 0x00 \<in> set s)"
| "has_nul (JArr vs) = list_ex has_nul vs"
| "has_nul (JObj ps) = list_ex (\<lambda>(k, v). CHR 0x00 \<in> set k \<or> has_nul v) ps"
| "has_nul _ = False"

definition retentionDays :: "env \<Rightarrow> audit_env \<Rightarrow> int" where
  "retentionDays env au =
     (case config env ''SECURITY_IP_RETENTION_DAYS'' of
        None \<Rightarrow> 30
      | Some raw \<Rightarrow>
          if raw = [] then 30
          else (case parse_int au raw of Some n \<Rightarrow> if 0 < n then n else 30 | None \<Rightarrow> 30))"

text \<open>A failure to keep the raw address is logged and swallowed.\<close>

definition keep_raw_ip :: "env \<Rightarrow> audit_env \<Rightarrow> uuid \<Rightarrow> string \<Rightarrow> string \<Rightarrow> trail \<Rightarrow> trail" where
  "keep_raw_ip env au auditLogId rawIp action tr =
     (if pg_inet au rawIp \<and> length action \<le> 100
      then tr\<lparr>raw_ips := raw_ips tr @
             [\<lparr>si_auditLogId = auditLogId, si_rawIp = rawIp, si_action = action,
               si_expiresAt = now env + retentionDays env au * 86400000\<rparr>]\<rparr>
      else tr)"

definition purgeExpired :: "env \<Rightarrow> trail \<Rightarrow> nat \<times> trail" where
  "purgeExpired env tr =
     (count_where (\<lambda>r. si_expiresAt r < now env) (raw_ips tr),
      tr\<lparr>raw_ips := delete_where (\<lambda>r. si_expiresAt r < now env) (raw_ips tr)\<rparr>)"

definition SECURITY_ACTIONS :: "string list" where
  "SECURITY_ACTIONS = [''login'', ''logout'', ''impersonate'', ''auth.refresh.family.revoked'']"

definition rejected_entry :: "audit_env \<Rightarrow> audit_entry \<Rightarrow> bool" where
  "rejected_entry au a \<longleftrightarrow>
     longer 100 (Some (a_action a)) \<or> longer 100 (a_targetType a) \<or> longer 255 (a_actorEmail a) \<or>
     longer 50 (a_actorRole a) \<or> longer 45 (e_ipAddress a) \<or>
     (case a_targetId a of Some k \<Rightarrow> \<not> pg_uuid au k | None \<Rightarrow> False) \<or>
     (case a_actorId a of Some k \<Rightarrow> \<not> pg_uuid au k | None \<Rightarrow> False) \<or>
     (case e_metadata a of Some ps \<Rightarrow> has_nul (JObj ps) | None \<Rightarrow> False)"

text \<open>\<open>CreateAuditLogProvider.create\<close>, of an entry whose address is still the raw one.\<close>

definition create_audit :: "env \<Rightarrow> audit_env \<Rightarrow> audit_entry \<Rightarrow> trail \<Rightarrow> audit_entry result \<times> trail" where
  "create_audit env au input tr =
     (let rawIp = e_ipAddress input;
          a = input\<lparr>e_id := uuid1 env, e_ipAddress := maskIp rawIp, e_createdAt := now env\<rparr>
      in if rejected_entry au a then (Inl (DbError ''audit_log''), tr)
         else (let tr1 = tr\<lparr>entries := entries tr @ [a]\<rparr>
               in (Inr a,
                   case rawIp of
                     None \<Rightarrow> tr1
                   | Some ip \<Rightarrow> if a_action a \<in> set SECURITY_ACTIONS \<or> requiresSecurityRetention rawIp
                                then keep_raw_ip env au (e_id a) ip (a_action a) tr1 else tr1)))"

section \<open>The interceptor\<close>

definition strip_s :: "string \<Rightarrow> string" where
  "strip_s s = (if s \<noteq> [] \<and> last s = CHR ''s'' then butlast s else s)"

fun after_api :: "string list \<Rightarrow> string option" where
  "after_api (p # q # rest) = (if p = ''api'' then Some (strip_s q) else after_api (q # rest))"
| "after_api _ = None"

definition inferTargetType :: "string \<Rightarrow> string option" where
  "inferTargetType url = after_api (filter (\<lambda>p. p \<noteq> []) (split_on (CHR ''/'') url))"

definition inferAction :: "string \<Rightarrow> string" where
  "inferAction verb =
     (if verb = ''POST'' then ''create'' else if verb = ''PUT'' \<or> verb = ''PATCH'' then ''update''
      else if verb = ''DELETE'' then ''delete'' else to_lower verb)"

text \<open>A request as the interceptor sees it: its controller and method, the parameter \<open>id\<close> of its path.\<close>

record handled =
  hd_controller :: string
  hd_handler :: string
  hd_id :: "string option"
  hd_user :: "request_user option"
  hd_status :: nat

definition role_text :: "json option \<Rightarrow> string option" where
  "role_text r = (case r of Some (JStr s) \<Rightarrow> Some s | _ \<Rightarrow> None)"

definition logged :: "request \<Rightarrow> handled \<Rightarrow> (string \<times> json) \<Rightarrow> audit_entry" where
  "logged req h ending =
     \<lparr>a_actorId = map_option ru_id (hd_user h), a_actorEmail = map_option ru_email (hd_user h),
      a_actorRole = (case hd_user h of Some u \<Rightarrow> role_text (ru_role u) | None \<Rightarrow> None),
      a_action = to_lower (hd_controller h) @ ''.'' @ inferAction (rq_method req),
      a_targetType = inferTargetType (rq_url req),
      a_targetId = (if blank (hd_id h) then None else hd_id h),
      e_id = [], e_ipAddress = rq_ip req,
      e_userAgent = (if blank (rq_headers req ''user-agent'') then None else rq_headers req ''user-agent''),
      e_metadata = Some (sanitizeBody (rq_body req) @ [(''handler'', JStr (hd_handler h)), ending]),
      e_createdAt = 0\<rparr>"

definition rejects :: "exn \<Rightarrow> trail \<Rightarrow> trail" where
  "rejects e tr = tr\<lparr>unhandled := unhandled tr @ [e]\<rparr>"

text \<open>
  \<open>intercept\<close>, given what the handler answers. The answer passes through; the callback of a failure
  logs it and throws it again, inside a promise.
\<close>

definition intercept ::
  "env \<Rightarrow> audit_env \<Rightarrow> (exn \<Rightarrow> string) \<Rightarrow> request \<Rightarrow> handled \<Rightarrow> 'a result \<Rightarrow> trail \<Rightarrow> 'a result \<times> trail" where
  "intercept env au message req h answer tr =
     (if rq_method req \<notin> set STATE_CHANGING_METHODS then (answer, tr)
      else (answer,
        case answer of
          Inr _ \<Rightarrow>
            (case create_audit env au (logged req h (''statusCode'', JNum (nat_str (hd_status h)))) tr of
               (Inl e, tr') \<Rightarrow> rejects e tr'
             | (Inr _, tr') \<Rightarrow> tr')
        | Inl err \<Rightarrow>
            (case create_audit env au (logged req h (''error'', JStr (message err))) tr of
               (Inl e, tr') \<Rightarrow> rejects e tr'
             | (Inr _, tr') \<Rightarrow> rejects err tr')))"

section \<open>Reading the log\<close>

record audit_filter =
  af_actorId :: "uuid option"
  af_action :: "string option"
  af_targetType :: "string option"
  af_targetId :: "uuid option"
  af_dateFrom :: "instant option"
  af_dateTo :: "instant option"
  af_search :: "string option"

definition where_given :: "string option \<Rightarrow> string option \<Rightarrow> bool" where
  "where_given v col \<longleftrightarrow> blank v \<or> col = v"

definition ilike :: "string \<Rightarrow> string option \<Rightarrow> bool" where
  "ilike pat col \<longleftrightarrow> (case col of None \<Rightarrow> False | Some s \<Rightarrow> like (to_lower pat) (to_lower s))"

definition audit_match :: "audit_filter \<Rightarrow> uuid \<Rightarrow> user_role \<Rightarrow> audit_entry \<Rightarrow> bool" where
  "audit_match f userId role a \<longleftrightarrow>
     (let actorId = (if role = ADMIN \<or> role = SUPER_ADMIN then af_actorId f else Some userId)
      in where_given actorId (a_actorId a) \<and> where_given (af_action f) (Some (a_action a)) \<and>
         where_given (af_targetType f) (a_targetType a) \<and> where_given (af_targetId f) (a_targetId a) \<and>
         (case af_dateFrom f of Some t \<Rightarrow> t \<le> e_createdAt a | None \<Rightarrow> True) \<and>
         (case af_dateTo f of Some t \<Rightarrow> e_createdAt a \<le> t | None \<Rightarrow> True) \<and>
         (case af_search f of
            None \<Rightarrow> True
          | Some [] \<Rightarrow> True
          | Some s \<Rightarrow> (let pat = ''%'' @ s @ ''%''
                       in ilike pat (a_actorEmail a) \<or> ilike pat (a_targetType a) \<or> ilike pat (Some (a_action a)))))"

definition find_audit_logs ::
  "audit_filter \<Rightarrow> int \<Rightarrow> int \<Rightarrow> uuid \<Rightarrow> user_role \<Rightarrow> trail \<Rightarrow> (audit_entry list \<times> nat) result" where
  "find_audit_logs f page lmt userId role tr =
     (let rows = filter (audit_match f userId role) (entries tr)
      in map_sum id (\<lambda>xs. (xs, length rows)) (paginate page lmt (newest_first e_createdAt rows)))"

section \<open>Masked addresses\<close>

lemma split_on_nonempty: "split_on c s \<noteq> []"
  by (induction s) (auto split: list.splits)

lemma split_on_free: "c \<notin> set a \<Longrightarrow> split_on c a = [a]"
  by (induction a) auto

lemma split_on_append: "c \<notin> set a \<Longrightarrow> split_on c (a @ c # s) = a # split_on c s"
  by (induction a) auto

lemma split_on_concat: "hd (split_on c s) @ concat (map (\<lambda>q. c # q) (tl (split_on c s))) = s"
proof (induction s)
  case (Cons x s)
  obtain q qs where "split_on c s = q # qs" using split_on_nonempty by (cases "split_on c s") auto
  with Cons show ?case by simp
qed simp

lemma dot_not_digit: "octet_text a \<Longrightarrow> CHR ''.'' \<notin> set a"
  by (auto simp: octet_text_def list_all_iff is_digit_def)

lemma colon_not_digit: "octet_text a \<Longrightarrow> CHR '':'' \<notin> set a"
  by (auto simp: octet_text_def list_all_iff is_digit_def)

lemma split_dotted:
  assumes "octet_text a" "octet_text b" "octet_text c" "octet_text d"
  shows "split_on (CHR ''.'') (dotted a b c d) = [a, b, c, d]"
  using assms dot_not_digit by (simp add: dotted_def split_on_append split_on_free)

lemma octet_ends: "octet_text a \<Longrightarrow> a \<noteq> [] \<and> \<not> is_space (hd a) \<and> \<not> is_space (last a)"
  using digit_no_space hd_in_set [of a] last_in_set [of a] by (simp add: octet_text_def list_all_iff)

lemma trim_dotted:
  assumes "octet_text a" "octet_text b" "octet_text c" "octet_text d"
  shows "trim (dotted a b c d) = dotted a b c d"
  using octet_ends [OF assms(1)] octet_ends [OF assms(4)] by (intro trim_id) (auto simp: dotted_def hd_append)

lemma octet_zero: "octet_text ''0''" "num_of ''0'' = 0"
  by (simp_all add: octet_text_def is_digit_def num_of_def digit_val_def)

definition network :: "string \<Rightarrow> string \<Rightarrow> string \<Rightarrow> bool" where
  "network a b c \<longleftrightarrow> octet_text a \<and> octet_text b \<and> octet_text c \<and> num_of a \<le> 255 \<and> num_of b \<le> 255 \<and> num_of c \<le> 255"

lemma maskIpv4_dotted: "network a b c \<Longrightarrow> octet_text d \<Longrightarrow> maskIpv4 (Some (dotted a b c d)) = Some (dotted a b c ''0'')"
  by (simp add: maskIpv4_def network_def trim_dotted split_dotted not_less)

lemma maskIp_dotted: "network a b c \<Longrightarrow> octet_text d \<Longrightarrow> maskIp (Some (dotted a b c d)) = Some (dotted a b c ''0'')"
  by (simp add: maskIp_def isIpv4_def maskIpv4_dotted blank_def) (simp add: dotted_def)

lemma maskIpv4_Some:
  assumes "maskIpv4 (Some s) = Some m"
  obtains a b c d where "network a b c" "octet_text d" "trim s = dotted a b c d" "m = dotted a b c ''0''"
proof -
  from assms obtain a b c d where q: "split_on (CHR ''.'') (trim s) = [a, b, c, d]" "octet_text a" "octet_text b"
      "octet_text c" "octet_text d" "\<not> list_ex (\<lambda>p. 255 < num_of p) [a, b, c]" "m = dotted a b c ''0''"
    by (auto simp: maskIpv4_def split: list.splits if_splits)
  then have "network a b c" by (simp add: network_def)
  moreover have "trim s = dotted a b c d" using split_on_concat [of "CHR ''.''" "trim s"] q(1) by (simp add: dotted_def)
  ultimately show ?thesis using that q(5,7) by blast
qed

lemma trim_ends:
  assumes "trim s \<noteq> []"
  shows "\<not> is_space (hd (trim s))" "\<not> is_space (last (trim s))"
proof -
  let ?d = "dropWhile is_space s" and ?e = "dropWhile is_space (rev (dropWhile is_space s))"
  have t: "trim s = rev ?e" by (simp add: trim_def)
  with assms have e: "?e \<noteq> []" by simp
  from hd_dropWhile [OF e] show "\<not> is_space (last (trim s))" unfolding t by (simp add: last_rev)
  have d: "?d = trim s @ rev (takeWhile is_space (rev ?d))"
    unfolding t using takeWhile_dropWhile_id [of is_space "rev ?d"] by (metis rev_append rev_rev_ident)
  then have "?d \<noteq> []" "hd ?d = hd (trim s)" using assms by (metis append_is_Nil_conv, metis hd_append2)
  with hd_dropWhile [of is_space s] show "\<not> is_space (hd (trim s))" by simp
qed

lemma trim_idem: "trim (trim s) = trim s"
proof (cases "trim s = []")
  case True
  have "trim [] = []" by (simp add: trim_def)
  then show ?thesis unfolding True .
next
  case False
  then show ?thesis using trim_ends [OF False] by (intro trim_id)
qed

lemma trim_keeps: "x \<in> set s \<Longrightarrow> \<not> is_space x \<Longrightarrow> x \<in> set (trim s)"
proof -
  have d: "x \<in> set (dropWhile is_space ys)" if "x \<in> set ys" "\<not> is_space x" for ys
    using that by (metis (mono_tags, lifting) UnE set_append set_takeWhileD takeWhile_dropWhile_id)
  show "x \<in> set s \<Longrightarrow> \<not> is_space x \<Longrightarrow> x \<in> set (trim s)"
    unfolding trim_def using d by simp
qed

text \<open>
  Masking: every host of a network is logged as the same address, so the log does not
  tell the hosts apart; masking a masked address changes nothing; an address with a colon that is
  no dotted quadruple is logged as it came.
\<close>

theorem masking_hides_host:
  "(network a b c \<longrightarrow> octet_text d \<longrightarrow> octet_text d' \<longrightarrow>
      maskIp (Some (dotted a b c d)) = maskIp (Some (dotted a b c d'))) \<and>
   maskIp (maskIp raw) = maskIp raw \<and>
   (maskIp raw \<noteq> None \<longrightarrow> (\<exists>a b c. network a b c \<and> maskIp raw = Some (dotted a b c ''0'')) \<or>
      CHR '':'' \<in> set (the (maskIp raw)) \<and> maskIp raw = map_option trim raw)"
proof -
  have "maskIp (maskIp raw) = maskIp raw \<and> (maskIp raw \<noteq> None \<longrightarrow>
      (\<exists>a b c. network a b c \<and> maskIp raw = Some (dotted a b c ''0'')) \<or>
      CHR '':'' \<in> set (the (maskIp raw)) \<and> maskIp raw = map_option trim raw)"
  proof (cases "maskIp raw")
    case None
    then show ?thesis by (simp add: maskIp_def blank_def)
  next
    case (Some m)
    then obtain s where s: "raw = Some s" by (cases raw) (auto simp: maskIp_def blank_def)
    show ?thesis
    proof (cases "isIpv4 raw")
      case True
      with Some s have "maskIpv4 (Some s) = Some m" by (auto simp: maskIp_def split: if_splits)
      then obtain a b c d where q: "network a b c" "m = dotted a b c ''0''" by (rule maskIpv4_Some)
      then show ?thesis using Some maskIp_dotted [OF q(1) octet_zero(1)] by auto
    next
      case False
      with Some s have m: "CHR '':'' \<in> set s" "m = trim s" by (auto simp: maskIp_def isIpv6_def split: if_splits)
      then have colon: "CHR '':'' \<in> set m" by (simp add: trim_keeps is_space_def)
      have "maskIpv4 (Some m) = None" using False s m(2) by (auto simp: isIpv4_def maskIpv4_def trim_idem)
      moreover have "m \<noteq> []" using colon by auto
      ultimately have "maskIp (Some m) = Some m"
        using colon m(2) by (simp add: maskIp_def isIpv4_def isIpv6_def blank_def trim_idem)
      then show ?thesis using Some s m colon by simp
    qed
  qed
  then show ?thesis using maskIp_dotted [of a b c] by simp
qed

theorem masking_hides_host_witness:
  "maskIp (Some ''10.1.2.3'') = maskIp (Some ''10.1.2.77'') \<and> maskIp (maskIp (Some '' fe80::1'')) = Some ''fe80::1''"
proof -
  have e: "''10.1.2.3'' = dotted ''10'' ''1'' ''2'' ''3''" "''10.1.2.77'' = dotted ''10'' ''1'' ''2'' ''77''"
    by (simp_all add: dotted_def)
  have n: "network ''10'' ''1'' ''2''" "octet_text ''3''" "octet_text ''77''" by code_simp+
  have "maskIp (Some '' fe80::1'') = Some ''fe80::1''" by code_simp
  then show ?thesis
    using masking_hides_host [of "''10''" "''1''" "''2''" "''3''" "''77''" "Some '' fe80::1''"] n by (simp add: e)
qed

section \<open>Redaction\<close>

text \<open>No property of a sensitive name holds anything but the mark, at any depth.\<close>

fun clean :: "json \<Rightarrow> bool" where
  "clean (JObj ps) = list_all (\<lambda>(k, v). (k \<in> set sensitiveKeys \<longrightarrow> v = redacted) \<and> clean v) ps"
| "clean (JArr vs) = list_all clean vs"
| "clean v = True"

lemma nat_str_not_sensitive: "nat_str n \<notin> set sensitiveKeys"
proof
  assume "nat_str n \<in> set sensitiveKeys"
  moreover have "\<not> list_all is_digit k" if "k \<in> set sensitiveKeys" for k
    using that by (auto simp: sensitiveKeys_def is_digit_def)
  ultimately show False using digits_nat_str by blast
qed

lemma clean_sanitize: "clean (sanitize_value v)"
proof (induction v rule: sanitize_value.induct)
  case (1 ps)
  then show ?case by (fastforce simp: list_all_iff redacted_def)
next
  case (2 vs)
  have "(k \<in> set sensitiveKeys \<longrightarrow> v = redacted) \<and> clean v"
    if kv: "(k, v) \<in> set (zip (map nat_str [0..<length vs]) (map sanitize_value vs))" for k v
  proof -
    have "k \<in> nat_str ` set [0..<length vs]" using set_zip_leftD [OF kv] by simp
    moreover have "v \<in> sanitize_value ` set vs" using set_zip_rightD [OF kv] by simp
    ultimately show ?thesis using 2 nat_str_not_sensitive by auto
  qed
  then show ?case by (simp only: sanitize_value.simps clean.simps list_all_iff) auto
qed simp_all

lemma clean_body: "clean (JObj (sanitizeBody body))"
  using clean_sanitize [of body] by (auto simp: sanitizeBody_def split: json.splits)

definition scalar :: "json \<Rightarrow> bool" where
  "scalar v \<longleftrightarrow> (\<forall>ps. v \<noteq> JObj ps) \<and> (\<forall>vs. v \<noteq> JArr vs)"

lemma sanitize_scalar: "scalar v \<Longrightarrow> sanitize_value v = v"
  by (cases v) (simp_all add: scalar_def)

lemma scalar_clean: "scalar v \<Longrightarrow> clean v"
  by (cases v) (simp_all add: scalar_def)

lemma other_names_kept:
  assumes "(k, v) \<in> set ps" "k \<notin> set sensitiveKeys" "k \<noteq> ''__proto__''" "scalar v"
  shows "(k, v) \<in> set (sanitizeBody (JObj ps))"
  using assms sanitize_scalar [OF assms(4)] by (force simp: sanitizeBody_def)

section \<open>The entries of the log\<close>

lemma create_audit_cases:
  assumes "create_audit env au input tr = (r, tr')"
  obtains e where "r = Inl e" "tr' = tr"
  | a where "r = Inr a" "entries tr' = entries tr @ [a]" "unhandled tr' = unhandled tr"
      "a = input\<lparr>e_id := uuid1 env, e_ipAddress := maskIp (e_ipAddress input), e_createdAt := now env\<rparr>"
      "\<not> rejected_entry au a"
      "raw_ips tr' = raw_ips tr \<or> a_action input \<in> set SECURITY_ACTIONS \<or> isIpv6 (e_ipAddress input)"
  using assms
  by (auto simp: create_audit_def Let_def keep_raw_ip_def requiresSecurityRetention_def split: if_splits option.splits)

lemma logged_simps [simp]:
  "e_ipAddress (logged req h ending) = rq_ip req"
  "e_metadata (logged req h ending) = Some (sanitizeBody (rq_body req) @ [(''handler'', JStr (hd_handler h)), ending])"
  "a_action (logged req h ending) = to_lower (hd_controller h) @ ''.'' @ inferAction (rq_method req)"
  by (simp_all add: logged_def)

text \<open>What one intercepted request adds to the trail: at most one entry, at most one rejection.\<close>

lemma intercept_cases:
  assumes "intercept env au message req h answer tr = (r, tr')" "rq_method req \<in> set STATE_CHANGING_METHODS"
  obtains e ending where "r = answer" "entries tr' = entries tr" "raw_ips tr' = raw_ips tr" "unhandled tr' = unhandled tr @ [e]"
  | a ending where "r = answer" "entries tr' = entries tr @ [a]"
      "a = (logged req h ending)\<lparr>e_id := uuid1 env, e_ipAddress := maskIp (rq_ip req), e_createdAt := now env\<rparr>"
      "fst ending \<in> {''statusCode'', ''error''}" "scalar (snd ending)"
      "raw_ips tr' = raw_ips tr \<or> a_action a \<in> set SECURITY_ACTIONS \<or> isIpv6 (rq_ip req)"
      "unhandled tr' = unhandled tr @ (case answer of Inl err \<Rightarrow> [err] | Inr x \<Rightarrow> [])"
proof (cases answer)
  case (Inl err)
  obtain c tr1 where c: "create_audit env au (logged req h (''error'', JStr (message err))) tr = (c, tr1)" by (meson surj_pair)
  then show ?thesis
    by (rule create_audit_cases) (use assms Inl c that in \<open>auto simp: intercept_def rejects_def scalar_def\<close>)
next
  case (Inr x)
  obtain c tr1 where c: "create_audit env au (logged req h (''statusCode'', JNum (nat_str (hd_status h)))) tr = (c, tr1)"
    by (meson surj_pair)
  then show ?thesis
    by (rule create_audit_cases) (use assms Inr c that in \<open>auto simp: intercept_def rejects_def scalar_def\<close>)
qed



text \<open>The entry a masked address leaves nothing behind in the short-lived table.\<close>

lemma action_not_security: "to_lower c @ ''.'' @ inferAction m \<notin> set SECURITY_ACTIONS"
  if "m \<in> set STATE_CHANGING_METHODS"
proof -
  have "inferAction m \<in> {''create'', ''update'', ''delete''}"
    using that by (auto simp: STATE_CHANGING_METHODS_def inferAction_def)
  then have "last (to_lower c @ ''.'' @ inferAction m) = CHR ''e''" by auto
  moreover have "\<forall>s\<in>set SECURITY_ACTIONS. last s \<noteq> CHR ''e'' \<or> s = ''impersonate''"
    by (simp add: SECURITY_ACTIONS_def)
  moreover have "CHR ''.'' \<in> set (to_lower c @ ''.'' @ inferAction m)" by simp
  moreover have "CHR ''.'' \<notin> set ''impersonate''" by simp
  ultimately show ?thesis by metis
qed

lemma login_address_not_kept:
  assumes "rq_method req \<in> set STATE_CHANGING_METHODS" "\<not> isIpv6 (rq_ip req)"
    and "intercept env au message req h answer tr = (r, tr')"
  shows "raw_ips tr' = raw_ips tr"
  by (rule intercept_cases [OF assms(3,1)]) (use assms(2) action_not_security [OF assms(1)] in auto)

lemma ipv6_stays_in_log:
  assumes "rq_method req \<in> set STATE_CHANGING_METHODS" "rq_ip req = Some ip" "CHR '':'' \<in> set ip" "\<not> isIpv4 (Some ip)"
    and "intercept env au message req h answer tr = (r, tr')" "entries tr' = entries tr @ [a]"
  shows "e_ipAddress a = Some (trim ip)"
proof -
  have "maskIp (Some ip) = Some (trim ip)" using assms(3,4) by (auto simp: maskIp_def isIpv6_def blank_def)
  then show ?thesis by (rule_tac intercept_cases [OF assms(5,1)]) (use assms(2,6) in auto)
qed

text \<open>The purge keeps exactly the rows still within their window.\<close>

lemma purge_keeps_recent:
  "purgeExpired env tr = (k, tr') \<Longrightarrow>
   set (raw_ips tr') = {x \<in> set (raw_ips tr). now env \<le> si_expiresAt x} \<and> entries tr' = entries tr \<and>
   length (raw_ips tr') + k = length (raw_ips tr)"
  using sum_length_filter_compl [of "\<lambda>r. si_expiresAt r < now env" "raw_ips tr"]
  by (auto simp: purgeExpired_def delete_where_def count_where_def not_less)

lemma retention_positive: "1 \<le> retentionDays env au"
  by (auto simp: retentionDays_def split: option.splits)

lemma non_admin_sees_own:
  assumes "find_audit_logs f page lmt userId role tr = Inr (xs, cnt)" "role \<noteq> ADMIN" "role \<noteq> SUPER_ADMIN" "userId \<noteq> []"
  shows "\<forall>a\<in>set xs. a_actorId a = Some userId"
proof -
  let ?rows = "filter (audit_match f userId role) (entries tr)"
  obtain ys where "paginate page lmt (newest_first e_createdAt ?rows) = Inr ys" "ys = xs"
    using assms(1) by (cases "paginate page lmt (newest_first e_createdAt ?rows)") (auto simp: find_audit_logs_def Let_def)
  then have "set xs \<subseteq> set ?rows" using paginate_subset by (fastforce simp: newest_first_def)
  then show ?thesis using assms(2-4) by (auto simp: audit_match_def where_given_def blank_def Let_def)
qed

section \<open>A password reset in the log\<close>

definition reset_body :: "reset_password_dto \<Rightarrow> json" where
  "reset_body dto =
     JObj [(''otp'', JStr (rp_otp dto)), (''newPassword'', JStr (rp_newPassword dto)),
           (''confirmNewPassword'', JStr (rp_confirmNewPassword dto))]"

text \<open>
  Password reset: the log entry of a successful reset holds the new password in the clear,
  as the sensitive names include password but not newPassword; it is the password whose hash
  the account now has.
\<close>

theorem new_password_logged:
  assumes "resetPassword env ae dto w = (Inr (), w')"
    and "rq_method req = ''POST''" and "rq_body req = reset_body dto"
    and "intercept env au message req h (Inr ()) tr = (r, tr')" and "entries tr' = entries tr @ [a]"
  shows "(''newPassword'', JStr (rp_newPassword dto)) \<in> set (the (e_metadata a)) \<and>
    (\<exists>u\<in>set (users w'). u_password u = Some (hashPassword env (rp_newPassword dto)))"
proof
  have m: "rq_method req \<in> set STATE_CHANGING_METHODS" using assms(2) by (simp add: STATE_CHANGING_METHODS_def)
  have "(''newPassword'', JStr (rp_newPassword dto)) \<in> set (sanitizeBody (rq_body req))"
    unfolding assms(3) reset_body_def by (rule other_names_kept) (simp_all add: sensitiveKeys_def scalar_def)
  moreover obtain ending where "e_metadata a = Some (sanitizeBody (rq_body req) @ [(''handler'', JStr (hd_handler h)), ending])"
    by (rule intercept_cases [OF assms(4) m]) (use assms(5) in auto)
  ultimately show "(''newPassword'', JStr (rp_newPassword dto)) \<in> set (the (e_metadata a))" by auto
  obtain u where "u_password (reset_user env (rp_newPassword dto) u) = Some (hashPassword env (rp_newPassword dto))"
      "save_user (reset_user env (rp_newPassword dto) u) w = (Inr (), w')"
    using assms(1) by (auto simp: resetPassword_def check_that_Inr reset_user_def split: option.splits if_splits)
  then show "\<exists>u\<in>set (users w'). u_password u = Some (hashPassword env (rp_newPassword dto))"
    by (auto simp: save_user_def intro!: bexI [OF _ save_row_self])
qed

definition sample_trail :: trail where
  "sample_trail = \<lparr>entries = [], raw_ips = [], unhandled = []\<rparr>"

definition sample_audit :: audit_env where
  "sample_audit = \<lparr>pg_uuid = (\<lambda>_. True), pg_inet = (\<lambda>_. True), parse_int = (\<lambda>_. None)\<rparr>"

definition sample_handled :: "string \<Rightarrow> handled" where
  "sample_handled f = \<lparr>hd_controller = ''Auth'', hd_handler = f, hd_id = None, hd_user = None, hd_status = 2\<rparr>"

definition auth_request :: "string \<Rightarrow> json \<Rightarrow> request" where
  "auth_request f body =
     (sample_request ''POST'' [''auth'', f] None)\<lparr>rq_url := ''/api/auth/'' @ f, rq_ip := Some ''10.1.2.3'', rq_body := body\<rparr>"

lemma one_entry: "length xs = 1 \<Longrightarrow> xs = [] @ [hd xs]"
  by (cases xs) auto

theorem new_password_logged_witness:
  "\<exists>a tr. intercept (auth_time 9 ''a1'') sample_audit (\<lambda>_. ''failed'') (auth_request ''reset-password'' (reset_body (sample_reset ''Secret12'')))
      (sample_handled ''resetPassword'') (Inr ()) sample_trail = (Inr (), tr) \<and> entries tr = [a] \<and>
    (''newPassword'', JStr ''Secret12'') \<in> set (the (e_metadata a))"
proof -
  let ?q = "auth_request ''reset-password'' (reset_body (sample_reset ''Secret12''))"
  let ?i = "intercept (auth_time 9 ''a1'') sample_audit (\<lambda>_. ''failed'') ?q (sample_handled ''resetPassword'') (Inr ()) sample_trail"
  let ?r = "resetPassword (auth_time 9 ''a1'') sample_auth (sample_reset ''Secret12'') sample_registered"
  have "fst ?r = Inr ()" by code_simp
  then have r: "?r = (Inr (), snd ?r)" by (simp add: prod_eq_iff)
  have f: "fst ?i = Inr ()" by (simp add: intercept_def)
  have "length (entries (snd ?i)) = 1" by code_simp
  from one_entry [OF this] have e: "entries (snd ?i) = entries sample_trail @ [hd (entries (snd ?i))]" by (simp add: sample_trail_def)
  have q: "rq_method ?q = ''POST''" "rq_body ?q = reset_body (sample_reset ''Secret12'')"
    by (simp_all add: auth_request_def sample_request_def)
  have i: "?i = (Inr (), snd ?i)" using f by (simp add: prod_eq_iff)
  from new_password_logged [OF r q i e]
  have "(''newPassword'', JStr ''Secret12'') \<in> set (the (e_metadata (hd (entries (snd ?i)))))"
    by (simp add: sample_reset_def)
  then show ?thesis using i e by (intro exI [of _ "hd (entries (snd ?i))"] exI [of _ "snd ?i"]) (simp add: sample_trail_def)
qed



end
