(* ===== verification/Accounts.thy ===== *)
theory Accounts
  imports Audit_Trail Sign_On Web_Admin
begin

text \<open>
  The rest of the users module: the look-ups of \<open>users/providers\<close> and \<open>users.service.ts\<close>, the reading of one
  account (\<open>users.controller.ts\<close>), the account creation of \<open>createUser.provider.ts\<close> with its tokens
  (\<open>auth/providers/generateTokens.provider.ts\<close>), pictures in Cloudinary (\<open>cloudinary.service.ts\<close>), the verify
  callback of the SAML strategy (\<open>auth/sso/saml.strategy.ts\<close>) and the nightly hardening job.

  Cloudinary is a parameter: the address an upload gives, or its failure. What it is told to destroy is
  returned.
\<close>

section \<open>Look-ups\<close>

definition shown_user :: "env \<Rightarrow> user \<Rightarrow> bool" where
  "shown_user env u \<longleftrightarrow> (soft_hidden env \<longrightarrow> u_deletedAt u = None)"

definition getUserByEmail :: "env \<Rightarrow> string \<Rightarrow> world \<Rightarrow> user result" where
  "getUserByEmail env mailbox w =
     (case find_user env (\<lambda>u. u_email u = mailbox) w of
        None \<Rightarrow> ErrorCatch ''Error retrieving user details'' (Inl (Unauthorized ''Credentials are not valid''))
      | Some u \<Rightarrow> Inr u)"

definition findAllUsers :: "env \<Rightarrow> world \<Rightarrow> user list" where
  "findAllUsers env w = filter (shown_user env) (users w)"

definition findAllAdmins :: "env \<Rightarrow> world \<Rightarrow> user list" where
  "findAllAdmins env w = filter (\<lambda>u. shown_user env u \<and> u_role u = ADMIN) (users w)"

definition findAdminById :: "env \<Rightarrow> uuid \<Rightarrow> world \<Rightarrow> user result" where
  "findAdminById env k w =
     (case find_user env (\<lambda>u. u_id u = k \<and> u_role u = ADMIN) w of
        None \<Rightarrow> ErrorCatch ''Error retrieving admin details'' (Inl (NotFound (''Admin with ID '' @ k @ '' not found'')))
      | Some u \<Rightarrow> Inr u)"

definition findByVerificationToken :: "env \<Rightarrow> string option \<Rightarrow> world \<Rightarrow> user option" where
  "findByVerificationToken env token w = find_user env (\<lambda>u. where_eq env token (u_verificationToken u)) w"

definition findByPasswordResetToken :: "env \<Rightarrow> string option \<Rightarrow> world \<Rightarrow> user option" where
  "findByPasswordResetToken env token w = find_user env (\<lambda>u. where_eq env token (u_passwordResetToken u)) w"

text \<open>The row without the columns that are taken out of the answer.\<close>

definition without_secrets :: "user \<Rightarrow> user" where
  "without_secrets u = u\<lparr>u_password := None, u_passwordResetExpiresIn := None, u_passwordResetToken := None\<rparr>"

definition validateUser :: "env \<Rightarrow> string \<Rightarrow> string \<Rightarrow> world \<Rightarrow> user result" where
  "validateUser env mailbox pw w =
     ErrorCatch ''Error validating user''
       (case getUserByEmail env mailbox w of
          Inl e \<Rightarrow> Inl e
        | Inr u \<Rightarrow>
            (case verifyPassword env pw (u_password u) of
               Inl e \<Rightarrow> Inl e
             | Inr ok \<Rightarrow> if ok then Inr (without_secrets u) else Inl (Unauthorized ''Invalid email/password'')))"

definition findOnePublicById :: "env \<Rightarrow> uuid \<Rightarrow> world \<Rightarrow> user result" where
  "findOnePublicById env k w = map_sum id (\<lambda>u. u\<lparr>u_password := None\<rparr>) (findUserById env k w)"

text \<open>\<open>GET /users/:id\<close>.\<close>

definition users_findOne :: "env \<Rightarrow> uuid \<Rightarrow> uuid \<Rightarrow> string option \<Rightarrow> world \<Rightarrow> user result" where
  "users_findOne env k currentUserId role w =
     (if currentUserId \<noteq> k \<and> \<not> isAdminLike role then Inl (NotFound (''User with ID '' @ k @ '' not found''))
      else findOnePublicById env k w)"

definition updateTwoFactor :: "env \<Rightarrow> uuid \<Rightarrow> bool \<Rightarrow> world \<Rightarrow> user result \<times> world" where
  "updateTwoFactor env k flag w =
     check_that (findUserById env k w) (\<lambda>u w.
       let u' = u\<lparr>u_twoFactorEnabled := flag\<rparr> in then_do (save_user u' w) (\<lambda>_ w. (Inr u', w))) w"

text \<open>The saved row and the address before.\<close>

definition updateProfilePicture :: "env \<Rightarrow> uuid \<Rightarrow> string \<Rightarrow> world \<Rightarrow> (user \<times> string option) result \<times> world" where
  "updateProfilePicture env k url w =
     check_that (findUserById env k w) (\<lambda>u w.
       let u' = u\<lparr>u_profilePicture := Some url\<rparr>
       in then_do (save_user u' w) (\<lambda>_ w. (Inr (u', u_profilePicture u), w))) w"

definition hardening_run :: "env \<Rightarrow> world \<Rightarrow> world" where
  "hardening_run env w = snd (hardenDeletedUsers env w)"

section \<open>Creating an account\<close>

record new_account =
  na_firstname :: string
  na_lastname :: string
  na_username :: "string option"
  na_email :: string
  na_password :: string
  na_role :: "user_role option"

text \<open>Both tokens are signed with the module's secret, without issuer and audience.\<close>

definition generateBothTokens :: "env \<Rightarrow> auth_env \<Rightarrow> user \<Rightarrow> token_pair result" where
  "generateBothTokens env ae u =
     (let sign = (\<lambda>claims expiry. jwt_sign ae (config env ''JWT_SECRET'') (JObj claims)
                    \<lparr>so_expiresIn = expiry, so_issuer = None, so_audience = None\<rparr> (now env div 1000))
      in case sign [(''sub'', JStr (u_id u)), (''role'', JStr (role_string (u_role u))), (''email'', JStr (u_email u))]
                   (env_default env ''JWT_ACCESS_EXPIRATION'' ''15m'') of
           Inl e \<Rightarrow> Inl e
         | Inr a \<Rightarrow>
             (case sign [(''sub'', JStr (u_id u))] (env_default env ''JWT_REFRESH_EXPIRATION'' ''7d'') of
                Inl e \<Rightarrow> Inl e
              | Inr r \<Rightarrow> Inr \<lparr>tp_accessToken = a, tp_refreshToken = r\<rparr>))"

text \<open>When the refresh cookie expires; a time beyond the range of \<open>Date\<close> is invalid and setting the cookie throws.\<close>

definition cookie_expires :: "env \<Rightarrow> instant result" where
  "cookie_expires env =
     (case Web_Admin.parse_int (env_nonempty env ''JWT_REFRESH_EXPIRATION'' ''604800000'') of
        None \<Rightarrow> Inl (JsError ''option expires is invalid'')
      | Some ms \<Rightarrow> if \<bar>now env + ms\<bar> \<le> 8640000000000000 then Inr (now env + ms) else Inl (JsError ''option expires is invalid''))"

text \<open>Name, value, path and expiry of the cookie.\<close>

record account_answer =
  aa_user :: user
  aa_accessToken :: string
  aa_cookie :: "string \<times> string \<times> string \<times> instant"

definition account_row :: "env \<Rightarrow> string \<Rightarrow> new_account \<Rightarrow> user" where
  "account_row env token a =
     (blank_user env (na_email a) (na_firstname a) (na_lastname a) (bcrypt_hash env (na_password a))
        (case na_role a of Some r \<Rightarrow> r | None \<Rightarrow> USER))
       \<lparr>u_username := na_username a, u_verificationToken := Some token, u_verificationTokenExpiry := Some (now env + 86400000)\<rparr>"

definition create_account :: "env \<Rightarrow> auth_env \<Rightarrow> string \<Rightarrow> new_account \<Rightarrow> world \<Rightarrow> account_answer result \<times> world" where
  "create_account env ae token a w =
     (let r =
        (if find_user env (\<lambda>u. u_email u = na_email a) w \<noteq> None then (Inl (Conflict ''User already exists.''), w)
         else let u = account_row env token a in
           then_do (insert_user u w) (\<lambda>_ w.
           check_that (generateBothTokens env ae u) (\<lambda>tp w.
           then_do (saveRefreshToken env ae u (tp_refreshToken tp) w) (\<lambda>_ w.
           check_that (cookie_expires env) (\<lambda>t w.
           then_do (send_critical ae VerificationMail (u_email u) w) (\<lambda>_ w.
             (Inr \<lparr>aa_user = u, aa_accessToken = tp_accessToken tp,
                   aa_cookie = (''authRefreshToken'', tp_refreshToken tp, ''/auth/refresh-token'', t)\<rparr>, w))) w)) w))
      in (ErrorCatch ''Failed to create user'' (fst r), snd r))"

section \<open>Pictures\<close>

record cloudinary =
  cl_upload :: "string \<Rightarrow> string result"
  cl_destroy :: "string \<Rightarrow> unit result"

definition uploadImage :: "env \<Rightarrow> cloudinary \<Rightarrow> string option \<Rightarrow> string result" where
  "uploadImage env cl folder =
     cl_upload cl (if blank folder then env_nonempty env ''CLOUDINARY_FOLDER'' ''profile-pictures'' else the folder)"

definition deleteImage :: "cloudinary \<Rightarrow> string \<Rightarrow> unit result" where
  "deleteImage cl public_id =
     (case cl_destroy cl public_id of Inl e \<Rightarrow> Inl (BadRequest ''Failed to delete image from Cloudinary'') | Inr _ \<Rightarrow> Inr ())"

definition extractPublicIdFromUrl :: "string \<Rightarrow> string" where
  "extractPublicIdFromUrl url =
     (let parts = split_on (CHR ''/'') url;
          publicId = hd (split_on (CHR ''.'') (last parts));
          folder = (if length parts < 2 then ''undefined'' else parts ! (length parts - 2))
      in folder @ ''/'' @ publicId)"

text \<open>
  The upload with the deletion of the picture before: the answer, the tables, and the pictures Cloudinary
  is told to destroy. Whether it does is not looked at.
\<close>

definition replacePicture ::
  "env \<Rightarrow> cloudinary \<Rightarrow> uuid \<Rightarrow> uuid \<Rightarrow> user_role \<Rightarrow> world \<Rightarrow> ((uuid \<times> string) result \<times> world) \<times> string list" where
  "replacePicture env cl target current role w =
     (let upload = uploadImage env cl (Some ''profile-pictures'')
      in (uploadProfilePicture env (case upload of Inr url \<Rightarrow> Some url | Inl _ \<Rightarrow> None) target current role w,
          if current \<noteq> target \<and> role \<noteq> ADMIN then []
          else case (find_user env (\<lambda>u. u_id u = target) w, upload) of
            (Some u, Inr _) \<Rightarrow> if blank (u_profilePicture u) then [] else [extractPublicIdFromUrl (the (u_profilePicture u))]
          | _ \<Rightarrow> []))"

section \<open>The SAML callback\<close>

text \<open>\<open>p.a ?? p.b ?? p.c\<close>.\<close>

fun claim :: "string list \<Rightarrow> json \<Rightarrow> json option" where
  "claim [] p = None"
| "claim (k # ks) p = (case js_get k (Some p) of Some (Some v) \<Rightarrow> if v = JNull then claim ks p else Some v | _ \<Rightarrow> claim ks p)"

text \<open>A claim that is not a text has no \<open>trim\<close>.\<close>

definition trimmable :: "json option \<Rightarrow> string option result" where
  "trimmable v = (case v of None \<Rightarrow> Inr None | Some (JStr s) \<Rightarrow> Inr (Some s) | Some _ \<Rightarrow> Inl (JsError ''trim is not a function''))"

definition email_claim :: "json \<Rightarrow> json option" where
  "email_claim p = claim [''email'', ''urn:oid:0.9.2342.19200300.100.1.3'', ''nameID''] p"

definition first_claim :: "json \<Rightarrow> json option" where
  "first_claim p = claim [''givenName'', ''firstName'', ''urn:oid:2.5.4.42''] p"

definition last_claim :: "json \<Rightarrow> json option" where
  "last_claim p = claim [''sn'', ''lastName'', ''urn:oid:2.5.4.4''] p"

definition signonVerify :: "env \<Rightarrow> string \<Rightarrow> json option \<Rightarrow> world \<Rightarrow> user result \<times> world" where
  "signonVerify env random profile w =
     (case profile of
        None \<Rightarrow> (Inl (JsError ''Empty SAML profile''), w)
      | Some p \<Rightarrow>
          check_that (trimmable (email_claim p)) (\<lambda>mailbox w.
            let known = \<lparr>sp_nameID = None, sp_email = mailbox, sp_firstName = None, sp_lastName = None\<rparr>
            in if saml_email known = [] \<or> find_user env (\<lambda>u. u_email u = saml_email known) w \<noteq> None
               then then_do (provision env random known w) (\<lambda>r w. (Inr (fst r), w))
               else check_that (trimmable (first_claim p)) (\<lambda>first w.
                 check_that (trimmable (last_claim p)) (\<lambda>lst w.
                 then_do (provision env random (known\<lparr>sp_firstName := first, sp_lastName := lst\<rparr>) w)
                   (\<lambda>r w. (Inr (fst r), w))) w) w) w)"

section \<open>Reading accounts\<close>

text \<open>One's own account or, for administrators, any; the answer never holds the password.\<close>

lemma findOne_private:
  assumes "users_findOne env k currentUserId role w = Inr u"
  shows "currentUserId = k \<or> isAdminLike role" "u_id u = k" "u_password u = None"
  using assms by (auto simp: users_findOne_def findOnePublicById_def findUserById_def split: if_splits option.splits dest!: find_userD)

lemma validateUser_checked:
  assumes "validateUser env mailbox pw w = Inr v"
  shows "\<exists>u h. find_user env (\<lambda>u. u_email u = mailbox) w = Some u \<and> u_password u = Some h \<and> bcrypt_compare env pw h \<and> v = without_secrets u"
  using assms
  by (auto simp: validateUser_def getUserByEmail_def verifyPassword_def ErrorCatch_def split: option.splits sum.splits if_splits)

lemma admins_are_users: "set (findAllAdmins env w) \<subseteq> set (findAllUsers env w)"
  by (auto simp: findAllAdmins_def findAllUsers_def)

lemma getAdmin_listed: "findAdminById env k w = Inr u \<Longrightarrow> u \<in> set (findAllAdmins env w) \<and> u_id u = k"
  by (auto simp: findAdminById_def findAllAdmins_def ErrorCatch_def find_user_def shown_user_def
    split: option.splits if_splits dest!: find_one_SomeD)

section \<open>Accounts made halfway\<close>

lemma created_row:
  assumes "create_account env ae token a w = (r, w')" "w' \<noteq> w"
  shows "account_row env token a \<in> set (users w')"
proof -
  let ?u = "account_row env token a"
  have tok: "saveRefreshToken env ae u t x = (q, x') \<Longrightarrow> users x' = users x" for u t x q x'
    by (auto simp: saveRefreshToken_def createRefreshToken_def Let_def split: if_splits)
  have mail: "send_critical ae m k x = (q, x') \<Longrightarrow> users x' = users x" for m k x q x'
    by (auto simp: send_critical_def emit_def split: if_splits)
  have ins: "insert_user ?u w = (Inr (), w1) \<Longrightarrow> ?u \<in> set (users w1)" for w1
    by (auto simp: insert_user_def save_user_Inr save_row_self split: if_splits)
  have "snd (create_account env ae token a w) = w \<or> (\<exists>w1. insert_user ?u w = (Inr (), w1) \<and> users (snd (create_account env ae token a w)) = users w1)"
    by (auto simp: create_account_def Let_def then_do_def check_that_def insert_user_def save_user_def dest!: tok mail
      split: prod.splits sum.splits if_splits)
  then show ?thesis using assms ins by auto
qed

text \<open>
  an account creation that fails after it has written anything, such as one whose mail cannot be
  queued, has taken the address: every later attempt with it is refused.
\<close>

theorem failed_creation_takes_address:
  assumes "create_account env ae token a w = (Inl e, w')" "w' \<noteq> w" "na_email a' = na_email a"
  shows "account_row env token a \<in> set (users w') \<and>
    create_account env' ae' token' a' w' = (Inl (Conflict ''User already exists.''), w')"
proof -
  let ?u = "account_row env token a"
  have row: "?u \<in> set (users w')" by (rule created_row [OF assms(1,2)])
  have "u_email ?u = na_email a'" "u_deletedAt ?u = None" using assms(3) by (simp_all add: account_row_def blank_user_def)
  then have "find_user env' (\<lambda>u. u_email u = na_email a') w' \<noteq> None"
    using row by (auto simp: find_user_def find_one_None_iff)
  then show ?thesis using row by (simp add: create_account_def ErrorCatch_def)
qed

text \<open>
  One variable is read as a duration by the token and as milliseconds by the cookie: with the documented
  kind of value the cookie is gone after seven milliseconds.
\<close>

lemma cookie_dies_at_once:
  assumes "config env ''JWT_REFRESH_EXPIRATION'' = Some ''7d''" "0 \<le> now env" "now env \<le> 8000000000000000"
  shows "cookie_expires env = Inr (now env + 7)"
proof -
  have "Web_Admin.parse_int ''7d'' = Some 7" by code_simp
  then show ?thesis using assms by (simp add: cookie_expires_def env_nonempty_def)
qed

section \<open>One picture at a time\<close>

lemma split_on_sep: "split_on c (a @ c # s) = split_on c a @ split_on c s"
  by (induction a) (auto split: list.splits simp: split_on_nonempty)

lemma extract_public_id:
  assumes "CHR ''/'' \<notin> set folder \<union> set name \<union> set ext" "CHR ''.'' \<notin> set name"
  shows "extractPublicIdFromUrl (dir @ ''/'' @ folder @ ''/'' @ name @ ''.'' @ ext) = folder @ ''/'' @ name"
proof -
  have "split_on (CHR ''/'') (dir @ ''/'' @ folder @ ''/'' @ name @ ''.'' @ ext) =
      split_on (CHR ''/'') dir @ [folder, name @ ''.'' @ ext]"
    using assms(1) split_on_sep [of "CHR ''/''" dir "folder @ ''/'' @ name @ ''.'' @ ext"]
    by (simp add: split_on_append split_on_free)
  moreover have "split_on (CHR ''.'') (name @ ''.'' @ ext) = name # split_on (CHR ''.'') ext"
    using split_on_append [OF assms(2)] by simp
  ultimately show ?thesis by (simp add: extractPublicIdFromUrl_def nth_append)
qed

text \<open>
  C32: an upload that succeeds was made by the owner or an administrator, changes the picture of this one
  account to the uploaded one, and has Cloudinary destroy exactly the picture it replaces.
\<close>

theorem picture_replaced:
  assumes "replacePicture env cl target current role w = ((Inr (k, url), w'), destroyed)"
  shows "\<exists>u. find_user env (\<lambda>u. u_id u = target) w = Some u \<and> k = target \<and> (current = target \<or> role = ADMIN) \<and>
    cl_upload cl ''profile-pictures'' = Inr url \<and>
    w' = w\<lparr>users := save_row u_id (u\<lparr>u_profilePicture := Some url\<rparr>) (users w)\<rparr> \<and>
    (u_profilePicture u = None \<longrightarrow> destroyed = []) \<and>
    (\<forall>dir folder name ext. u_profilePicture u = Some (dir @ ''/'' @ folder @ ''/'' @ name @ ''.'' @ ext) \<and>
       CHR ''/'' \<notin> set folder \<union> set name \<union> set ext \<and> CHR ''.'' \<notin> set name \<longrightarrow> destroyed = [folder @ ''/'' @ name])"
proof -
  let ?up = "cl_upload cl ''profile-pictures''"
  have img: "uploadImage env cl (Some ''profile-pictures'') = ?up" by (simp add: uploadImage_def blank_def)
  from assms have up: "uploadProfilePicture env (case ?up of Inr url \<Rightarrow> Some url | Inl _ \<Rightarrow> None) target current role w = (Inr (k, url), w')"
    by (simp add: replacePicture_def Let_def img)
  then obtain u where u: "find_user env (\<lambda>u. u_id u = target) w = Some u" "current = target \<or> role = ADMIN" "?up = Inr url"
    "k = u_id u" "w' = w\<lparr>users := save_row u_id (u\<lparr>u_profilePicture := Some url\<rparr>) (users w)\<rparr>"
    by (auto simp: uploadProfilePicture_def save_user_def split: if_splits option.splits sum.splits prod.splits)
  moreover have "u_id u = target" using find_userD [OF u(1)] by simp
  moreover have "destroyed = (if blank (u_profilePicture u) then [] else [extractPublicIdFromUrl (the (u_profilePicture u))])"
    using assms u by (auto simp: replacePicture_def Let_def img)
  ultimately show ?thesis using extract_public_id by (auto simp: blank_def)
qed

text \<open>A super administrator is refused the pictures of others.\<close>

lemma super_admin_refused:
  "target \<noteq> current \<Longrightarrow>
   replacePicture env cl target current SUPER_ADMIN w = ((Inl (BadRequest ''You can only update your own profile picture''), w), [])"
  by (auto simp: replacePicture_def uploadProfilePicture_def)

section \<open>What an assertion gives\<close>

text \<open>Whoever signs on by SAML is staff afterwards, under the address asserted.\<close>

lemma provision_staff:
  assumes "provision env random q w = (Inr (u, created), w')"
  shows "u_role u = STAFF" "u_email u = saml_email q"
  using assms
  by (auto simp: provision_def Let_def then_do_Inr blank_user_def split: option.splits if_splits dest!: find_userD)

lemma signon_staff:
  assumes "signonVerify env random profile w = (Inr u, w')"
  shows "\<exists>p m. profile = Some p \<and> trimmable (email_claim p) = Inr m \<and> u_role u = STAFF \<and>
    u_email u = to_lower (trim (case m of Some s \<Rightarrow> s | None \<Rightarrow> []))"
proof -
  from assms obtain p where p: "profile = Some p" by (cases profile) (auto simp: signonVerify_def)
  with assms obtain m where m: "trimmable (email_claim p) = Inr m" by (auto simp: signonVerify_def check_that_Inr)
  let ?known = "\<lparr>sp_nameID = None, sp_email = m, sp_firstName = None, sp_lastName = None\<rparr>"
  from assms p m obtain first lst created where
    "provision env random (?known\<lparr>sp_firstName := first, sp_lastName := lst\<rparr>) w = (Inr (u, created), w')"
    by (auto simp: signonVerify_def check_that_Inr then_do_Inr Let_def split: if_splits)
  from provision_staff [OF this] p m show ?thesis by (auto simp: saml_email_def split: option.split)
qed

text \<open>A list of addresses, as identity providers may send, is no address.\<close>

lemma list_of_addresses_refused:
  "email_claim p = Some (JArr vs) \<Longrightarrow> signonVerify env random (Some p) w = (Inl (JsError ''trim is not a function''), w)"
  by (simp add: signonVerify_def trimmable_def check_that_def)

section \<open>A concrete account\<close>

definition sample_cloud :: cloudinary where
  "sample_cloud = \<lparr>cl_upload = (\<lambda>f. Inr (''https://c/v2/'' @ f @ ''/new.jpg'')), cl_destroy = (\<lambda>_. Inr ())\<rparr>"

definition pictured_world :: world where
  "pictured_world = sample_world\<lparr>users := map (\<lambda>u. u\<lparr>u_profilePicture := Some ''https://c/v1/profile-pictures/old.jpg''\<rparr>) (users sample_world)\<rparr>"

theorem picture_replaced_witness:
  "\<exists>w'. replacePicture sample_env sample_cloud ''ada'' ''ada'' USER pictured_world =
      ((Inr (''ada'', ''https://c/v2/profile-pictures/new.jpg''), w'), [''profile-pictures/old''])"
proof -
  let ?r = "replacePicture sample_env sample_cloud ''ada'' ''ada'' USER pictured_world"
  have "is_ok (fst (fst ?r))" by code_simp
  then obtain k url w' ds where r: "?r = ((Inr (k, url), w'), ds)" by (auto simp: is_ok_iff prod_eq_iff)
  from picture_replaced [OF r] obtain u where u: "find_user sample_env (\<lambda>u. u_id u = ''ada'') pictured_world = Some u"
    and k: "k = ''ada''" and url: "cl_upload sample_cloud ''profile-pictures'' = Inr url"
    and ds: "\<forall>dir folder name ext. u_profilePicture u = Some (dir @ ''/'' @ folder @ ''/'' @ name @ ''.'' @ ext) \<and>
       CHR ''/'' \<notin> set folder \<union> set name \<union> set ext \<and> CHR ''.'' \<notin> set name \<longrightarrow> ds = [folder @ ''/'' @ name]" by auto
  have "u_profilePicture u = Some (''https://c/v1'' @ ''/'' @ ''profile-pictures'' @ ''/'' @ ''old'' @ ''.'' @ ''jpg'')"
    using find_userD [OF u] by (auto simp: pictured_world_def)
  then have "ds = [''profile-pictures/old'']" using ds [rule_format, of "''https://c/v1''" "''profile-pictures''" "''old''" "''jpg''"] by simp
  moreover have "url = ''https://c/v2/profile-pictures/new.jpg''" using url by (simp add: sample_cloud_def)
  ultimately show ?thesis using r k by auto
qed

definition sample_new_account :: new_account where
  "sample_new_account = \<lparr>na_firstname = ''Eve'', na_lastname = ''E'', na_username = None, na_email = ''eve@nova'', na_password = ''Passw0rd!'', na_role = None\<rparr>"

definition short_env :: env where
  "short_env = (auth_time 7 ''t9'')\<lparr>config := (\<lambda>k. if k = ''JWT_REFRESH_EXPIRATION'' then Some ''7d'' else config sample_env k)\<rparr>"

theorem failed_creation_takes_address_witness:
  "\<exists>e w' e'. create_account short_env (sample_auth\<lparr>mail_queue_up := False\<rparr>) ''v1'' sample_new_account sample_world = (Inl e, w') \<and>
     create_account short_env sample_auth ''v2'' sample_new_account w' = (Inl (Conflict e'), w')"
proof -
  let ?r = "create_account short_env (sample_auth\<lparr>mail_queue_up := False\<rparr>) ''v1'' sample_new_account sample_world"
  have "\<not> is_ok (fst ?r)" by code_simp
  then obtain e where e: "fst ?r = Inl e" by (cases "fst ?r") auto
  have "length (users (snd ?r)) \<noteq> length (users sample_world)" by code_simp
  then have "snd ?r \<noteq> sample_world" by metis
  with e obtain w' where r: "?r = (Inl e, w')" "w' \<noteq> sample_world" by (metis prod.collapse)
  from failed_creation_takes_address [OF r refl] r(1) show ?thesis by blast
qed

end
