(* ===== verification/Web_Widgets.thy ===== *)
theory Web_Widgets
  imports Web_Admin "HOL-Library.Multiset"
begin

text \<open>
  The interactive components: the availability calendar, the seat map and the booking wizard
  (\<open>app/sandbox/components\<close>: \<open>AvailabilityCalendar\<close>, \<open>SeatMap\<close>, \<open>BookingWizard\<close>), the data table
  (\<open>DataTable\<close>), the page links (\<open>components/ui/Pagination.tsx\<close>) and the administrators' payments page
  (\<open>app/admin/payments/page.tsx\<close>) with its request.

  A component is its state and one function per handler; a click that the component does not offer
  changes nothing. What the wizard hands to \<open>onConfirm\<close> is logged. Local time is UTC.
\<close>

section \<open>The calendar\<close>

type_synonym availability = "(string \<times> nat) list"

record calendar =
  cal_year :: int
  cal_month :: nat

definition toDateStr :: "int \<Rightarrow> nat \<Rightarrow> int \<Rightarrow> string" where
  "toDateStr year month day =
     int_text year @ ''-'' @ pad_start 2 (nat_str (month + 1)) @ ''-'' @ pad_start 2 (nat_str (nat day))"

definition prevMonth :: "calendar \<Rightarrow> calendar" where
  "prevMonth c = (if cal_month c = 0 then c\<lparr>cal_month := 11, cal_year := cal_year c - 1\<rparr> else c\<lparr>cal_month := cal_month c - 1\<rparr>)"

definition nextMonth :: "calendar \<Rightarrow> calendar" where
  "nextMonth c = (if cal_month c = 11 then c\<lparr>cal_month := 0, cal_year := cal_year c + 1\<rparr> else c\<lparr>cal_month := cal_month c + 1\<rparr>)"

text \<open>1970-01-01 was a Thursday.\<close>

definition calendar_cells :: "calendar \<Rightarrow> int option list" where
  "calendar_cells c =
     replicate (nat ((day_number (cal_year c) (cal_month c + 1) 1 + 4) mod 7)) None @
     map Some [1..days_in_month (cal_year c) (cal_month c + 1)]"

text \<open>\<open>new Map(entries)\<close>: of two entries for a date the later counts.\<close>

definition date_available :: "availability \<Rightarrow> string \<Rightarrow> bool" where
  "date_available es date = (case map_of (rev es) date of Some n \<Rightarrow> 0 < n | None \<Rightarrow> False)"

definition date_booked :: "availability \<Rightarrow> string \<Rightarrow> bool" where
  "date_booked es date = (map_of (rev es) date = Some 0)"

text \<open>The date a click on a cell selects.\<close>

definition click_date :: "availability \<Rightarrow> calendar \<Rightarrow> int \<Rightarrow> string option" where
  "click_date es c day =
     (let date = toDateStr (cal_year c) (cal_month c) day
      in if Some day \<in> set (calendar_cells c) \<and> date_available es date then Some date else None)"

section \<open>The seat map\<close>

datatype seat_status = Seat_available | Seat_occupied | Seat_selected

record seat =
  st_number :: int
  st_status :: seat_status

datatype seat_click = No_click | Selects int | Deselects int

definition handleSeatClick :: "seat \<Rightarrow> seat_click" where
  "handleSeatClick s =
     (case st_status s of Seat_occupied \<Rightarrow> No_click | Seat_selected \<Rightarrow> Deselects (st_number s) | Seat_available \<Rightarrow> Selects (st_number s))"

definition sorted_seats :: "seat list \<Rightarrow> seat list" where
  "sorted_seats seats = sort_key st_number seats"

definition seat_stats :: "seat list \<Rightarrow> nat \<times> nat \<times> nat" where
  "seat_stats seats =
     (let sorted = sorted_seats seats
      in (length (filter (\<lambda>s. st_status s = Seat_available) sorted), length (filter (\<lambda>s. st_status s = Seat_occupied) sorted),
          length (filter (\<lambda>s. st_status s = Seat_selected) sorted)))"

section \<open>The booking wizard\<close>

record wizard_workspace =
  ww_id :: string
  ww_name :: string
  ww_type :: string
  ww_hourlyRate :: int

record seat_info =
  si_number :: int
  si_isAvailable :: bool

record wizard_booking =
  wb_workspaceId :: string
  wb_workspaceName :: string
  wb_startDate :: string
  wb_endDate :: string
  wb_seatNumber :: int
  wb_totalCostKobo :: "int option"

record wizard_props =
  wp_workspaces :: "wizard_workspace list"
  wp_availability :: "string \<Rightarrow> availability"
  wp_seats :: "string \<Rightarrow> seat_info list"

text \<open>\<open>wz_pending\<close> is the booking a running timer will confirm, \<open>wz_booked\<close> what \<open>onConfirm\<close> was given.\<close>

record wizard =
  wz_step :: nat
  wz_search :: string
  wz_workspaceId :: "string option"
  wz_startDate :: "string option"
  wz_endDate :: "string option"
  wz_seatNumber :: "int option"
  wz_confirmed :: bool
  wz_confirming :: bool
  wz_pending :: "wizard_booking list"
  wz_booked :: "wizard_booking list"

definition new_wizard :: wizard where
  "new_wizard = \<lparr>wz_step = 0, wz_search = [], wz_workspaceId = None, wz_startDate = None, wz_endDate = None, wz_seatNumber = None,
     wz_confirmed = False, wz_confirming = False, wz_pending = [], wz_booked = []\<rparr>"

definition TYPE_LABELS :: "(string \<times> string) list" where
  "TYPE_LABELS =
     [(''COWORKING'', ''Coworking''), (''PRIVATE_OFFICE'', ''Private Office''), (''MEETING_ROOM'', ''Meeting Room''),
      (''HOT_DESK'', ''Hot Desk''), (''DEDICATED_DESK'', ''Dedicated Desk'')]"

text \<open>Days from the first to the last, both counted; \<open>None\<close> is NaN. \<open>ext\<close> reads other date texts.\<close>

definition daysBetween :: "(string \<Rightarrow> int option) \<Rightarrow> string \<Rightarrow> string \<Rightarrow> int option" where
  "daysBetween ext start end_date =
     (case (js_date_ms ext start, js_date_ms ext end_date) of
        (Some a, Some b) \<Rightarrow> Some (max 1 (- ((a - b) div ms_per_day) + 1))
      | _ \<Rightarrow> None)"

definition selectedWorkspace :: "wizard_props \<Rightarrow> wizard \<Rightarrow> wizard_workspace option" where
  "selectedWorkspace p z = find_one (\<lambda>w. Some (ww_id w) = wz_workspaceId z) (wp_workspaces p)"

definition availData :: "wizard_props \<Rightarrow> wizard \<Rightarrow> availability" where
  "availData p z = (if blank (wz_workspaceId z) then [] else wp_availability p (the (wz_workspaceId z)))"

definition wizard_seats :: "wizard_props \<Rightarrow> wizard \<Rightarrow> seat_info list" where
  "wizard_seats p z = (if blank (wz_workspaceId z) then [] else wp_seats p (the (wz_workspaceId z)))"

definition endAvailData :: "wizard_props \<Rightarrow> wizard \<Rightarrow> availability" where
  "endAvailData p z =
     (case wz_startDate z of None \<Rightarrow> availData p z | Some s \<Rightarrow> filter (\<lambda>(d, _). \<not> str_less d s) (availData p z))"

definition canNext :: "wizard \<Rightarrow> bool" where
  "canNext z =
     (if wz_step z = 0 then \<not> blank (wz_workspaceId z)
      else if wz_step z = 1 then (case (wz_startDate z, wz_endDate z) of (Some s, Some e) \<Rightarrow> \<not> str_less e s | _ \<Rightarrow> False)
      else if wz_step z = 2 then wz_seatNumber z \<noteq> None
      else True)"

definition filteredWorkspaces :: "wizard_props \<Rightarrow> wizard \<Rightarrow> wizard_workspace list" where
  "filteredWorkspaces p z =
     (let q = to_lower (wz_search z)
      in filter (\<lambda>w. str_includes (to_lower (ww_name w)) q \<or>
           str_includes (to_lower (case map_of TYPE_LABELS (ww_type w) of Some l \<Rightarrow> l | None \<Rightarrow> ww_type w)) q) (wp_workspaces p))"

definition handleSelectWorkspace :: "string \<Rightarrow> wizard \<Rightarrow> wizard" where
  "handleSelectWorkspace k z =
     (if wz_workspaceId z \<noteq> Some k then z\<lparr>wz_startDate := None, wz_endDate := None, wz_seatNumber := None, wz_workspaceId := Some k\<rparr>
      else z\<lparr>wz_workspaceId := Some k\<rparr>)"

definition handleStart :: "string \<Rightarrow> wizard \<Rightarrow> wizard" where
  "handleStart date z =
     (case wz_endDate z of
        Some e \<Rightarrow> if str_less e date then z\<lparr>wz_startDate := Some date, wz_endDate := Some date\<rparr> else z\<lparr>wz_startDate := Some date\<rparr>
      | None \<Rightarrow> z\<lparr>wz_startDate := Some date\<rparr>)"

definition handleEnd :: "string \<Rightarrow> wizard \<Rightarrow> wizard" where
  "handleEnd date z =
     (case wz_startDate z of
        Some s \<Rightarrow> if str_less date s then z else z\<lparr>wz_endDate := Some date\<rparr>
      | None \<Rightarrow> z\<lparr>wz_endDate := Some date\<rparr>)"

definition map_seat :: "wizard \<Rightarrow> seat_info \<Rightarrow> seat" where
  "map_seat z s =
     \<lparr>st_number = si_number s,
      st_status = (if Some (si_number s) = wz_seatNumber z then Seat_selected else if si_isAvailable s then Seat_available else Seat_occupied)\<rparr>"

definition wizard_booking_of :: "(string \<Rightarrow> int option) \<Rightarrow> wizard_props \<Rightarrow> wizard \<Rightarrow> wizard_booking option" where
  "wizard_booking_of ext p z =
     (case (wz_startDate z, wz_endDate z, wz_seatNumber z, selectedWorkspace p z) of
        (Some s, Some e, Some n, Some w) \<Rightarrow>
          if blank (wz_workspaceId z) then None
          else Some \<lparr>wb_workspaceId = ww_id w, wb_workspaceName = ww_name w, wb_startDate = s, wb_endDate = e, wb_seatNumber = n,
                     wb_totalCostKobo = map_option (\<lambda>d. ww_hourlyRate w * 8 * d) (daysBetween ext s e)\<rparr>
      | _ \<Rightarrow> None)"

definition handleConfirm_booking :: "(string \<Rightarrow> int option) \<Rightarrow> wizard_props \<Rightarrow> wizard \<Rightarrow> wizard" where
  "handleConfirm_booking ext p z =
     (case wizard_booking_of ext p z of None \<Rightarrow> z | Some b \<Rightarrow> z\<lparr>wz_confirming := True, wz_pending := wz_pending z @ [b]\<rparr>)"

definition confirm_timer :: "wizard \<Rightarrow> wizard" where
  "confirm_timer z =
     (case wz_pending z of
        [] \<Rightarrow> z
      | b # bs \<Rightarrow> z\<lparr>wz_confirming := False, wz_confirmed := True, wz_pending := bs, wz_booked := wz_booked z @ [b]\<rparr>)"

definition wizard_reset :: "wizard \<Rightarrow> wizard" where
  "wizard_reset z =
     z\<lparr>wz_confirmed := False, wz_step := 0, wz_workspaceId := None, wz_startDate := None, wz_endDate := None, wz_seatNumber := None,
       wz_search := []\<rparr>"

datatype wizard_event =
    Type_search string
  | Click_workspace string
  | Click_start calendar int
  | Click_end calendar int
  | Click_seat seat_info
  | Click_back
  | Click_next
  | Click_confirm
  | Timer_fires
  | Click_another

text \<open>Once confirmed only the button for another booking is shown.\<close>

definition shows_confirmation :: "wizard_props \<Rightarrow> wizard \<Rightarrow> bool" where
  "shows_confirmation p z \<longleftrightarrow> wz_confirmed z \<and> selectedWorkspace p z \<noteq> None"

definition wizard_event :: "(string \<Rightarrow> int option) \<Rightarrow> wizard_props \<Rightarrow> wizard_event \<Rightarrow> wizard \<Rightarrow> wizard" where
  "wizard_event ext p ev z =
     (case ev of
        Timer_fires \<Rightarrow> confirm_timer z
      | Click_another \<Rightarrow> if shows_confirmation p z then wizard_reset z else z
      | _ \<Rightarrow>
          if shows_confirmation p z then z
          else (case ev of
              Type_search q \<Rightarrow> if wz_step z = 0 then z\<lparr>wz_search := q\<rparr> else z
            | Click_workspace k \<Rightarrow>
                if wz_step z = 0 \<and> k \<in> ww_id ` set (filteredWorkspaces p z) then handleSelectWorkspace k z else z
            | Click_start c d \<Rightarrow>
                if wz_step z = 1 then (case click_date (availData p z) c d of Some date \<Rightarrow> handleStart date z | None \<Rightarrow> z) else z
            | Click_end c d \<Rightarrow>
                if wz_step z = 1 then (case click_date (endAvailData p z) c d of Some date \<Rightarrow> handleEnd date z | None \<Rightarrow> z) else z
            | Click_seat s \<Rightarrow>
                if wz_step z = 2 \<and> s \<in> set (wizard_seats p z)
                then (case handleSeatClick (map_seat z s) of Selects n \<Rightarrow> z\<lparr>wz_seatNumber := Some n\<rparr> | _ \<Rightarrow> z) else z
            | Click_back \<Rightarrow> if wz_step z = 0 then z else z\<lparr>wz_step := wz_step z - 1\<rparr>
            | Click_next \<Rightarrow> if wz_step z < 3 \<and> canNext z then z\<lparr>wz_step := wz_step z + 1\<rparr> else z
            | Click_confirm \<Rightarrow> if wz_step z < 3 \<or> wz_confirming z then z else handleConfirm_booking ext p z
            | _ \<Rightarrow> z))"

inductive wizard_reaches :: "(string \<Rightarrow> int option) \<Rightarrow> wizard_props \<Rightarrow> wizard \<Rightarrow> bool" for ext p where
  wizard_opens: "wizard_reaches ext p new_wizard"
| wizard_moves: "wizard_reaches ext p z \<Longrightarrow> wizard_reaches ext p (wizard_event ext p ev z)"

section \<open>What the wizard books\<close>

definition bookable :: "(string \<Rightarrow> int option) \<Rightarrow> wizard_props \<Rightarrow> wizard_booking \<Rightarrow> bool" where
  "bookable ext p b \<longleftrightarrow>
     (\<exists>w\<in>set (wp_workspaces p). wb_workspaceId b = ww_id w \<and> wb_workspaceName b = ww_name w \<and>
        wb_totalCostKobo b = map_option (\<lambda>d. ww_hourlyRate w * 8 * d) (daysBetween ext (wb_startDate b) (wb_endDate b))) \<and>
     date_available (wp_availability p (wb_workspaceId b)) (wb_startDate b) \<and>
     date_available (wp_availability p (wb_workspaceId b)) (wb_endDate b) \<and>
     \<not> str_less (wb_endDate b) (wb_startDate b) \<and>
     (\<exists>s\<in>set (wp_seats p (wb_workspaceId b)). si_number s = wb_seatNumber b \<and> si_isAvailable s)"

definition choices_ok :: "wizard_props \<Rightarrow> wizard \<Rightarrow> bool" where
  "choices_ok p z \<longleftrightarrow>
     (\<forall>d. wz_startDate z = Some d \<longrightarrow> date_available (availData p z) d) \<and>
     (\<forall>d. wz_endDate z = Some d \<longrightarrow> date_available (availData p z) d) \<and>
     (\<forall>s e. wz_startDate z = Some s \<longrightarrow> wz_endDate z = Some e \<longrightarrow> \<not> str_less e s) \<and>
     (\<forall>n. wz_seatNumber z = Some n \<longrightarrow> (\<exists>s\<in>set (wizard_seats p z). si_number s = n \<and> si_isAvailable s))"

definition wizard_ok :: "(string \<Rightarrow> int option) \<Rightarrow> wizard_props \<Rightarrow> wizard \<Rightarrow> bool" where
  "wizard_ok ext p z \<longleftrightarrow>
     choices_ok p z \<and> (\<forall>b\<in>set (wz_pending z @ wz_booked z). bookable ext p b) \<and>
     length (wz_pending z) = (if wz_confirming z then 1 else 0)"

lemma date_available_filter:
  "date_available (filter (\<lambda>(d, _). P d) es) date \<Longrightarrow> date_available es date"
proof -
  have "map_of (filter (\<lambda>(d, _). P d) xs) date = (if P date then map_of xs date else None)" for xs :: availability
    by (induction xs) auto
  then show "date_available (filter (\<lambda>(d, _). P d) es) date \<Longrightarrow> date_available es date"
    by (auto simp: date_available_def rev_filter split: if_splits)
qed

lemma click_date_available:
  "click_date es c d = Some date \<Longrightarrow> date_available es date"
  by (auto simp: click_date_def Let_def split: if_splits)

lemma end_date_available: "date_available (endAvailData p z) date \<Longrightarrow> date_available (availData p z) date"
  by (auto simp: endAvailData_def split: option.splits dest: date_available_filter)

lemma booking_of_bookable:
  assumes "choices_ok p z" "wizard_booking_of ext p z = Some b"
  shows "bookable ext p b"
proof -
  from assms(2) obtain s e n w where w: "wz_startDate z = Some s" "wz_endDate z = Some e" "wz_seatNumber z = Some n"
    "selectedWorkspace p z = Some w" "\<not> blank (wz_workspaceId z)"
    and b: "b = \<lparr>wb_workspaceId = ww_id w, wb_workspaceName = ww_name w, wb_startDate = s, wb_endDate = e, wb_seatNumber = n,
                 wb_totalCostKobo = map_option (\<lambda>d. ww_hourlyRate w * 8 * d) (daysBetween ext s e)\<rparr>"
    by (auto simp: wizard_booking_of_def split: option.splits if_splits)
  have "w \<in> set (wp_workspaces p)" "wz_workspaceId z = Some (ww_id w)"
    using w(4) find_one_SomeD unfolding selectedWorkspace_def by fastforce+
  then show ?thesis using assms(1) w
    by (auto simp: bookable_def b choices_ok_def availData_def wizard_seats_def)
qed

lemma choices_frame:
  "wz_workspaceId z' = wz_workspaceId z \<Longrightarrow> availData p z' = availData p z \<and> wizard_seats p z' = wizard_seats p z"
  by (simp add: availData_def wizard_seats_def)

lemma choices_select: "choices_ok p z \<Longrightarrow> choices_ok p (handleSelectWorkspace k z)"
  by (auto simp: choices_ok_def handleSelectWorkspace_def availData_def wizard_seats_def)

lemma choices_start:
  "choices_ok p z \<Longrightarrow> date_available (availData p z) date \<Longrightarrow> choices_ok p (handleStart date z)"
  by (auto simp: choices_ok_def handleStart_def availData_def wizard_seats_def split: option.splits)

lemma choices_end:
  "choices_ok p z \<Longrightarrow> date_available (availData p z) date \<Longrightarrow> choices_ok p (handleEnd date z)"
  by (auto simp: choices_ok_def handleEnd_def availData_def wizard_seats_def split: option.splits)

lemma choices_seat:
  "choices_ok p z \<Longrightarrow> s \<in> set (wizard_seats p z) \<Longrightarrow> handleSeatClick (map_seat z s) = Selects n \<Longrightarrow>
   choices_ok p (z\<lparr>wz_seatNumber := Some n\<rparr>)"
  by (auto simp: choices_ok_def handleSeatClick_def map_seat_def availData_def wizard_seats_def split: if_splits)

lemma handlers_frame:
  "wz_pending (handleSelectWorkspace k z) = wz_pending z" "wz_booked (handleSelectWorkspace k z) = wz_booked z"
  "wz_confirming (handleSelectWorkspace k z) = wz_confirming z"
  "wz_pending (handleStart d z) = wz_pending z" "wz_booked (handleStart d z) = wz_booked z"
  "wz_confirming (handleStart d z) = wz_confirming z"
  "wz_pending (handleEnd d z) = wz_pending z" "wz_booked (handleEnd d z) = wz_booked z"
  "wz_confirming (handleEnd d z) = wz_confirming z"
  by (auto simp: handleSelectWorkspace_def handleStart_def handleEnd_def split: option.splits)

lemma choices_same:
  "choices_ok p z \<Longrightarrow> choices_ok p (z\<lparr>wz_step := n\<rparr>)" "choices_ok p z \<Longrightarrow> choices_ok p (z\<lparr>wz_search := q\<rparr>)"
  "choices_ok p (wizard_reset z)"
  "choices_ok p z \<Longrightarrow> choices_ok p (z\<lparr>wz_confirming := c, wz_confirmed := d, wz_pending := bs, wz_booked := cs\<rparr>)"
  "choices_ok p z \<Longrightarrow> choices_ok p (z\<lparr>wz_confirming := c, wz_pending := bs\<rparr>)"
  by (auto simp: choices_ok_def availData_def wizard_seats_def wizard_reset_def)

lemma wizard_ok_frame:
  "wizard_ok ext p z \<Longrightarrow> choices_ok p z' \<Longrightarrow> wz_pending z' = wz_pending z \<Longrightarrow> wz_booked z' = wz_booked z \<Longrightarrow>
   wz_confirming z' = wz_confirming z \<Longrightarrow> wizard_ok ext p z'"
  by (simp add: wizard_ok_def)

lemma wizard_okD: "wizard_ok ext p z \<Longrightarrow> choices_ok p z"
  by (simp add: wizard_ok_def)

lemma wizard_ok_confirm:
  assumes "wizard_ok ext p z" "\<not> wz_confirming z"
  shows "wizard_ok ext p (handleConfirm_booking ext p z)"
  using assms booking_of_bookable [OF wizard_okD [OF assms(1)]]
  by (auto simp: wizard_ok_def handleConfirm_booking_def choices_same split: option.splits)

lemma wizard_ok_timer: "wizard_ok ext p z \<Longrightarrow> wizard_ok ext p (confirm_timer z)"
  by (auto simp: wizard_ok_def confirm_timer_def choices_same split: list.splits if_splits)

lemma wizard_ok_event:
  assumes "wizard_ok ext p z"
  shows "wizard_ok ext p (wizard_event ext p ev z)"
proof -
  note frame = wizard_ok_frame [OF assms] and c = wizard_okD [OF assms]
  show ?thesis
  proof (cases ev)
    case Click_confirm
    then show ?thesis using assms wizard_ok_confirm [OF assms] by (auto simp: wizard_event_def)
  next
    case Timer_fires
    then show ?thesis using wizard_ok_timer [OF assms] by (simp add: wizard_event_def)
  next
    case (Click_seat s)
    then show ?thesis using assms
      by (auto simp: wizard_event_def split: seat_click.splits intro!: frame choices_seat [OF c])
  qed (use assms in \<open>auto simp: wizard_event_def handlers_frame wizard_reset_def split: option.splits
      intro!: frame choices_select [OF c] choices_start [OF c] choices_end [OF c] choices_same(1,2) [OF c] choices_same(3) [unfolded wizard_reset_def]
      dest!: click_date_available end_date_available\<close>)
qed

text \<open>
  C31: whatever is clicked, in whatever order and while a confirmation is under way, every booking the
  wizard confirms names a workspace it was given, an available seat of it, a first and a last day with free
  seats in this order, and the price of eight hours a day.
\<close>

theorem wizard_confirms_bookable:
  assumes "wizard_reaches ext p z" "b \<in> set (wz_booked z)"
  shows "bookable ext p b"
proof -
  from assms(1) have "wizard_ok ext p z"
  proof induction
    case wizard_opens
    show ?case by (simp add: wizard_ok_def choices_ok_def new_wizard_def)
  qed (rule wizard_ok_event)
  with assms(2) show ?thesis by (simp add: wizard_ok_def)
qed

lemma wizard_reaches_foldl: "wizard_reaches ext p z \<Longrightarrow> wizard_reaches ext p (foldl (\<lambda>z ev. wizard_event ext p ev z) z evs)"
  by (induction evs arbitrary: z) (auto intro: wizard_moves)

definition sample_props :: wizard_props where
  "sample_props =
     \<lparr>wp_workspaces = [\<lparr>ww_id = ''w1'', ww_name = ''Loft'', ww_type = ''HOT_DESK'', ww_hourlyRate = 500\<rparr>],
      wp_availability = (\<lambda>_. [(''2026-01-05'', 2), (''2026-01-06'', 0), (''2026-01-07'', 1)]),
      wp_seats = (\<lambda>_. [\<lparr>si_number = 1, si_isAvailable = True\<rparr>, \<lparr>si_number = 2, si_isAvailable = True\<rparr>])\<rparr>"

abbreviation jan :: calendar where
  "jan \<equiv> \<lparr>cal_year = 2026, cal_month = 0\<rparr>"

definition january_booking :: "wizard_event list" where
  "january_booking =
     [Click_workspace ''w1'', Click_next, Click_start jan 5, Click_end jan 7, Click_next,
      Click_seat \<lparr>si_number = 1, si_isAvailable = True\<rparr>, Click_next, Click_confirm]"

abbreviation wizard_run :: "wizard_event list \<Rightarrow> wizard" where
  "wizard_run evs \<equiv> foldl (\<lambda>z ev. wizard_event (\<lambda>_. None) sample_props ev z) new_wizard evs"

lemma january_booked:
  "map (\<lambda>b. (wb_workspaceId b, wb_startDate b, wb_endDate b, wb_seatNumber b, wb_totalCostKobo b))
     (wz_booked (wizard_run (january_booking @ [Timer_fires]))) = [(''w1'', ''2026-01-05'', ''2026-01-07'', 1, Some 12000)]"
  by code_simp

theorem wizard_confirms_bookable_witness:
  "\<exists>b\<in>set (wz_booked (wizard_run (january_booking @ [Timer_fires]))). bookable (\<lambda>_. None) sample_props b \<and> wb_totalCostKobo b = Some 12000"
proof -
  let ?z = "wizard_run (january_booking @ [Timer_fires])"
  obtain b where b: "b \<in> set (wz_booked ?z)" "wb_totalCostKobo b = Some 12000"
    using january_booked by (auto simp: map_eq_Cons_conv)
  have "wizard_reaches (\<lambda>_. None) sample_props ?z" by (intro wizard_reaches_foldl wizard_opens)
  from wizard_confirms_bookable [OF this b(1)] b show ?thesis by blast
qed

text \<open>The days between the first and the last are not looked at.\<close>

lemma wizard_skips_days_between:
  "date_booked (wp_availability sample_props ''w1'') ''2026-01-06'' \<and> length (wz_booked (wizard_run (january_booking @ [Timer_fires]))) = 1"
  by code_simp

text \<open>While the confirmation is under way the seat can still be changed: the page then names a seat that was not booked.\<close>

lemma confirmation_names_other_seat:
  "(let z = wizard_run (january_booking @ [Click_back, Click_seat \<lparr>si_number = 2, si_isAvailable = True\<rparr>, Timer_fires])
    in shows_confirmation sample_props z \<and> wz_seatNumber z = Some 2 \<and> map wb_seatNumber (wz_booked z) = [1])"
  by code_simp

section \<open>Cells, seats\<close>

text \<open>Going a month on and back shows the same month.\<close>

lemma month_and_back:
  "cal_month c \<le> 11 \<Longrightarrow> prevMonth (nextMonth c) = c" "cal_month c \<le> 11 \<Longrightarrow> nextMonth (prevMonth c) = c"
  by (cases c; auto simp: prevMonth_def nextMonth_def)+

text \<open>The map shows every seat once, in the order of the numbers, and counts each under one status.\<close>

lemma seat_map_complete:
  "mset (sorted_seats seats) = mset seats" "sorted (map st_number (sorted_seats seats))"
  "seat_stats seats = (a, n, s) \<Longrightarrow> a + n + s = length seats"
proof -
  show "mset (sorted_seats seats) = mset seats" "sorted (map st_number (sorted_seats seats))" by (simp_all add: sorted_seats_def)
  have "length (filter (\<lambda>s. st_status s = Seat_available) xs) + length (filter (\<lambda>s. st_status s = Seat_occupied) xs) +
      length (filter (\<lambda>s. st_status s = Seat_selected) xs) = length xs" for xs :: "seat list"
  proof (induction xs)
    case (Cons x xs)
    then show ?case by (cases "st_status x") auto
  qed simp
  then show "seat_stats seats = (a, n, s) \<Longrightarrow> a + n + s = length seats"
    by (auto simp: seat_stats_def sorted_seats_def Let_def)
qed

section \<open>Page links\<close>

datatype page_item = Page int | Dots

definition getVisiblePages :: "int \<Rightarrow> int \<Rightarrow> page_item list" where
  "getVisiblePages currentPage totalPages =
     (let delta = 2; range = [max 2 (currentPage - delta)..min (totalPages - 1) (currentPage + delta)]
      in (if currentPage - delta > 2 then [Page 1, Dots] else [Page 1]) @ map Page range @
         (if currentPage + delta < totalPages - 1 then [Dots, Page totalPages]
          else if totalPages > 1 then [Page totalPages] else []))"

text \<open>Whether the component renders anything, and which of its two buttons work.\<close>

definition shows_pages :: "int \<Rightarrow> bool" where
  "shows_pages totalPages \<longleftrightarrow> \<not> totalPages \<le> 1"

definition page_buttons :: "int \<Rightarrow> int \<Rightarrow> int option \<times> int option" where
  "page_buttons currentPage totalPages =
     (if currentPage > 1 then Some (currentPage - 1) else None, if currentPage < totalPages then Some (currentPage + 1) else None)"

text \<open>Neighbours follow each other; dots stand for at least one page.\<close>

fun well_spaced :: "page_item list \<Rightarrow> bool" where
  "well_spaced [] \<longleftrightarrow> True"
| "well_spaced [Page p] \<longleftrightarrow> True"
| "well_spaced (Page p # Page q # r) \<longleftrightarrow> q = p + 1 \<and> well_spaced (Page q # r)"
| "well_spaced (Page p # Dots # Page q # r) \<longleftrightarrow> p + 2 \<le> q \<and> well_spaced (Page q # r)"
| "well_spaced _ \<longleftrightarrow> False"

lemma well_spaced_range:
  "a \<le> b \<Longrightarrow> well_spaced (map Page [a..b] @ r) \<longleftrightarrow> well_spaced (Page b # r)"
proof (induction "nat (b - a)" arbitrary: a)
  case 0
  then show ?case by (simp add: upto.simps)
next
  case (Suc n)
  then have "a < b" "n = nat (b - (a + 1))" by linarith+
  then have u: "[a..b] = a # (a + 1) # [a + 2..b]" "[a + 1..b] = (a + 1) # [a + 2..b]"
    using upto_rec1 [of a b] upto_rec1 [of "a + 1" b] by (simp_all add: add.assoc)
  from Suc.hyps(1) [OF \<open>n = nat (b - (a + 1))\<close>] \<open>a < b\<close> have "well_spaced (map Page [a + 1..b] @ r) \<longleftrightarrow> well_spaced (Page b # r)" by simp
  then show ?case by (simp add: u)
qed

text \<open>
  the page links of a page that exists begin with the first and end with the last page, hold the
  current page and two on either side, and leave out pages only where dots stand.
\<close>

theorem page_links_complete:
  assumes "1 \<le> c" "c \<le> n" "1 < n"
  shows "well_spaced (getVisiblePages c n) \<and> hd (getVisiblePages c n) = Page 1 \<and> last (getVisiblePages c n) = Page n \<and>
    (\<forall>p. 1 \<le> p \<and> p \<le> n \<and> \<bar>p - c\<bar> \<le> 2 \<longrightarrow> Page p \<in> set (getVisiblePages c n)) \<and>
    (\<forall>p. Page p \<in> set (getVisiblePages c n) \<longrightarrow> 1 \<le> p \<and> p \<le> n)"
proof -
  let ?a = "max 2 (c - 2)" and ?b = "min (n - 1) (c + 2)"
  have v: "getVisiblePages c n = (if c - 2 > 2 then [Page 1, Dots] else [Page 1]) @ map Page [?a..?b] @
      (if c + 2 < n - 1 then [Dots, Page n] else [Page n])"
    using assms(3) by (simp add: getVisiblePages_def Let_def)
  have "well_spaced (getVisiblePages c n)"
  proof (cases "n = 2")
    case True
    then show ?thesis unfolding v using assms by auto
  next
    case False
    then have ab: "?a \<le> ?b" using assms by auto
    have "well_spaced (map Page [?a..?b] @ (if c + 2 < n - 1 then [Dots, Page n] else [Page n]))"
      using assms by (simp add: well_spaced_range [OF ab])
    moreover obtain r where "map Page [?a..?b] @ (if c + 2 < n - 1 then [Dots, Page n] else [Page n]) = Page ?a # r"
      using upto_rec1 [OF ab] by simp
    ultimately show ?thesis unfolding v by auto
  qed
  moreover have "hd (getVisiblePages c n) = Page 1" "last (getVisiblePages c n) = Page n" by (simp_all add: v)
  moreover have "Page p \<in> set (getVisiblePages c n)" if "1 \<le> p" "p \<le> n" "\<bar>p - c\<bar> \<le> 2" for p
  proof -
    have "p = 1 \<or> p = n \<or> p \<in> {?a..?b}" using that by auto
    then show ?thesis using that by (auto simp: v)
  qed
  moreover have "1 \<le> p \<and> p \<le> n" if "Page p \<in> set (getVisiblePages c n)" for p
    using that assms by (auto simp: v split: if_splits)
  ultimately show ?thesis by blast
qed

theorem page_links_complete_witness:
  "well_spaced (getVisiblePages 7 20) \<and> getVisiblePages 7 20 = [Page 1, Dots, Page 5, Page 6, Page 7, Page 8, Page 9, Dots, Page 20]"
  using page_links_complete [of 7 20] by (simp add: getVisiblePages_def upto.simps)

section \<open>The data table\<close>

text \<open>A cell is a number, a text, or null and undefined. \<open>lc\<close> is \<open>localeCompare\<close>.\<close>

datatype cell = Num_cell int | Text_cell string | No_cell

definition cell_text :: "cell \<Rightarrow> string" where
  "cell_text c = (case c of Num_cell n \<Rightarrow> int_text n | Text_cell s \<Rightarrow> s | No_cell \<Rightarrow> ''undefined'')"

definition compareValues :: "(string \<Rightarrow> string \<Rightarrow> int) \<Rightarrow> cell \<Rightarrow> cell \<Rightarrow> int" where
  "compareValues lc a b =
     (if a = No_cell then - 1 else if b = No_cell then 1
      else case (a, b) of (Num_cell x, Num_cell y) \<Rightarrow> x - y | _ \<Rightarrow> lc (cell_text a) (cell_text b))"

text \<open>\<open>Array.prototype.sort\<close> is stable; for a consistent comparator the result is this one.\<close>

fun insert_row :: "('a \<Rightarrow> 'a \<Rightarrow> int) \<Rightarrow> 'a \<Rightarrow> 'a list \<Rightarrow> 'a list" where
  "insert_row cmp x [] = [x]"
| "insert_row cmp x (y # ys) = (if cmp x y \<le> 0 then x # y # ys else y # insert_row cmp x ys)"

definition sort_rows :: "('a \<Rightarrow> 'a \<Rightarrow> int) \<Rightarrow> 'a list \<Rightarrow> 'a list" where
  "sort_rows cmp rows = foldr (insert_row cmp) rows []"

text \<open>A row is its identity and its cells; columns are their keys.\<close>

type_synonym row = "nat \<times> (string \<Rightarrow> cell)"

record data_table =
  dt_sortKey :: "string option"
  dt_asc :: bool
  dt_hidden :: "string list"
  dt_selected :: "nat list"

definition new_table :: data_table where
  "new_table = \<lparr>dt_sortKey = None, dt_asc = True, dt_hidden = [], dt_selected = []\<rparr>"

definition visibleColumns :: "string list \<Rightarrow> data_table \<Rightarrow> string list" where
  "visibleColumns columns t = filter (\<lambda>k. k \<notin> set (dt_hidden t)) columns"

definition sortedData :: "(string \<Rightarrow> string \<Rightarrow> int) \<Rightarrow> row list \<Rightarrow> data_table \<Rightarrow> row list" where
  "sortedData lc rows t =
     (if blank (dt_sortKey t) then rows
      else let key = the (dt_sortKey t)
           in sort_rows (\<lambda>a b. let cmp = compareValues lc (snd a key) (snd b key) in if dt_asc t then cmp else - cmp) rows)"

definition handleSort :: "string \<Rightarrow> data_table \<Rightarrow> data_table" where
  "handleSort key t =
     (if dt_sortKey t = Some key then t\<lparr>dt_asc := \<not> dt_asc t\<rparr> else t\<lparr>dt_sortKey := Some key, dt_asc := True\<rparr>)"

definition toggleColumn :: "string list \<Rightarrow> string \<Rightarrow> data_table \<Rightarrow> data_table" where
  "toggleColumn columns key t =
     (if length (visibleColumns columns t) = 1 \<and> key \<notin> set (dt_hidden t) then t
      else t\<lparr>dt_hidden := (if key \<in> set (dt_hidden t) then removeAll key (dt_hidden t) else dt_hidden t @ [key])\<rparr>)"

text \<open>The table and what \<open>onSelectionChange\<close> is given.\<close>

definition toggleRow :: "nat \<Rightarrow> data_table \<Rightarrow> data_table \<times> nat list" where
  "toggleRow r t =
     (let sel = (if r \<in> set (dt_selected t) then removeAll r (dt_selected t) else dt_selected t @ [r])
      in (t\<lparr>dt_selected := sel\<rparr>, sel))"

definition allSelected :: "row list \<Rightarrow> data_table \<Rightarrow> bool" where
  "allSelected rows t \<longleftrightarrow> length (dt_selected t) = length rows \<and> rows \<noteq> []"

definition someSelected :: "row list \<Rightarrow> data_table \<Rightarrow> bool" where
  "someSelected rows t \<longleftrightarrow> dt_selected t \<noteq> [] \<and> \<not> allSelected rows t"

definition toggleAll :: "row list \<Rightarrow> data_table \<Rightarrow> data_table \<times> nat list" where
  "toggleAll rows t =
     (if allSelected rows t then (t\<lparr>dt_selected := []\<rparr>, []) else (t\<lparr>dt_selected := remdups (map fst rows)\<rparr>, map fst rows))"

lemma insert_row_mset: "mset (insert_row cmp x ys) = add_mset x (mset ys)"
  by (induction ys) auto

lemma insert_row_sorted:
  assumes "\<And>a b. cmp a b \<le> 0 \<longleftrightarrow> f a \<le> (f b :: int)" "sorted (map f ys)"
  shows "sorted (map f (insert_row cmp x ys))"
proof -
  have "set (insert_row cmp x zs) = insert x (set zs)" for zs by (induction zs) auto
  with assms show ?thesis by (induction ys) (auto simp: assms(1))
qed

text \<open>A column of numbers is shown in order, upwards or downwards, with every row once.\<close>

lemma numeric_column_sorted:
  assumes "dt_sortKey t = Some key" "key \<noteq> []" "\<And>r. snd r key = Num_cell (f r)"
  shows "mset (sortedData lc rows t) = mset rows"
    "sorted (map (\<lambda>r. if dt_asc t then f r else - f r) (sortedData lc rows t))"
proof -
  let ?cmp = "\<lambda>a b. let cmp = compareValues lc (snd a key) (snd b key) in if dt_asc t then cmp else - cmp"
  have s: "sortedData lc rows t = foldr (insert_row ?cmp) rows []"
    using assms(1,2) by (simp add: sortedData_def sort_rows_def blank_def)
  have c: "?cmp a b \<le> 0 \<longleftrightarrow> (if dt_asc t then f a else - f a) \<le> (if dt_asc t then f b else - f b)" for a b
    by (simp add: assms(3) compareValues_def)
  show "mset (sortedData lc rows t) = mset rows" unfolding s by (induction rows) (auto simp: insert_row_mset)
  show "sorted (map (\<lambda>r. if dt_asc t then f r else - f r) (sortedData lc rows t))"
    unfolding s by (induction rows) (simp_all only: foldr.simps comp_apply id_apply list.map sorted_wrt.simps insert_row_sorted [OF c])
qed

text \<open>Two missing values are each less than the other.\<close>

lemma missing_inconsistent: "compareValues lc No_cell No_cell = - 1"
  by (simp add: compareValues_def)

text \<open>One column always stays.\<close>

lemma a_column_stays:
  assumes "visibleColumns columns t \<noteq> []" "distinct columns"
  shows "visibleColumns columns (toggleColumn columns key t) \<noteq> []"
proof (cases "key \<in> set (dt_hidden t)")
  case True
  then show ?thesis using assms by (auto simp: visibleColumns_def toggleColumn_def filter_empty_conv)
next
  case False
  show ?thesis
  proof (cases "length (visibleColumns columns t) = 1")
    case True
    then show ?thesis using False assms(1) by (simp add: toggleColumn_def)
  next
    case len: False
    obtain a b vs where v: "visibleColumns columns t = a # b # vs"
      using assms(1) len by (cases "visibleColumns columns t" rule: list.exhaust; cases "tl (visibleColumns columns t)") auto
    have "distinct (visibleColumns columns t)" using assms(2) by (simp add: visibleColumns_def)
    then have "a \<noteq> b" by (simp add: v)
    then obtain c where "c \<in> set (visibleColumns columns t)" "c \<noteq> key" using v by (cases "a = key") auto
    then show ?thesis using False len by (auto simp: toggleColumn_def visibleColumns_def filter_empty_conv)
  qed
qed

text \<open>Selecting a row twice leaves the selection; selecting all twice empties it.\<close>

lemma select_twice:
  "r \<notin> set (dt_selected t) \<Longrightarrow> fst (toggleRow r (fst (toggleRow r t))) = t"
  by (cases t) (simp add: toggleRow_def Let_def)

lemma select_all_twice:
  assumes "distinct (map fst rows)" "rows \<noteq> []" "\<not> allSelected rows t"
  shows "allSelected rows (fst (toggleAll rows t))" "dt_selected (fst (toggleAll rows (fst (toggleAll rows t)))) = []"
  using assms by (auto simp: toggleAll_def allSelected_def distinct_remdups_id)

section \<open>The administrators' payments\<close>

definition payment_status_string :: "payment_status \<Rightarrow> string" where
  "payment_status_string s =
     (case s of P_PENDING \<Rightarrow> ''pending'' | P_SUCCESS \<Rightarrow> ''success'' | P_FAILED \<Rightarrow> ''failed'' | P_REFUNDED \<Rightarrow> ''refunded'')"

definition payment_provider_string :: "payment_provider \<Rightarrow> string" where
  "payment_provider_string v = (case v of PAYSTACK \<Rightarrow> ''paystack'' | SOROBAN \<Rightarrow> ''soroban'')"

definition STATUS_TABS :: "(string \<times> string) list" where
  "STATUS_TABS =
     [([], ''All''), (''pending'', ''Pending''), (''success'', ''Success''), (''failed'', ''Failed''), (''refunded'', ''Refunded'')]"

definition PROVIDER_OPTIONS :: "(string \<times> string) list" where
  "PROVIDER_OPTIONS = [([], ''All Providers''), (''paystack'', ''Paystack''), (''soroban'', ''Soroban'')]"

record payments_page =
  pp_page :: nat
  pp_status :: string
  pp_provider :: string
  pp_from :: string
  pp_to :: string
  pp_appliedFrom :: string
  pp_appliedTo :: string
  pp_refundTarget :: "string option"

definition new_payments_page :: payments_page where
  "new_payments_page = \<lparr>pp_page = 1, pp_status = [], pp_provider = [], pp_from = [], pp_to = [], pp_appliedFrom = [], pp_appliedTo = [],
     pp_refundTarget = None\<rparr>"

definition payments_params :: "nat \<Rightarrow> nat \<Rightarrow> string \<Rightarrow> string \<Rightarrow> string \<Rightarrow> string \<Rightarrow> params" where
  "payments_params page lmt status provider from to =
     [(''page'', nat_str page), (''limit'', nat_str lmt)] @
     filter (\<lambda>(_, v). v \<noteq> []) [(''status'', status), (''provider'', provider), (''from'', from), (''to'', to)]"

definition page_params :: "payments_page \<Rightarrow> params" where
  "page_params p = payments_params (pp_page p) 20 (pp_status p) (pp_provider p) (pp_appliedFrom p) (pp_appliedTo p)"

definition handleApplyFilter :: "payments_page \<Rightarrow> payments_page" where
  "handleApplyFilter p = p\<lparr>pp_appliedFrom := pp_from p, pp_appliedTo := pp_to p, pp_page := 1\<rparr>"

definition handleClearFilter :: "payments_page \<Rightarrow> payments_page" where
  "handleClearFilter p = p\<lparr>pp_from := [], pp_to := [], pp_appliedFrom := [], pp_appliedTo := [], pp_page := 1\<rparr>"

definition pick_payment_status :: "string \<Rightarrow> payments_page \<Rightarrow> payments_page" where
  "pick_payment_status s p = p\<lparr>pp_status := s, pp_page := 1\<rparr>"

definition pick_provider :: "string \<Rightarrow> payments_page \<Rightarrow> payments_page" where
  "pick_provider s p = p\<lparr>pp_provider := s, pp_page := 1\<rparr>"

text \<open>A refused refund is an unhandled rejection; the dialog stays.\<close>

definition handleRefund :: "answer \<Rightarrow> payments_page \<Rightarrow> payments_page" where
  "handleRefund a p = (case api_call a of Inl _ \<Rightarrow> p | Inr _ \<Rightarrow> p\<lparr>pp_refundTarget := None\<rparr>)"

definition total_payments :: "json option \<Rightarrow> json" where
  "total_payments q = nullish (JNum ''0'') (opt_get ''total'' (opt_get ''meta'' q))"

definition payments_pager :: "json option \<Rightarrow> bool" where
  "payments_pager q \<longleftrightarrow> js_truthy (opt_get ''meta'' q) \<and>
     (case opt_get ''totalPages'' (opt_get ''meta'' q) of Some (JNum n) \<Rightarrow> 1 < num_of n | _ \<Rightarrow> False)"

definition offers_refund :: "json \<Rightarrow> bool" where
  "offers_refund v \<longleftrightarrow> string_field ''status'' v = Some ''success''"

definition show_payment :: "env \<Rightarrow> payment \<Rightarrow> json" where
  "show_payment env p =
     JObj [(''id'', JStr (p_id p)), (''bookingId'', JStr (p_bookingId p)), (''userId'', or_null JStr (p_userId p)),
       (''amount'', (if bigint_strings env then JStr else JNum) (nat_str (p_amount p))), (''currency'', JStr (p_currency p)),
       (''provider'', JStr (payment_provider_string (p_provider p))), (''status'', JStr (payment_status_string (p_status p)))]"

text \<open>
  \<open>PaymentQuery\<close> is a class without decorators: of its properties none is known to the validator, which
  with \<open>forbidNonWhitelisted\<close> refuses every one that is sent.
\<close>

definition http_payments :: "env \<Rightarrow> params \<Rightarrow> uuid \<Rightarrow> user_role \<Rightarrow> world \<Rightarrow> answer" where
  "http_payments env ps userId role w =
     (if ps \<noteq> [] then error_answer (BadRequest ''Bad Request'')
      else case payments_findAll env \<lparr>pq_page = None, pq_limit = None, pq_bookingId = None, pq_status = None, pq_provider = None,
               pq_from = None, pq_to = None\<rparr> userId role w of
        Inl e \<Rightarrow> error_answer e
      | Inr (xs, n, page, lmt) \<Rightarrow>
          Ok_status (Some (JObj [(''message'', JStr ''Payments retrieved successfully''), (''data'', JArr (map (show_payment env) xs)),
            (''total'', JNum (nat_str n)), (''page'', JNum (int_text page)), (''limit'', JNum (int_text lmt))])))"

definition post_refund :: "env \<Rightarrow> uuid \<Rightarrow> uuid \<Rightarrow> user_role \<Rightarrow> world \<Rightarrow> answer \<times> world" where
  "post_refund env paymentId userId role w =
     (case refund_payment env paymentId userId role w of
        (Inl e, w') \<Rightarrow> (error_answer e, w')
      | (Inr p, w') \<Rightarrow> (data_answer ''Refund initiated'' (case p of None \<Rightarrow> JNull | Some x \<Rightarrow> show_payment env x), w'))"

text \<open>
  the administrators' payments page never lists a payment: whatever its filters, the request carries
  a page number and is refused, so no refund can be started from it.
\<close>

theorem payments_page_lists_nothing:
  "http_payments env (page_params p) userId role w = error_answer (BadRequest ''Bad Request'') \<and>
   (let q = query_data (http_payments env (page_params p) userId role w)
    in rows_of q = [] \<and> total_payments q = JNum ''0'' \<and> \<not> payments_pager q \<and> \<not> list_ex offers_refund (rows_of q))"
proof -
  have a: "http_payments env (page_params p) userId role w = error_answer (BadRequest ''Bad Request'')"
    by (simp add: http_payments_def page_params_def payments_params_def)
  then show ?thesis
    by (simp add: query_error query_None total_payments_def payments_pager_def nullish_def js_truthy_def)
qed

text \<open>Without any parameter the route does list, and a refund that is made closes the dialog.\<close>

lemma payments_route_lists:
  assumes "payments_findAll env \<lparr>pq_page = None, pq_limit = None, pq_bookingId = None, pq_status = None, pq_provider = None,
      pq_from = None, pq_to = None\<rparr> userId role w = Inr (xs, n, page, lmt)"
  shows "rows_of (query_data (http_payments env [] userId role w)) = map (show_payment env) xs"
    "list_all2 (\<lambda>v x. offers_refund v \<longleftrightarrow> p_status x = P_SUCCESS) (map (show_payment env) xs) xs"
proof -
  show "rows_of (query_data (http_payments env [] userId role w)) = map (show_payment env) xs"
    using assms by (simp add: http_payments_def rows_of_def query_data_def api_call_Ok opt_get_def js_get_def nullish_def)
  show "list_all2 (\<lambda>v x. offers_refund v \<longleftrightarrow> p_status x = P_SUCCESS) (map (show_payment env) xs) xs"
    by (auto simp: list_all2_map1 offers_refund_def show_payment_def string_field_def field_JObj payment_status_string_def
      intro!: list_all2_refl split: payment_status.splits)
qed

lemma refund_closes_dialog:
  "fst (post_refund env k userId role w) = a \<Longrightarrow>
   pp_refundTarget (handleRefund a p) = (case fst (refund_payment env k userId role w) of Inl _ \<Rightarrow> pp_refundTarget p | Inr _ \<Rightarrow> None)"
  by (auto simp: post_refund_def handleRefund_def data_answer_def api_call_error api_call_Ok split: prod.splits sum.splits)

end
