(* ===== verification/Web_Browse.thy ===== *)
theory Web_Browse
  imports Web_Widgets Web_Auth "HOL-Library.Sublist"
begin

text \<open>
  The pages one browses with: the catalogue of workspaces and a workspace's page (\<open>app/workspaces\<close>), the
  administrators' workspaces (\<open>app/admin/workspaces\<close>), the notifications (\<open>app/notifications\<close>), the user
  table of the dashboard (\<open>components/dashboard/AdminUserTable.tsx\<close>), the analytics
  (\<open>app/admin/analytics\<close>), with the requests they make, and the command palette and booking timeline
  (\<open>app/sandbox/components\<close>).
\<close>

section \<open>Requests for workspaces\<close>

definition workspace_query_of_params :: "params \<Rightarrow> workspace_query option" where
  "workspace_query_of_params ps =
     (if \<not> fst ` set ps \<subseteq> {''page'', ''limit'', ''type'', ''minSeats'', ''maxRate'', ''search''} then None
      else case (query_count ''page'' ps, query_count ''limit'' ps, query_value workspace_type_of_string ''type'' ps,
                 query_count ''minSeats'' ps, query_count ''maxRate'' ps) of
        (Some p, Some l, Some t, Some seats, Some rate) \<Rightarrow>
          Some \<lparr>wq_page = map_option int p, wq_limit = map_option int l, wq_type = t, wq_minSeats = seats, wq_maxRate = rate,
                wq_search = map_of ps ''search''\<rparr>
      | _ \<Rightarrow> None)"

text \<open>A workspace as the answers carry it; its two timestamps, which no page reads, are left out.\<close>

definition show_workspace :: "env \<Rightarrow> workspace \<Rightarrow> json" where
  "show_workspace env x =
     JObj [(''id'', JStr (w_id x)), (''name'', JStr (w_name x)), (''type'', JStr (workspace_type_string (w_type x))),
       (''totalSeats'', JNum (nat_str (w_totalSeats x))),
       (''hourlyRate'', (if bigint_strings env then JStr else JNum) (nat_str (w_hourlyRate x))),
       (''description'', or_null JStr (w_description x)), (''amenities'', or_null (JArr \<circ> map JStr) (w_amenities x)),
       (''images'', or_null (JArr \<circ> map JStr) (w_images x)), (''isActive'', JBool (w_isActive x)), (''hubId'', or_null JStr (w_hubId x))]"

text \<open>\<open>GET /workspaces\<close> and \<open>GET /workspaces/admin/all\<close>.\<close>

definition http_workspaces :: "env \<Rightarrow> bool \<Rightarrow> params \<Rightarrow> world \<Rightarrow> answer" where
  "http_workspaces env adminView ps w =
     (case workspace_query_of_params ps of
        None \<Rightarrow> error_answer (BadRequest ''Bad Request'')
      | Some q \<Rightarrow>
          (case workspaces_findAll q adminView w of
             Inl e \<Rightarrow> error_answer e
           | Inr p \<Rightarrow> page_answer ''Workspaces retrieved successfully'' (show_workspace env) p))"

definition http_workspace :: "env \<Rightarrow> uuid \<Rightarrow> world \<Rightarrow> answer" where
  "http_workspace env k w =
     (case workspace_findById k w of
        Inl e \<Rightarrow> error_answer e
      | Inr x \<Rightarrow> data_answer ''Workspace retrieved successfully'' (show_workspace env x))"

text \<open>\<open>PATCH /workspaces/:id\<close> with the body \<open>{ isActive }\<close>.\<close>

definition patch_active :: "env \<Rightarrow> uuid \<Rightarrow> bool \<Rightarrow> world \<Rightarrow> answer \<times> world" where
  "patch_active env k b w =
     (case update_workspace k \<lparr>uw_name = None, uw_type = None, uw_totalSeats = None, uw_hourlyRate = None, uw_description = None,
              uw_amenities = None, uw_images = None, uw_isActive = Some b\<rparr> w of
        (Inl e, w') \<Rightarrow> (error_answer e, w')
      | (Inr x, w') \<Rightarrow> (data_answer ''Workspace updated successfully'' (show_workspace env x), w'))"

section \<open>The catalogue\<close>

definition CATALOGUE_TYPES :: "(string \<times> string) list" where
  "CATALOGUE_TYPES =
     [([], ''All Types''), (''COWORKING'', ''Coworking''), (''PRIVATE_OFFICE'', ''Private Office''),
      (''MEETING_ROOM'', ''Meeting Room''), (''HOT_DESK'', ''Hot Desk''), (''DEDICATED_DESK'', ''Dedicated Desk'')]"

record catalogue =
  ct_search :: string
  ct_type :: string
  ct_page :: nat

definition new_catalogue :: catalogue where
  "new_catalogue = \<lparr>ct_search = [], ct_type = [], ct_page = 1\<rparr>"

definition catalogue_params :: "catalogue \<Rightarrow> params" where
  "catalogue_params c =
     filter (\<lambda>(_, v). v \<noteq> []) [(''search'', ct_search c), (''type'', ct_type c), (''page'', nat_str (ct_page c)), (''limit'', ''9'')]"

definition total_pages_of :: "json option \<Rightarrow> nat" where
  "total_pages_of q = (case opt_get ''totalPages'' (opt_get ''meta'' q) of Some (JNum n) \<Rightarrow> num_of n | _ \<Rightarrow> 0)"

datatype catalogue_event = Search_text string | Pick_type string | Previous_page | Next_page

text \<open>The pager is there when the answer has a second page; at its ends a button is disabled.\<close>

definition catalogue_event :: "json option \<Rightarrow> catalogue_event \<Rightarrow> catalogue \<Rightarrow> catalogue" where
  "catalogue_event q ev c =
     (case ev of
        Search_text s \<Rightarrow> c\<lparr>ct_search := s, ct_page := 1\<rparr>
      | Pick_type t \<Rightarrow> if t \<in> fst ` set CATALOGUE_TYPES then c\<lparr>ct_type := t, ct_page := 1\<rparr> else c
      | Previous_page \<Rightarrow> if shows_pager q \<and> ct_page c \<noteq> 1 then c\<lparr>ct_page := max 1 (ct_page c - 1)\<rparr> else c
      | Next_page \<Rightarrow> if shows_pager q \<and> ct_page c \<noteq> total_pages_of q then c\<lparr>ct_page := min (total_pages_of q) (ct_page c + 1)\<rparr> else c)"

text \<open>A visit: events on the page with the answer to its request, while the database changes.\<close>

inductive visits :: "env \<Rightarrow> catalogue \<times> world \<Rightarrow> bool" for env where
  visit_opens: "visits env (new_catalogue, w)"
| visit_event: "visits env (c, w) \<Longrightarrow>
    visits env (catalogue_event (query_data (http_workspaces env False (catalogue_params c) w)) ev c, w)"
| visit_others: "visits env (c, w) \<Longrightarrow> visits env (c, w')"

text \<open>The page of one workspace: the address of the booking form, when it is offered.\<close>

definition book_link :: "json option \<Rightarrow> string option" where
  "book_link q =
     (case opt_get ''data'' q of
        None \<Rightarrow> None
      | Some v \<Rightarrow>
          if js_truthy (Some v) \<and> js_truthy (opt_get ''isActive'' (Some v))
          then Some (''/bookings/new?workspaceId='' @ js_string (nullish JNull (opt_get ''id'' (Some v)))) else None)"

section \<open>The administrators' workspaces\<close>

record workspaces_page =
  ap_page :: nat
  ap_search :: string
  ap_searchInput :: string

definition new_workspaces_page :: workspaces_page where
  "new_workspaces_page = \<lparr>ap_page = 1, ap_search = [], ap_searchInput = []\<rparr>"

definition handleSearch :: "workspaces_page \<Rightarrow> workspaces_page" where
  "handleSearch p = p\<lparr>ap_search := ap_searchInput p, ap_page := 1\<rparr>"

definition workspaces_params :: "workspaces_page \<Rightarrow> params" where
  "workspaces_params p =
     [(''page'', nat_str (ap_page p)), (''limit'', ''15'')] @ (if ap_search p = [] then [] else [(''search'', ap_search p)])"

definition toggle_toast :: "bool \<Rightarrow> answer \<Rightarrow> string" where
  "toggle_toast b a =
     (case api_call a of
        Inl (Api_error m) \<Rightarrow> if m = [] then ''Failed to update workspace'' else m
      | Inl _ \<Rightarrow> ''Failed to update workspace''
      | Inr _ \<Rightarrow> if b then ''Workspace activated'' else ''Workspace deactivated'')"

section \<open>The notifications page\<close>

record notices_page =
  sp_page :: nat
  sp_unread :: bool

definition new_notices_page :: notices_page where
  "new_notices_page = \<lparr>sp_page = 1, sp_unread = False\<rparr>"

definition handleFilterChange :: "bool \<Rightarrow> notices_page \<Rightarrow> notices_page" where
  "handleFilterChange unread p = p\<lparr>sp_unread := unread, sp_page := 1\<rparr>"

definition notices_params :: "notices_page \<Rightarrow> params" where
  "notices_params p =
     [(''page'', nat_str (sp_page p)), (''limit'', ''20'')] @ (if sp_unread p then [(''isRead'', ''false'')] else [])"

text \<open>\<open>isRead\<close> is true for the text \<open>true\<close> and false for any other.\<close>

definition notification_query_of_params :: "params \<Rightarrow> notification_query option" where
  "notification_query_of_params ps =
     (if \<not> fst ` set ps \<subseteq> {''page'', ''limit'', ''isRead''} then None
      else case (query_count ''page'' ps, query_count ''limit'' ps) of
        (Some p, Some l) \<Rightarrow>
          if (case l of Some n \<Rightarrow> n \<le> 100 | None \<Rightarrow> True)
          then Some \<lparr>fq_page = map_option int p, fq_limit = map_option int l,
                     fq_isRead = map_option (\<lambda>s. s = ''true'') (map_of ps ''isRead'')\<rparr>
          else None
      | _ \<Rightarrow> None)"

definition http_notifications :: "params \<Rightarrow> uuid \<Rightarrow> (notification \<Rightarrow> json) \<Rightarrow> notice_state \<Rightarrow> answer" where
  "http_notifications ps userId show s =
     (case notification_query_of_params ps of
        None \<Rightarrow> error_answer (BadRequest ''Bad Request'')
      | Some q \<Rightarrow> get_notifications userId q show s)"

definition offers_read_all :: "json option \<Rightarrow> bool" where
  "offers_read_all q \<longleftrightarrow> bell_active q"

section \<open>What the catalogue shows\<close>

lemma workspaces_no_pager: "\<not> shows_pager (query_data (http_workspaces env adminView ps w))"
  by (auto simp: http_workspaces_def shows_pager_def query_error query_page query_None split: option.splits sum.splits)

lemma visit_invariant:
  "visits env s \<Longrightarrow> ct_page (fst s) = 1 \<and> ct_type (fst s) \<in> fst ` set CATALOGUE_TYPES"
proof (induction rule: visits.induct)
  case (visit_event c w ev)
  then show ?case by (cases ev) (auto simp: catalogue_event_def workspaces_no_pager)
qed (auto simp: new_catalogue_def CATALOGUE_TYPES_def)

lemma catalogue_type_unknown: "t \<in> fst ` set CATALOGUE_TYPES \<Longrightarrow> t \<noteq> [] \<Longrightarrow> workspace_type_of_string t = None"
  by (auto simp: CATALOGUE_TYPES_def workspace_type_of_string_def)

lemma one_text: "nat_str (Suc 0) = ''1''"
  by code_simp

lemma page_counts:
  "map_of ps k = Some ''1'' \<Longrightarrow> query_count k ps = Some (Some 1)"
  "map_of ps k = Some ''9'' \<Longrightarrow> query_count k ps = Some (Some 9)"
  "map_of ps k = Some ''20'' \<Longrightarrow> query_count k ps = Some (Some 20)"
proof -
  have "num_of ''1'' = 1" "num_of ''9'' = 9" "num_of ''20'' = 20" by code_simp+
  moreover have "list_all is_digit ''1''" "list_all is_digit ''9''" "list_all is_digit ''20''" by code_simp+
  ultimately show "map_of ps k = Some ''1'' \<Longrightarrow> query_count k ps = Some (Some 1)"
    "map_of ps k = Some ''9'' \<Longrightarrow> query_count k ps = Some (Some 9)"
    "map_of ps k = Some ''20'' \<Longrightarrow> query_count k ps = Some (Some 20)" by (simp_all add: query_count_def)
qed

lemma catalogue_query:
  assumes "ct_page c = 1"
  shows "ct_type c = [] \<Longrightarrow> workspace_query_of_params (catalogue_params c) =
      Some \<lparr>wq_page = Some 1, wq_limit = Some 9, wq_type = None, wq_minSeats = None, wq_maxRate = None,
            wq_search = (if ct_search c = [] then None else Some (ct_search c))\<rparr>"
    "ct_type c \<noteq> [] \<Longrightarrow> workspace_type_of_string (ct_type c) = None \<Longrightarrow> workspace_query_of_params (catalogue_params c) = None"
proof -
  have "map_of (catalogue_params c) ''page'' = Some ''1''" "map_of (catalogue_params c) ''limit'' = Some ''9''"
    using assms by (simp_all add: catalogue_params_def one_text)
  then have n: "query_count ''page'' (catalogue_params c) = Some (Some 1)" "query_count ''limit'' (catalogue_params c) = Some (Some 9)"
    by (simp_all only: page_counts)
  have o: "query_count ''minSeats'' (catalogue_params c) = Some None" "query_count ''maxRate'' (catalogue_params c) = Some None"
    by (simp_all add: query_count_def catalogue_params_def)
  have k: "fst ` set (catalogue_params c) \<subseteq> {''page'', ''limit'', ''type'', ''minSeats'', ''maxRate'', ''search''}"
    by (auto simp: catalogue_params_def split: if_splits)
  have v: "map_of (catalogue_params c) ''type'' = (if ct_type c = [] then None else Some (ct_type c))"
    "map_of (catalogue_params c) ''search'' = (if ct_search c = [] then None else Some (ct_search c))"
    by (simp_all add: catalogue_params_def)
  show "ct_type c = [] \<Longrightarrow> workspace_query_of_params (catalogue_params c) =
      Some \<lparr>wq_page = Some 1, wq_limit = Some 9, wq_type = None, wq_minSeats = None, wq_maxRate = None,
            wq_search = (if ct_search c = [] then None else Some (ct_search c))\<rparr>"
    using k n o v by (simp add: workspace_query_of_params_def query_value_def)
  show "ct_type c \<noteq> [] \<Longrightarrow> workspace_type_of_string (ct_type c) = None \<Longrightarrow> workspace_query_of_params (catalogue_params c) = None"
    using n o v by (simp add: workspace_query_of_params_def query_value_def)
qed

text \<open>
  C29: whatever a visitor does in the catalogue, it stays on its first page: without a type it lists the
  nine newest active workspaces that match the text and no pager leads to the others; with any of the
  types it offers the request is refused.
\<close>

theorem catalogue_shows_newest:
  assumes "visits env (c, w)"
  shows "let q = query_data (http_workspaces env False (catalogue_params c) w) in
    (ct_type c = [] \<longrightarrow> rows_of q = map (show_workspace env) (take 9 (newest_first w_createdAt
       (filter (\<lambda>x. w_isActive x \<and> (ct_search c = [] \<or> matches_search (ct_search c) x)) (workspaces w))))) \<and>
    (ct_type c \<noteq> [] \<longrightarrow> q = None) \<and> \<not> shows_pager q"
proof -
  have p: "ct_page c = 1" and t: "ct_type c \<in> fst ` set CATALOGUE_TYPES" using visit_invariant [OF assms] by auto
  let ?wq = "\<lparr>wq_page = Some 1, wq_limit = Some 9, wq_type = None, wq_minSeats = None, wq_maxRate = None,
      wq_search = (if ct_search c = [] then None else Some (ct_search c))\<rparr>"
  have f: "workspace_filter ?wq False = (\<lambda>x. w_isActive x \<and> (ct_search c = [] \<or> matches_search (ct_search c) x))"
    by (auto simp: workspace_filter_def fun_eq_iff)
  have "rows_of (query_data (http_workspaces env False (catalogue_params c) w)) = map (show_workspace env) (take 9 (newest_first w_createdAt
       (filter (\<lambda>x. w_isActive x \<and> (ct_search c = [] \<or> matches_search (ct_search c) x)) (workspaces w))))" if "ct_type c = []"
    by (simp add: http_workspaces_def catalogue_query(1) [OF p that] workspaces_findAll_def Workspaces.or_else_def Let_def paginate_ok query_page
      flip: f)
  moreover have "query_data (http_workspaces env False (catalogue_params c) w) = None" if "ct_type c \<noteq> []"
    using catalogue_query(2) [OF p that catalogue_type_unknown [OF t that]] by (simp add: http_workspaces_def query_error)
  ultimately show ?thesis using workspaces_no_pager by (simp add: Let_def)
qed

text \<open>The page of a workspace leads to the booking form exactly while the workspace is active.\<close>

lemma book_link_active:
  "find_workspace k w = Some x \<Longrightarrow>
   book_link (query_data (http_workspace env k w)) = (if w_isActive x then Some (''/bookings/new?workspaceId='' @ w_id x) else None)"
  "find_workspace k w = None \<Longrightarrow> book_link (query_data (http_workspace env k w)) = None"
  by (simp_all add: book_link_def http_workspace_def workspace_findById_def query_error query_None query_data_def data_answer_def api_call_Ok
    opt_get_def js_get_def show_workspace_def js_truthy_def nullish_def api_call_error)

text \<open>Switching a workspace off and on again gives the table back.\<close>

lemma save_row_id: "uniq_keys key rows \<Longrightarrow> x \<in> set rows \<Longrightarrow> save_row key x rows = rows"
  by (auto simp: save_row_def uniq_keys_def inj_on_def intro!: map_idI dest: distinct_map [THEN iffD1])

lemma patch_active_found:
  assumes "find_workspace k w = Some x"
  shows "patch_active env k b w = (data_answer ''Workspace updated successfully'' (show_workspace env (x\<lparr>w_isActive := b\<rparr>)),
    save_workspace (x\<lparr>w_isActive := b\<rparr>) w)"
proof -
  have "assign_workspace \<lparr>uw_name = None, uw_type = None, uw_totalSeats = None, uw_hourlyRate = None, uw_description = None,
      uw_amenities = None, uw_images = None, uw_isActive = Some b\<rparr> x = x\<lparr>w_isActive := b\<rparr>"
    by (cases x) (simp add: assign_workspace_def Workspaces.or_else_def)
  then show ?thesis using assms by (simp add: patch_active_def update_workspace_def workspace_findById_def Let_def)
qed

lemma toggle_twice:
  assumes "find_workspace k w = Some x" "uniq_keys w_id (workspaces w)"
  shows "workspaces (snd (patch_active env k (w_isActive x) (snd (patch_active env k b w)))) = workspaces w"
proof -
  let ?x = "x\<lparr>w_isActive := b\<rparr>"
  have x: "x \<in> set (workspaces w)" "w_id x = k" 
    using find_one_SomeD [of "\<lambda>x. w_id x = k" "workspaces w" x] assms(1) by (simp_all add: find_workspace_def find_by_def)
  have "find_workspace k (save_workspace ?x w) = Some ?x"
    using find_one_save_same [of w_id ?x "workspaces w"] x(2) by (simp add: find_workspace_def find_by_def save_workspace_def)
  then show ?thesis
    by (simp add: patch_active_found [OF assms(1)] patch_active_found) (simp add: save_workspace_def save_row_twice save_row_id assms(2) x(1))
qed

text \<open>The notifications page lists the twenty newest, of the unread ones when asked; it never offers more or to mark all.\<close>

lemma notices_query:
  assumes "sp_page p = 1"
  shows "notification_query_of_params (notices_params p) =
    Some \<lparr>fq_page = Some 1, fq_limit = Some 20, fq_isRead = (if sp_unread p then Some False else None)\<rparr>"
proof -
  have "map_of (notices_params p) ''page'' = Some ''1''" "map_of (notices_params p) ''limit'' = Some ''20''"
    using assms by (simp_all add: notices_params_def one_text)
  then have "query_count ''page'' (notices_params p) = Some (Some 1)" "query_count ''limit'' (notices_params p) = Some (Some 20)"
    by (simp_all only: page_counts)
  then show ?thesis by (auto simp: notification_query_of_params_def) (auto simp: notices_params_def)
qed

lemma notices_first_twenty:
  assumes "sp_page p = 1"
  shows "rows_of (query_data (http_notifications (notices_params p) u show s)) = map show (take 20 (newest_first no_createdAt
      (filter (\<lambda>n. no_userId n = u \<and> (sp_unread p \<longrightarrow> \<not> no_isRead n)) (notices s))))"
    "\<not> shows_pager (query_data (http_notifications (notices_params p) u show s))"
    "\<not> offers_read_all (query_data (http_notifications (notices_params p) u show s))"
proof -
  let ?q = "\<lparr>fq_page = Some 1, fq_limit = Some 20, fq_isRead = (if sp_unread p then Some False else None)\<rparr>"
  have a: "http_notifications (notices_params p) u show s = get_notifications u ?q show s"
    by (simp add: http_notifications_def notices_query [OF assms])
  have f: "(\<lambda>n. no_userId n = u \<and> (case fq_isRead ?q of Some b \<Rightarrow> no_isRead n = b | None \<Rightarrow> True)) =
      (\<lambda>n. no_userId n = u \<and> (sp_unread p \<longrightarrow> \<not> no_isRead n))" by auto
  show "rows_of (query_data (http_notifications (notices_params p) u show s)) = map show (take 20 (newest_first no_createdAt
      (filter (\<lambda>n. no_userId n = u \<and> (sp_unread p \<longrightarrow> \<not> no_isRead n)) (notices s))))"
    unfolding a get_notifications_def find_notifications_def f
    by (simp add: Let_def paginate_ok rows_of_def query_data_def api_call_Ok opt_get_def js_get_def nullish_def)
  show "\<not> shows_pager (query_data (http_notifications (notices_params p) u show s))"
  proof (cases "find_notifications u ?q s")
    case (Inl e)
    then show ?thesis by (simp add: a get_notifications_def shows_pager_def query_error query_None)
  next
    case (Inr pg)
    then have "opt_get ''meta'' (query_data (get_notifications u ?q show s)) = None"
      by (simp add: get_notifications_def query_data_def api_call_Ok opt_get_def js_get_def)
    then show ?thesis by (simp add: a shows_pager_def query_None)
  qed
  show "\<not> offers_read_all (query_data (http_notifications (notices_params p) u show s))"
    unfolding a offers_read_all_def by (rule bell_never_active)
qed

section \<open>The user table of the dashboard\<close>

definition show_user_row :: "user \<Rightarrow> json" where
  "show_user_row u =
     JObj [(''id'', JStr (u_id u)), (''firstname'', JStr (u_firstname u)), (''lastname'', JStr (u_lastname u)),
       (''email'', JStr (u_email u)), (''role'', JStr (role_string (u_role u))), (''isActive'', JBool (u_isActive u)),
       (''isSuspended'', JBool (u_isSuspended u)), (''isVerified'', JBool (u_isVerified u)),
       (''createdAt'', JStr (iso_string (u_createdAt u)))]"

text \<open>\<open>GET /dashboard/admin/users\<close>: the parameters are texts with defaults.\<close>

definition param_or :: "string \<Rightarrow> string \<Rightarrow> params \<Rightarrow> string" where
  "param_or k d ps = (case map_of ps k of None \<Rightarrow> d | Some s \<Rightarrow> s)"

definition http_admin_users :: "env \<Rightarrow> params \<Rightarrow> world \<Rightarrow> answer" where
  "http_admin_users env ps w =
     (case getUsers env (page_param (Web_Admin.parse_int (param_or ''page'' ''1'' ps)))
             (limit_param (Web_Admin.parse_int (param_or ''limit'' ''10'' ps))) (map_of ps ''search'') w of
        Inl e \<Rightarrow> error_answer e
      | Inr r \<Rightarrow>
          Ok_status (Some (JObj [(''success'', JBool True), (''data'', JArr (map show_user_row (rp_data r))),
            (''meta'', JObj [(''total'', JNum (nat_str (rp_total r))), (''page'', JNum (int_text (rp_page r))),
               (''limit'', JNum (int_text (rp_limit r))), (''totalPages'', JNum (nat_str (rp_totalPages r)))])])))"

text \<open>What the dashboard has fetched, and the table over it; the table is made anew when it is fetched again.\<close>

record dashboard_users =
  du_rows :: "json option"
  du_meta :: "json option"

record user_table =
  ub_search :: string
  ub_page :: nat
  ub_rows :: "json option"
  ub_meta :: "json option"

definition mount_table :: "dashboard_users \<Rightarrow> user_table" where
  "mount_table d =
     \<lparr>ub_search = [], ub_page = (case opt_get ''page'' (du_meta d) of Some (JNum n) \<Rightarrow> num_of n | _ \<Rightarrow> 0),
      ub_rows = du_rows d, ub_meta = du_meta d\<rparr>"

definition table_params :: "nat \<Rightarrow> string \<Rightarrow> params" where
  "table_params p search = [(''page'', nat_str p), (''limit'', ''10'')] @ (if search = [] then [] else [(''search'', search)])"

text \<open>A request that fails leaves the table as it is, and so does an answer that is null.\<close>

definition fetchPage :: "nat \<Rightarrow> answer \<Rightarrow> user_table \<Rightarrow> user_table" where
  "fetchPage p a t =
     (case api_call a of
        Inl _ \<Rightarrow> t
      | Inr JNull \<Rightarrow> t
      | Inr res \<Rightarrow> t\<lparr>ub_rows := opt_get ''data'' (Some res), ub_meta := opt_get ''meta'' (Some res), ub_page := p\<rparr>)"

text \<open>\<open>fetchData\<close> of the dashboard; \<open>rest\<close> tells whether the requests beside this one have succeeded.\<close>

definition fetch_dashboard :: "bool \<Rightarrow> answer \<Rightarrow> dashboard_users \<Rightarrow> dashboard_users" where
  "fetch_dashboard rest a d =
     (if rest then
        (case api_call a of
           Inl _ \<Rightarrow> d
         | Inr JNull \<Rightarrow> d
         | Inr res \<Rightarrow> \<lparr>du_rows = opt_get ''data'' (Some res), du_meta = opt_get ''meta'' (Some res)\<rparr>)
      else d)"

datatype table_action = Row_action member_action | Delete_user

definition action_request :: "env \<Rightarrow> update_rules \<Rightarrow> uuid \<Rightarrow> table_action \<Rightarrow> actor \<Rightarrow> world \<Rightarrow> answer \<times> world" where
  "action_request env r k act ac w =
     (case act of Row_action m \<Rightarrow> patch_user env r k (member_body m) ac w | Delete_user \<Rightarrow> delete_user k ac w)"

text \<open>A refused action is silent; after one that succeeded the dashboard is fetched again and the table made anew.\<close>

definition handleAction :: "answer \<Rightarrow> bool \<Rightarrow> answer \<Rightarrow> dashboard_users \<times> user_table \<Rightarrow> dashboard_users \<times> user_table" where
  "handleAction a rest refetched s =
     (case api_call a of
        Inl _ \<Rightarrow> s
      | Inr _ \<Rightarrow> let d = fetch_dashboard rest refetched (fst s) in (d, mount_table d))"

definition listed_users :: "user_table \<Rightarrow> json list" where
  "listed_users t = (case ub_rows t of Some (JArr vs) \<Rightarrow> vs | _ \<Rightarrow> [])"

definition next_shown :: "user_table \<Rightarrow> nat option" where
  "next_shown t =
     (case (opt_get ''page'' (ub_meta t), opt_get ''totalPages'' (ub_meta t)) of
        (Some (JNum p), Some (JNum n)) \<Rightarrow> if 1 < num_of n \<and> num_of p < num_of n then Some (num_of p + 1) else None
      | _ \<Rightarrow> None)"

definition listing :: "env \<Rightarrow> string \<Rightarrow> world \<Rightarrow> user list" where
  "listing env search w = newest_first u_createdAt
     (filter (\<lambda>u. (soft_hidden env \<longrightarrow> u_deletedAt u = None) \<and> \<not> u_isDeleted u \<and>
        (search = [] \<or> (let pat = ''%'' @ to_lower search @ ''%''
           in like pat (to_lower (u_firstname u)) \<or> like pat (to_lower (u_lastname u)) \<or> like pat (to_lower (u_email u))))) (users w))"

lemma parse_digits: "Web_Admin.parse_int (nat_str n) = Some (int n)"
proof -
  have d: "list_all is_digit (nat_str n)" by (rule digits_nat_str)
  obtain c r where c: "nat_str n = c # r" using nat_str.simps [of n] by (metis append_is_Nil_conv list.exhaust not_Cons_self2)
  then have "is_digit c" using d by simp
  then have "\<not> is_space c" "c \<noteq> CHR ''-''" "c \<noteq> CHR ''+''" using digit_no_space by (auto simp: is_digit_def)
  moreover have "takeWhile is_digit (c # r) = c # r" using d c by (metis list_all_iff takeWhile_eq_all_conv)
  ultimately show ?thesis
    using num_of_nat_str [of n] c by (simp add: Web_Admin.parse_int_def)
qed

lemma admin_users_answer:
  assumes "1 \<le> p"
  shows "http_admin_users env (table_params p search) w =
    Ok_status (Some (JObj [(''success'', JBool True), (''data'', JArr (map show_user_row (take 10 (drop ((p - 1) * 10) (listing env search w))))),
      (''meta'', JObj [(''total'', JNum (nat_str (length (listing env search w)))), (''page'', JNum (nat_str p)), (''limit'', JNum (nat_str 10)),
         (''totalPages'', JNum (nat_str (total_pages (length (listing env search w)) 10)))])]))"
proof -
  have "''10'' = nat_str 10" by code_simp
  then have ten: "Web_Admin.parse_int ''10'' = Some 10" using parse_digits [of 10] by simp
  have pages: "page_param (Some (int p)) = int p" "limit_param (Some 10) = 10"
    using assms by (simp_all add: page_param_def limit_param_def or_number_def)
  have skip: "paginate (int p) 10 xs = Inr (take 10 (drop ((p - 1) * 10) xs))" for xs :: "user list"
  proof -
    have "(int p - 1) * 10 = int ((p - 1) * 10)" using assms by (simp add: of_nat_diff)
    then have "nat ((int p - 1) * 10) = (p - 1) * 10" by (simp only: nat_int)
    moreover have "paginate (int p) 10 xs = Inr (take (nat 10) (drop (nat ((int p - 1) * 10)) xs))"
      by (rule paginate_ok) (use assms in simp_all)
    ultimately show ?thesis by simp
  qed
  have ps: "map_of (table_params p search) ''page'' = Some (nat_str p)" "map_of (table_params p search) ''limit'' = Some ''10''"
    "map_of (table_params p search) ''search'' = (if search = [] then None else Some search)"
    by (simp_all add: table_params_def)
  let ?rows = "filter (\<lambda>u. (soft_hidden env \<longrightarrow> u_deletedAt u = None) \<and> \<not> u_isDeleted u \<and>
      (search = [] \<or> (let pat = ''%'' @ to_lower search @ ''%''
         in like pat (to_lower (u_firstname u)) \<or> like pat (to_lower (u_lastname u)) \<or> like pat (to_lower (u_email u))))) (users w)"
  have "getUsers env (int p) 10 (map_of (table_params p search) ''search'') w = report u_createdAt (int p) 10 ?rows"
    unfolding getUsers_def ps by (cases search) (simp_all del: like.simps)
  moreover have "report u_createdAt (int p) 10 ?rows = Inr \<lparr>rp_data = take 10 (drop ((p - 1) * 10) (listing env search w)),
      rp_total = length ?rows, rp_page = int p, rp_limit = 10, rp_totalPages = total_pages (length ?rows) 10\<rparr>"
    by (simp only: report_def skip listing_def map_sum.simps nat_numeral)
  moreover have "length (listing env search w) = length ?rows" by (simp add: listing_def newest_first_def)
  ultimately show ?thesis
    by (simp add: http_admin_users_def param_or_def ps parse_digits ten pages int_text_def)
qed

text \<open>
  C30: the user table is complete: while the database rests, going on from its first page shows every
  user that is not deleted and matches the text exactly once, newest first, ten to a page.
\<close>

theorem user_table_complete:
  fixes env search w t
  defines "n \<equiv> total_pages (length (listing env search w)) 10"
    and "page \<equiv> (\<lambda>p. fetchPage p (http_admin_users env (table_params p search) w) t)"
  shows "concat (map (\<lambda>p. listed_users (page p)) [1..<n + 1]) = map show_user_row (listing env search w) \<and>
    (\<forall>p. 1 \<le> p \<and> p \<le> n \<longrightarrow> next_shown (page p) = (if p < n then Some (p + 1) else None))"
proof -
  have l: "listed_users (page p) = map show_user_row (take 10 (drop ((p - 1) * 10) (listing env search w)))" if "1 \<le> p" for p
    by (simp add: page_def admin_users_answer [OF that] fetchPage_def api_call_Ok listed_users_def opt_get_def js_get_def)
  have m: "next_shown (page p) = (if 1 < n \<and> p < n then Some (p + 1) else None)" if "1 \<le> p" for p
    by (simp add: page_def admin_users_answer [OF that] fetchPage_def api_call_Ok next_shown_def opt_get_def js_get_def num_of_nat_str n_def)
  have "[1..<n + 1] = map Suc [0..<n]" by (simp add: map_Suc_upt del: upt_Suc)
  then have "concat (map (\<lambda>p. listed_users (page p)) [1..<n + 1]) = concat (map (\<lambda>i. listed_users (page (Suc i))) [0..<n])"
    by (simp only: list.map_comp comp_def)
  also have "\<dots> = concat (map (\<lambda>i. map show_user_row (take 10 (drop (i * 10) (listing env search w)))) [0..<n])"
    by (simp add: l)
  also have "\<dots> = map show_user_row (concat (map (\<lambda>i. take 10 (drop (i * 10) (listing env search w))) [0..<n]))"
    by (simp add: map_concat comp_def)
  also have "\<dots> = map show_user_row (listing env search w)" by (simp add: n_def pages_partition)
  finally show ?thesis using m by auto
qed

text \<open>A user that was deleted from the table stays in it: the empty answer is taken for a failure.\<close>

lemma deleted_user_still_listed:
  "deleteUser k ac w = (Inr (), w') \<Longrightarrow> handleAction (fst (action_request env r k Delete_user ac w)) rest refetched s = s"
  by (simp add: action_request_def delete_user_def handleAction_def api_call_def)

text \<open>After an action that succeeded the table is back on the first page, without its search text.\<close>

lemma action_resets_table:
  assumes "api_call a = Inr v"
  shows "handleAction a True (http_admin_users env (table_params 1 []) w) s =
    (let d = fetch_dashboard True (http_admin_users env (table_params 1 []) w) (fst s) in (d, mount_table d))"
    "ub_search (snd (handleAction a True (http_admin_users env (table_params 1 []) w) s)) = []"
    "ub_page (snd (handleAction a True (http_admin_users env (table_params 1 []) w) s)) = 1"
  using assms admin_users_answer [of 1 env "[]" w]
  by (simp_all add: handleAction_def Let_def mount_table_def fetch_dashboard_def api_call_Ok opt_get_def js_get_def num_of_nat_str)

section \<open>The command palette\<close>

record nav_item =
  nv_label :: string
  nv_href :: string
  nv_keywords :: "string list"

definition NAV_ITEMS :: "nav_item list" where
  "NAV_ITEMS =
     map (\<lambda>(l, h, ks). \<lparr>nv_label = l, nv_href = h, nv_keywords = ks\<rparr>)
       [(''Dashboard'', ''/dashboard'', [''home'', ''overview'', ''stats'']),
        (''Workspaces'', ''/workspaces'', [''spaces'', ''office'', ''desk'', ''room'']),
        (''Bookings'', ''/bookings'', [''reserve'', ''book'', ''calendar'', ''schedule'']),
        (''Check-in'', ''/check-in'', [''checkin'', ''arrival'', ''scan'']),
        (''Invoices'', ''/invoices'', [''billing'', ''payment'', ''receipt'', ''invoice'']),
        (''Settings'', ''/settings'', [''preferences'', ''config'', ''account'']),
        (''Profile'', ''/profile'', [''me'', ''account'', ''user''])]"

fun join_words :: "string list \<Rightarrow> string" where
  "join_words [] = []"
| "join_words [x] = x"
| "join_words (x # xs) = x @ '' '' @ join_words xs"

definition haystack :: "nav_item \<Rightarrow> string" where
  "haystack item = to_lower (join_words (nv_label item # nv_keywords item))"

text \<open>\<open>indexOf\<close>, from the start and from a position.\<close>

fun index_of :: "char \<Rightarrow> string \<Rightarrow> nat option" where
  "index_of c [] = None"
| "index_of c (x # xs) = (if x = c then Some 0 else map_option Suc (index_of c xs))"

definition index_from :: "char \<Rightarrow> string \<Rightarrow> nat \<Rightarrow> nat option" where
  "index_from c s pos = map_option (\<lambda>i. pos + i) (index_of c (drop pos s))"

fun fuzzy_loop :: "string \<Rightarrow> string \<Rightarrow> nat \<Rightarrow> bool" where
  "fuzzy_loop [] s pos = True"
| "fuzzy_loop (ch # q) s pos = (case index_from ch s pos of None \<Rightarrow> False | Some i \<Rightarrow> fuzzy_loop q s (i + 1))"

definition fuzzyMatch :: "nav_item \<Rightarrow> string \<Rightarrow> bool" where
  "fuzzyMatch item query = (if query = [] then True else fuzzy_loop (to_lower query) (haystack item) 0)"

record palette =
  pl_open :: bool
  pl_query :: string
  pl_active :: nat
  pl_visited :: "string list"

definition new_palette :: palette where
  "new_palette = \<lparr>pl_open = False, pl_query = [], pl_active = 0, pl_visited = []\<rparr>"

definition results :: "palette \<Rightarrow> nav_item list" where
  "results p = filter (\<lambda>item. fuzzyMatch item (pl_query p)) NAV_ITEMS"

definition clamp_active :: "palette \<Rightarrow> palette" where
  "clamp_active p = p\<lparr>pl_active := (if results p = [] then 0 else min (pl_active p) (length (results p) - 1))\<rparr>"

definition navigate :: "nav_item \<Rightarrow> palette \<Rightarrow> palette" where
  "navigate item p = p\<lparr>pl_open := False, pl_visited := pl_visited p @ [nv_href item]\<rparr>"

definition item_at :: "nat \<Rightarrow> palette \<Rightarrow> nav_item option" where
  "item_at i p = (if i < length (results p) then Some (results p ! i) else None)"

datatype palette_event =
    Ctrl_K | Type_query string | Arrow_down | Arrow_up | Enter_key | Escape_key | Hover nat | Click_item nat | Click_backdrop

text \<open>Opening clears the query and the highlight; a pressed Enter without an item under the highlight would throw.\<close>

definition palette_event :: "palette_event \<Rightarrow> palette \<Rightarrow> palette" where
  "palette_event ev p =
     (let n = length (results p)
      in if ev = Ctrl_K
         then (if pl_open p then p\<lparr>pl_open := False\<rparr> else p\<lparr>pl_open := True, pl_query := [], pl_active := 0\<rparr>)
         else if \<not> pl_open p then p
         else (case ev of
             Type_query q \<Rightarrow> clamp_active (p\<lparr>pl_query := q, pl_active := 0\<rparr>)
           | Arrow_down \<Rightarrow> if n = 0 then p else p\<lparr>pl_active := (pl_active p + 1) mod n\<rparr>
           | Arrow_up \<Rightarrow> if n = 0 then p else p\<lparr>pl_active := nat ((int (pl_active p) - 1 + int n) mod int n)\<rparr>
           | Enter_key \<Rightarrow> (case item_at (pl_active p) p of Some item \<Rightarrow> navigate item p | None \<Rightarrow> p)
           | Escape_key \<Rightarrow> p\<lparr>pl_open := False\<rparr>
           | Hover i \<Rightarrow> if i < n then p\<lparr>pl_active := i\<rparr> else p
           | Click_item i \<Rightarrow> (case item_at i p of Some item \<Rightarrow> navigate item p | None \<Rightarrow> p)
           | Click_backdrop \<Rightarrow> p\<lparr>pl_open := False\<rparr>
           | _ \<Rightarrow> p))"

inductive palette_reaches :: "palette \<Rightarrow> bool" where
  palette_closed: "palette_reaches new_palette"
| palette_moves: "palette_reaches p \<Longrightarrow> palette_reaches (palette_event ev p)"

lemma subseq_index:
  "subseq (c # q) xs \<longleftrightarrow> (case index_of c xs of None \<Rightarrow> False | Some i \<Rightarrow> subseq q (drop (Suc i) xs))"
  by (induction xs) (auto split: option.splits simp: subseq_Cons2_iff)

lemma fuzzy_loop_subseq: "fuzzy_loop q s pos \<longleftrightarrow> subseq q (drop pos s)"
proof (induction q arbitrary: pos)
  case (Cons c q)
  show ?case unfolding subseq_index by (auto simp: index_from_def Cons.IH add.commute split: option.splits)
qed simp

lemma fuzzyMatch_subseq: "fuzzyMatch item query \<longleftrightarrow> subseq (to_lower query) (haystack item)"
  by (simp add: fuzzyMatch_def fuzzy_loop_subseq to_lower_def)

definition palette_ok :: "palette \<Rightarrow> bool" where
  "palette_ok p \<longleftrightarrow> (results p \<noteq> [] \<longrightarrow> pl_active p < length (results p))"

lemma palette_frame: "results (p\<lparr>pl_open := a\<rparr>) = results p" "results (p\<lparr>pl_active := i\<rparr>) = results p"
  "results (p\<lparr>pl_visited := vs\<rparr>) = results p"
  by (simp_all add: results_def)

lemma palette_ok_clamp: "palette_ok (clamp_active p)"
  by (auto simp: palette_ok_def clamp_active_def palette_frame min_def simp flip: length_greater_0_conv)

lemma palette_ok_moved: "palette_ok p \<Longrightarrow> palette_ok (p\<lparr>pl_open := a\<rparr>)" "palette_ok (p\<lparr>pl_open := a, pl_query := q, pl_active := 0\<rparr>)"
  "palette_ok p \<Longrightarrow> palette_ok (navigate item p)" "i < length (results p) \<Longrightarrow> palette_ok (p\<lparr>pl_active := i\<rparr>)"
  by (auto simp: palette_ok_def palette_frame navigate_def)

lemma palette_ok_event:
  assumes "palette_ok p"
  shows "palette_ok (palette_event ev p)"
proof -
  have "nat ((int (pl_active p) - 1 + int (length (results p))) mod int (length (results p))) < length (results p)" if "results p \<noteq> []"
    using that by (simp add: nat_less_iff)
  with assms show ?thesis
    by (cases ev) (auto simp: palette_event_def Let_def palette_ok_clamp palette_ok_moved split: option.splits)
qed

text \<open>
  Enter in the open palette goes to the highlighted of the items found, which holds the letters of
  the query in their order; with no item found it does nothing.
\<close>

theorem palette_opens_match:
  assumes "palette_reaches p" "pl_open p"
  shows "(results p = [] \<longrightarrow> palette_event Enter_key p = p) \<and>
    (results p \<noteq> [] \<longrightarrow> (\<exists>item\<in>set NAV_ITEMS. subseq (to_lower (pl_query p)) (haystack item) \<and>
       palette_event Enter_key p = p\<lparr>pl_open := False, pl_visited := pl_visited p @ [nv_href item]\<rparr>)) \<and>
    (\<forall>item\<in>set NAV_ITEMS. subseq (to_lower (pl_query p)) (haystack item) \<longleftrightarrow> item \<in> set (results p))"
proof -
  from assms(1) have ok: "palette_ok p"
  proof induction
    case palette_closed
    show ?case by code_simp
  qed (rule palette_ok_event)
  have r: "item \<in> set (results p) \<longleftrightarrow> item \<in> set NAV_ITEMS \<and> subseq (to_lower (pl_query p)) (haystack item)" for item
    by (auto simp: results_def fuzzyMatch_subseq)
  show ?thesis
  proof (cases "results p = []")
    case True
    then show ?thesis using assms(2) r by (auto simp: palette_event_def item_at_def)
  next
    case False
    with ok have i: "pl_active p < length (results p)" by (simp add: palette_ok_def)
    then have "results p ! pl_active p \<in> set (results p)" by simp
    with i assms(2) r False show ?thesis by (auto simp: palette_event_def item_at_def navigate_def)
  qed
qed

section \<open>The timeline of a booking\<close>

definition STAGES :: "string list" where
  "STAGES = [''Created'', ''Payment Received'', ''Confirmed'', ''Checked In'', ''Completed'']"

text \<open>Each stage with whether it is shown as done and as the current one.\<close>

definition timeline :: "string \<Rightarrow> (string \<times> bool \<times> bool) list" where
  "timeline current =
     (let stages = (if current = ''Cancelled'' then takeWhile (\<lambda>s. s \<noteq> ''Completed'') STAGES @ [''Cancelled''] else STAGES);
          here = length (takeWhile (\<lambda>s. s \<noteq> current) stages);
          idx = (if here < length stages then int here else - 1)
      in map (\<lambda>(i, s). (s, int i < idx, int i = idx)) (zip [0..<length stages] stages))"

text \<open>A cancelled booking is shown as paid, confirmed and checked in, whatever became of it.\<close>

lemma cancelled_timeline:
  "map (\<lambda>(s, d, _). (s, d)) (timeline ''Cancelled'') =
    [(''Created'', True), (''Payment Received'', True), (''Confirmed'', True), (''Checked In'', True), (''Cancelled'', False)]"
  by code_simp

section \<open>The analytics page\<close>

record analytics_page =
  na_from :: string
  na_to :: string
  na_appliedFrom :: "string option"
  na_appliedTo :: "string option"

definition applyFilter :: "analytics_page \<Rightarrow> analytics_page" where
  "applyFilter p =
     p\<lparr>na_appliedFrom := (if na_from p = [] then None else Some (na_from p)), na_appliedTo := (if na_to p = [] then None else Some (na_to p))\<rparr>"

definition clearFilter :: "analytics_page \<Rightarrow> analytics_page" where
  "clearFilter p = p\<lparr>na_from := [], na_to := [], na_appliedFrom := None, na_appliedTo := None\<rparr>"

definition analytics_params :: "analytics_page \<Rightarrow> params" where
  "analytics_params p =
     (case na_appliedFrom p of Some s \<Rightarrow> if s = [] then [] else [(''from'', s)] | None \<Rightarrow> []) @
     (case na_appliedTo p of Some s \<Rightarrow> if s = [] then [] else [(''to'', s)] | None \<Rightarrow> [])"

definition http_analytics :: "env \<Rightarrow> (admin_dashboard \<Rightarrow> json) \<Rightarrow> params \<Rightarrow> world \<Rightarrow> answer" where
  "http_analytics env show ps w =
     (case getFullAdminDashboard env (map_of ps ''from'') (map_of ps ''to'') w of
        Inl e \<Rightarrow> error_answer e
      | Inr d \<Rightarrow> Ok_status (Some (JObj [(''success'', JBool True), (''data'', show d)])))"

text \<open>The four booking cards over \<open>byStatus\<close>: the total, pending, confirmed and completed.\<close>

definition booking_cards :: "(string \<times> nat) list \<Rightarrow> nat \<times> nat \<times> nat \<times> nat" where
  "booking_cards byStatus =
     (let card = (\<lambda>k. case map_of byStatus k of Some n \<Rightarrow> n | None \<Rightarrow> 0)
      in (sum_list (map snd byStatus), card ''PENDING'', card ''CONFIRMED'', card ''COMPLETED''))"

definition shows_analytics :: "json option \<Rightarrow> bool" where
  "shows_analytics q \<longleftrightarrow> js_truthy (opt_get ''data'' q)"

text \<open>The page never has anything to show, and would show no booking under a status.\<close>

lemma analytics_page_empty: "\<not> shows_analytics (query_data (http_analytics env show ps w))"
proof -
  obtain e where "getFullAdminDashboard env (map_of ps ''from'') (map_of ps ''to'') w = Inl e" using analytics_always_fails by blast
  then show ?thesis by (simp add: http_analytics_def shows_analytics_def query_error query_None js_truthy_def)
qed

lemma booking_cards_zero:
  assumes "fst ` set byStatus \<subseteq> range booking_status_string"
  shows "booking_cards byStatus = (sum_list (map snd byStatus), 0, 0, 0)"
proof -
  have "map_of byStatus k = None" if "k \<in> {''PENDING'', ''CONFIRMED'', ''COMPLETED''}" for k
  proof -
    have "k \<notin> range booking_status_string" using that lower_status by (auto dest: sym)
    then show ?thesis using assms by (auto simp: map_of_eq_None_iff)
  qed
  then show ?thesis by (simp add: booking_cards_def)
qed

section \<open>Concrete sessions\<close>

theorem catalogue_shows_newest_witness:
  "\<exists>c. visits sample_env (c, sample_world) \<and> ct_search c = ''lo'' \<and>
     rows_of (query_data (http_workspaces sample_env False (catalogue_params c) sample_world)) = [show_workspace sample_env sample_workspace]"
proof -
  let ?c = "new_catalogue\<lparr>ct_search := ''lo'', ct_page := 1\<rparr>"
  have v: "visits sample_env (?c, sample_world)"
    using visit_event [OF visit_opens, of sample_env sample_world "Search_text ''lo''"] by (simp add: catalogue_event_def)
  have "take 9 (newest_first w_createdAt (filter (\<lambda>x. w_isActive x \<and> (ct_search ?c = [] \<or> matches_search (ct_search ?c) x))
      (workspaces sample_world))) = [sample_workspace]" by code_simp
  moreover have "ct_type ?c = []" "ct_search ?c = ''lo''" by (simp_all add: new_catalogue_def)
  ultimately show ?thesis using v catalogue_shows_newest [OF v] by (auto simp: Let_def)
qed

theorem user_table_complete_witness:
  "total_pages (length (listing sample_env [] sample_world)) 10 = 1 \<and>
   next_shown (fetchPage 1 (http_admin_users sample_env (table_params 1 []) sample_world) (mount_table \<lparr>du_rows = None, du_meta = None\<rparr>)) = None"
proof -
  have n: "total_pages (length (listing sample_env [] sample_world)) 10 = 1" by code_simp
  then show ?thesis
    using user_table_complete [of sample_env "[]" sample_world "mount_table \<lparr>du_rows = None, du_meta = None\<rparr>"] by simp
qed

definition palette_typed :: palette where
  "palette_typed = palette_event (Type_query ''bk'') (palette_event Ctrl_K new_palette)"

theorem palette_opens_match_witness:
  "palette_reaches palette_typed \<and> pl_open palette_typed \<and>
   palette_event Enter_key palette_typed = palette_typed\<lparr>pl_open := False, pl_visited := pl_visited palette_typed @ [''/bookings'']\<rparr>"
proof -
  have r: "palette_reaches palette_typed"
    unfolding palette_typed_def by (intro palette_moves palette_closed)
  have o: "pl_open palette_typed" "map nv_href (results palette_typed) = [''/bookings'']" by code_simp+
  then have ne: "results palette_typed \<noteq> []" by auto
  from palette_opens_match [OF r o(1)] ne obtain item where i: "item \<in> set (results palette_typed)"
    "palette_event Enter_key palette_typed = palette_typed\<lparr>pl_open := False, pl_visited := pl_visited palette_typed @ [nv_href item]\<rparr>"
    by blast
  have "nv_href item \<in> set (map nv_href (results palette_typed))" using i(1) by simp
  then have "nv_href item = ''/bookings''" by (simp add: o(2))
  with r o(1) i(2) show ?thesis by simp
qed

end
