(* ===== verification/Spec2Isabelle.thy ===== *)
theory Spec2Isabelle
  imports Payment_Races Tracking Notices Progress Services Accounts Web_Browse
begin

text \<open>
  A verification development for NovaLabs, a co-working platform: a NestJS backend over PostgreSQL
  (\<open>src/backend/src\<close>) and a Next.js frontend (\<open>src/frontend\<close>).

  \<^bold>\<open>The program.\<close> Members book seats of workspaces by the day and pay through Paystack. A booking is
  pending until Paystack's webhook reports its charge; the webhook confirms it, issues the invoice,
  notifies the payer and records an escrow on Soroban. An hourly job expires bookings whose payment
  deadline has passed and fails their open payments. Accounts register, verify their address, log in by
  password, second factor, SAML or passkey, and hold JWT access tokens and rotating refresh tokens; a
  chain of guards (JWT, CSRF, roles, tenants) stands before every handler. Around that: check-ins and
  occupancy, a newsletter with double opt-in, an audit trail, notifications over sockets, reports, and
  the browser's session.

  \<^bold>\<open>Theories and code.\<close>
  NL_Prelude: results, tables and their operations, the theorem collections \<open>table_simps\<close> and
  \<open>frame_simps\<close>. NL_Strings, NL_Dates, NL_Float: JavaScript strings, \<open>Date\<close>, and doubles as exact
  mantissa and exponent. NL_Domain: the entities (\<open>*/entities/*.entity.ts\<close>), the \<open>world\<close> (one row
  list per table, and the list of external effects), the environment \<open>env\<close>. NL_Sample: a concrete
  environment and database for the witnesses.
  Pricing: \<open>bookings/pricing/pricing.service.ts\<close>. Expiry_Policy: \<open>booking-expiry.policy.ts\<close>.
  Workspaces: \<open>workspaces/providers\<close>. Bookings: \<open>bookings/providers\<close>. Booking_Expiry: the sweep,
  \<open>booking-expiry.service.ts\<close>. Invoices: \<open>invoices/providers\<close>. Payments: \<open>payments/providers\<close>.
  Soroban: \<open>soroban-escrow.provider.ts\<close>. Requests: the step relation of all booking and payment
  requests. Guarantees, Payment_Races, Progress: what holds of a delivery, of a refund, of interleaved
  requests, and of infinite runs.
  Auth_Tokens, Auth, Two_Factor: \<open>auth/helper\<close>, \<open>auth/auth.service.ts\<close>, \<open>auth/providers\<close>.
  Sign_On: \<open>auth/sso\<close>, \<open>auth/passkey\<close>. Users: \<open>users/providers\<close>. Access, Routes: the middlewares,
  guards, CORS and cookies, and the routes the controllers declare. Audit_Trail: \<open>audit-log\<close>. Tracking:
  \<open>workspace-tracking\<close>. Newsletter: \<open>newsletter\<close>. Notices: \<open>notifications\<close>. Dashboard: \<open>dashboard\<close>.
  Mail_Queue: \<open>email\<close>, \<open>contact\<close>, the sanitizing transformer and the rate limits' buckets and keys
  (\<open>app.throttlers.ts\<close>, \<open>composite-rate-limit.guard.ts\<close>).
  Web_Client: \<open>frontend/lib\<close>, \<open>components/RoleGate.tsx\<close> and the pages that open a session. Web_Pages: the
  booking form, the bookings and check-in pages and the notification bell, with the validation and the
  answers of the requests they make. Web_Admin: the administrators' bookings, invoices, members and
  workspace form, and the profile form. Web_Auth: the recovery wizard, the verification and second-factor
  pages, the login and registration pages, the settings and the contact form, with the handlers of
  \<open>auth.controller.ts\<close> they call. Web_Widgets: the booking wizard with its calendar and seat map and the
  data table (\<open>app/sandbox/components\<close>), the page links, the administrators' payments page.
  Web_Browse: the catalogue, the administrators' workspaces and analytics pages, the notifications page, the
  dashboard's user table, the command palette and the booking timeline, with the controllers they call.
  Accounts: the look-ups of \<open>users/providers\<close>, \<open>createUser.provider.ts\<close>, the pictures
  (\<open>cloudinary.service.ts\<close>, \<open>uploadProfilePicture.provider.ts\<close>) and the SAML callback (\<open>saml.strategy.ts\<close>).
  Services: \<open>config/secrets\<close>, \<open>metrics/metrics.service.ts\<close>, \<open>fake-soroban-rpc.client.ts\<close>.

  \<^bold>\<open>How code is translated.\<close> A table is a list of rows; \<open>findOne\<close> is the first row in storage order,
  \<open>save\<close> replaces the row of the same key or appends one, unique indexes refuse an insert. A handler is
  a function from the state to a result and a state, with \<open>Inl\<close> for every exception thrown; what was
  written before a failure outside a transaction stays written. Error texts are abbreviated. External
  calls (mails, Paystack, the notification and audit services) append to \<open>fx\<close> in their order. Handlers
  that read and write in separate statements are also given statement by statement (\<open>refund_check\<close> and
  \<open>refund_commit\<close>, \<open>refresh_check\<close>, \<open>markTokenConsumed\<close> and \<open>refresh_insert\<close>, \<open>check_in_guard\<close> and
  \<open>check_in_insert\<close>), and the invariants about them hold for every interleaving of these steps.
  Identifiers are taken to be well-formed UUIDs and timestamps without a zone to be UTC.

  \<^bold>\<open>Parameters.\<close> Code outside the repository is an argument: in \<open>env\<close> the clock, fresh UUIDs,
  configuration, the date parsers of JavaScript and PostgreSQL, JSON, TypeORM's conventions for
  \<open>null\<close>, \<open>undefined\<close>, soft-deleted rows and bigint columns, Paystack's API, hashes and bcrypt; in
  \<open>auth_env\<close> JWT signing, random numbers, TOTP, the breach service and the mail queue; in \<open>gate_env\<close> passport's
  header parsing and JWT verification; in \<open>saml_env\<close> and \<open>webauthn\<close> the SAML and passkey libraries; the
  Stellar SDK in Soroban. What a theorem needs of them is a named hypothesis, and its witness gives a function that has it.

  \<^bold>\<open>Bounds.\<close> Only the settlement wait of the escrow client can run long: \<open>wait_loop\<close> ends by a measure
  on the time left (thirty seconds, at least one second per round), so no fuel is needed and at most 31
  requests are made. Every other loop is structural recursion over rows, characters or digits. Amounts
  are integers of kobo; where the code computes in doubles the model rounds to 53 bits.

  \<^bold>\<open>Results.\<close> Bookings: no workspace is overbooked, bookings and payments move only along their life
  cycles, every payment charges its booking's price, invoices exist only for paid payments and at most one each, expired
  bookings have no open payment, no booking pends forever while the job runs, the sweep equals one pass
  over the tables, prices are the exact discounted amounts. Payments: a charge takes effect at most
  once, forged or late deliveries change nothing, a payment is refunded at most once under races.
  Sessions: one live token per family under races, rotation and reuse detection, codes are used once,
  login and update are authorised, a request reaches a handler only past its guards, and what the
  browser's store sends after a login is authenticated. Components around them: the newsletter refines
  a machine of four states, check-ins a board of present members, notifications an inbox per user; the
  audit log redacts bodies, the mail queue loses no mail and drains. The pages are
  composed with the backend they call, which shows what a page can and cannot achieve: a forgotten
  password is recovered from the mailbox to the table. The wizard confirms only what it was offered; the
  secrets providers keep one contract, and their caches live as long as stated. A new picture replaces the
  old one here and at Cloudinary; the user table lists every user once, the catalogue only the newest. Some theorems state where the code does not do what its comments say.

  \<^bold>\<open>Interfaces.\<close> Six locales: \<open>repository\<close> and its extension \<open>cas_repository\<close> (NL_Prelude) for
  tables with saves and conditional updates, \<open>seat_accounting\<close> (Workspaces) for who holds seats,
  \<open>inbox_store\<close> (Notices) for a user's notifications, \<open>secrets_provider\<close> and, for those over a
  download, \<open>remote_secrets\<close> (Services); each is interpreted on the model's operations in
  the theory of the component that provides them.

  \<^bold>\<open>Not modelled.\<close> Layout, styling and static pages of the frontend; Handlebars, Bull's scheduling and
  SMTP; the throttler library's counting; PDF rendering; Cloudinary's own service; prom-client's
  counting and the wiring of configuration; the charts and the remaining demos of the frontend; database migrations beyond the constraints of the entities; the Rust contracts,
  which the backend reaches through the escrow client only.
\<close>

end
